(* ===== verification/Prelude.thy ===== *)
theory Prelude
  imports Complex_Main "HOL-Library.AList" "HOL-Library.Multiset" "HOL-Library.Char_ord" "HOL-Library.List_Lexorder"
    "HOL-Library.Product_Lexorder"
begin

text \<open>
  What every theory of the development shares: exceptions as values, sequencing of computations
  that may raise, Python's insertion-ordered dictionaries as association lists, stable sorting,
  and the named collections of rewrite rules the component theories use.

  A Python exception is a value of \<open>exn\<close>; a computation that may raise has type
  \<open>'a result\<close>, with \<open>Inl\<close> for the exception and \<open>Inr\<close> for the returned value.
\<close>

named_theorems dict_simps "lookup, insertion and deletion in dictionaries"
named_theorems result_simps "sequencing of computations that may raise"

subsection \<open>Exceptions and results\<close>

datatype exn =
    ValueError string
  | KeyError string
  | TypeError string
  | RuntimeError string
  | PermissionError string
  | OverflowError string
  | AttributeError string
  | IndexError string
  | ExternalError string

type_synonym 'a result = "exn + 'a"

text \<open>\<open>str(exc)\<close>: the message of the exception.\<close>

fun exn_message :: "exn \<Rightarrow> string" where
  "exn_message (ValueError m) = m"
| "exn_message (KeyError m) = m"
| "exn_message (TypeError m) = m"
| "exn_message (RuntimeError m) = m"
| "exn_message (PermissionError m) = m"
| "exn_message (OverflowError m) = m"
| "exn_message (AttributeError m) = m"
| "exn_message (IndexError m) = m"
| "exn_message (ExternalError m) = m"

definition rbind :: "'a result \<Rightarrow> ('a \<Rightarrow> 'b result) \<Rightarrow> 'b result" where
  "rbind r f = (case r of Inl e \<Rightarrow> Inl e | Inr x \<Rightarrow> f x)"

lemma rbind_Inl [simp, result_simps]: "rbind (Inl e) f = Inl e"
  by (simp add: rbind_def)

lemma rbind_Inr [simp, result_simps]: "rbind (Inr x) f = f x"
  by (simp add: rbind_def)

lemma rbind_eq_Inr: "rbind r f = Inr y \<longleftrightarrow> (\<exists>x. r = Inr x \<and> f x = Inr y)"
  by (cases r) auto

lemma rbind_eq_Inl: "rbind r f = Inl e \<longleftrightarrow> r = Inl e \<or> (\<exists>x. r = Inr x \<and> f x = Inl e)"
  by (cases r) auto

text \<open>A list of computations run in order, stopping at the first exception.\<close>

fun rmap :: "('a \<Rightarrow> 'b result) \<Rightarrow> 'a list \<Rightarrow> 'b list result" where
  "rmap f [] = Inr []"
| "rmap f (x # xs) = rbind (f x) (\<lambda>y. rbind (rmap f xs) (\<lambda>ys. Inr (y # ys)))"

lemma rmap_Inr_iff: "rmap f xs = Inr ys \<longleftrightarrow> list_all2 (\<lambda>x y. f x = Inr y) xs ys"
proof (induction xs arbitrary: ys)
  case Nil
  then show ?case by (auto simp: eq_commute)
next
  case (Cons x xs)
  then show ?case by (cases ys) (auto simp: rbind_eq_Inr)
qed

subsection \<open>Dictionaries\<close>

text \<open>
  A Python \<open>dict\<close> keeps the order in which its keys were first inserted. It is an association
  list with distinct keys: \<open>d[k] = v\<close> keeps the position of a present key and appends a new
  one (\<open>AList.update\<close>), \<open>del d[k]\<close> and \<open>d.pop(k, None)\<close> are \<open>AList.delete\<close>.
\<close>

definition keys :: "('k \<times> 'v) list \<Rightarrow> 'k list" where
  "keys d = map fst d"

definition vals :: "('k \<times> 'v) list \<Rightarrow> 'v list" where
  "vals d = map snd d"

definition has_key :: "('k \<times> 'v) list \<Rightarrow> 'k \<Rightarrow> bool" where
  "has_key d k = (map_of d k \<noteq> None)"

abbreviation dset :: "'k \<Rightarrow> 'v \<Rightarrow> ('k \<times> 'v) list \<Rightarrow> ('k \<times> 'v) list" where
  "dset \<equiv> AList.update"

abbreviation ddel :: "'k \<Rightarrow> ('k \<times> 'v) list \<Rightarrow> ('k \<times> 'v) list" where
  "ddel \<equiv> AList.delete"

definition wf_dict :: "('k \<times> 'v) list \<Rightarrow> bool" where
  "wf_dict d = distinct (map fst d)"

lemma map_of_dset [simp, dict_simps]: "map_of (dset k v d) = (map_of d)(k \<mapsto> v)"
  by (rule update_conv')

lemma map_of_ddel [simp, dict_simps]: "map_of (ddel k d) = (map_of d)(k := None)"
  by (rule delete_conv')

lemma wf_dict_Nil [simp, intro]: "wf_dict []"
  by (simp add: wf_dict_def)

lemma wf_dict_dset [simp, intro]: "wf_dict d \<Longrightarrow> wf_dict (dset k v d)"
  by (simp add: wf_dict_def distinct_update)

lemma wf_dict_ddel [simp, intro]: "wf_dict d \<Longrightarrow> wf_dict (ddel k d)"
  by (simp add: wf_dict_def distinct_delete)

lemma wf_dict_filter [simp, intro]: "wf_dict d \<Longrightarrow> wf_dict (filter P d)"
  by (simp add: wf_dict_def distinct_map_filter)

lemma has_key_iff: "has_key d k \<longleftrightarrow> k \<in> fst ` set d"
  by (simp add: has_key_def map_of_eq_None_iff)

lemma has_key_dset [simp, dict_simps]: "has_key (dset k v d) k' \<longleftrightarrow> k' = k \<or> has_key d k'"
  by (simp add: has_key_def)

lemma has_key_ddel [simp, dict_simps]: "has_key (ddel k d) k' \<longleftrightarrow> k' \<noteq> k \<and> has_key d k'"
  by (simp add: has_key_def)

lemma wf_dict_mem: "wf_dict d \<Longrightarrow> (k, v) \<in> set d \<longleftrightarrow> map_of d k = Some v"
  by (auto simp: wf_dict_def map_of_is_SomeI dest: map_of_SomeD)

lemma set_dset: "wf_dict d \<Longrightarrow> set (dset k v d) = {(k, v)} \<union> {p \<in> set d. fst p \<noteq> k}"
proof -
  assume wf: "wf_dict d"
  have wf': "wf_dict (dset k v d)" using wf by simp
  show ?thesis
    using wf_dict_mem [OF wf] wf_dict_mem [OF wf'] by (auto split: if_splits)
qed

lemma set_ddel: "set (ddel k d) = {p \<in> set d. fst p \<noteq> k}"
  by (auto simp: AList.delete_eq)

lemma dset_absent: "\<not> has_key d k \<Longrightarrow> dset k v d = d @ [(k, v)]"
  by (auto simp: has_key_iff intro: update_nonempty) (induction d, auto)

lemma map_fst_dset_present: "has_key d k \<Longrightarrow> map fst (dset k v d) = map fst d"
  by (simp add: has_key_iff update_keys)

lemma length_dset: "length (dset k v d) = (if has_key d k then length d else Suc (length d))"
  by (induction d) (auto simp: has_key_iff)

lemma map_of_map_snd: "map_of (map (\<lambda>(k, v). (k, f v)) d) k = map_option f (map_of d k)"
  by (induction d) auto

text \<open>A table filtered by value keeps exactly the entries whose value passes.\<close>

lemma map_of_filter_val:
  "wf_dict d \<Longrightarrow> map_of (filter (\<lambda>(k, v). P v) d) k =
     (case map_of d k of None \<Rightarrow> None | Some v \<Rightarrow> if P v then Some v else None)"
  by (induction d) (auto simp: wf_dict_def map_of_eq_None_iff split: option.splits)

subsection \<open>Stable sorting\<close>

text \<open>
  \<open>list.sort(key=f)\<close> is stable, as \<open>sort_key\<close> is. With \<open>reverse=True\<close> Python keeps the
  original order of equal elements too, so it is not the reversed result.
\<close>

definition sort_key_desc :: "('a \<Rightarrow> 'b::linorder) \<Rightarrow> 'a list \<Rightarrow> 'a list" where
  "sort_key_desc f xs = rev (sort_key f (rev xs))"

lemma set_sort_key_desc [simp]: "set (sort_key_desc f xs) = set xs"
  by (simp add: sort_key_desc_def)

lemma mset_sort_key_desc [simp]: "mset (sort_key_desc f xs) = mset xs"
  by (simp add: sort_key_desc_def)

lemma length_sort_key_desc [simp]: "length (sort_key_desc f xs) = length xs"
  by (simp add: sort_key_desc_def)

lemma sort_key_desc_Nil_iff [simp]: "sort_key_desc f xs = [] \<longleftrightarrow> xs = []"
  by (metis length_0_conv length_sort_key_desc)

lemma sorted_sort_key_desc: "sorted_wrt (\<lambda>x y. f y \<le> f x) (sort_key_desc f xs)"
proof -
  have "sorted (map f (sort_key f (rev xs)))" by (rule sorted_sort_key)
  then show ?thesis
    by (simp add: sort_key_desc_def sorted_wrt_rev sorted_map)
qed

lemma hd_sort_key_desc_max:
  assumes "x \<in> set xs"
  shows "f x \<le> f (hd (sort_key_desc f xs))"
proof (cases "sort_key_desc f xs")
  case Nil
  with assms show ?thesis by simp
next
  case (Cons y ys)
  from assms have "x \<in> set (sort_key_desc f xs)" by simp
  with Cons have "x = y \<or> x \<in> set ys" by auto
  moreover have "\<forall>z \<in> set ys. f z \<le> f y"
    using sorted_sort_key_desc [of f xs] Cons by simp
  ultimately show ?thesis using Cons by auto
qed

text \<open>\<open>sorted(xs)[0]\<close> is the least element.\<close>

lemma hd_sort_least:
  fixes xs :: "'a::linorder list"
  assumes "x \<in> set xs"
  shows "hd (sort xs) \<le> x" and "hd (sort xs) \<in> set xs"
proof -
  have "sort xs \<noteq> []" using assms by (metis empty_iff set_empty set_sort)
  then obtain a as where s: "sort xs = a # as" by (cases "sort xs") auto
  then have "sorted (a # as)" by (metis sorted_sort)
  moreover have "set (a # as) = set xs" by (metis s set_sort)
  ultimately show "hd (sort xs) \<le> x" "hd (sort xs) \<in> set xs" using assms s by auto
qed

subsection \<open>Duplicates\<close>

text \<open>\<open>if x not in xs: xs.append(x)\<close> over a list: first occurrences, in order.\<close>

fun dedup_onto :: "'a list \<Rightarrow> 'a list \<Rightarrow> 'a list" where
  "dedup_onto acc [] = acc"
| "dedup_onto acc (x # xs) = dedup_onto (if x \<in> set acc then acc else acc @ [x]) xs"

lemma set_dedup_onto [simp]: "set (dedup_onto acc xs) = set acc \<union> set xs"
  by (induction acc xs rule: dedup_onto.induct) auto

lemma distinct_dedup_onto [intro]: "distinct acc \<Longrightarrow> distinct (dedup_onto acc xs)"
  by (induction acc xs rule: dedup_onto.induct) auto

lemma dedup_onto_id: "distinct (acc @ xs) \<Longrightarrow> dedup_onto acc xs = acc @ xs"
  by (induction acc xs rule: dedup_onto.induct) auto

subsection \<open>Runs of a machine\<close>

text \<open>
  A component is a step function on its state. The contract \<open>machine\<close> says that every step
  keeps an invariant; then every run does.
\<close>

fun run :: "('s \<Rightarrow> 'c \<Rightarrow> 's) \<Rightarrow> 's \<Rightarrow> 'c list \<Rightarrow> 's" where
  "run f s [] = s"
| "run f s (c # cs) = run f (f s c) cs"

lemma run_append: "run f s (cs @ ds) = run f (run f s cs) ds"
  by (induction cs arbitrary: s) auto

locale machine =
  fixes step :: "'s \<Rightarrow> 'c \<Rightarrow> 's"
    and inv :: "'s \<Rightarrow> bool"
  assumes step_inv: "inv s \<Longrightarrow> inv (step s c)"
begin

lemma run_inv: "inv s \<Longrightarrow> inv (run step s cs)"
  by (induction cs arbitrary: s) (auto intro: step_inv)

lemma run_inv_prefix: "inv s \<Longrightarrow> inv (run step s (take n cs))"
  by (rule run_inv)

end

text \<open>A machine with a quantity that no step decreases.\<close>

locale monotone_machine =
  fixes step :: "'s \<Rightarrow> 'c \<Rightarrow> 's"
    and le :: "'s \<Rightarrow> 's \<Rightarrow> bool"
  assumes le_refl: "le s s"
    and le_trans: "le s t \<Longrightarrow> le t u \<Longrightarrow> le s u"
    and step_le: "le s (step s c)"
begin

lemma run_le: "le s (run step s cs)"
proof (induction cs arbitrary: s)
  case Nil
  show ?case by (simp add: le_refl)
next
  case (Cons c cs)
  have "le (step s c) (run step (step s c) cs)" by (rule Cons.IH)
  then show ?case by (auto intro: le_trans step_le)
qed

end

end
