(* ===== verification/PyText.thy ===== *)
theory PyText
  imports Prelude
begin

text \<open>
  Python's text operations, as far as the services use them. A \<open>str\<close> is a list of characters
  with code points U+0000 to U+00FF (\<open>char\<close>): \<open>strip\<close>, \<open>lower\<close> and the decimal
  conversions agree with Python on these code points, \<open>upper\<close> on the ones whose upper case
  is again a single code point below U+0100.
\<close>

subsection \<open>Character classes\<close>

definition is_space :: "char \<Rightarrow> bool" where
  "is_space c = (let n = (of_char c :: nat)
     in (9 \<le> n \<and> n \<le> 13) \<or> (28 \<le> n \<and> n \<le> 32) \<or> n = 133 \<or> n = 160)"

definition is_digit :: "char \<Rightarrow> bool" where
  "is_digit c = (let n = (of_char c :: nat) in 48 \<le> n \<and> n \<le> 57)"

definition is_alpha :: "char \<Rightarrow> bool" where
  "is_alpha c = (let n = (of_char c :: nat) in (65 \<le> n \<and> n \<le> 90) \<or> (97 \<le> n \<and> n \<le> 122))"

definition is_alnum :: "char \<Rightarrow> bool" where
  "is_alnum c = (is_alpha c \<or> is_digit c)"

definition lower_char :: "char \<Rightarrow> char" where
  "lower_char c = (let n = (of_char c :: nat)
     in if (65 \<le> n \<and> n \<le> 90) \<or> (192 \<le> n \<and> n \<le> 222 \<and> n \<noteq> 215) then char_of (n + 32) else c)"

definition upper_char :: "char \<Rightarrow> char" where
  "upper_char c = (let n = (of_char c :: nat)
     in if (97 \<le> n \<and> n \<le> 122) \<or> (224 \<le> n \<and> n \<le> 254 \<and> n \<noteq> 247) then char_of (n - 32) else c)"

subsection \<open>Methods of str\<close>

definition lstrip :: "string \<Rightarrow> string" where
  "lstrip s = dropWhile is_space s"

definition rstrip :: "string \<Rightarrow> string" where
  "rstrip s = rev (dropWhile is_space (rev s))"

definition strip :: "string \<Rightarrow> string" where
  "strip s = rstrip (lstrip s)"

definition lower :: "string \<Rightarrow> string" where
  "lower s = map lower_char s"

definition upper :: "string \<Rightarrow> string" where
  "upper s = map upper_char s"

definition starts_with :: "string \<Rightarrow> string \<Rightarrow> bool" where
  "starts_with s p = (take (length p) s = p)"

definition ends_with :: "string \<Rightarrow> string \<Rightarrow> bool" where
  "ends_with s p = (length p \<le> length s \<and> drop (length s - length p) s = p)"

lemma starts_with_simps [simp]:
  "starts_with s []" "\<not> starts_with [] (d # p)"
  "starts_with (c # s) (d # p) \<longleftrightarrow> c = d \<and> starts_with s p"
  by (auto simp: starts_with_def)

lemma starts_with_iff: "starts_with s p \<longleftrightarrow> (\<exists>t. s = p @ t)"
  by (auto simp: starts_with_def) (metis append_take_drop_id)

lemma ends_with_iff: "ends_with s p \<longleftrightarrow> (\<exists>t. s = t @ p)"
  by (auto simp: ends_with_def) (metis append_take_drop_id)

lemma ends_with_rev: "ends_with s p \<longleftrightarrow> starts_with (rev s) (rev p)"
  unfolding ends_with_iff starts_with_iff by (metis rev_append rev_rev_ident)

definition replace_char :: "char \<Rightarrow> string \<Rightarrow> string \<Rightarrow> string" where
  "replace_char c r s = concat (map (\<lambda>x. if x = c then r else [x]) s)"

text \<open>\<open>sub in s\<close>.\<close>

fun contains :: "string \<Rightarrow> string \<Rightarrow> bool" where
  "contains [] p = (p = [])"
| "contains (c # s) p = (starts_with (c # s) p \<or> contains s p)"

text \<open>\<open>s.split(c)\<close>: at every occurrence, empty pieces kept.\<close>

fun split_char :: "char \<Rightarrow> string \<Rightarrow> string list" where
  "split_char c [] = [[]]"
| "split_char c (x # xs) =
     (if x = c then [] # split_char c xs
      else case split_char c xs of [] \<Rightarrow> [[x]] | p # ps \<Rightarrow> (x # p) # ps)"

text \<open>\<open>s.split(c, 1)\<close> of a string that has \<open>c\<close>: the parts before and after the first one.\<close>

definition split_first :: "char \<Rightarrow> string \<Rightarrow> string \<times> string" where
  "split_first c s = (takeWhile (\<lambda>x. x \<noteq> c) s, drop 1 (dropWhile (\<lambda>x. x \<noteq> c) s))"

text \<open>\<open>sep.join(parts)\<close>.\<close>

fun join_with :: "string \<Rightarrow> string list \<Rightarrow> string" where
  "join_with sep [] = []"
| "join_with sep [p] = p"
| "join_with sep (p # q # ps) = p @ sep @ join_with sep (q # ps)"

lemma dropWhile_idem: "dropWhile P (dropWhile P xs) = dropWhile P xs"
  by (induction xs) auto

lemma strip_Nil [simp]: "strip [] = []"
  by (simp add: strip_def rstrip_def lstrip_def)

lemma hd_dropWhile_not: "dropWhile P xs \<noteq> [] \<Longrightarrow> \<not> P (hd (dropWhile P xs))"
  by (induction xs) (auto split: if_splits)

lemma rstrip_lstrip_hd:
  assumes "dropWhile is_space s = s"
  shows "dropWhile is_space (rstrip s) = rstrip s"
proof (cases "rstrip s")
  case (Cons c r)
  obtain t where t: "s = rstrip s @ t"
    unfolding rstrip_def
    by (metis rev_append rev_rev_ident takeWhile_dropWhile_id)
  with Cons have "hd s = c" and ne: "s \<noteq> []" by auto
  moreover have "\<not> is_space (hd s)"
    using hd_dropWhile_not [of is_space s] assms ne by simp
  ultimately have "\<not> is_space c" by simp
  with Cons show ?thesis by simp
qed simp

lemma strip_idem [simp]: "strip (strip s) = strip s"
proof -
  have 1: "dropWhile is_space (strip s) = strip s"
    unfolding strip_def by (rule rstrip_lstrip_hd) (simp add: lstrip_def dropWhile_idem)
  then have "strip (strip s) = rstrip (strip s)"
    by (simp add: strip_def [of "strip s"] lstrip_def)
  then show ?thesis by (simp add: strip_def rstrip_def dropWhile_idem)
qed

text \<open>A string with no blank at either end is its own \<open>strip\<close>.\<close>

definition trimmed :: "string \<Rightarrow> bool" where
  "trimmed s = (strip s = s)"

lemma trimmed_strip [simp]: "trimmed (strip s)"
  by (simp add: trimmed_def)

lemma strip_no_space: "\<forall>c \<in> set s. \<not> is_space c \<Longrightarrow> strip s = s"
  by (simp add: strip_def rstrip_def lstrip_def dropWhile_eq_self_iff)
     (metis dropWhile_eq_self_iff hd_in_set rev_rev_ident set_rev)

lemma length_strip: "length (strip s) \<le> length s"
  unfolding strip_def rstrip_def lstrip_def
  by (metis length_dropWhile_le length_rev order_trans)

lemma set_strip: "set (strip s) \<subseteq> set s"
  unfolding strip_def rstrip_def lstrip_def
  by (metis set_dropWhileD set_rev subsetI)

lemma lstrip_blank: "is_space c \<Longrightarrow> lstrip (c # s) = lstrip s"
  by (simp add: lstrip_def)

lemma strip_blanks: "strip ('' '' @ s @ '' '') = strip s"
proof -
  have sp: "is_space CHR '' ''" by (simp add: is_space_def)
  have r: "rstrip (t @ '' '') = rstrip t" for t using sp by (simp add: rstrip_def)
  show ?thesis
  proof (cases "\<forall>c \<in> set s. is_space c")
    case True
    then have "dropWhile is_space s = []" by (simp add: dropWhile_eq_Nil_conv)
    with sp show ?thesis by (auto simp: strip_def lstrip_def rstrip_def dropWhile_append2 dest: set_dropWhileD)
  next
    case False
    then have "lstrip (s @ '' '') = lstrip s @ '' ''" by (auto simp: lstrip_def dropWhile_append)
    then show ?thesis using sp by (simp add: strip_def lstrip_blank r)
  qed
qed

lemma lower_char_space: "is_space (lower_char c) = is_space c"
  by (auto simp: is_space_def lower_char_def Let_def)

lemma lower_char_idem: "lower_char (lower_char c) = lower_char c"
  by (auto simp: lower_char_def Let_def)

lemma strip_lower: "strip (lower s) = lower (strip s)"
proof -
  have "dropWhile is_space (map lower_char t) = map lower_char (dropWhile is_space t)" for t
    by (simp add: dropWhile_map comp_def lower_char_space)
  then show ?thesis by (simp add: strip_def lstrip_def rstrip_def lower_def rev_map)
qed

lemma lower_idem [simp]: "lower (lower s) = lower s"
  by (simp add: lower_def lower_char_idem)

subsection \<open>Decimal conversions\<close>

definition digit_char :: "nat \<Rightarrow> char" where
  "digit_char n = char_of (48 + n)"

fun nat_str :: "nat \<Rightarrow> string" where
  "nat_str n = (if n < 10 then [digit_char n] else nat_str (n div 10) @ [digit_char (n mod 10)])"

declare nat_str.simps [simp del]

definition int_str :: "int \<Rightarrow> string" where
  "int_str i = (if i < 0 then CHR ''-'' # nat_str (nat (- i)) else nat_str (nat i))"

definition digit_val :: "char \<Rightarrow> nat" where
  "digit_val c = of_char c - 48"

definition digits_val :: "string \<Rightarrow> nat" where
  "digits_val s = foldl (\<lambda>a c. 10 * a + digit_val c) 0 s"

fun no_double_underscore :: "string \<Rightarrow> bool" where
  "no_double_underscore (a # b # s) =
     (\<not> (a = CHR ''_'' \<and> b = CHR ''_'') \<and> no_double_underscore (b # s))"
| "no_double_underscore s = True"

text \<open>
  The digits \<open>int()\<close> accepts: decimal digits, single underscores between digits.
\<close>

definition int_body_ok :: "string \<Rightarrow> bool" where
  "int_body_ok u = (u \<noteq> [] \<and> is_digit (hd u) \<and> is_digit (last u) \<and> no_double_underscore u \<and>
     list_all (\<lambda>c. is_digit c \<or> c = CHR ''_'') u)"

definition int_body :: "string \<Rightarrow> int option" where
  "int_body u = (if int_body_ok u then Some (int (digits_val (filter is_digit u))) else None)"

text \<open>\<open>int(text)\<close>: blanks around, an optional sign, then the digits.\<close>

definition parse_int :: "string \<Rightarrow> int option" where
  "parse_int s = (case strip s of
      [] \<Rightarrow> None
    | c # u \<Rightarrow> if c = CHR ''-'' then map_option uminus (int_body u)
              else if c = CHR ''+'' then int_body u
              else int_body (c # u))"

lemma of_digit_char: "n < 10 \<Longrightarrow> of_char (digit_char n) = 48 + n"
  by (simp add: digit_char_def)

lemma is_digit_digit_char: "n < 10 \<Longrightarrow> is_digit (digit_char n)"
  by (simp add: is_digit_def Let_def of_digit_char)

lemma digit_val_digit_char: "n < 10 \<Longrightarrow> digit_val (digit_char n) = n"
  by (simp add: digit_val_def of_digit_char)

lemma nat_str_nonempty [simp]: "nat_str n \<noteq> []"
  by (subst nat_str.simps) simp

lemma nat_str_digits: "c \<in> set (nat_str n) \<Longrightarrow> is_digit c"
proof (induction n rule: nat_str.induct)
  case (1 n)
  show ?case
  proof (cases "n < 10")
    case True
    with "1.prems" show ?thesis
      by (subst (asm) nat_str.simps) (simp add: is_digit_digit_char)
  next
    case False
    with "1.prems" have "c \<in> set (nat_str (n div 10)) \<or> c = digit_char (n mod 10)"
      by (subst (asm) nat_str.simps) auto
    with "1.IH" False show ?thesis by (auto simp: is_digit_digit_char)
  qed
qed

lemma digits_val_snoc: "digits_val (s @ [c]) = 10 * digits_val s + digit_val c"
  by (simp add: digits_val_def)

lemma digits_val_nat_str [simp]: "digits_val (nat_str n) = n"
proof (induction n rule: nat_str.induct)
  case (1 n)
  show ?case
  proof (cases "n < 10")
    case True
    then show ?thesis
      by (subst nat_str.simps) (simp add: digits_val_def digit_val_digit_char)
  next
    case False
    then have "digits_val (nat_str n) = 10 * digits_val (nat_str (n div 10)) + n mod 10"
      by (subst nat_str.simps) (simp add: digits_val_snoc digit_val_digit_char)
    with "1.IH" False show ?thesis by simp
  qed
qed

lemma nat_str_inject [simp]: "nat_str m = nat_str n \<longleftrightarrow> m = n"
  by (metis digits_val_nat_str)

lemma is_space_minus [simp]: "\<not> is_space (CHR ''-'')"
  by (simp add: is_space_def)

lemma digit_not_space: "is_digit c \<Longrightarrow> \<not> is_space c"
  by (simp add: is_digit_def is_space_def Let_def)

lemma is_digit_minus [simp]: "\<not> is_digit (CHR ''-'')" "\<not> is_digit (CHR ''+'')"
  "\<not> is_digit (CHR ''_'')"
  by (simp_all add: is_digit_def)

lemma no_double_underscore_digits: "list_all is_digit s \<Longrightarrow> no_double_underscore s"
  by (induction s rule: no_double_underscore.induct) auto

lemma int_body_digits:
  assumes "u \<noteq> []" and "list_all is_digit u"
  shows "int_body u = Some (int (digits_val u))"
proof -
  have "filter is_digit u = u" using assms(2) by (simp add: list_all_iff)
  moreover have "int_body_ok u"
    using assms by (auto simp: int_body_ok_def list_all_iff no_double_underscore_digits)
  ultimately show ?thesis by (simp add: int_body_def)
qed

lemma int_body_nat_str [simp]: "int_body (nat_str n) = Some (int n)"
  by (subst int_body_digits) (auto simp: list_all_iff nat_str_digits)

lemma strip_nat_str [simp]: "strip (nat_str n) = nat_str n"
  by (rule strip_no_space) (auto dest: nat_str_digits digit_not_space)

lemma strip_int_str [simp]: "strip (int_str i) = int_str i"
  by (rule strip_no_space)
     (auto simp: int_str_def split: if_splits dest: nat_str_digits digit_not_space)

text \<open>The decimal text of an integer reads back as that integer.\<close>

lemma parse_int_int_str [simp]: "parse_int (int_str i) = Some i"
proof (cases "i < 0")
  case True
  then show ?thesis
    by (simp add: parse_int_def) (simp add: int_str_def)
next
  case False
  obtain c u where cu: "nat_str (nat i) = c # u"
    by (cases "nat_str (nat i)") auto
  then have "is_digit c" by (metis list.set_intros(1) nat_str_digits)
  then have "c \<noteq> CHR ''-''" "c \<noteq> CHR ''+''" by auto
  moreover have "int_body (c # u) = Some i" using int_body_nat_str [of "nat i"] cu False by simp
  ultimately show ?thesis
    using False cu by (simp add: parse_int_def) (simp add: int_str_def)
qed

lemma int_str_inject [simp]: "int_str i = int_str j \<longleftrightarrow> i = j"
  by (metis option.inject parse_int_int_str)

lemma int_str_nonempty [simp]: "int_str i \<noteq> []"
  by (simp add: int_str_def)

lemma length_nat_str: "0 < k \<Longrightarrow> length (nat_str n) \<le> k \<longleftrightarrow> n < 10 ^ k"
proof (induction k arbitrary: n)
  case 0
  then show ?case by simp
next
  case (Suc k)
  show ?case
  proof (cases "n < 10")
    case True
    moreover have "(1::nat) \<le> 10 ^ k" by simp
    ultimately have "n < 10 ^ Suc k" unfolding power_Suc by linarith
    with True show ?thesis by (subst nat_str.simps) (simp add: Suc_le_eq)
  next
    case False
    then have "length (nat_str n) \<le> Suc k \<longleftrightarrow> length (nat_str (n div 10)) \<le> k"
      by (subst nat_str.simps) simp
    also have "\<dots> \<longleftrightarrow> n div 10 < 10 ^ k"
      using Suc.IH [of "n div 10"] False by (cases k) auto
    also have "\<dots> \<longleftrightarrow> n < 10 ^ Suc k" by (simp add: div_less_iff_less_mult mult.commute)
    finally show ?thesis .
  qed
qed

subsection \<open>Splitting and joining\<close>

lemma split_char_nonempty [simp]: "split_char c s \<noteq> []"
  by (induction s) (auto split: list.splits)

lemma split_char_no_sep: "c \<notin> set s \<Longrightarrow> split_char c s = [s]"
  by (induction s) auto

lemma split_char_append:
  "c \<notin> set p \<Longrightarrow> split_char c (p @ c # s) = p # split_char c s"
  by (induction p) auto

text \<open>Joining pieces that do not contain the separator and splitting again gives the pieces.\<close>

lemma split_join:
  "ps \<noteq> [] \<Longrightarrow> \<forall>p \<in> set ps. c \<notin> set p \<Longrightarrow> split_char c (join_with [c] ps) = ps"
  by (induction "[c]" ps rule: join_with.induct) (auto simp: split_char_no_sep split_char_append)

end
