(* ===== verification/PyValue.thy ===== *)
theory PyValue
  imports PyText
begin

text \<open>
  The dynamically typed values the services read from JSON state files, request payloads and
  provider callbacks: \<open>None\<close>, booleans, integers, floats, strings, lists and dictionaries with
  string keys. Floats are exact rationals: rounding, infinities and NaN are outside the model.
  Each operation is the Python built-in the services apply to such values.
\<close>

datatype py =
    PNone
  | PBool bool
  | PInt int
  | PFloat rat
  | PStr string
  | PList "py list"
  | PDict "(string \<times> py) list"

type_synonym dict = "(string \<times> py) list"

type_synonym 'a table = "(string \<times> 'a) list"

subsection \<open>Truth and the or operator\<close>

fun truthy :: "py \<Rightarrow> bool" where
  "truthy PNone = False"
| "truthy (PBool b) = b"
| "truthy (PInt i) = (i \<noteq> 0)"
| "truthy (PFloat r) = (r \<noteq> 0)"
| "truthy (PStr s) = (s \<noteq> [])"
| "truthy (PList xs) = (xs \<noteq> [])"
| "truthy (PDict d) = (d \<noteq> [])"

definition por :: "py \<Rightarrow> py \<Rightarrow> py" where
  "por x y = (if truthy x then x else y)"

definition sor :: "string \<Rightarrow> string \<Rightarrow> string" where
  "sor s t = (if s \<noteq> [] then s else t)"

subsection \<open>Text of a value\<close>

text \<open>The quotation of a string by \<open>repr\<close>.\<close>

definition hex_digit :: "nat \<Rightarrow> char" where
  "hex_digit n = (if n < 10 then char_of (48 + n) else char_of (87 + n))"

definition repr_char :: "char \<Rightarrow> char \<Rightarrow> string" where
  "repr_char q c = (let n = (of_char c :: nat) in
     if c = q \<or> n = 92 then [CHR 0x5C, c]
     else if n = 10 then [CHR 0x5C, CHR ''n'']
     else if n = 13 then [CHR 0x5C, CHR ''r'']
     else if n = 9 then [CHR 0x5C, CHR ''t'']
     else if n < 32 \<or> (127 \<le> n \<and> n \<le> 160) \<or> n = 173
       then [CHR 0x5C, CHR ''x'', hex_digit (n div 16), hex_digit (n mod 16)]
     else [c])"

definition repr_str :: "string \<Rightarrow> string" where
  "repr_str s = (let q = (if CHR 0x27 \<in> set s \<and> CHR 0x22 \<notin> set s
                          then CHR 0x22 else CHR 0x27)
     in [q] @ concat (map (repr_char q) s) @ [q])"

text \<open>
  The decimal text of a float: the integer part, a point and the digits after it, at least one and
  at most seventeen. Exact decimals in the range Python prints without an exponent read as Python
  prints them.
\<close>

fun frac_digits :: "nat \<Rightarrow> rat \<Rightarrow> string" where
  "frac_digits 0 r = []"
| "frac_digits (Suc k) r = (if r = 0 then []
     else digit_char (nat \<lfloor>10 * r\<rfloor>) # frac_digits k (10 * r - of_int \<lfloor>10 * r\<rfloor>))"

definition float_str :: "rat \<Rightarrow> string" where
  "float_str r = (let a = \<bar>r\<bar>; f = frac_digits 17 (a - of_int \<lfloor>a\<rfloor>)
     in (if r < 0 then ''-'' else []) @ nat_str (nat \<lfloor>a\<rfloor>) @ ''.'' @ (if f = [] then ''0'' else f))"

fun py_repr :: "py \<Rightarrow> string" where
  "py_repr PNone = ''None''"
| "py_repr (PBool b) = (if b then ''True'' else ''False'')"
| "py_repr (PInt i) = int_str i"
| "py_repr (PFloat r) = float_str r"
| "py_repr (PStr s) = repr_str s"
| "py_repr (PList xs) = ''['' @ join_with '', '' (map py_repr xs) @ '']''"
| "py_repr (PDict d) =
     ''{'' @ join_with '', '' (map (\<lambda>(k, v). repr_str k @ '': '' @ py_repr v) d) @ ''}''"

definition py_str :: "py \<Rightarrow> string" where
  "py_str v = (case v of PStr s \<Rightarrow> s | _ \<Rightarrow> py_repr v)"

lemma py_str_simps [simp]:
  "py_str (PStr s) = s" "py_str PNone = ''None''" "py_str (PInt i) = int_str i"
  by (simp_all add: py_str_def)

subsection \<open>Numbers\<close>

definition trunc :: "rat \<Rightarrow> int" where
  "trunc r = (if 0 \<le> r then \<lfloor>r\<rfloor> else - \<lfloor>- r\<rfloor>)"

lemma trunc_of_int [simp]: "trunc (of_int i) = i"
  by (simp add: trunc_def)

text \<open>\<open>int(v)\<close>: \<open>ValueError\<close> for text that is no number, \<open>TypeError\<close> for other types.\<close>

fun py_int :: "py \<Rightarrow> int result" where
  "py_int (PInt i) = Inr i"
| "py_int (PBool b) = Inr (if b then 1 else 0)"
| "py_int (PFloat r) = Inr (trunc r)"
| "py_int (PStr s) = (case parse_int s of Some i \<Rightarrow> Inr i
     | None \<Rightarrow> Inl (ValueError (''invalid literal for int() with base 10: '' @ repr_str s)))"
| "py_int _ = Inl (TypeError ''int() argument must be a string, a bytes-like object or a real number'')"

text \<open>
  \<open>float(v)\<close>: of text, a plain decimal such as \<open>-12.5\<close>; exponents are outside the model.
\<close>

definition parse_decimal :: "string \<Rightarrow> rat option" where
  "parse_decimal s = (let t = strip s;
       neg = (t \<noteq> [] \<and> hd t = CHR ''-'');
       u = (if t \<noteq> [] \<and> (hd t = CHR ''-'' \<or> hd t = CHR ''+'') then tl t else t);
       (a, b) = split_first (CHR ''.'') u
     in if (a \<noteq> [] \<or> b \<noteq> []) \<and> list_all is_digit a \<and> list_all is_digit b
        then let r = of_nat (digits_val a) + of_nat (digits_val b) / 10 ^ length b
             in Some (if neg then - r else r)
        else None)"

fun py_float :: "py \<Rightarrow> rat result" where
  "py_float (PInt i) = Inr (of_int i)"
| "py_float (PBool b) = Inr (if b then 1 else 0)"
| "py_float (PFloat r) = Inr r"
| "py_float (PStr s) = (case parse_decimal s of Some r \<Rightarrow> Inr r
     | None \<Rightarrow> Inl (ValueError (''could not convert string to float: '' @ repr_str s)))"
| "py_float _ = Inl (TypeError ''float() argument must be a string or a real number'')"

subsection \<open>Dictionaries of values\<close>

text \<open>\<open>d.get(k)\<close>, \<open>d.get(k, v)\<close> and the common \<open>str(d.get(k) or "")\<close> with and without strip.\<close>

definition pget :: "dict \<Rightarrow> string \<Rightarrow> py" where
  "pget d k = (case map_of d k of None \<Rightarrow> PNone | Some v \<Rightarrow> v)"

definition pget_or :: "dict \<Rightarrow> string \<Rightarrow> py \<Rightarrow> py" where
  "pget_or d k v = (case map_of d k of None \<Rightarrow> v | Some w \<Rightarrow> w)"

definition str_or :: "py \<Rightarrow> string" where
  "str_or v = py_str (por v (PStr []))"

definition sget :: "dict \<Rightarrow> string \<Rightarrow> string" where
  "sget d k = str_or (pget d k)"

definition stget :: "dict \<Rightarrow> string \<Rightarrow> string" where
  "stget d k = strip (sget d k)"

text \<open>\<open>int(d.get(k, 0) or 0)\<close>.\<close>

definition int_or0 :: "py \<Rightarrow> int result" where
  "int_or0 v = py_int (por v (PInt 0))"

fun is_dict :: "py \<Rightarrow> bool" where
  "is_dict (PDict d) = True"
| "is_dict _ = False"

fun dict_of :: "py \<Rightarrow> dict" where
  "dict_of (PDict d) = d"
| "dict_of _ = []"

fun is_list :: "py \<Rightarrow> bool" where
  "is_list (PList xs) = True"
| "is_list _ = False"

fun list_of :: "py \<Rightarrow> py list" where
  "list_of (PList xs) = xs"
| "list_of _ = []"

text \<open>\<open>d.update(e)\<close> and \<open>{**d, **e}\<close>: the items of \<open>e\<close> stored one after the other.\<close>

definition dict_merge :: "dict \<Rightarrow> dict \<Rightarrow> dict" where
  "dict_merge d e = fold (\<lambda>(k, v). dset k v) e d"

definition set_default :: "string \<Rightarrow> py \<Rightarrow> dict \<Rightarrow> dict" where
  "set_default k v d = (if has_key d k then d else dset k v d)"

lemma str_or_simps [simp]:
  "str_or (PStr s) = s" "str_or PNone = []" "str_or (PInt i) = (if i = 0 then [] else int_str i)"
  by (simp_all add: str_or_def por_def)

lemma pget_dset [simp, dict_simps]: "pget (dset k v d) k' = (if k' = k then v else pget d k')"
  by (simp add: pget_def)

lemma pget_ddel [simp, dict_simps]: "pget (ddel k d) k' = (if k' = k then PNone else pget d k')"
  by (simp add: pget_def)

lemma pget_or_dset [simp, dict_simps]:
  "pget_or (dset k v d) k' e = (if k' = k then v else pget_or d k' e)"
  by (simp add: pget_or_def)

lemma pget_Cons [simp, dict_simps]: "pget ((k', v) # d) k = (if k = k' then v else pget d k)"
  by (simp add: pget_def)

lemma pget_or_Cons [simp, dict_simps]:
  "pget_or ((k', v) # d) k e = (if k = k' then v else pget_or d k e)"
  by (simp add: pget_or_def)

lemma pget_Nil [simp, dict_simps]: "pget [] k = PNone" "pget_or [] k e = e"
  by (simp_all add: pget_def pget_or_def)

lemma sget_dset [simp, dict_simps]: "sget (dset k v d) k' = (if k' = k then str_or v else sget d k')"
  by (simp add: sget_def)

lemma stget_dset [simp, dict_simps]:
  "stget (dset k v d) k' = (if k' = k then strip (str_or v) else stget d k')"
  by (simp add: stget_def)

lemma sget_Cons [simp, dict_simps]: "sget ((k', v) # d) k = (if k = k' then str_or v else sget d k)"
  by (simp add: sget_def)

lemma sget_Nil [simp, dict_simps]: "sget [] k = []"
  by (simp add: sget_def)

lemma map_of_dict_merge:
  "map_of (dict_merge d e) k = (case map_of (rev e) k of Some v \<Rightarrow> Some v | None \<Rightarrow> map_of d k)"
  unfolding dict_merge_def
proof (induction e arbitrary: d)
  case Nil
  then show ?case by simp
next
  case (Cons p e)
  obtain k' v where p: "p = (k', v)" by (cases p)
  show ?case
    by (simp add: p Cons map_add_def split: option.splits)
qed

lemma wf_dict_merge [simp, intro]: "wf_dict d \<Longrightarrow> wf_dict (dict_merge d e)"
  unfolding dict_merge_def by (induction e arbitrary: d) (auto simp: case_prod_unfold)

text \<open>The key comparisons of concrete dictionaries evaluate by rewriting.\<close>

lemma por_simps [simp]:
  "por PNone v = v" "por (PStr s) v = (if s = [] then v else PStr s)"
  "por (PInt i) v = (if i = 0 then v else PInt i)"
  "por (PBool b) v = (if b then PBool b else v)"
  "por (PFloat r) v = (if r = 0 then v else PFloat r)"
  by (simp_all add: por_def)

lemma int_or0_simps [simp]: "int_or0 (PInt i) = Inr i" "int_or0 PNone = Inr 0"
  by (simp_all add: int_or0_def)

end
