(* ===== verification/StateStore.thy ===== *)
theory StateStore
  imports PyValue
begin

text \<open>
  \<open>core/persistence/json_state_store.py\<close>: the JSON file every service keeps its state in. A file
  is missing, unreadable as JSON, or holds a value. \<open>save\<close> replaces the file atomically, so
  no reader sees a partial write; \<open>update\<close> reads, applies the mutator and writes under one
  exclusive lock. The interface the services rely on is the locale \<open>state_store\<close>.
\<close>

datatype state_file = Missing | Corrupt | Contents py

definition json_decode_error :: exn where
  "json_decode_error = ValueError ''Expecting value''"

text \<open>\<open>JsonStateStore.load\<close>, with the value of the default factory as first argument.\<close>

fun store_load :: "py \<Rightarrow> state_file \<Rightarrow> py result" where
  "store_load dflt Missing = Inr dflt"
| "store_load dflt Corrupt = Inl json_decode_error"
| "store_load dflt (Contents v) = Inr v"

definition atomic_write :: "py \<Rightarrow> state_file \<Rightarrow> state_file" where
  "atomic_write v f = Contents v"

definition store_save :: "py \<Rightarrow> state_file \<Rightarrow> state_file" where
  "store_save v f = atomic_write v f"

definition store_update :: "py \<Rightarrow> (py \<Rightarrow> py) \<Rightarrow> state_file \<Rightarrow> py result \<times> state_file" where
  "store_update dflt mutator f = (case store_load dflt f of
      Inl e \<Rightarrow> (Inl e, f)
    | Inr v \<Rightarrow> (Inr (mutator v), atomic_write (mutator v) f))"

definition store_exists :: "state_file \<Rightarrow> bool" where
  "store_exists f = (f \<noteq> Missing)"

subsection \<open>The contract of a state store\<close>

locale state_store =
  fixes load :: "'f \<Rightarrow> py result"
    and save :: "py \<Rightarrow> 'f \<Rightarrow> 'f"
  assumes load_save: "load (save v f) = Inr v"
    and save_save: "save w (save v f) = save w f"
begin

text \<open>A read-modify-write without a lock: the two halves can be interleaved.\<close>

lemma load_last_save: "vs \<noteq> [] \<Longrightarrow> load (fold save vs f) = Inr (last vs)"
  by (induction vs arbitrary: f rule: rev_induct) (auto simp: load_save)

lemma modify_in_turn:
  assumes "load f = Inr v"
  shows "load (save (h w) (save (g v) f)) = Inr (h w)"
  by (rule load_save)

text \<open>Two clients that load before either saves: the first one's change is lost.\<close>

lemma interleaved_lost:
  assumes "load f = Inr v"
  shows "load (save (h v) (save (g v) f)) = load (save (h v) f)"
  by (simp add: save_save)

end

interpretation json: state_store "store_load d" store_save for d
  by unfold_locales (simp_all add: store_save_def atomic_write_def)

text \<open>\<open>update\<close> applies its mutators one after the other, whatever the order of arrival.\<close>

lemma store_update_twice:
  assumes "store_load d f = Inr v"
  shows "store_load d (snd (store_update d h (snd (store_update d g f)))) = Inr (h (g v))"
  using assms by (simp add: store_update_def atomic_write_def)

lemma store_update_keeps_corrupt: "snd (store_update d g Corrupt) = Corrupt"
  by (simp add: store_update_def)

end
