(* ===== verification/JobQueue.thy ===== *)
theory JobQueue
  imports StateStore
begin

text \<open>
  \<open>beagle-host/services/job_queue_service.py\<close>: the in-process job queue. A job is a record with the
  fields of the dataclass \<open>Job\<close>; the queue holds the jobs by id in insertion order, the pending ids
  in queue order, the idempotency keys, and the optional state file. Every operation runs under one
  lock, so it is one function from state to state. A clock reading is an argument (\<open>now\<close>); the
  UUID of a new job is one too, and the step relation takes it fresh.
\<close>

subsection \<open>Status constants and the job record (lines 49-105)\<close>

abbreviation STATUS_PENDING :: string where "STATUS_PENDING \<equiv> ''pending''"
abbreviation STATUS_RUNNING :: string where "STATUS_RUNNING \<equiv> ''running''"
abbreviation STATUS_COMPLETED :: string where "STATUS_COMPLETED \<equiv> ''completed''"
abbreviation STATUS_FAILED :: string where "STATUS_FAILED \<equiv> ''failed''"
abbreviation STATUS_CANCELLED :: string where "STATUS_CANCELLED \<equiv> ''cancelled''"

definition TERMINAL_STATUSES :: "string set" where
  "TERMINAL_STATUSES = {STATUS_COMPLETED, STATUS_FAILED, STATUS_CANCELLED}"

definition DEFAULT_IDEMPOTENCY_TTL :: rat where "DEFAULT_IDEMPOTENCY_TTL = 60 * 60 * 24"
definition DEFAULT_JOB_RETENTION :: rat where "DEFAULT_JOB_RETENTION = 60 * 60 * 24 * 7"

record job =
  job_id :: string
  job_name :: string
  job_payload :: dict
  job_status :: string
  job_progress :: int
  job_message :: string
  job_result :: py
  job_error :: string
  job_idempotency_key :: string
  job_created_at :: rat
  job_started_at :: "rat option"
  job_finished_at :: "rat option"
  job_heartbeat_at :: "rat option"
  job_cancel_requested :: bool
  job_owner :: string

definition opt_float :: "rat option \<Rightarrow> py" where
  "opt_float x = (case x of None \<Rightarrow> PNone | Some r \<Rightarrow> PFloat r)"

definition job_as_dict :: "job \<Rightarrow> py" where
  "job_as_dict j = PDict [
     (''job_id'', PStr (job_id j)),
     (''name'', PStr (job_name j)),
     (''payload'', PDict (job_payload j)),
     (''status'', PStr (job_status j)),
     (''progress'', PInt (job_progress j)),
     (''message'', PStr (job_message j)),
     (''result'', job_result j),
     (''error'', PStr (job_error j)),
     (''idempotency_key'', PStr (job_idempotency_key j)),
     (''created_at'', PFloat (job_created_at j)),
     (''started_at'', opt_float (job_started_at j)),
     (''finished_at'', opt_float (job_finished_at j)),
     (''heartbeat_at'', opt_float (job_heartbeat_at j)),
     (''cancel_requested'', PBool (job_cancel_requested j)),
     (''owner'', PStr (job_owner j))]"

record job_queue =
  jq_idempotency_ttl :: rat
  jq_job_retention :: rat
  jq_stuck_threshold :: rat
  jq_queue :: "string list"
  jq_jobs :: "job table"
  jq_idem :: "(string \<times> rat) table"
  jq_store :: "state_file option"

subsection \<open>Persistence (lines 402-455)\<close>

definition jq_snapshot :: "job_queue \<Rightarrow> py" where
  "jq_snapshot q = PDict [
     (''jobs'', PList (map (\<lambda>(k, j). job_as_dict j) (jq_jobs q))),
     (''idempotency'', PDict (map (\<lambda>(k, v). (k, PDict [(''job_id'', PStr (fst v)), (''created_at'', PFloat (snd v))])) (jq_idem q)))]"

definition persist_locked :: "job_queue \<Rightarrow> job_queue" where
  "persist_locked q = (case jq_store q of None \<Rightarrow> q
     | Some f \<Rightarrow> q\<lparr>jq_store := Some (store_save (jq_snapshot q) f)\<rparr>)"

text \<open>\<open>float(raw[k]) if raw.get(k) is not None else None\<close>.\<close>

definition load_opt_float :: "dict \<Rightarrow> string \<Rightarrow> rat option result" where
  "load_opt_float raw k = (if pget raw k = PNone then Inr None
     else rbind (py_float (pget raw k)) (\<lambda>r. Inr (Some r)))"

text \<open>The \<open>Job(...)\<close> call of the loader; \<open>Inl\<close> where it raises and the entry is skipped.\<close>

definition load_job :: "rat \<Rightarrow> dict \<Rightarrow> job result" where
  "load_job now raw =
     rbind (py_int (por (pget raw ''progress'') (PInt 0))) (\<lambda>progress.
     rbind (py_float (por (pget raw ''created_at'') (PFloat now))) (\<lambda>created_at.
     rbind (load_opt_float raw ''started_at'') (\<lambda>started_at.
     rbind (load_opt_float raw ''finished_at'') (\<lambda>finished_at.
     rbind (load_opt_float raw ''heartbeat_at'') (\<lambda>heartbeat_at.
     Inr \<lparr>job_id = sget raw ''job_id'', job_name = sget raw ''name'',
          job_payload = (if is_dict (pget raw ''payload'') then dict_of (pget raw ''payload'') else []),
          job_status = py_str (por (pget raw ''status'') (PStr STATUS_PENDING)),
          job_progress = progress, job_message = sget raw ''message'',
          job_result = pget raw ''result'', job_error = sget raw ''error'',
          job_idempotency_key = sget raw ''idempotency_key'',
          job_created_at = created_at, job_started_at = started_at,
          job_finished_at = finished_at, job_heartbeat_at = heartbeat_at,
          job_cancel_requested = truthy (pget raw ''cancel_requested''),
          job_owner = sget raw ''owner''\<rparr>)))))"

text \<open>One entry of the persisted job list.\<close>

definition load_entry :: "rat \<Rightarrow> py \<Rightarrow> job_queue \<Rightarrow> job_queue" where
  "load_entry now raw q = (if \<not> is_dict raw then q else
     (case load_job now (dict_of raw) of
        Inl e \<Rightarrow> q
      | Inr j0 \<Rightarrow>
          if job_id j0 = [] \<or> job_name j0 = [] then q
          else let
            j = (if job_status j0 = STATUS_RUNNING
                 then j0\<lparr>job_status := STATUS_FAILED,
                          job_error := ''interrupted by control-plane restart'',
                          job_finished_at := Some now\<rparr>
                 else j0);
            q1 = q\<lparr>jq_jobs := dset (job_id j) j (jq_jobs q)\<rparr>;
            q2 = (if job_status j = STATUS_PENDING then q1\<lparr>jq_queue := jq_queue q1 @ [job_id j]\<rparr> else q1)
          in (if job_idempotency_key j \<noteq> []
              then q2\<lparr>jq_idem := dset (job_idempotency_key j) (job_id j, job_created_at j) (jq_idem q2)\<rparr>
              else q2)))"

definition load_persisted_state :: "rat \<Rightarrow> job_queue \<Rightarrow> job_queue result" where
  "load_persisted_state now q = (case jq_store q of
      None \<Rightarrow> Inr q
    | Some f \<Rightarrow> rbind (store_load (PDict [(''jobs'', PList []), (''idempotency'', PDict [])]) f) (\<lambda>data.
        if \<not> is_dict data then Inr q
        else let jobs = pget (dict_of data) ''jobs''
             in Inr (if is_list jobs then fold (load_entry now) (list_of jobs) q else q)))"

text \<open>\<open>__init__\<close> (lines 128-153): empty tables, then the persisted state.\<close>

definition job_queue_init :: "rat \<Rightarrow> rat \<Rightarrow> rat \<Rightarrow> state_file option \<Rightarrow> rat \<Rightarrow> job_queue result" where
  "job_queue_init ttl retention stuck store now = load_persisted_state now
     \<lparr>jq_idempotency_ttl = ttl, jq_job_retention = retention, jq_stuck_threshold = stuck,
      jq_queue = [], jq_jobs = [], jq_idem = [], jq_store = store\<rparr>"

subsection \<open>Enqueue (lines 159-202)\<close>

definition new_job :: "string \<Rightarrow> string \<Rightarrow> dict \<Rightarrow> string \<Rightarrow> string \<Rightarrow> rat \<Rightarrow> job" where
  "new_job jid name payload key owner now =
     \<lparr>job_id = jid, job_name = name, job_payload = payload, job_status = STATUS_PENDING,
      job_progress = 0, job_message = [], job_result = PNone, job_error = [],
      job_idempotency_key = key, job_created_at = now, job_started_at = None,
      job_finished_at = None, job_heartbeat_at = None, job_cancel_requested = False,
      job_owner = owner\<rparr>"

text \<open>The idempotency check: the live job a key within its time to live stands for.\<close>

definition idem_hit :: "string \<Rightarrow> rat \<Rightarrow> job_queue \<Rightarrow> job option" where
  "idem_hit key now q = (if key = [] then None else
     (case map_of (jq_idem q) key of None \<Rightarrow> None
      | Some (jid, created) \<Rightarrow>
          if now - created < jq_idempotency_ttl q then map_of (jq_jobs q) jid else None))"

text \<open>The idempotency table after a miss: an expired key is deleted, then the new one stored.\<close>

definition idem_store :: "string \<Rightarrow> rat \<Rightarrow> string \<Rightarrow> job_queue \<Rightarrow> (string \<times> rat) table" where
  "idem_store key now uuid q = (if key = [] then jq_idem q else
     dset key (uuid, now)
       (case map_of (jq_idem q) key of None \<Rightarrow> jq_idem q
        | Some (jid, created) \<Rightarrow>
            if now - created < jq_idempotency_ttl q then jq_idem q else ddel key (jq_idem q)))"

definition enqueue :: "string \<Rightarrow> dict \<Rightarrow> string \<Rightarrow> string \<Rightarrow> rat \<Rightarrow> string \<Rightarrow> job_queue \<Rightarrow> job result \<times> job_queue" where
  "enqueue name payload key owner now uuid q =
     (if name = [] then (Inl (ValueError ''job name is required''), q)
      else case idem_hit key now q of
        Some j \<Rightarrow> (Inr j, q)
      | None \<Rightarrow>
          let j = new_job uuid name payload key owner now
          in (Inr j, persist_locked (q\<lparr>jq_jobs := dset uuid j (jq_jobs q),
                jq_queue := jq_queue q @ [uuid], jq_idem := idem_store key now uuid q\<rparr>)))"

subsection \<open>Worker interface (lines 208-232)\<close>

text \<open>The scan of \<open>claim_next_pending\<close>: the first queued id whose job is pending, and the rest.\<close>

fun find_pending :: "job table \<Rightarrow> string list \<Rightarrow> (string \<times> string list) option" where
  "find_pending jobs [] = None"
| "find_pending jobs (jid # ids) =
     (case map_of jobs jid of
        Some j \<Rightarrow> if job_status j = STATUS_PENDING then Some (jid, ids)
                  else map_option (\<lambda>(k, r). (k, jid # r)) (find_pending jobs ids)
      | None \<Rightarrow> map_option (\<lambda>(k, r). (k, jid # r)) (find_pending jobs ids))"

definition put_job :: "string \<Rightarrow> job \<Rightarrow> job_queue \<Rightarrow> job_queue" where
  "put_job jid j q = q\<lparr>jq_jobs := dset jid j (jq_jobs q)\<rparr>"

definition claim_next_pending :: "rat \<Rightarrow> job_queue \<Rightarrow> job option \<times> job_queue" where
  "claim_next_pending now q =
     (case find_pending (jq_jobs q) (jq_queue q) of
        None \<Rightarrow> (None, q)
      | Some (jid, rest) \<Rightarrow>
          (case map_of (jq_jobs q) jid of
             None \<Rightarrow> (None, q)
           | Some j0 \<Rightarrow>
               let j = j0\<lparr>job_status := STATUS_RUNNING, job_started_at := Some now, job_heartbeat_at := Some now\<rparr>
               in (Some j, persist_locked ((put_job jid j q)\<lparr>jq_queue := rest\<rparr>))))"

definition require :: "string \<Rightarrow> job_queue \<Rightarrow> job result" where
  "require jid q = (case map_of (jq_jobs q) jid of
     None \<Rightarrow> Inl (KeyError (''job not found: '' @ repr_str jid)) | Some j \<Rightarrow> Inr j)"

definition assert_running :: "job \<Rightarrow> unit result" where
  "assert_running j = (if job_status j \<noteq> STATUS_RUNNING
     then Inl (ValueError (''job '' @ repr_str (job_id j) @ '' is not running (status='' @ repr_str (job_status j) @ '')''))
     else Inr ())"

text \<open>A state change of one job that first looks the job up and may refuse.\<close>

definition change_job :: "string \<Rightarrow> (job \<Rightarrow> job result) \<Rightarrow> job_queue \<Rightarrow> unit result \<times> job_queue" where
  "change_job jid f q = (case rbind (require jid q) f of
      Inl e \<Rightarrow> (Inl e, q)
    | Inr j \<Rightarrow> (Inr (), persist_locked (put_job jid j q)))"

definition heartbeat :: "string \<Rightarrow> rat \<Rightarrow> job_queue \<Rightarrow> unit result \<times> job_queue" where
  "heartbeat jid now = change_job jid (\<lambda>j. Inr (j\<lparr>job_heartbeat_at := Some now\<rparr>))"

subsection \<open>State transitions (lines 238-288)\<close>

definition update_progress :: "string \<Rightarrow> int \<Rightarrow> string \<Rightarrow> rat \<Rightarrow> job_queue \<Rightarrow> unit result \<times> job_queue" where
  "update_progress jid percent msg now = change_job jid (\<lambda>j.
     rbind (assert_running j) (\<lambda>_. Inr (j\<lparr>job_progress := max 0 (min 100 percent),
       job_message := msg, job_heartbeat_at := Some now\<rparr>)))"

definition complete :: "string \<Rightarrow> py \<Rightarrow> rat \<Rightarrow> job_queue \<Rightarrow> unit result \<times> job_queue" where
  "complete jid res now = change_job jid (\<lambda>j.
     rbind (assert_running j) (\<lambda>_. Inr (j\<lparr>job_status := STATUS_COMPLETED, job_progress := 100,
       job_result := res, job_finished_at := Some now\<rparr>)))"

definition fail :: "string \<Rightarrow> string \<Rightarrow> rat \<Rightarrow> job_queue \<Rightarrow> unit result \<times> job_queue" where
  "fail jid err now q = (case require jid q of
      Inl e \<Rightarrow> (Inl e, q)
    | Inr j \<Rightarrow> if job_status j \<in> TERMINAL_STATUSES then (Inr (), q)
              else (Inr (), persist_locked (put_job jid
                (j\<lparr>job_status := STATUS_FAILED, job_error := err, job_finished_at := Some now\<rparr>) q)))"

definition cancel :: "string \<Rightarrow> rat \<Rightarrow> job_queue \<Rightarrow> bool result \<times> job_queue" where
  "cancel jid now q = (case require jid q of
      Inl e \<Rightarrow> (Inl e, q)
    | Inr j \<Rightarrow>
        if job_status j \<in> TERMINAL_STATUSES then (Inr False, q)
        else if job_status j = STATUS_PENDING then
          (Inr True, persist_locked ((put_job jid
             (j\<lparr>job_status := STATUS_CANCELLED, job_finished_at := Some now\<rparr>) q)\<lparr>jq_queue := remove1 jid (jq_queue q)\<rparr>))
        else (Inr True, persist_locked (put_job jid (j\<lparr>job_cancel_requested := True\<rparr>) q)))"

subsection \<open>Queries (lines 294-329)\<close>

definition get_job :: "string \<Rightarrow> job_queue \<Rightarrow> job option" where
  "get_job jid q = map_of (jq_jobs q) jid"

definition opt_ok :: "'a option \<Rightarrow> ('a \<Rightarrow> bool) \<Rightarrow> bool" where
  "opt_ok x p = (case x of None \<Rightarrow> True | Some v \<Rightarrow> p v)"

text \<open>\<open>xs[:limit]\<close>: a negative bound counts from the end.\<close>

definition slice_to :: "int \<Rightarrow> 'a list \<Rightarrow> 'a list" where
  "slice_to n xs = (if 0 \<le> n then take (nat n) xs else take (nat (int (length xs) + n)) xs)"

definition list_jobs :: "string option \<Rightarrow> string option \<Rightarrow> string option \<Rightarrow> rat option \<Rightarrow> int \<Rightarrow> job_queue \<Rightarrow> job list" where
  "list_jobs status name owner since limit q =
     slice_to limit (sort_key_desc job_created_at
       (filter (\<lambda>j. opt_ok status (\<lambda>s. job_status j = s) \<and> opt_ok name (\<lambda>n. job_name j = n)
          \<and> opt_ok owner (\<lambda>w. job_owner j = w) \<and> opt_ok since (\<lambda>t. \<not> job_created_at j < t))
        (vals (jq_jobs q))))"

definition pending_count :: "job_queue \<Rightarrow> nat" where
  "pending_count q = length (jq_queue q)"

definition running_jobs :: "job_queue \<Rightarrow> job list" where
  "running_jobs q = list_jobs (Some STATUS_RUNNING) None None None 200 q"

subsection \<open>Stuck jobs and retention (lines 335-382)\<close>

definition last_heartbeat :: "rat \<Rightarrow> job \<Rightarrow> rat" where
  "last_heartbeat now j = (case job_heartbeat_at j of Some t \<Rightarrow> t
     | None \<Rightarrow> (case job_started_at j of Some t \<Rightarrow> t | None \<Rightarrow> now))"

definition is_stuck :: "rat \<Rightarrow> rat \<Rightarrow> job \<Rightarrow> bool" where
  "is_stuck threshold now j = (job_status j = STATUS_RUNNING \<and> now - last_heartbeat now j > threshold)"

definition reap_job :: "rat \<Rightarrow> rat \<Rightarrow> job \<Rightarrow> job" where
  "reap_job threshold now j = (if is_stuck threshold now j
     then j\<lparr>job_status := STATUS_FAILED,
            job_error := ''stuck: no heartbeat for '' @ int_str (trunc (now - last_heartbeat now j)) @ ''s'',
            job_finished_at := Some now\<rparr>
     else j)"

definition reap_stuck_jobs :: "rat \<Rightarrow> job_queue \<Rightarrow> string list \<times> job_queue" where
  "reap_stuck_jobs now q =
     (let reaped = map job_id (filter (is_stuck (jq_stuck_threshold q) now) (vals (jq_jobs q)));
          q1 = q\<lparr>jq_jobs := map (\<lambda>(k, j). (k, reap_job (jq_stuck_threshold q) now j)) (jq_jobs q)\<rparr>
      in (reaped, if reaped \<noteq> [] then persist_locked q1 else q1))"

text \<open>\<open>job.finished_at or job.created_at\<close>: a zero timestamp counts as absent.\<close>

definition finished_or_created :: "job \<Rightarrow> rat" where
  "finished_or_created j = (case job_finished_at j of
     Some t \<Rightarrow> if t \<noteq> 0 then t else job_created_at j | None \<Rightarrow> job_created_at j)"

definition is_expired :: "rat \<Rightarrow> rat \<Rightarrow> job \<Rightarrow> bool" where
  "is_expired retention now j = (job_status j \<in> TERMINAL_STATUSES \<and> now - finished_or_created j > retention)"

definition purge_old_jobs :: "rat \<Rightarrow> job_queue \<Rightarrow> nat \<times> job_queue" where
  "purge_old_jobs now q =
     (let to_delete = keys (filter (\<lambda>(k, j). is_expired (jq_job_retention q) now j) (jq_jobs q));
          q1 = q\<lparr>jq_jobs := filter (\<lambda>(k, j). k \<notin> set to_delete) (jq_jobs q),
                 jq_idem := filter (\<lambda>(key, v). fst v \<notin> set to_delete) (jq_idem q)\<rparr>
      in (length to_delete, if to_delete \<noteq> [] then persist_locked q1 else q1))"

end
