(* ===== verification/JobQueueProps.thy ===== *)
theory JobQueueProps
  imports JobQueue
begin

text \<open>
  The job queue's correctness: the invariant of its tables in every reachable state, the life cycle
  of a job, first-in-first-out claims, idempotent enqueueing, the exact effect of the reaper and of
  the purge, and recovery from the state file after a restart.
\<close>

subsection \<open>Frame of the persistence step\<close>

lemma persist_locked_fields [simp]:
  "jq_jobs (persist_locked q) = jq_jobs q" "jq_queue (persist_locked q) = jq_queue q"
  "jq_idem (persist_locked q) = jq_idem q" "jq_idempotency_ttl (persist_locked q) = jq_idempotency_ttl q"
  "jq_job_retention (persist_locked q) = jq_job_retention q"
  "jq_stuck_threshold (persist_locked q) = jq_stuck_threshold q"
  by (simp_all add: persist_locked_def split: option.splits)

lemma put_job_fields [simp]:
  "jq_jobs (put_job k j q) = dset k j (jq_jobs q)" "jq_queue (put_job k j q) = jq_queue q"
  "jq_idem (put_job k j q) = jq_idem q"
  by (simp_all add: put_job_def)

lemma snd_change_job:
  "snd (change_job k f q) = (case rbind (require k q) f of Inl e \<Rightarrow> q | Inr j \<Rightarrow> persist_locked (put_job k j q))"
  by (simp add: change_job_def split: sum.splits)

lemma require_Inr: "require k q = Inr j \<longleftrightarrow> map_of (jq_jobs q) k = Some j"
  by (simp add: require_def split: option.splits)

lemma assert_running_Inr: "assert_running j = Inr u \<longleftrightarrow> job_status j = STATUS_RUNNING"
  by (simp add: assert_running_def)

lemma status_distinct [simp]:
  "STATUS_PENDING \<notin> TERMINAL_STATUSES" "STATUS_RUNNING \<notin> TERMINAL_STATUSES"
  "STATUS_COMPLETED \<in> TERMINAL_STATUSES" "STATUS_FAILED \<in> TERMINAL_STATUSES"
  "STATUS_CANCELLED \<in> TERMINAL_STATUSES"
  by (simp_all add: TERMINAL_STATUSES_def)

subsection \<open>The queue as a first-in-first-out queue of pending jobs\<close>

text \<open>What the queue promises: the pending jobs in the order of their ids in the queue.\<close>

definition is_pending :: "job table \<Rightarrow> string \<Rightarrow> bool" where
  "is_pending jobs k = (case map_of jobs k of None \<Rightarrow> False | Some j \<Rightarrow> job_status j = STATUS_PENDING)"

definition pending_ids :: "job_queue \<Rightarrow> string list" where
  "pending_ids q = filter (is_pending (jq_jobs q)) (jq_queue q)"

lemma find_pending_None: "find_pending jobs ids = None \<longleftrightarrow> filter (is_pending jobs) ids = []"
  by (induction ids) (auto simp: is_pending_def split: option.splits)

lemma find_pending_Some:
  "find_pending jobs ids = Some (k, rest) \<Longrightarrow>
     is_pending jobs k \<and> (\<exists>pre post. ids = pre @ k # post \<and> rest = pre @ post \<and> (\<forall>x \<in> set pre. \<not> is_pending jobs x))"
proof (induction ids arbitrary: rest)
  case Nil
  then show ?case by simp
next
  case (Cons x ids)
  show ?case
  proof (cases "is_pending jobs x")
    case True
    with Cons.prems have "x = k" "rest = ids"
      by (auto simp: is_pending_def split: option.splits if_splits)
    with True show ?thesis by fastforce
  next
    case False
    with Cons.prems obtain r where "find_pending jobs ids = Some (k, r)" "rest = x # r"
      by (auto simp: is_pending_def split: option.splits if_splits)
    with Cons.IH [of r] False show ?thesis
      by (metis append_Cons set_ConsD)
  qed
qed

subsection \<open>The invariant\<close>

definition job_ok :: "string \<Rightarrow> job \<Rightarrow> bool" where
  "job_ok k j = (job_id j = k \<and> k \<noteq> [] \<and> job_name j \<noteq> [] \<and> 0 \<le> job_progress j \<and> job_progress j \<le> 100
     \<and> job_status j \<in> {STATUS_PENDING, STATUS_RUNNING} \<union> TERMINAL_STATUSES
     \<and> (job_status j = STATUS_RUNNING \<longrightarrow> job_heartbeat_at j \<noteq> None \<and> job_started_at j \<noteq> None)
     \<and> (job_finished_at j \<noteq> None \<longleftrightarrow> job_status j \<in> TERMINAL_STATUSES)
     \<and> (job_status j = STATUS_COMPLETED \<longrightarrow> job_progress j = 100))"

definition idem_ok :: "job table \<Rightarrow> string \<Rightarrow> string \<times> rat \<Rightarrow> bool" where
  "idem_ok jobs key v = (case map_of jobs (fst v) of None \<Rightarrow> False
     | Some j \<Rightarrow> job_idempotency_key j = key \<and> job_created_at j = snd v)"

definition jq_inv :: "job_queue \<Rightarrow> bool" where
  "jq_inv q = (wf_dict (jq_jobs q) \<and> distinct (jq_queue q)
     \<and> (\<forall>k j. map_of (jq_jobs q) k = Some j \<longrightarrow> job_ok k j)
     \<and> (\<forall>k. is_pending (jq_jobs q) k \<longrightarrow> k \<in> set (jq_queue q))
     \<and> (\<forall>key v. map_of (jq_idem q) key = Some v \<longrightarrow> idem_ok (jq_jobs q) key v)
     \<and> wf_dict (jq_idem q))"

lemma jq_inv_put:
  assumes inv: "jq_inv q" and old: "map_of (jq_jobs q) k = Some j0"
    and ok: "job_ok k j" and key: "job_idempotency_key j = job_idempotency_key j0"
    and cr: "job_created_at j = job_created_at j0"
    and dq: "distinct qs"
    and keep: "\<And>x. x \<in> set (jq_queue q) \<Longrightarrow> x \<noteq> k \<Longrightarrow> x \<in> set qs"
    and pend: "job_status j = STATUS_PENDING \<Longrightarrow> k \<in> set qs"
  shows "jq_inv (persist_locked ((put_job k j q)\<lparr>jq_queue := qs\<rparr>))"
  using assms
  by (auto simp: jq_inv_def is_pending_def idem_ok_def split: option.splits if_splits)

lemma jq_inv_put_same:
  assumes "jq_inv q" and "map_of (jq_jobs q) k = Some j0" and "job_ok k j"
    and "job_idempotency_key j = job_idempotency_key j0" and "job_created_at j = job_created_at j0"
    and "job_status j = STATUS_PENDING \<Longrightarrow> job_status j0 = STATUS_PENDING"
  shows "jq_inv (persist_locked (put_job k j q))"
proof -
  have "jq_inv (persist_locked ((put_job k j q)\<lparr>jq_queue := jq_queue q\<rparr>))"
    by (rule jq_inv_put [OF assms(1-5)]) (use assms in \<open>auto simp: jq_inv_def is_pending_def\<close>)
  then show ?thesis by (simp add: put_job_def)
qed

lemma jq_inv_jobD: "jq_inv q \<Longrightarrow> map_of (jq_jobs q) k = Some j \<Longrightarrow> job_ok k j"
  by (simp add: jq_inv_def)

lemma jq_inv_change_job:
  assumes inv: "jq_inv q"
    and f: "\<And>j j'. map_of (jq_jobs q) k = Some j \<Longrightarrow> f j = Inr j' \<Longrightarrow>
      job_ok k j' \<and> job_idempotency_key j' = job_idempotency_key j \<and> job_created_at j' = job_created_at j
      \<and> (job_status j' = STATUS_PENDING \<longrightarrow> job_status j = STATUS_PENDING)"
  shows "jq_inv (snd (change_job k f q))"
proof (cases "rbind (require k q) f")
  case (Inl e)
  with inv show ?thesis by (simp add: snd_change_job)
next
  case (Inr j')
  then obtain j where j: "map_of (jq_jobs q) k = Some j" "f j = Inr j'"
    by (auto simp: rbind_eq_Inr require_Inr)
  with Inr f [OF j] inv show ?thesis
    by (auto simp: snd_change_job intro!: jq_inv_put_same)
qed

lemma jq_inv_idemD: "jq_inv q \<Longrightarrow> map_of (jq_idem q) key = Some v \<Longrightarrow> idem_ok (jq_jobs q) key v"
  by (cases v) (simp add: jq_inv_def)

subsection \<open>Every operation keeps the invariant\<close>

lemma jq_inv_heartbeat: "jq_inv q \<Longrightarrow> jq_inv (snd (heartbeat k now q))"
  unfolding heartbeat_def
  by (rule jq_inv_change_job) (auto simp: job_ok_def dest: jq_inv_jobD)

lemma jq_inv_update_progress: "jq_inv q \<Longrightarrow> jq_inv (snd (update_progress k p m now q))"
  unfolding update_progress_def
  by (rule jq_inv_change_job) (auto simp: job_ok_def rbind_eq_Inr assert_running_Inr dest: jq_inv_jobD)

lemma jq_inv_complete: "jq_inv q \<Longrightarrow> jq_inv (snd (complete k r now q))"
  unfolding complete_def
  by (rule jq_inv_change_job) (auto simp: job_ok_def rbind_eq_Inr assert_running_Inr dest: jq_inv_jobD)

lemma job_ok_failed:
  "job_ok k j \<Longrightarrow> job_ok k (j\<lparr>job_status := STATUS_FAILED, job_error := e, job_finished_at := Some t\<rparr>)"
  by (simp add: job_ok_def)

lemma job_ok_cancelled:
  "job_ok k j \<Longrightarrow> job_ok k (j\<lparr>job_status := STATUS_CANCELLED, job_finished_at := Some t\<rparr>)"
  by (simp add: job_ok_def)

lemma job_ok_cancel_requested: "job_ok k j \<Longrightarrow> job_ok k (j\<lparr>job_cancel_requested := b\<rparr>)"
  by (simp add: job_ok_def)

lemma jq_inv_fail:
  assumes inv: "jq_inv q"
  shows "jq_inv (snd (fail k e now q))"
proof (cases "require k q")
  case (Inr j)
  then have j: "map_of (jq_jobs q) k = Some j" by (simp add: require_Inr)
  have "jq_inv (persist_locked (put_job k
      (j\<lparr>job_status := STATUS_FAILED, job_error := e, job_finished_at := Some now\<rparr>) q))"
    by (rule jq_inv_put_same [OF inv j]) (use job_ok_failed [OF jq_inv_jobD [OF inv j]] in simp_all)
  with Inr inv show ?thesis by (simp add: fail_def)
qed (simp add: fail_def inv)

lemma jq_inv_cancel:
  assumes inv: "jq_inv q"
  shows "jq_inv (snd (cancel k now q))"
proof (cases "require k q")
  case (Inr j)
  then have j: "map_of (jq_jobs q) k = Some j" by (simp add: require_Inr)
  have d: "distinct (jq_queue q)" using inv by (simp add: jq_inv_def)
  have 1: "jq_inv (persist_locked ((put_job k
      (j\<lparr>job_status := STATUS_CANCELLED, job_finished_at := Some now\<rparr>) q)\<lparr>jq_queue := remove1 k (jq_queue q)\<rparr>))"
    by (rule jq_inv_put [OF inv j]) (use d job_ok_cancelled [OF jq_inv_jobD [OF inv j]] in simp_all)
  have "job_ok k (j\<lparr>job_cancel_requested := True\<rparr>)"
    by (rule job_ok_cancel_requested) (rule jq_inv_jobD [OF inv j])
  then have 2: "jq_inv (persist_locked (put_job k (j\<lparr>job_cancel_requested := True\<rparr>) q))"
    by (rule jq_inv_put_same [OF inv j]) simp_all
  from Inr inv 1 2 show ?thesis by (simp add: cancel_def)
qed (simp add: cancel_def inv)

lemma job_ok_claimed:
  "job_ok k j \<Longrightarrow> job_status j = STATUS_PENDING \<Longrightarrow>
     job_ok k (j\<lparr>job_status := STATUS_RUNNING, job_started_at := Some t, job_heartbeat_at := Some t\<rparr>)"
  by (simp add: job_ok_def)

lemma claim_cases:
  obtains (none) "find_pending (jq_jobs q) (jq_queue q) = None" "claim_next_pending now q = (None, q)"
  | (some) k j pre post where "map_of (jq_jobs q) k = Some j" "job_status j = STATUS_PENDING"
      "jq_queue q = pre @ k # post" "\<forall>x \<in> set pre. \<not> is_pending (jq_jobs q) x"
      "claim_next_pending now q =
         (Some (j\<lparr>job_status := STATUS_RUNNING, job_started_at := Some now, job_heartbeat_at := Some now\<rparr>),
          persist_locked ((put_job k (j\<lparr>job_status := STATUS_RUNNING, job_started_at := Some now,
            job_heartbeat_at := Some now\<rparr>) q)\<lparr>jq_queue := pre @ post\<rparr>))"
proof (cases "find_pending (jq_jobs q) (jq_queue q)")
  case None
  then show ?thesis by (intro none) (simp_all add: claim_next_pending_def)
next
  case (Some p)
  obtain k rest where p: "p = (k, rest)" by (cases p)
  from find_pending_Some [of "jq_jobs q" "jq_queue q" k rest] Some p
  obtain pre post where kp: "is_pending (jq_jobs q) k" and
    q: "jq_queue q = pre @ k # post" "rest = pre @ post" "\<forall>x \<in> set pre. \<not> is_pending (jq_jobs q) x"
    by auto
  from kp obtain j where j: "map_of (jq_jobs q) k = Some j" "job_status j = STATUS_PENDING"
    by (auto simp: is_pending_def split: option.splits)
  show ?thesis
    by (rule some [OF j q(1,3)]) (simp add: claim_next_pending_def Some p j q(2) Let_def)
qed

lemma jq_inv_claim:
  assumes inv: "jq_inv q"
  shows "jq_inv (snd (claim_next_pending now q))"
proof (rule claim_cases [of q now])
  fix k j pre post
  assume j: "map_of (jq_jobs q) k = Some j" "job_status j = STATUS_PENDING"
    and q: "jq_queue q = pre @ k # post" and eq: "claim_next_pending now q =
         (Some (j\<lparr>job_status := STATUS_RUNNING, job_started_at := Some now, job_heartbeat_at := Some now\<rparr>),
          persist_locked ((put_job k (j\<lparr>job_status := STATUS_RUNNING, job_started_at := Some now,
            job_heartbeat_at := Some now\<rparr>) q)\<lparr>jq_queue := pre @ post\<rparr>))"
  have "distinct (jq_queue q)" using inv by (simp add: jq_inv_def)
  then show ?thesis
    unfolding eq snd_conv
    by (intro jq_inv_put [OF inv j(1)] job_ok_claimed jq_inv_jobD [OF inv j(1)]) (auto simp: q j)
qed (simp add: inv)

text \<open>A fresh id: no job, no queue entry and no idempotency key mentions it.\<close>

definition fresh_id :: "string \<Rightarrow> job_queue \<Rightarrow> bool" where
  "fresh_id u q = (u \<noteq> [] \<and> \<not> has_key (jq_jobs q) u \<and> u \<notin> set (jq_queue q)
     \<and> u \<notin> fst ` set (vals (jq_idem q)))"

lemma jq_inv_add:
  assumes inv: "jq_inv q" and fresh: "fresh_id u q" and ok: "job_ok u j"
    and idem: "\<And>key' v. map_of idem' key' = Some v \<Longrightarrow> map_of (jq_idem q) key' = Some v \<or>
      (v = (u, job_created_at j) \<and> key' = job_idempotency_key j)"
    and wf: "wf_dict idem'"
  shows "jq_inv (persist_locked (q\<lparr>jq_jobs := dset u j (jq_jobs q), jq_queue := jq_queue q @ [u], jq_idem := idem'\<rparr>))"
proof -
  have old: "map_of (jq_jobs q) u = None" "u \<notin> set (jq_queue q)"
    using fresh by (auto simp: fresh_id_def has_key_def)
  have "idem_ok (dset u j (jq_jobs q)) key' v" if "map_of idem' key' = Some v" for key' v
    using idem [OF that] jq_inv_idemD [OF inv, of key' v] old
    by (auto simp: idem_ok_def split: option.splits)
  with inv old ok wf show ?thesis
    by (simp add: jq_inv_def is_pending_def)
qed

lemma job_ok_new: "u \<noteq> [] \<Longrightarrow> name \<noteq> [] \<Longrightarrow> job_ok u (new_job u name p key own now)"
  by (simp add: job_ok_def new_job_def)

lemma map_of_idem_store:
  "map_of (idem_store key now u q) key' = (if key \<noteq> [] \<and> key' = key then Some (u, now) else map_of (jq_idem q) key')"
  by (auto simp: idem_store_def split: option.splits)

lemma wf_idem_store: "wf_dict (jq_idem q) \<Longrightarrow> wf_dict (idem_store key now u q)"
  by (auto simp: idem_store_def split: option.splits)

lemma jq_inv_enqueue:
  assumes inv: "jq_inv q" and fresh: "fresh_id u q"
  shows "jq_inv (snd (enqueue name p key own now u q))"
proof -
  have "wf_dict (jq_idem q)" "u \<noteq> []" using inv fresh by (simp_all add: jq_inv_def fresh_id_def)
  then have "name \<noteq> [] \<Longrightarrow> jq_inv (persist_locked (q\<lparr>jq_jobs := dset u (new_job u name p key own now) (jq_jobs q),
      jq_queue := jq_queue q @ [u], jq_idem := idem_store key now u q\<rparr>))"
    by (intro jq_inv_add [OF inv fresh] job_ok_new wf_idem_store)
       (auto simp: map_of_idem_store new_job_def split: if_splits)
  with inv show ?thesis by (simp add: enqueue_def Let_def split: option.splits)
qed

lemma reap_job_fields [simp]:
  "job_id (reap_job s now j) = job_id j"
  "job_idempotency_key (reap_job s now j) = job_idempotency_key j"
  "job_created_at (reap_job s now j) = job_created_at j"
  "job_progress (reap_job s now j) = job_progress j"
  by (simp_all add: reap_job_def)

lemma reap_job_status:
  "job_status (reap_job s now j) = (if is_stuck s now j then STATUS_FAILED else job_status j)"
  by (simp add: reap_job_def)

lemma reap_jobs [simp]:
  "jq_jobs (snd (reap_stuck_jobs now q)) = map (\<lambda>(k, j). (k, reap_job (jq_stuck_threshold q) now j)) (jq_jobs q)"
  "jq_queue (snd (reap_stuck_jobs now q)) = jq_queue q"
  "jq_idem (snd (reap_stuck_jobs now q)) = jq_idem q"
  by (simp_all add: reap_stuck_jobs_def Let_def)

lemma jq_inv_reap:
  assumes inv: "jq_inv q"
  shows "jq_inv (snd (reap_stuck_jobs now q))"
proof -
  have ok: "job_ok k (reap_job (jq_stuck_threshold q) now j)" if "job_ok k j" for k j
    using that by (auto simp: job_ok_def reap_job_def is_stuck_def)
  have pend: "is_pending (jq_jobs q) k"
    if "is_pending (map (\<lambda>(k, j). (k, reap_job (jq_stuck_threshold q) now j)) (jq_jobs q)) k" for k
    using that by (auto simp: is_pending_def map_of_map_snd reap_job_def split: option.splits if_splits)
  have "wf_dict (map (\<lambda>(k, j). (k, reap_job (jq_stuck_threshold q) now j)) (jq_jobs q))"
    using inv by (simp add: jq_inv_def wf_dict_def case_prod_unfold comp_def)
  moreover have "idem_ok (map (\<lambda>(k, j). (k, reap_job (jq_stuck_threshold q) now j)) (jq_jobs q)) key v
      = idem_ok (jq_jobs q) key v" for key v
    by (simp add: idem_ok_def map_of_map_snd split: option.splits)
  ultimately show ?thesis
    using inv ok pend by (simp add: jq_inv_def map_of_map_snd) blast
qed

definition expired_ids :: "rat \<Rightarrow> job_queue \<Rightarrow> string set" where
  "expired_ids now q = set (keys (filter (\<lambda>(k, j). is_expired (jq_job_retention q) now j) (jq_jobs q)))"

lemma purge_fields [simp]:
  "jq_jobs (snd (purge_old_jobs now q)) = filter (\<lambda>(k, j). k \<notin> expired_ids now q) (jq_jobs q)"
  "jq_queue (snd (purge_old_jobs now q)) = jq_queue q"
  "jq_idem (snd (purge_old_jobs now q)) = filter (\<lambda>(key, v). fst v \<notin> expired_ids now q) (jq_idem q)"
  by (auto simp: purge_old_jobs_def Let_def expired_ids_def keys_def filter_empty_conv
      intro!: filter_True [symmetric])

lemma map_of_filter_key:
  "map_of (filter (\<lambda>(k, v). P k) d) k = (if P k then map_of d k else None)"
  by (induction d) auto

lemma expired_ids_iff:
  "wf_dict (jq_jobs q) \<Longrightarrow> k \<in> expired_ids now q \<longleftrightarrow>
     (\<exists>j. map_of (jq_jobs q) k = Some j \<and> is_expired (jq_job_retention q) now j)"
  by (force simp: expired_ids_def keys_def wf_dict_mem)

lemma map_of_filter_subset:
  "wf_dict d \<Longrightarrow> map_of (filter (\<lambda>(k, v). P v) d) k = Some v \<Longrightarrow> map_of d k = Some v \<and> P v"
  by (simp add: map_of_filter_val split: option.splits if_splits)

lemma jq_inv_purge:
  assumes inv: "jq_inv q"
  shows "jq_inv (snd (purge_old_jobs now q))"
proof -
  have wf: "wf_dict (jq_idem q)" using inv by (simp add: jq_inv_def)
  have idem: "idem_ok (filter (\<lambda>(k, j). k \<notin> expired_ids now q) (jq_jobs q)) key v"
    if "map_of (filter (\<lambda>(key, v). fst v \<notin> expired_ids now q) (jq_idem q)) key = Some v" for key v
    using map_of_filter_subset [OF wf that] jq_inv_idemD [OF inv, of key v]
    by (simp add: idem_ok_def map_of_filter_key)
  have pend: "k \<in> set (jq_queue q)"
    if "is_pending (filter (\<lambda>(k, j). k \<notin> expired_ids now q) (jq_jobs q)) k" for k
    using that inv by (auto simp: jq_inv_def is_pending_def map_of_filter_key split: if_splits)
  show ?thesis
    using inv idem pend by (auto simp: jq_inv_def map_of_filter_key split: if_splits)
qed

subsection \<open>Reachable queues\<close>

text \<open>
  One step of the queue: any operation by any thread, each atomic under the queue's lock, with any
  clock reading. A new job's id is fresh, as \<open>uuid.uuid4\<close> documents.
\<close>

inductive jq_step :: "job_queue \<Rightarrow> job_queue \<Rightarrow> bool" where
  step_enqueue: "fresh_id u q \<Longrightarrow> jq_step q (snd (enqueue name p key own now u q))"
| step_claim: "jq_step q (snd (claim_next_pending now q))"
| step_heartbeat: "jq_step q (snd (heartbeat k now q))"
| step_progress: "jq_step q (snd (update_progress k pc m now q))"
| step_complete: "jq_step q (snd (complete k r now q))"
| step_fail: "jq_step q (snd (fail k e now q))"
| step_cancel: "jq_step q (snd (cancel k now q))"
| step_reap: "jq_step q (snd (reap_stuck_jobs now q))"
| step_purge: "jq_step q (snd (purge_old_jobs now q))"

definition empty_queue :: "rat \<Rightarrow> rat \<Rightarrow> rat \<Rightarrow> state_file option \<Rightarrow> job_queue" where
  "empty_queue ttl ret stuck f = \<lparr>jq_idempotency_ttl = ttl, jq_job_retention = ret,
     jq_stuck_threshold = stuck, jq_queue = [], jq_jobs = [], jq_idem = [], jq_store = f\<rparr>"

inductive jq_reachable :: "job_queue \<Rightarrow> bool" where
  reach_init: "jq_reachable (empty_queue ttl ret stuck f)"
| reach_step: "jq_reachable q \<Longrightarrow> jq_step q q' \<Longrightarrow> jq_reachable q'"

lemmas jq_inv_ops = jq_inv_enqueue jq_inv_claim jq_inv_heartbeat jq_inv_update_progress
  jq_inv_complete jq_inv_fail jq_inv_cancel jq_inv_reap jq_inv_purge

lemma jq_step_inv: "jq_step q q' \<Longrightarrow> jq_inv q \<Longrightarrow> jq_inv q'"
  by (induction rule: jq_step.induct) (auto intro: jq_inv_ops)

lemma jq_reachable_inv: "jq_reachable q \<Longrightarrow> jq_inv q"
proof (induction rule: jq_reachable.induct)
  case (reach_init ttl ret stuck f)
  show ?case by (simp add: empty_queue_def jq_inv_def is_pending_def)
next
  case (reach_step q q')
  then show ?case by (blast intro: jq_step_inv)
qed

subsection \<open>Order of the pending jobs\<close>

text \<open>The pending jobs appear in the queue in the order in which they were enqueued.\<close>

definition pend_keys :: "job table \<Rightarrow> string list" where
  "pend_keys jobs = map fst (filter (\<lambda>(k, j). job_status j = STATUS_PENDING) jobs)"

definition jq_order :: "job_queue \<Rightarrow> bool" where
  "jq_order q = (pending_ids q = pend_keys (jq_jobs q))"

lemma is_pending_dset:
  "is_pending (dset k j jobs) x = (if x = k then job_status j = STATUS_PENDING else is_pending jobs x)"
  by (simp add: is_pending_def)

lemma pend_keys_absent: "k \<notin> fst ` set jobs \<Longrightarrow> k \<notin> set (pend_keys jobs)"
  by (auto simp: pend_keys_def)

lemma filter_neq_absent: "k \<notin> set xs \<Longrightarrow> filter (\<lambda>x. x \<noteq> k) xs = xs"
  by (auto simp: filter_id_conv)

lemma pend_keys_Cons:
  "pend_keys ((k, j) # d) = (if job_status j = STATUS_PENDING then k # pend_keys d else pend_keys d)"
  by (simp add: pend_keys_def)

lemma pend_keys_put:
  "wf_dict jobs \<Longrightarrow> map_of jobs k = Some j0 \<Longrightarrow> job_status j \<noteq> STATUS_PENDING \<Longrightarrow>
     pend_keys (dset k j jobs) = filter (\<lambda>x. x \<noteq> k) (pend_keys jobs)"
proof (induction jobs)
  case (Cons p jobs)
  obtain k' j' where p: "p = (k', j')" by (cases p)
  show ?case
  proof (cases "k' = k")
    case True
    with Cons.prems p have "k \<notin> set (pend_keys jobs)"
      by (intro pend_keys_absent) (simp add: wf_dict_def)
    with True p Cons.prems show ?thesis by (simp add: pend_keys_Cons filter_neq_absent)
  next
    case False
    with p Cons show ?thesis by (simp add: pend_keys_Cons wf_dict_def)
  qed
qed simp

lemma pend_keys_put_same:
  "map_of jobs k = Some j0 \<Longrightarrow> (job_status j = STATUS_PENDING \<longleftrightarrow> job_status j0 = STATUS_PENDING) \<Longrightarrow>
     pend_keys (dset k j jobs) = pend_keys jobs"
  by (induction jobs) (auto simp: pend_keys_Cons split: if_splits)

lemma jq_order_put:
  assumes "jq_order q" and wf: "wf_dict (jq_jobs q)" and old: "map_of (jq_jobs q) k = Some j0"
    and "job_status j \<noteq> STATUS_PENDING"
    and qs: "\<And>P. \<not> P k \<Longrightarrow> filter P qs = filter P (jq_queue q)"
  shows "jq_order (persist_locked ((put_job k j q)\<lparr>jq_queue := qs\<rparr>))"
proof -
  have "filter (is_pending (dset k j (jq_jobs q))) qs
      = filter (\<lambda>x. x \<noteq> k) (filter (is_pending (jq_jobs q)) (jq_queue q))"
    using assms(4) by (subst qs) (auto simp: is_pending_dset intro!: filter_cong split: if_splits)
  with assms(1) pend_keys_put [OF wf old assms(4)] show ?thesis
    by (simp add: jq_order_def pending_ids_def)
qed

lemma jq_order_put_same:
  assumes "jq_order q" and old: "map_of (jq_jobs q) k = Some j0"
    and "job_status j = STATUS_PENDING \<longleftrightarrow> job_status j0 = STATUS_PENDING"
  shows "jq_order (persist_locked (put_job k j q))"
proof -
  have "is_pending (dset k j (jq_jobs q)) = is_pending (jq_jobs q)"
    using assms by (auto simp: is_pending_dset is_pending_def fun_eq_iff)
  with assms pend_keys_put_same [OF old assms(3)] show ?thesis
    by (simp add: jq_order_def pending_ids_def)
qed

lemma put_job_queue_same: "(put_job k j q)\<lparr>jq_queue := jq_queue q\<rparr> = put_job k j q"
  by (simp add: put_job_def)

lemma jq_order_put_any:
  assumes "jq_order q" and wf: "wf_dict (jq_jobs q)" and old: "map_of (jq_jobs q) k = Some j0"
    and "job_status j = STATUS_PENDING \<longrightarrow> job_status j0 = STATUS_PENDING"
  shows "jq_order (persist_locked (put_job k j q))"
  using jq_order_put [OF assms(1,2,3), of j "jq_queue q"] jq_order_put_same [OF assms(1,3), of j] assms(4)
  by (cases "job_status j = STATUS_PENDING") (auto simp: put_job_queue_same)

lemma jq_order_change_job:
  assumes o: "jq_order q" "wf_dict (jq_jobs q)"
    and f: "\<And>j j'. f j = Inr j' \<Longrightarrow> job_status j' = STATUS_PENDING \<longrightarrow> job_status j = STATUS_PENDING"
  shows "jq_order (snd (change_job k f q))"
proof (cases "rbind (require k q) f")
  case (Inr j')
  then obtain j where j: "map_of (jq_jobs q) k = Some j" "f j = Inr j'"
    by (auto simp: rbind_eq_Inr require_Inr)
  with Inr show ?thesis using jq_order_put_any [OF o j(1) f [OF j(2)]] by (simp add: snd_change_job)
qed (simp add: snd_change_job o)

lemma jq_order_step:
  assumes step: "jq_step q q'" and inv: "jq_inv q" and o: "jq_order q"
  shows "jq_order q'"
proof -
  have wf: "wf_dict (jq_jobs q)" using inv by (simp add: jq_inv_def)
  show ?thesis using step
  proof cases
    case (step_enqueue u name p key own now)
    have "filter (is_pending (dset u j (jq_jobs q))) (jq_queue q) = filter (is_pending (jq_jobs q)) (jq_queue q)" for j
      using step_enqueue(2) by (intro filter_cong) (auto simp: is_pending_dset fresh_id_def)
    moreover have "pend_keys (dset u (new_job u name p key own now) (jq_jobs q)) = pend_keys (jq_jobs q) @ [u]"
      using step_enqueue(2) by (simp add: fresh_id_def dset_absent pend_keys_def new_job_def)
    moreover have "job_status (new_job u name p key own now) = STATUS_PENDING"
      by (simp add: new_job_def)
    ultimately show ?thesis
      using o unfolding step_enqueue(1)
      by (simp add: enqueue_def Let_def jq_order_def pending_ids_def is_pending_dset split: option.splits)
  next
    case (step_claim now)
    show ?thesis unfolding step_claim
      by (rule claim_cases [of q now]) (simp_all add: o jq_order_put [OF o wf])
  next
    case (step_fail k e now)
    show ?thesis unfolding step_fail
      by (auto simp: fail_def o require_Inr split: sum.splits intro!: jq_order_put_any [OF o wf])
  next
    case (step_cancel k now)
    have "filter P (remove1 k (jq_queue q)) = filter P (jq_queue q)" if "\<not> P k" for P
      using that by (simp add: filter_remove1 remove1_idem)
    then show ?thesis unfolding step_cancel
      by (auto simp: cancel_def o require_Inr split: sum.splits
          intro!: jq_order_put_any [OF o wf] jq_order_put [OF o wf])
  next
    case (step_reap now)
    have pk: "pend_keys (map (\<lambda>(k, j). (k, reap_job s now j)) d) = pend_keys d" for d s
      by (auto simp: pend_keys_def filter_map comp_def case_prod_unfold reap_job_status is_stuck_def
          intro!: arg_cong [of _ _ "map fst"] filter_cong)
    have "is_pending (map (\<lambda>(k, j). (k, reap_job s now j)) d) = is_pending d" for d s
      by (auto simp: fun_eq_iff is_pending_def map_of_map_snd reap_job_status is_stuck_def split: option.splits)
    with o pk show ?thesis unfolding step_reap by (simp add: jq_order_def pending_ids_def)
  next
    case (step_purge now)
    have "is_pending (filter (\<lambda>(k, j). k \<notin> expired_ids now q) (jq_jobs q)) = is_pending (jq_jobs q)"
      using expired_ids_iff [OF wf, of _ now]
      by (auto simp: fun_eq_iff is_pending_def map_of_filter_key is_expired_def split: option.splits)
    moreover have "pend_keys (filter (\<lambda>(k, j). k \<notin> expired_ids now q) (jq_jobs q)) = pend_keys (jq_jobs q)"
      using expired_ids_iff [OF wf, of _ now] wf_dict_mem [OF wf]
      by (auto simp: pend_keys_def is_expired_def intro!: arg_cong [of _ _ "map fst"] filter_cong)
    ultimately show ?thesis using o unfolding step_purge by (simp add: jq_order_def pending_ids_def)
  qed (auto simp: heartbeat_def update_progress_def complete_def rbind_eq_Inr assert_running_Inr
      intro!: jq_order_change_job [OF o wf])
qed

lemma jq_reachable_order: "jq_reachable q \<Longrightarrow> jq_order q"
proof (induction rule: jq_reachable.induct)
  case (reach_init ttl ret stuck f)
  show ?case by (simp add: empty_queue_def jq_order_def pending_ids_def pend_keys_def)
next
  case (reach_step q q')
  then show ?case using jq_order_step jq_reachable_inv by blast
qed

subsection \<open>Draining the queue\<close>

text \<open>
  The contract between the queue and its workers: \<open>claim\<close> takes the first waiting item. A client
  that claims repeatedly gets every waiting item once, in order.
\<close>

locale work_queue =
  fixes waiting :: "'s \<Rightarrow> 'a list"
    and claim :: "'s \<Rightarrow> 'a option \<times> 's"
    and inv :: "'s \<Rightarrow> bool"
  assumes claim_none: "inv s \<Longrightarrow> waiting s = [] \<Longrightarrow> claim s = (None, s)"
    and claim_some: "inv s \<Longrightarrow> waiting s = x # xs \<Longrightarrow> fst (claim s) = Some x \<and> waiting (snd (claim s)) = xs"
    and claim_inv: "inv s \<Longrightarrow> inv (snd (claim s))"
begin

primrec claims :: "nat \<Rightarrow> 's \<Rightarrow> 'a list \<times> 's" where
  "claims 0 s = ([], s)"
| "claims (Suc n) s = (case claim s of
      (None, s1) \<Rightarrow> ([], s1)
    | (Some x, s1) \<Rightarrow> let (xs, s2) = claims n s1 in (x # xs, s2))"

lemma claims_take: "inv s \<Longrightarrow> fst (claims n s) = take n (waiting s)"
proof (induction n arbitrary: s)
  case (Suc n)
  show ?case
  proof (cases "waiting s")
    case Nil
    with Suc.prems show ?thesis by (simp add: claim_none)
  next
    case (Cons x xs)
    with claim_some [OF Suc.prems] have c: "fst (claim s) = Some x" "waiting (snd (claim s)) = xs" by auto
    moreover have "fst (claims n (snd (claim s))) = take n xs"
      using Suc.IH [OF claim_inv [OF Suc.prems]] c by simp
    ultimately show ?thesis using Cons by (cases "claim s") (auto simp: case_prod_unfold Let_def)
  qed
qed simp

lemma claims_waiting: "inv s \<Longrightarrow> waiting (snd (claims n s)) = drop n (waiting s)"
proof (induction n arbitrary: s)
  case (Suc n)
  show ?case
  proof (cases "waiting s")
    case Nil
    with Suc.prems show ?thesis by (simp add: claim_none)
  next
    case (Cons x xs)
    with claim_some [OF Suc.prems] have c: "fst (claim s) = Some x" "waiting (snd (claim s)) = xs" by auto
    moreover have "waiting (snd (claims n (snd (claim s)))) = drop n xs"
      using Suc.IH [OF claim_inv [OF Suc.prems]] c by simp
    ultimately show ?thesis using Cons by (cases "claim s") (auto simp: case_prod_unfold Let_def)
  qed
qed simp

end

definition claim_id :: "rat \<Rightarrow> job_queue \<Rightarrow> string option \<times> job_queue" where
  "claim_id now q = (let (r, q') = claim_next_pending now q in (map_option job_id r, q'))"

lemma pending_ids_claim:
  assumes inv: "jq_inv q" and ids: "pending_ids q = x # xs"
  shows "fst (claim_id now q) = Some x \<and> pending_ids (snd (claim_id now q)) = xs"
proof (rule claim_cases [of q now])
  assume "find_pending (jq_jobs q) (jq_queue q) = None"
  then show ?thesis using ids by (simp add: find_pending_None pending_ids_def)
next
  fix k :: string and j :: job and pre post :: "string list"
  let ?j = "j\<lparr>job_status := STATUS_RUNNING, job_started_at := Some now, job_heartbeat_at := Some now\<rparr>"
  assume j: "map_of (jq_jobs q) k = Some j" "job_status j = STATUS_PENDING"
    and q: "jq_queue q = pre @ k # post" "\<forall>x \<in> set pre. \<not> is_pending (jq_jobs q) x"
    and eq: "claim_next_pending now q =
         (Some ?j, persist_locked ((put_job k ?j q)\<lparr>jq_queue := pre @ post\<rparr>))"
  have kp: "is_pending (jq_jobs q) k" using j by (simp add: is_pending_def)
  have "k \<notin> set post" "k \<notin> set pre" using inv q by (auto simp: jq_inv_def)
  then have "filter (is_pending (dset k ?j (jq_jobs q))) post = filter (is_pending (jq_jobs q)) post"
    by (intro filter_cong) (auto simp: is_pending_dset)
  moreover have "filter (is_pending (dset k ?j (jq_jobs q))) pre = []"
    using q \<open>k \<notin> set pre\<close> by (auto simp: filter_empty_conv is_pending_dset)
  moreover have "x = k" "xs = filter (is_pending (jq_jobs q)) post"
    using ids kp q by (auto simp: pending_ids_def filter_empty_conv [THEN iffD2])
  ultimately show ?thesis
    using jq_inv_jobD [OF inv j(1)] by (simp add: claim_id_def eq pending_ids_def job_ok_def)
qed

interpretation jobs: work_queue pending_ids "claim_id now" jq_inv for now
proof unfold_locales
  fix s
  assume "jq_inv s" "pending_ids s = []"
  then have "find_pending (jq_jobs s) (jq_queue s) = None"
    by (simp only: find_pending_None pending_ids_def)
  then show "claim_id now s = (None, s)"
    by (simp add: claim_id_def claim_next_pending_def)
next
  fix s
  assume "jq_inv s"
  then show "jq_inv (snd (claim_id now s))"
    using jq_inv_claim [of s now] by (simp add: claim_id_def case_prod_unfold Let_def)
qed (rule pending_ids_claim)

subsection \<open>Life cycle of a job\<close>

text \<open>The fields that never change, and the outcome of a finished job.\<close>

definition same_identity :: "job \<Rightarrow> job \<Rightarrow> bool" where
  "same_identity j j' = (job_id j' = job_id j \<and> job_name j' = job_name j \<and> job_payload j' = job_payload j
     \<and> job_owner j' = job_owner j \<and> job_idempotency_key j' = job_idempotency_key j
     \<and> job_created_at j' = job_created_at j)"

definition same_outcome :: "job \<Rightarrow> job \<Rightarrow> bool" where
  "same_outcome j j' = (job_status j' = job_status j \<and> job_result j' = job_result j
     \<and> job_error j' = job_error j \<and> job_finished_at j' = job_finished_at j \<and> job_progress j' = job_progress j)"

definition legal_transition :: "string \<Rightarrow> string \<Rightarrow> bool" where
  "legal_transition s s' = (s' = s \<or>
     (s = STATUS_PENDING \<and> s' \<in> {STATUS_RUNNING, STATUS_FAILED, STATUS_CANCELLED}) \<or>
     (s = STATUS_RUNNING \<and> s' \<in> {STATUS_COMPLETED, STATUS_FAILED}))"

fun job_evolves :: "job option \<Rightarrow> job option \<Rightarrow> bool" where
  "job_evolves None None = True"
| "job_evolves None (Some j') = (job_status j' = STATUS_PENDING)"
| "job_evolves (Some j) None = (job_status j \<in> TERMINAL_STATUSES)"
| "job_evolves (Some j) (Some j') = (same_identity j j' \<and> legal_transition (job_status j) (job_status j')
     \<and> (job_status j \<in> TERMINAL_STATUSES \<longrightarrow> same_outcome j j'))"

lemma job_evolves_refl [simp]: "job_evolves x x"
  by (cases x) (simp_all add: same_identity_def legal_transition_def same_outcome_def)

lemma job_evolves_dset:
  assumes "map_of jobs k0 = Some j0" and "job_evolves (Some j0) (Some j)"
  shows "job_evolves (map_of jobs k) (map_of (dset k0 j jobs) k)"
  using assms by simp

lemma job_evolves_change_job:
  assumes "\<And>j j'. map_of (jq_jobs q) k0 = Some j \<Longrightarrow> f j = Inr j' \<Longrightarrow> job_evolves (Some j) (Some j')"
  shows "job_evolves (map_of (jq_jobs q) k) (map_of (jq_jobs (snd (change_job k0 f q))) k)"
  using assms by (auto simp: snd_change_job rbind_eq_Inr require_Inr split: sum.splits)

lemma unfinished_statuses:
  "job_ok k j \<Longrightarrow> job_status j \<notin> TERMINAL_STATUSES \<Longrightarrow> job_status j = STATUS_PENDING \<or> job_status j = STATUS_RUNNING"
  by (auto simp: job_ok_def)

lemma job_evolves_step:
  assumes step: "jq_step q q'" and inv: "jq_inv q"
  shows "job_evolves (map_of (jq_jobs q) k) (map_of (jq_jobs q') k)"
proof -
  have wf: "wf_dict (jq_jobs q)" using inv by (simp add: jq_inv_def)
  note simps = same_identity_def legal_transition_def same_outcome_def
  show ?thesis using step
  proof cases
    case (step_enqueue u name p key own now)
    then show ?thesis
      by (auto simp: enqueue_def Let_def new_job_def fresh_id_def has_key_def split: option.splits)
  next
    case (step_claim now)
    show ?thesis unfolding step_claim
      by (rule claim_cases [of q now]) (auto simp: simps)
  next
    case (step_heartbeat k now)
    then show ?thesis
      by (auto simp: heartbeat_def simps intro!: job_evolves_change_job)
  next
    case (step_fail k0 e now)
    then show ?thesis
      using unfinished_statuses [OF jq_inv_jobD [OF inv, of k0]]
      by (auto simp: fail_def require_Inr simps split: sum.splits)
  next
    case (step_cancel k0 now)
    then show ?thesis
      by (auto simp: cancel_def require_Inr simps split: sum.splits)
  next
    case (step_reap now)
    then show ?thesis
      by (cases "map_of (jq_jobs q) k")
         (auto simp: map_of_map_snd reap_job_def is_stuck_def simps)
  next
    case (step_purge now)
    then show ?thesis
      using expired_ids_iff [OF wf, of k now]
      by (cases "map_of (jq_jobs q) k") (auto simp: map_of_filter_key is_expired_def simps)
  qed (auto simp: update_progress_def complete_def rbind_eq_Inr assert_running_Inr simps
      intro!: job_evolves_change_job)
qed

subsection \<open>Recovery from the state file\<close>

text \<open>What a restart of the control plane makes of a persisted job; a creation time of zero counts as absent.\<close>

definition restart_job :: "rat \<Rightarrow> job \<Rightarrow> job" where
  "restart_job now j = (let j1 = (if job_created_at j = 0 then j\<lparr>job_created_at := now\<rparr> else j)
     in if job_status j = STATUS_RUNNING
     then j1\<lparr>job_status := STATUS_FAILED, job_error := ''interrupted by control-plane restart'',
            job_finished_at := Some now\<rparr>
     else j1)"

lemma load_opt_float_roundtrip:
  "pget raw k = opt_float x \<Longrightarrow> load_opt_float raw k = Inr x"
  by (cases x) (simp_all add: load_opt_float_def opt_float_def)

lemma load_job_roundtrip:
  assumes "job_status j \<noteq> []"
  shows "load_job now (dict_of (job_as_dict j)) = Inr (if job_created_at j = 0 then j\<lparr>job_created_at := now\<rparr> else j)"
  using assms unfolding load_job_def
  by (subst load_opt_float_roundtrip [where x = "job_started_at j"], simp add: job_as_dict_def,
      subst load_opt_float_roundtrip [where x = "job_finished_at j"], simp add: job_as_dict_def,
      subst load_opt_float_roundtrip [where x = "job_heartbeat_at j"], simp add: job_as_dict_def)
     (simp add: job_as_dict_def)

lemma load_entry_roundtrip:
  assumes "job_ok k j"
  shows "jq_jobs (load_entry now (job_as_dict j) q) = dset k (restart_job now j) (jq_jobs q)"
    and "jq_queue (load_entry now (job_as_dict j) q) =
      (if job_status j = STATUS_PENDING then jq_queue q @ [k] else jq_queue q)"
proof -
  have "job_status j \<noteq> []" using assms by (auto simp: job_ok_def TERMINAL_STATUSES_def)
  then have l: "load_job now (dict_of (job_as_dict j)) = Inr (if job_created_at j = 0 then j\<lparr>job_created_at := now\<rparr> else j)"
    by (rule load_job_roundtrip)
  have d: "is_dict (job_as_dict j)" by (simp add: job_as_dict_def)
  show "jq_jobs (load_entry now (job_as_dict j) q) = dset k (restart_job now j) (jq_jobs q)"
    and "jq_queue (load_entry now (job_as_dict j) q) =
      (if job_status j = STATUS_PENDING then jq_queue q @ [k] else jq_queue q)"
    using assms by (auto simp: load_entry_def d l Let_def restart_job_def job_ok_def)
qed

lemma load_entries_roundtrip:
  assumes "wf_dict (jq_jobs q @ d)" and "\<And>k j. (k, j) \<in> set d \<Longrightarrow> job_ok k j"
  shows "jq_jobs (fold (load_entry now) (map (\<lambda>(k, j). job_as_dict j) d) q)
           = jq_jobs q @ map (\<lambda>(k, j). (k, restart_job now j)) d
       \<and> jq_queue (fold (load_entry now) (map (\<lambda>(k, j). job_as_dict j) d) q) = jq_queue q @ pend_keys d"
  using assms
proof (induction d arbitrary: q)
  case Nil
  then show ?case by (simp add: pend_keys_def)
next
  case (Cons p d)
  obtain k j where p: "p = (k, j)" by (cases p)
  have ok: "job_ok k j" using Cons.prems p by auto
  have "\<not> has_key (jq_jobs q) k" using Cons.prems(1) p by (auto simp: wf_dict_def has_key_iff)
  then have e: "jq_jobs (load_entry now (job_as_dict j) q) = jq_jobs q @ [(k, restart_job now j)]"
    using load_entry_roundtrip(1) [OF ok] by (simp add: dset_absent)
  have wf: "wf_dict (jq_jobs (load_entry now (job_as_dict j) q) @ d)"
    using Cons.prems(1) p e by (simp add: wf_dict_def)
  have ok': "job_ok k j" if "(k, j) \<in> set d" for k j
    by (rule Cons.prems(2)) (simp add: that)
  from Cons.IH [OF wf ok'] show ?case
    by (simp add: p e load_entry_roundtrip(2) [OF ok] pend_keys_Cons)
qed

text \<open>A queue that began without a file and has saved its tables after every change.\<close>

definition file_agrees :: "job_queue \<Rightarrow> bool" where
  "file_agrees q = (jq_store q = Some (Contents (jq_snapshot q)) \<or> jq_store q = Some Missing \<and> jq_jobs q = [])"

lemma snapshot_store [simp]: "jq_snapshot (q\<lparr>jq_store := f\<rparr>) = jq_snapshot q"
  by (simp add: jq_snapshot_def)

lemma agrees_persist: "jq_store q \<noteq> None \<Longrightarrow> file_agrees (persist_locked q)"
  by (auto simp: file_agrees_def persist_locked_def store_save_def atomic_write_def)

lemma agrees_store: "file_agrees q \<Longrightarrow> jq_store q \<noteq> None"
  by (auto simp: file_agrees_def)

lemma agrees_put: "jq_store q \<noteq> None \<Longrightarrow> file_agrees (persist_locked (put_job k j q))"
  by (rule agrees_persist) (simp add: put_job_def)

lemma agrees_change_job: "file_agrees q \<Longrightarrow> file_agrees (snd (change_job k f q))"
  by (auto simp: snd_change_job agrees_store agrees_put split: sum.splits)

lemma agrees_enqueue: "file_agrees q \<Longrightarrow> file_agrees (snd (enqueue name p key own now u q))"
  using agrees_store [of q] by (auto simp: enqueue_def Let_def intro: agrees_persist split: option.splits)

lemma agrees_claim: "file_agrees q \<Longrightarrow> file_agrees (snd (claim_next_pending now q))"
  using agrees_store [of q]
  by (auto simp: claim_next_pending_def put_job_def Let_def intro!: agrees_persist split: option.splits)

lemma agrees_fail: "file_agrees q \<Longrightarrow> file_agrees (snd (fail k e now q))"
  using agrees_store [of q] by (auto simp: fail_def intro!: agrees_put split: sum.splits)

lemma agrees_cancel: "file_agrees q \<Longrightarrow> file_agrees (snd (cancel k now q))"
  using agrees_store [of q] by (auto simp: cancel_def put_job_def intro!: agrees_persist split: sum.splits)

lemma reap_none: "filter (is_stuck t now) (vals d) = [] \<Longrightarrow> map (\<lambda>(k, j). (k, reap_job t now j)) d = d"
  by (auto simp: vals_def filter_empty_conv reap_job_def intro!: map_idI)

lemma agrees_reap: "file_agrees q \<Longrightarrow> file_agrees (snd (reap_stuck_jobs now q))"
  using agrees_store [of q] reap_none [of "jq_stuck_threshold q" now "jq_jobs q"]
  by (auto simp: reap_stuck_jobs_def Let_def intro!: agrees_persist)

lemma agrees_purge: "file_agrees q \<Longrightarrow> file_agrees (snd (purge_old_jobs now q))"
  using agrees_store [of q] by (auto simp: purge_old_jobs_def Let_def intro!: agrees_persist)

lemmas agrees_ops = agrees_enqueue agrees_claim agrees_fail agrees_cancel agrees_reap agrees_purge
  agrees_change_job [of q k "\<lambda>j. Inr (j\<lparr>job_heartbeat_at := Some now\<rparr>)" for q k now, folded heartbeat_def]

lemma jq_step_agrees: "jq_step q q' \<Longrightarrow> file_agrees q \<Longrightarrow> file_agrees q'"
  by (induction rule: jq_step.induct)
     (simp_all add: agrees_ops agrees_change_job update_progress_def complete_def)

lemma jq_run_agrees: "jq_step\<^sup>*\<^sup>* q q' \<Longrightarrow> file_agrees q \<Longrightarrow> file_agrees q'"
  by (induction rule: rtranclp_induct) (auto intro: jq_step_agrees)

lemma jq_run_reachable: "jq_step\<^sup>*\<^sup>* (empty_queue ttl ret stuck f) q \<Longrightarrow> jq_reachable q"
  by (induction rule: rtranclp_induct) (auto intro: reach_init reach_step)

subsection \<open>Properties\<close>

text \<open>C25: In every reachable queue the tables agree: ids are unique and non-empty, progress is within
  0 to 100, a job has a finish time exactly when its status is terminal, every pending job is
  queued exactly once, and every idempotency key refers to an existing job that carries it.\<close>

theorem job_queue_invariant: "jq_reachable q \<Longrightarrow> jq_inv q"
  by (rule jq_reachable_inv)

definition demo_queue :: job_queue where
  "demo_queue = snd (enqueue ''vm.snapshot'' [] ''k1'' ''alice'' 100 ''a1'' (empty_queue 60 600 30 None))"

lemma demo_queue_reachable: "jq_reachable demo_queue"
  unfolding demo_queue_def
  by (rule reach_step [OF reach_init step_enqueue]) (simp add: fresh_id_def empty_queue_def has_key_def vals_def)

lemma demo_queue_fields:
  "jq_jobs demo_queue = [(''a1'', new_job ''a1'' ''vm.snapshot'' [] ''k1'' ''alice'' 100)]"
  "jq_queue demo_queue = [''a1'']" "jq_idem demo_queue = [(''k1'', (''a1'', 100))]"
  "jq_idempotency_ttl demo_queue = 60" "jq_job_retention demo_queue = 600"
  "jq_stuck_threshold demo_queue = 30" "jq_store demo_queue = None"
  by (simp_all add: demo_queue_def enqueue_def empty_queue_def idem_hit_def idem_store_def persist_locked_def Let_def)

theorem job_queue_invariant_witness: "jq_reachable demo_queue \<and> jq_inv demo_queue \<and> jq_queue demo_queue = [''a1'']"
  using demo_queue_reachable job_queue_invariant [OF demo_queue_reachable] by (simp add: demo_queue_fields)

text \<open>C26: A step never changes what identifies a job; its status only moves from pending to running,
  failed or cancelled and from running to completed or failed; a finished job keeps its status,
  result, error and finish time until the purge removes it; only finished jobs are removed.\<close>

theorem job_lifecycle:
  assumes "jq_reachable q" and "jq_step q q'"
  shows "job_evolves (map_of (jq_jobs q) k) (map_of (jq_jobs q') k)"
  using assms(2) jq_reachable_inv [OF assms(1)] by (rule job_evolves_step)

theorem job_lifecycle_witness:
  "jq_step demo_queue (snd (cancel ''a1'' 105 demo_queue))
   \<and> job_evolves (map_of (jq_jobs demo_queue) ''a1'') (map_of (jq_jobs (snd (cancel ''a1'' 105 demo_queue))) ''a1'')"
  using step_cancel [of demo_queue "''a1''" 105]
    job_lifecycle [OF demo_queue_reachable step_cancel, where k = "''a1''"] by simp

text \<open>C27: Workers that claim repeatedly receive exactly the pending jobs, each once, in the order in
  which the jobs were enqueued, whatever other operations ran before.\<close>

theorem claims_in_enqueue_order:
  assumes "jq_reachable q"
  shows "fst (jobs.claims now n q) = take n (pend_keys (jq_jobs q))"
  using jobs.claims_take [OF jq_reachable_inv [OF assms]] jq_reachable_order [OF assms]
  by (simp add: jq_order_def)

theorem claims_in_enqueue_order_witness:
  "fst (jobs.claims 101 5 demo_queue) = [''a1'']"
  using claims_in_enqueue_order [OF demo_queue_reachable, of 101 5]
  by (simp add: pend_keys_def demo_queue_fields new_job_def)

text \<open>Enqueueing is idempotent: once a key has produced a job, every enqueue with the same key
  within the time to live, counted from the creation of the job, returns that job and leaves the
  queue as it is.\<close>

lemma enqueue_idempotent:
  assumes "jq_reachable q" and "fresh_id u q" and "name \<noteq> []" and "key \<noteq> []"
    and first: "enqueue name p key own now u q = (Inr j, q1)"
    and "name' \<noteq> []" and ttl: "now' - job_created_at j < jq_idempotency_ttl q"
  shows "enqueue name' p' key own' now' u' q1 = (Inr j, q1)"
proof (cases "idem_hit key now q")
  case None
  with first assms(3,4) have "j = new_job u name p key own now"
    "map_of (jq_idem q1) key = Some (u, now)" "map_of (jq_jobs q1) u = Some j"
    "jq_idempotency_ttl q1 = jq_idempotency_ttl q"
    by (auto simp: enqueue_def Let_def map_of_idem_store)
  with ttl assms(4,6) show ?thesis by (simp add: enqueue_def idem_hit_def new_job_def)
next
  case (Some j0)
  with first assms(3) have eq: "j = j0" "q1 = q" by (auto simp: enqueue_def)
  from Some obtain jid created where i: "map_of (jq_idem q) key = Some (jid, created)"
    "map_of (jq_jobs q) jid = Some j0"
    by (auto simp: idem_hit_def split: if_splits option.splits)
  then have "created = job_created_at j0"
    using jq_inv_idemD [OF jq_reachable_inv [OF assms(1)] i(1)] by (simp add: idem_ok_def)
  with i eq ttl assms(4,6) show ?thesis by (simp add: enqueue_def idem_hit_def)
qed

text \<open>Expired jobs are purged and nothing else is: a job survives exactly when it is not a
  finished job past the retention time, the count is the number of removed jobs, and no
  idempotency key is left that refers to a removed job.\<close>

lemma purge_exact:
  assumes "jq_reachable q"
  shows "map_of (jq_jobs (snd (purge_old_jobs now q))) k =
      (case map_of (jq_jobs q) k of None \<Rightarrow> None
       | Some j \<Rightarrow> if is_expired (jq_job_retention q) now j then None else Some j)
    \<and> fst (purge_old_jobs now q) + length (jq_jobs (snd (purge_old_jobs now q))) = length (jq_jobs q)
    \<and> jq_inv (snd (purge_old_jobs now q))"
proof -
  have inv: "jq_inv q" by (rule jq_reachable_inv [OF assms])
  then have wf: "wf_dict (jq_jobs q)" by (simp add: jq_inv_def)
  have mem: "(k, j) \<in> set (jq_jobs q) \<Longrightarrow> k \<notin> expired_ids now q \<longleftrightarrow> \<not> is_expired (jq_job_retention q) now j" for k j
    using wf_dict_mem [OF wf] expired_ids_iff [OF wf] by auto
  have "filter (\<lambda>(k, j). k \<notin> expired_ids now q) (jq_jobs q)
      = filter (\<lambda>p. \<not> (case p of (k, j) \<Rightarrow> is_expired (jq_job_retention q) now j)) (jq_jobs q)"
    using mem by (intro filter_cong) auto
  moreover have "fst (purge_old_jobs now q)
      = length (filter (\<lambda>(k, j). is_expired (jq_job_retention q) now j) (jq_jobs q))"
    by (simp add: purge_old_jobs_def Let_def keys_def)
  ultimately have "fst (purge_old_jobs now q) + length (jq_jobs (snd (purge_old_jobs now q))) = length (jq_jobs q)"
    by (simp add: sum_length_filter_compl)
  then show ?thesis
    using jq_inv_purge [OF inv] expired_ids_iff [OF wf, of k now]
    by (simp add: map_of_filter_key split: option.splits)
qed

text \<open>C29: A restart of the control plane recovers the queue from its own state file: whatever operations a queue that
  began without a file has gone through, the queue opened over the file it left has every job again,
  unchanged except that a running job is marked failed as interrupted and a creation time of zero is replaced
  by the time of the restart, and the pending jobs are queued again in the same order.\<close>

theorem restart_recovers:
  assumes "jq_step\<^sup>*\<^sup>* (empty_queue ttl ret stuck (Some Missing)) q"
  shows "\<exists>q'. job_queue_init ttl' ret' stuck' (jq_store q) now = Inr q'
     \<and> jq_jobs q' = map (\<lambda>(k, j). (k, restart_job now j)) (jq_jobs q) \<and> jq_queue q' = pending_ids q"
proof -
  have r: "jq_reachable q" by (rule jq_run_reachable [OF assms])
  then have inv: "jq_inv q" by (rule jq_reachable_inv)
  then have wf: "wf_dict (jq_jobs q)" by (simp add: jq_inv_def)
  have ord: "pending_ids q = pend_keys (jq_jobs q)" using jq_reachable_order [OF r] by (simp add: jq_order_def)
  let ?q0 = "\<lparr>jq_idempotency_ttl = ttl', jq_job_retention = ret', jq_stuck_threshold = stuck',
      jq_queue = [], jq_jobs = [], jq_idem = [], jq_store = jq_store q\<rparr>"
  have ok: "job_ok k j" if "(k, j) \<in> set (jq_jobs q)" for k j
    using that jq_inv_jobD [OF inv] wf_dict_mem [OF wf] by force
  have "file_agrees q" by (rule jq_run_agrees [OF assms]) (simp add: file_agrees_def empty_queue_def)
  then have "job_queue_init ttl' ret' stuck' (jq_store q) now
      = Inr (fold (load_entry now) (map (\<lambda>(k, j). job_as_dict j) (jq_jobs q)) ?q0)"
    by (auto simp: file_agrees_def job_queue_init_def load_persisted_state_def jq_snapshot_def)
  then show ?thesis
    using load_entries_roundtrip [of ?q0 "jq_jobs q", OF _ ok] wf ord by simp
qed

text \<open>Two jobs, the first of them claimed: a restart at time 200 marks it failed and queues the second again.\<close>

definition demo_stored :: job_queue where
  "demo_stored = snd (claim_next_pending 102 (snd (enqueue ''vm.snapshot'' [] [] ''bob'' 101 ''a2''
     (snd (enqueue ''vm.snapshot'' [] ''k1'' ''alice'' 100 ''a1'' (empty_queue 60 600 30 (Some Missing)))))))"

theorem restart_recovers_witness:
  "\<exists>q'. job_queue_init 60 600 30 (jq_store demo_stored) 200 = Inr q'
     \<and> map (\<lambda>(k, j). (k, job_status j, job_finished_at j)) (jq_jobs q')
       = [(''a1'', STATUS_FAILED, Some 200), (''a2'', STATUS_PENDING, None)] \<and> jq_queue q' = [''a2'']"
proof -
  let ?e = "empty_queue 60 600 30 (Some Missing)"
  let ?q1 = "snd (enqueue ''vm.snapshot'' [] ''k1'' ''alice'' 100 ''a1'' ?e)"
  let ?q2 = "snd (enqueue ''vm.snapshot'' [] [] ''bob'' 101 ''a2'' ?q1)"
  have "jq_step ?e ?q1" by (rule step_enqueue) code_simp
  moreover have "jq_step ?q1 ?q2" by (rule step_enqueue) code_simp
  moreover have "jq_step ?q2 demo_stored" unfolding demo_stored_def by (rule step_claim)
  ultimately have "jq_step\<^sup>*\<^sup>* ?e demo_stored" by (meson rtranclp.rtrancl_into_rtrancl rtranclp.rtrancl_refl)
  from restart_recovers [OF this, of 60 600 30 200]
  obtain q' where q': "job_queue_init 60 600 30 (jq_store demo_stored) 200 = Inr q'"
    "jq_jobs q' = map (\<lambda>(k, j). (k, restart_job 200 j)) (jq_jobs demo_stored)" "jq_queue q' = pending_ids demo_stored" by blast
  have "map (\<lambda>(k, j). (k, job_status j, job_finished_at j)) (map (\<lambda>(k, j). (k, restart_job 200 j)) (jq_jobs demo_stored))
      = [(''a1'', STATUS_FAILED, Some 200), (''a2'', STATUS_PENDING, None)]" "pending_ids demo_stored = [''a2'']" by code_simp+
  then show ?thesis using q' by (intro exI [of _ q']) (simp only:)
qed

end
