(* ===== verification/JobWorker.thy ===== *)
theory JobWorker
  imports JobQueueProps
begin

text \<open>
  \<open>beagle-host/services/job_worker.py\<close>: the threads that drain the queue. A handler is a parameter:
  it gets the claimed job and the queue and gives back how it ended and the queue afterwards, which
  also holds whatever other threads did to the queue meanwhile. The loops are modelled by one
  iteration each; sleeping, joining and logging are not.
\<close>

datatype handler_outcome = Returned py | CancelledByHandler | Raised exn

type_synonym handler = "job \<Rightarrow> job_queue \<Rightarrow> handler_outcome \<times> job_queue"

record job_worker =
  jw_max_workers :: int
  jw_handlers :: "handler table"
  jw_stop :: bool
  jw_threads :: "string list"

definition worker_init :: "int \<Rightarrow> job_worker" where
  "worker_init n = \<lparr>jw_max_workers = max 1 n, jw_handlers = [], jw_stop = False, jw_threads = []\<rparr>"

definition register :: "string \<Rightarrow> handler \<Rightarrow> job_worker \<Rightarrow> job_worker" where
  "register name h w = w\<lparr>jw_handlers := dset name h (jw_handlers w)\<rparr>"

definition registered_names :: "job_worker \<Rightarrow> string list" where
  "registered_names w = keys (jw_handlers w)"

text \<open>\<open>start\<close>: does nothing when threads exist, else one thread per worker and the maintenance thread.\<close>

definition start :: "job_worker \<Rightarrow> job_worker" where
  "start w = (if jw_threads w \<noteq> [] then w
     else w\<lparr>jw_stop := False,
            jw_threads := map (\<lambda>i. ''beagle-job-worker-'' @ nat_str i) [0..<nat (jw_max_workers w)]
              @ [''beagle-job-maintenance'']\<rparr>)"

definition stop :: "job_worker \<Rightarrow> job_worker" where
  "stop w = w\<lparr>jw_stop := True, jw_threads := []\<rparr>"

definition is_running :: "job_worker \<Rightarrow> bool" where
  "is_running w = (jw_threads w \<noteq> [] \<and> \<not> jw_stop w)"

text \<open>\<open>str(exc)\<close>: a \<open>KeyError\<close> shows the quotation of its message.\<close>

definition exc_text :: "exn \<Rightarrow> string" where
  "exc_text e = (case e of KeyError m \<Rightarrow> repr_str m | _ \<Rightarrow> exn_message e)"

text \<open>
  \<open>_run_job\<close>: an exception of \<open>complete\<close> is caught like one of the handler. \<open>now\<close> and \<open>now'\<close> are
  the readings of the first and second queue call.
\<close>

definition run_job :: "handler table \<Rightarrow> job \<Rightarrow> rat \<Rightarrow> rat \<Rightarrow> job_queue \<Rightarrow> unit result \<times> job_queue" where
  "run_job hs j now now' q = (case map_of hs (job_name j) of
      None \<Rightarrow> fail (job_id j) (''no handler registered for '' @ repr_str (job_name j)) now q
    | Some h \<Rightarrow> (case h j q of
        (Returned r, q1) \<Rightarrow> (case complete (job_id j) r now q1 of
            (Inr u, q2) \<Rightarrow> (Inr u, q2)
          | (Inl e, q2) \<Rightarrow> fail (job_id j) (exc_text e) now' q2)
      | (CancelledByHandler, q1) \<Rightarrow> fail (job_id j) ''cancelled by handler'' now q1
      | (Raised e, q1) \<Rightarrow> fail (job_id j) (exc_text e) now q1))"

text \<open>One turn of \<open>_worker_loop\<close>; \<open>None\<close> when there was nothing to claim.\<close>

definition worker_turn :: "handler table \<Rightarrow> rat \<Rightarrow> rat \<Rightarrow> rat \<Rightarrow> job_queue \<Rightarrow> unit result option \<times> job_queue" where
  "worker_turn hs t0 t1 t2 q = (case claim_next_pending t0 q of
      (None, q1) \<Rightarrow> (None, q1)
    | (Some j, q1) \<Rightarrow> (let (r, q2) = run_job hs j t1 t2 q1 in (Some r, q2)))"

text \<open>One turn of \<open>_heartbeat_loop\<close>; \<open>False\<close> where an exception ends the loop.\<close>

definition heartbeat_turn :: "string \<Rightarrow> rat \<Rightarrow> job_queue \<Rightarrow> bool \<times> job_queue" where
  "heartbeat_turn jid now q = (case heartbeat jid now q of (Inl e, q1) \<Rightarrow> (False, q1) | (Inr u, q1) \<Rightarrow> (True, q1))"

definition maintenance_turn :: "rat \<Rightarrow> rat \<Rightarrow> job_queue \<Rightarrow> job_queue" where
  "maintenance_turn t0 t1 q = snd (purge_old_jobs t1 (snd (reap_stuck_jobs t0 q)))"

definition check_cancelled :: "job \<Rightarrow> handler_outcome option" where
  "check_cancelled j = (if job_cancel_requested j then Some CancelledByHandler else None)"

subsection \<open>The life of a claimed job\<close>

lemma jq_steps_reachable: "jq_step\<^sup>*\<^sup>* q q' \<Longrightarrow> jq_reachable q \<Longrightarrow> jq_reachable q'"
  by (induction rule: rtranclp_induct) (auto intro: reach_step)

lemma unfinished_job_ok: "jq_reachable q \<Longrightarrow> map_of (jq_jobs q) k = Some j \<Longrightarrow>
    job_status j \<in> {STATUS_PENDING, STATUS_RUNNING} \<union> TERMINAL_STATUSES \<and> job_id j = k"
  using jq_inv_jobD [OF jq_reachable_inv] by (auto simp: job_ok_def)

text \<open>How \<open>_run_job\<close> may leave a job: finished, or gone with a lookup error.\<close>

definition job_ended :: "string \<Rightarrow> unit result \<times> job_queue \<Rightarrow> bool" where
  "job_ended k r = (case map_of (jq_jobs (snd r)) k of
      None \<Rightarrow> fst r \<noteq> Inr ()
    | Some j \<Rightarrow> job_status j \<in> TERMINAL_STATUSES \<and> fst r = Inr ())"

lemma fail_ended: "job_ended k (fail k e now q)"
  by (auto simp: job_ended_def fail_def require_def split: option.splits)

lemma complete_ended: "complete k r now q = (Inr u, q2) \<Longrightarrow> job_ended k (Inr u, q2)"
  by (auto simp: job_ended_def complete_def change_job_def rbind_eq_Inr require_Inr split: sum.splits)

text \<open>C30: After a worker has run a job the job is finished (completed, failed or cancelled) and no exception
  escapes, whatever the handler and the other threads did to the queue; the one exception is a job
  that was purged meanwhile, where the lookup error leaves the worker's loop.\<close>

theorem run_job_finishes: "job_ended (job_id j) (run_job hs j now now' q)"
  by (auto simp: run_job_def fail_ended complete_ended
      split: option.splits prod.splits handler_outcome.splits sum.splits)

text \<open>What the worker records for each way a handler ends.\<close>

definition record_outcome :: "handler_outcome \<Rightarrow> rat \<Rightarrow> job \<Rightarrow> job" where
  "record_outcome out now j = (case out of
      Returned r \<Rightarrow> j\<lparr>job_status := STATUS_COMPLETED, job_progress := 100, job_result := r, job_finished_at := Some now\<rparr>
    | CancelledByHandler \<Rightarrow> j\<lparr>job_status := STATUS_FAILED, job_error := ''cancelled by handler'', job_finished_at := Some now\<rparr>
    | Raised e \<Rightarrow> j\<lparr>job_status := STATUS_FAILED, job_error := exc_text e, job_finished_at := Some now\<rparr>)"

text \<open>A worker records the handler's outcome exactly once: a job still running when its handler ends
  becomes completed with the returned value, or failed with the text of the exception; a job that
  was finished meanwhile (by the reaper or by a cancellation) keeps that outcome.\<close>

lemma run_job_outcome:
  assumes "map_of hs (job_name j) = Some h" and "h j q = (out, q1)"
    and "map_of (jq_jobs q1) (job_id j) = Some j1"
    and "job_status j1 = STATUS_RUNNING \<or> job_status j1 \<in> TERMINAL_STATUSES"
  shows "map_of (jq_jobs (snd (run_job hs j now now' q))) (job_id j)
     = Some (if job_status j1 = STATUS_RUNNING then record_outcome out now j1 else j1)"
  using assms
  by (auto simp: run_job_def record_outcome_def complete_def change_job_def require_def fail_def
      assert_running_def split: handler_outcome.splits)

text \<open>A handler that touches nothing and returns a value.\<close>

definition echo_handler :: handler where
  "echo_handler j q = (Returned (PStr (job_name j)), q)"

end
