(* ===== verification/Regex.thy ===== *)
theory Regex
  imports PyText
begin

text \<open>
  The regular expressions the services match identifiers and routes with: character classes,
  sequences, alternatives and repetition, matched by derivatives. \<open>re.fullmatch\<close> asks for the whole
  string; a pattern anchored by \<open>$\<close> and used with \<open>re.match\<close> also accepts one newline after the
  match. The language of an expression is its specification.
\<close>

datatype re =
    RNone
  | REps
  | RCls "char \<Rightarrow> bool"
  | RSeq re re
  | RAlt re re
  | RStar re

primrec nullable :: "re \<Rightarrow> bool" where
  "nullable RNone = False"
| "nullable REps = True"
| "nullable (RCls p) = False"
| "nullable (RSeq r s) = (nullable r \<and> nullable s)"
| "nullable (RAlt r s) = (nullable r \<or> nullable s)"
| "nullable (RStar r) = True"

text \<open>Sequencing and alternatives that drop the empty language, so that derivatives stay small.\<close>

fun mk_seq :: "re \<Rightarrow> re \<Rightarrow> re" where
  "mk_seq RNone s = RNone"
| "mk_seq REps s = s"
| "mk_seq r s = RSeq r s"

fun mk_alt :: "re \<Rightarrow> re \<Rightarrow> re" where
  "mk_alt RNone s = s"
| "mk_alt r RNone = r"
| "mk_alt r s = RAlt r s"

primrec deriv :: "char \<Rightarrow> re \<Rightarrow> re" where
  "deriv c RNone = RNone"
| "deriv c REps = RNone"
| "deriv c (RCls p) = (if p c then REps else RNone)"
| "deriv c (RSeq r s) = mk_alt (mk_seq (deriv c r) s) (if nullable r then deriv c s else RNone)"
| "deriv c (RAlt r s) = mk_alt (deriv c r) (deriv c s)"
| "deriv c (RStar r) = mk_seq (deriv c r) (RStar r)"

fun full_match :: "re \<Rightarrow> string \<Rightarrow> bool" where
  "full_match r [] = nullable r"
| "full_match r (c # s) = full_match (deriv c r) s"

text \<open>\<open>re.match(r"^...$", s)\<close>.\<close>

definition match_line :: "re \<Rightarrow> string \<Rightarrow> bool" where
  "match_line r s = (full_match r s \<or> (s \<noteq> [] \<and> last s = CHR 0x0A \<and> full_match r (butlast s)))"

subsection \<open>Building blocks\<close>

definition lit :: "string \<Rightarrow> re" where
  "lit s = foldr (\<lambda>c r. RSeq (RCls (\<lambda>x. x = c)) r) s REps"

definition plus :: "(char \<Rightarrow> bool) \<Rightarrow> re" where
  "plus p = RSeq (RCls p) (RStar (RCls p))"

primrec upto :: "nat \<Rightarrow> (char \<Rightarrow> bool) \<Rightarrow> re" where
  "upto 0 p = REps"
| "upto (Suc n) p = RAlt REps (RSeq (RCls p) (upto n p))"

primrec exactly :: "nat \<Rightarrow> (char \<Rightarrow> bool) \<Rightarrow> re" where
  "exactly 0 p = REps"
| "exactly (Suc n) p = RSeq (RCls p) (exactly n p)"

definition between :: "nat \<Rightarrow> nat \<Rightarrow> (char \<Rightarrow> bool) \<Rightarrow> re" where
  "between m n p = RSeq (exactly m p) (upto (n - m) p)"

definition seqs :: "re list \<Rightarrow> re" where
  "seqs rs = foldr RSeq rs REps"

definition alts :: "re list \<Rightarrow> re" where
  "alts rs = foldr RAlt rs RNone"

definition optional :: "re \<Rightarrow> re" where
  "optional r = RAlt REps r"

subsection \<open>The language of an expression\<close>

inductive matches :: "re \<Rightarrow> string \<Rightarrow> bool" where
  m_eps: "matches REps []"
| m_cls: "p c \<Longrightarrow> matches (RCls p) [c]"
| m_seq: "matches r s \<Longrightarrow> matches r' s' \<Longrightarrow> matches (RSeq r r') (s @ s')"
| m_altl: "matches r s \<Longrightarrow> matches (RAlt r r') s"
| m_altr: "matches r' s \<Longrightarrow> matches (RAlt r r') s"
| m_star0: "matches (RStar r) []"
| m_star1: "matches r s \<Longrightarrow> matches (RStar r) s' \<Longrightarrow> matches (RStar r) (s @ s')"

inductive_simps matches_simps [simp]:
  "matches RNone s" "matches REps s" "matches (RCls p) s" "matches (RAlt r r') s"

inductive_cases matches_seqE: "matches (RSeq r r') s"
inductive_cases matches_starE: "matches (RStar r) s"

lemma matches_seq: "matches (RSeq r r') s \<longleftrightarrow> (\<exists>u v. s = u @ v \<and> matches r u \<and> matches r' v)"
proof
  assume "matches (RSeq r r') s"
  then show "\<exists>u v. s = u @ v \<and> matches r u \<and> matches r' v" by (rule matches_seqE) blast
qed (auto intro: m_seq)

lemma nullable_iff: "nullable r \<longleftrightarrow> matches r []"
  by (induction r) (auto simp: matches_seq intro: m_star0)

lemma matches_mk_seq: "matches (mk_seq r r') s \<longleftrightarrow> matches (RSeq r r') s"
  by (cases r) (auto simp: matches_seq)

lemma matches_mk_alt: "matches (mk_alt r r') s \<longleftrightarrow> matches r s \<or> matches r' s"
  by (cases r; cases r') auto

lemma star_nonempty:
  "matches (RStar r) s \<Longrightarrow> s \<noteq> [] \<Longrightarrow> \<exists>u v. s = u @ v \<and> u \<noteq> [] \<and> matches r u \<and> matches (RStar r) v"
proof (induction "RStar r" s rule: matches.induct)
  case (m_star1 s s')
  show ?case
  proof (cases s)
    case Nil
    with m_star1 show ?thesis by simp
  next
    case (Cons a list)
    with m_star1(1,3) show ?thesis by blast
  qed
qed simp

lemma matches_star_Cons:
  "matches (RStar r) (c # s) \<longleftrightarrow> (\<exists>u v. s = u @ v \<and> matches r (c # u) \<and> matches (RStar r) v)"
proof
  assume "matches (RStar r) (c # s)"
  then obtain u v where "c # s = u @ v" "u \<noteq> []" "matches r u" "matches (RStar r) v"
    using star_nonempty by blast
  then show "\<exists>u v. s = u @ v \<and> matches r (c # u) \<and> matches (RStar r) v"
    by (cases u) auto
next
  assume "\<exists>u v. s = u @ v \<and> matches r (c # u) \<and> matches (RStar r) v"
  then show "matches (RStar r) (c # s)" using m_star1 by fastforce
qed

lemma matches_deriv: "matches (deriv c r) s \<longleftrightarrow> matches r (c # s)"
proof (induction r arbitrary: s)
  case (RSeq r r')
  have "matches (RSeq r r') (c # s) \<longleftrightarrow>
      (\<exists>u v. s = u @ v \<and> matches r (c # u) \<and> matches r' v) \<or> (matches r [] \<and> matches r' (c # s))"
    by (auto simp: matches_seq Cons_eq_append_conv)
  then show ?case
    using RSeq by (auto simp: matches_mk_alt matches_mk_seq matches_seq nullable_iff)
next
  case (RStar r)
  then show ?case by (auto simp: matches_mk_seq matches_seq matches_star_Cons)
qed (auto simp: matches_mk_alt)

theorem full_match_iff: "full_match r s \<longleftrightarrow> matches r s"
  by (induction s arbitrary: r) (simp_all add: nullable_iff matches_deriv)

subsection \<open>Languages of the building blocks\<close>

lemma matches_cls_seq: "matches (RSeq (RCls p) r) s \<longleftrightarrow> (\<exists>c t. s = c # t \<and> p c \<and> matches r t)"
  by (simp add: matches_seq) (metis append_Cons append_Nil)

lemma matches_lit_iff: "matches (lit t) s \<longleftrightarrow> s = t"
  unfolding lit_def by (induction t arbitrary: s) (auto simp: matches_cls_seq)

lemma matches_star_cls: "matches (RStar (RCls p)) s \<longleftrightarrow> list_all p s"
  by (induction s) (auto simp: matches_star_Cons intro: m_star0)

lemma matches_plus_iff: "matches (plus p) s \<longleftrightarrow> s \<noteq> [] \<and> list_all p s"
  by (cases s) (auto simp: plus_def matches_cls_seq matches_star_cls)

lemma matches_upto: "matches (upto n p) s \<longleftrightarrow> length s \<le> n \<and> list_all p s"
proof (induction n arbitrary: s)
  case 0
  then show ?case by auto
next
  case (Suc n)
  then show ?case by (cases s) (auto simp: matches_cls_seq)
qed

lemma matches_exactly: "matches (exactly n p) s \<longleftrightarrow> length s = n \<and> list_all p s"
proof (induction n arbitrary: s)
  case 0
  then show ?case by auto
next
  case (Suc n)
  then show ?case by (cases s) (auto simp: matches_cls_seq)
qed

lemma matches_between:
  "m \<le> n \<Longrightarrow> matches (between m n p) s \<longleftrightarrow> m \<le> length s \<and> length s \<le> n \<and> list_all p s"
proof -
  assume mn: "m \<le> n"
  show ?thesis
  proof
    assume "matches (between m n p) s"
    then show "m \<le> length s \<and> length s \<le> n \<and> list_all p s"
      using mn by (auto simp: between_def matches_seq matches_exactly matches_upto)
  next
    assume s: "m \<le> length s \<and> length s \<le> n \<and> list_all p s"
    then have "s = take m s @ drop m s" "list_all p (take m s)" "list_all p (drop m s)"
      by (auto simp: list_all_iff dest: in_set_takeD in_set_dropD)
    with s mn show "matches (between m n p) s"
      unfolding between_def matches_seq matches_exactly matches_upto
      by (intro exI [of _ "take m s"] exI [of _ "drop m s"]) auto
  qed
qed

lemma matches_seqs_Cons: "matches (seqs (r # rs)) s \<longleftrightarrow> (\<exists>u v. s = u @ v \<and> matches r u \<and> matches (seqs rs) v)"
  by (simp add: seqs_def matches_seq)

lemma matches_seqs_Nil: "matches (seqs []) s \<longleftrightarrow> s = []"
  by (auto simp: seqs_def)

text \<open>A string without a final newline matches a line pattern exactly when all of it matches.\<close>

lemma match_line_no_newline:
  "(s \<noteq> [] \<Longrightarrow> last s \<noteq> CHR 0x0A) \<Longrightarrow> match_line r s \<longleftrightarrow> matches r s"
  by (auto simp: match_line_def full_match_iff)

lemma strip_last: "strip s \<noteq> [] \<Longrightarrow> \<not> is_space (last (strip s))"
  unfolding strip_def rstrip_def
  by (metis hd_dropWhile_not hd_rev last_rev rev.simps(1) rev_rev_ident)

lemma match_line_strip: "match_line r (strip s) \<longleftrightarrow> matches r (strip s)"
proof (rule match_line_no_newline)
  assume "strip s \<noteq> []"
  from strip_last [OF this] show "last (strip s) \<noteq> CHR 0x0A"
    by (auto simp: is_space_def)
qed

end
