(* ===== verification/Authz.thy ===== *)
theory Authz
  imports Regex PyValue
begin

text \<open>
  \<open>beagle-host/services/authz_policy.py\<close>: which permission an API request needs and whether a role
  has it, with the gate of \<open>request_handler_mixin.py\<close> that applies it and the route predicates of the
  surfaces it guards (\<open>auth_http_surface.py\<close>, \<open>vm_mutation_surface.py\<close>). The chains of conditionals are
  tables of rules, tried in the order of the source; the first rule that accepts the route decides.
\<close>

subsection \<open>The permission catalog\<close>

definition PERMISSION_CATALOG :: "(string \<times> (string \<times> string) list) list" where
  "PERMISSION_CATALOG = [
     (''VMs'', [
        (''vm:read'', ''VMs lesen (list / get)''),
        (''vm:power'', ''VMs starten / stoppen (power)''),
        (''vm:mutate'', ''VMs erstellen, aendern, loeschen'')]),
     (''Provisioning'', [
        (''provisioning:read'', ''Provisioning-Eintraege lesen''),
        (''provisioning:write'', ''Provisioning schreiben / loeschen'')]),
     (''Policies'', [
        (''policy:read'', ''Policies lesen''),
        (''policy:write'', ''Policies schreiben / loeschen'')]),
     (''Benutzer & Rollen'', [
        (''auth:read'', ''Benutzer & Rollen lesen''),
        (''auth:write'', ''Benutzer & Rollen schreiben / loeschen'')]),
     (''Einstellungen'', [
        (''settings:read'', ''Einstellungen lesen''),
        (''settings:write'', ''Einstellungen schreiben'')]),
     (''Cluster'', [
        (''cluster:read'', ''Cluster-Status lesen''),
        (''cluster:write'', ''Cluster initialisieren / Join verwalten'')]),
     (''Aktionen'', [
        (''actions:bulk'', ''Bulk-VM-Aktionen ausfuehren'')]),
     (''VDI Pools'', [
        (''pool:read'', ''Desktop-Pools & Templates lesen''),
        (''pool:scale'', ''Desktop-Pool skalieren (pool-operator)''),
        (''pool:write'', ''Desktop-Pools & Templates verwalten (erstellen, loeschen)'')]),
     (''Session Recording'', [
        (''session:download_recording'', ''Session-Recording herunterladen''),
        (''session:manage_recording'', ''Session-Recording starten/stoppen'')]),
     (''Kiosk'', [
        (''kiosk:operate'', ''Kiosk-Sessions lesen, beenden und Betreiber-Ansichten nutzen'')]),
     (''Superadmin'', [
        (''*'', ''Alle Berechtigungen (Superadmin / Wildcard)'')])]"

definition catalog_tags :: "string set" where
  "catalog_tags = set (map fst (concat (map snd PERMISSION_CATALOG)))"

subsection \<open>Character classes of the route patterns\<close>

definition id_char :: "char \<Rightarrow> bool" where
  "id_char c = (is_alnum c \<or> c \<in> set ''_-'')"

definition name_char :: "char \<Rightarrow> bool" where
  "name_char c = (is_alnum c \<or> c \<in> set ''._-'')"

definition device_char :: "char \<Rightarrow> bool" where
  "device_char c = (is_alnum c \<or> c \<in> set ''._:-'')"

definition token_char :: "char \<Rightarrow> bool" where
  "token_char c = (is_alnum c \<or> c \<in> set ''_=-'')"

definition uuid_char :: "char \<Rightarrow> bool" where
  "uuid_char c = (is_digit c \<or> c \<in> set ''abcdef-'')"

definition not_slash :: "char \<Rightarrow> bool" where
  "not_slash c = (c \<noteq> CHR ''/'')"

definition not_newline :: "char \<Rightarrow> bool" where
  "not_newline c = (c \<noteq> CHR 0x0A)"

subsection \<open>Route rules\<close>

type_synonym route_rule = "(string \<Rightarrow> bool) \<times> string"

fun first_rule :: "route_rule list \<Rightarrow> string \<Rightarrow> string option" where
  "first_rule [] r = None"
| "first_rule ((accepts, perm) # rules) r = (if accepts r then Some perm else first_rule rules r)"

definition post_rules :: "route_rule list" where
  "post_rules = [
     ((\<lambda>r. (r \<in> {''/api/v1/streams/register'', ''/api/v1/streams/allocate'', ''/api/v1/streams/validate-token''} \<or> match_line (seqs [lit ''/api/v1/streams/'', plus is_digit, lit ''/events'']) r)), ''pool:write''),
     ((\<lambda>r. (r = ''/api/v1/audit/failures/replay'' \<or> match_line (seqs [lit ''/api/v1/audit/export-targets/'', plus id_char, lit ''/test'']) r)), ''auth:write''),
     ((\<lambda>r. r = ''/api/v1/actions/bulk''), ''actions:bulk''),
     ((\<lambda>r. r \<in> {''/api/v1/ubuntu-beagle-vms'', ''/api/v1/provisioning/vms'', ''/api/v1/vms''}), ''provisioning:write''),
     ((\<lambda>r. (r = ''/api/v1/policies'' \<or> starts_with r ''/api/v1/policies/'')), ''policy:write''),
     ((\<lambda>r. (starts_with r ''/api/v1/vms/'' \<and> (ends_with r ''/installer-prep'' \<or> ends_with r ''/actions'' \<or> ends_with r ''/usb/refresh'' \<or> ends_with r ''/usb/attach'' \<or> ends_with r ''/usb/detach'' \<or> ends_with r ''/migrate'' \<or> ends_with r ''/beagle-stream-server-access''))), ''vm:mutate''),
     ((\<lambda>r. (starts_with r ''/api/v1/virtualization/vms/'' \<and> ends_with r ''/power'')), ''vm:power''),
     ((\<lambda>r. (r = ''/api/v1/auth/users'' \<or> r = ''/api/v1/auth/roles'')), ''auth:write''),
     ((\<lambda>r. match_line (seqs [lit ''/api/v1/auth/users/'', plus name_char, lit ''/revoke-sessions'']) r), ''auth:write''),
     ((\<lambda>r. match_line (seqs [lit ''/api/v1/auth/sessions/'', between 8 128 token_char]) r), ''auth:write''),
     ((\<lambda>r. starts_with r ''/api/v1/settings/''), ''settings:write''),
     ((\<lambda>r. r = ''/api/v1/backups/run''), ''settings:write''),
     ((\<lambda>r. r = ''/api/v1/backups/prune''), ''settings:write''),
     ((\<lambda>r. match_line (seqs [lit ''/api/v1/backups/'', exactly 36 uuid_char, lit ''/'', seqs [lit ''re'', alts [lit ''store'', lit ''plicate'']]]) r), ''settings:write''),
     ((\<lambda>r. r = ''/api/v1/backups/ingest''), ''settings:write''),
     ((\<lambda>r. match_line (seqs [lit ''/api/v1/storage/pools/'', plus name_char, lit ''/upload'']) r), ''settings:write''),
     ((\<lambda>r. r = ''/api/v1/fleet/devices/register''), ''settings:write''),
     ((\<lambda>r. r \<in> {''/api/v1/fleet/policies'', ''/api/v1/fleet/policies/assignments'', ''/api/v1/fleet/policies/assignments/bulk'', ''/api/v1/fleet/devices/actions/bulk'', ''/api/v1/fleet/remediation/run'', ''/api/v1/fleet/alerts/rules''}), ''settings:write''),
     ((\<lambda>r. r = ''/api/v1/fleet/remediation/config''), ''settings:write''),
     ((\<lambda>r. r \<in> {''/api/v1/scheduler/migrate'', ''/api/v1/scheduler/rebalance''}), ''settings:write''),
     ((\<lambda>r. match_line (seqs [lit ''/api/v1/fleet/alerts/'', plus not_slash, lit ''/resolve'']) r), ''settings:write''),
     ((\<lambda>r. match_line (seqs [lit ''/api/v1/fleet/devices/'', plus device_char, lit ''/'', alts [lit ''heartbeat'', lit ''lock'', lit ''unlock'', lit ''wipe'', lit ''confirm-wiped'']]) r), ''settings:write''),
     ((\<lambda>r. match_line (seqs [lit ''/api/v1/fleet/devices/'', plus device_char, lit ''/remediation/execute'']) r), ''settings:write''),
     ((\<lambda>r. r \<in> {''/api/v1/cluster/init'', ''/api/v1/cluster/setup-code'', ''/api/v1/cluster/add-server-preflight'', ''/api/v1/cluster/auto-join'', ''/api/v1/cluster/join-token'', ''/api/v1/cluster/join-existing'', ''/api/v1/cluster/leave-local'', ''/api/v1/cluster/apply-join'', ''/api/v1/cluster/reconcile-membership''}), ''cluster:write''),
     ((\<lambda>r. r = ''/api/v1/ha/reconcile-failed-node''), ''cluster:write''),
     ((\<lambda>r. r \<in> {''/api/v1/ha/maintenance/preview'', ''/api/v1/ha/maintenance/drain'', ''/api/v1/ha/maintenance/drain-async''}), ''cluster:write''),
     ((\<lambda>r. match_line (seqs [lit ''/api/v1/sessions/'', plus device_char, lit ''/recording/'', seqs [lit ''st'', alts [lit ''art'', lit ''op'']]]) r), ''session:manage_recording''),
     ((\<lambda>r. match_line (seqs [lit ''/api/v1/pools/kiosk/sessions/'', plus is_digit, lit ''/end'']) r), ''kiosk:operate''),
     ((\<lambda>r. match_line (seqs [lit ''/api/v1/pools/kiosk/sessions/'', plus is_digit, lit ''/extend'']) r), ''kiosk:operate''),
     ((\<lambda>r. match_line (seqs [lit ''/api/v1/pools/'', plus name_char, lit ''/scale'']) r), ''pool:scale''),
     ((\<lambda>r. (r = ''/api/v1/pools'' \<or> match_line (seqs [lit ''/api/v1/pools/'', plus name_char, lit ''/'', alts [lit ''vms'', lit ''entitlements'', lit ''allocate'', lit ''release'', lit ''recycle'']]) r)), ''pool:write''),
     ((\<lambda>r. r = ''/api/v1/pool-templates''), ''pool:write''),
     ((\<lambda>r. r = ''/api/v1/sessions/stream-health''), ''pool:write''),
     ((\<lambda>r. match_line (seqs [lit ''/api/v1/sessions/'', plus device_char, lit ''/stream-profile'']) r), ''pool:write''),
     ((\<lambda>r. r \<in> {''/api/v1/scheduler/warm-pools/apply'', ''/api/v1/energy/hourly-profile/import''}), ''settings:write'')]"

definition put_rules :: "route_rule list" where
  "put_rules = [
     ((\<lambda>r. match_line (seqs [lit ''/api/v1/virtualization/vms/'', plus is_digit, lit ''/config'']) r), ''vm:mutate''),
     ((\<lambda>r. r \<in> {''/api/v1/scheduler/config'', ''/api/v1/costs/model'', ''/api/v1/energy/config''}), ''settings:write''),
     ((\<lambda>r. r = ''/api/v1/fleet/remediation/config''), ''settings:write''),
     ((\<lambda>r. match_line (seqs [lit ''/api/v1/fleet/alerts/rules/'', plus device_char]) r), ''settings:write''),
     ((\<lambda>r. match_line (seqs [lit ''/api/v1/fleet/policies/'', plus device_char]) r), ''settings:write''),
     ((\<lambda>r. match_line (seqs [lit ''/api/v1/fleet/devices/'', plus device_char]) r), ''settings:write''),
     ((\<lambda>r. match_line (seqs [lit ''/api/v1/provisioning/vms/'', plus is_digit]) r), ''provisioning:write''),
     ((\<lambda>r. starts_with r ''/api/v1/policies/''), ''policy:write''),
     ((\<lambda>r. (starts_with r ''/api/v1/auth/users/'' \<or> starts_with r ''/api/v1/auth/roles/'')), ''auth:write''),
     ((\<lambda>r. match_line (seqs [lit ''/api/v1/storage/pools/'', plus name_char, lit ''/quota'']) r), ''settings:write''),
     ((\<lambda>r. starts_with r ''/api/v1/settings/''), ''settings:write''),
     ((\<lambda>r. match_line (seqs [lit ''/api/v1/backups/policies/'', alts [seqs [lit ''pools/'', plus name_char], seqs [lit ''vms/'', plus is_digit]]]) r), ''settings:write''),
     ((\<lambda>r. r = ''/api/v1/backups/replication/config''), ''settings:write''),
     ((\<lambda>r. match_line (seqs [lit ''/api/v1/pools/'', plus name_char]) r), ''pool:write'')]"

definition delete_rules :: "route_rule list" where
  "delete_rules = [
     ((\<lambda>r. match_line (seqs [lit ''/api/v1/fleet/policies/'', plus device_char]) r), ''settings:write''),
     ((\<lambda>r. match_line (seqs [lit ''/api/v1/provisioning/vms/'', plus is_digit]) r), ''provisioning:write''),
     ((\<lambda>r. starts_with r ''/api/v1/policies/''), ''policy:write''),
     ((\<lambda>r. (starts_with r ''/api/v1/auth/users/'' \<or> starts_with r ''/api/v1/auth/roles/'')), ''auth:write''),
     ((\<lambda>r. match_line (seqs [lit ''/api/v1/pools/'', plus name_char]) r), ''pool:write''),
     ((\<lambda>r. match_line (seqs [lit ''/api/v1/pool-templates/'', plus name_char]) r), ''pool:write'')]"

definition get_rules :: "route_rule list" where
  "get_rules = [
     ((\<lambda>r. match_line (seqs [lit ''/api/v1/streams/'', plus is_digit, lit ''/config'']) r), ''pool:read''),
     ((\<lambda>r. r \<in> {''/api/v1/fleet/policies'', ''/api/v1/fleet/policies/assignments'', ''/api/v1/fleet/remediation/drift'', ''/api/v1/fleet/remediation/config'', ''/api/v1/fleet/remediation/history'', ''/api/v1/fleet/anomalies'', ''/api/v1/fleet/maintenance'', ''/api/v1/fleet/alerts'', ''/api/v1/fleet/alerts/rules''}), ''settings:read''),
     ((\<lambda>r. r \<in> {''/api/v1/scheduler/insights'', ''/api/v1/scheduler/config'', ''/api/v1/costs/chargeback'', ''/api/v1/costs/chargeback.csv'', ''/api/v1/costs/budget-alerts'', ''/api/v1/costs/model'', ''/api/v1/energy/nodes'', ''/api/v1/energy/rankings'', ''/api/v1/energy/trend'', ''/api/v1/energy/csrd'', ''/api/v1/energy/config'', ''/api/v1/energy/green-hours''}), ''settings:read''),
     ((\<lambda>r. match_line (seqs [lit ''/api/v1/fleet/policies/'', plus device_char]) r), ''settings:read''),
     ((\<lambda>r. match_line (seqs [lit ''/api/v1/fleet/devices/'', plus device_char, lit ''/effective-policy'']) r), ''settings:read''),
     ((\<lambda>r. r \<in> {''/api/v1/fleet/devices'', ''/api/v1/fleet/devices/groups''}), ''settings:read''),
     ((\<lambda>r. match_line (seqs [lit ''/api/v1/fleet/devices/'', plus device_char]) r), ''settings:read''),
     ((\<lambda>r. r \<in> {''/api/v1/audit/report'', ''/api/v1/audit/export-targets'', ''/api/v1/audit/failures''}), ''auth:read''),
     ((\<lambda>r. (r = ''/api/v1/installer-logs'' \<or> match_line (seqs [lit ''/api/v1/installer-logs/'', between 8 96 name_char]) r)), ''settings:read''),
     ((\<lambda>r. r \<in> {''/api/v1/auth/users'', ''/api/v1/auth/roles''}), ''auth:read''),
     ((\<lambda>r. r \<in> {''/api/v1/auth/sessions'', ''/api/v1/auth/tenants''}), ''auth:read''),
     ((\<lambda>r. match_line (seqs [lit ''/api/v1/storage/pools/'', plus name_char, lit ''/quota'']) r), ''settings:read''),
     ((\<lambda>r. match_line (seqs [lit ''/api/v1/storage/pools/'', plus name_char, lit ''/files'']) r), ''settings:read''),
     ((\<lambda>r. starts_with r ''/api/v1/settings/''), ''settings:read''),
     ((\<lambda>r. r = ''/api/v1/backups/jobs''), ''settings:read''),
     ((\<lambda>r. r = ''/api/v1/backups/snapshots''), ''settings:read''),
     ((\<lambda>r. match_line (seqs [lit ''/api/v1/backups/'', exactly 36 uuid_char, lit ''/files'']) r), ''settings:read''),
     ((\<lambda>r. r = ''/api/v1/backups/replication/config''), ''settings:read''),
     ((\<lambda>r. match_line (seqs [lit ''/api/v1/backups/policies/'', alts [seqs [lit ''pools/'', plus name_char], seqs [lit ''vms/'', plus is_digit]]]) r), ''settings:read''),
     ((\<lambda>r. r = ''/api/v1/cluster/status''), ''cluster:read''),
     ((\<lambda>r. r = ''/api/v1/nodes/install-checks''), ''cluster:read''),
     ((\<lambda>r. r = ''/api/v1/ha/status''), ''cluster:read''),
     ((\<lambda>r. match_line (seqs [lit ''/api/v1/sessions/'', plus device_char, lit ''/recording'']) r), ''session:download_recording''),
     ((\<lambda>r. r = ''/api/v1/pools/kiosk/sessions''), ''kiosk:operate''),
     ((\<lambda>r. r = ''/api/v1/gaming/metrics''), ''vm:read''),
     ((\<lambda>r. match_line (seqs [lit ''/api/v1/vms/'', plus is_digit, lit ''/metrics-stream'']) r), ''vm:read''),
     ((\<lambda>r. (r = ''/api/v1/pools'' \<or> match_line (seqs [lit ''/api/v1/pools/'', plus name_char, optional (seqs [lit ''/'', RStar (RCls not_newline)])]) r)), ''pool:read''),
     ((\<lambda>r. (r = ''/api/v1/pool-templates'' \<or> match_line (seqs [lit ''/api/v1/pool-templates/'', plus name_char]) r)), ''pool:read''),
     ((\<lambda>r. r \<in> {''/api/v1/sessions'', ''/api/v1/sessions/handover''}), ''pool:read'')]"

text \<open>\<open>AuthzPolicyService.required_permission\<close>: \<open>None\<close> for a route no rule mentions.\<close>

definition required_permission :: "string \<Rightarrow> string \<Rightarrow> string option" where
  "required_permission meth path = (let verb = upper meth in
     if verb = ''POST'' then first_rule post_rules path
     else if verb = ''PUT'' then first_rule put_rules path
     else if verb = ''DELETE'' then first_rule delete_rules path
     else if verb = ''GET'' then first_rule get_rules path
     else None)"

text \<open>\<open>AuthzPolicyService.is_allowed\<close>.\<close>

definition role_name_of :: "string \<Rightarrow> string" where
  "role_name_of role = sor (lower (strip role)) ''viewer''"

definition clean_permissions :: "string set \<Rightarrow> string set" where
  "clean_permissions P = strip ` Set.filter (\<lambda>v. strip v \<noteq> []) P"

definition is_allowed :: "string \<Rightarrow> string option \<Rightarrow> string set \<Rightarrow> bool" where
  "is_allowed role permission role_permissions = (case permission of
      None \<Rightarrow> True
    | Some p \<Rightarrow>
        if role_name_of role = ''superadmin'' then True
        else let permissions = clean_permissions role_permissions in
          if ''*'' \<in> permissions \<or> p \<in> permissions then True
          else if p = ''vm:power'' \<and> ''vm:mutate'' \<in> permissions then True
          else if p = ''pool:scale'' \<and> ''pool:write'' \<in> permissions then True
          else False)"

subsection \<open>The gate of the request handler\<close>

text \<open>
  \<open>_authorize_or_respond\<close>: whether the request goes on. The principal is its role, if there is one;
  \<open>perms_of\<close> is the session service's table of role permissions.
\<close>

definition authorize_or_respond :: "(string \<Rightarrow> string set) \<Rightarrow> string option \<Rightarrow> string \<Rightarrow> string \<Rightarrow> bool" where
  "authorize_or_respond perms_of principal_role meth path =
     (case required_permission meth path of
        None \<Rightarrow> True
      | Some p \<Rightarrow> (case principal_role of
            None \<Rightarrow> False
          | Some r \<Rightarrow> let role = sor (lower (strip (sor r ''viewer''))) ''viewer''
                      in is_allowed role (Some p) (perms_of role)))"

subsection \<open>Routes the surfaces serve\<close>

definition auth_user_match :: "string \<Rightarrow> bool" where
  "auth_user_match = match_line (seqs [lit ''/api/v1/auth/users/'', plus name_char])"

definition auth_role_match :: "string \<Rightarrow> bool" where
  "auth_role_match = match_line (seqs [lit ''/api/v1/auth/roles/'', plus device_char])"

definition auth_user_revoke_sessions_match :: "string \<Rightarrow> bool" where
  "auth_user_revoke_sessions_match =
     match_line (seqs [lit ''/api/v1/auth/users/'', plus name_char, lit ''/revoke-sessions''])"

definition auth_user_totp_enroll_match :: "string \<Rightarrow> bool" where
  "auth_user_totp_enroll_match =
     match_line (seqs [lit ''/api/v1/auth/users/'', plus name_char, lit ''/totp/enroll''])"

definition auth_user_totp_disable_match :: "string \<Rightarrow> bool" where
  "auth_user_totp_disable_match =
     match_line (seqs [lit ''/api/v1/auth/users/'', plus name_char, lit ''/totp/disable''])"

definition auth_handles_get :: "string \<Rightarrow> bool" where
  "auth_handles_get p = (p \<in> {''/api/v1/auth/users'', ''/api/v1/auth/roles'', ''/api/v1/auth/sessions'',
     ''/api/v1/auth/tenants''})"

definition auth_handles_post :: "string \<Rightarrow> bool" where
  "auth_handles_post p = (p \<in> {''/api/v1/auth/users'', ''/api/v1/auth/roles''}
     \<or> auth_user_revoke_sessions_match p \<or> auth_user_totp_enroll_match p \<or> auth_user_totp_disable_match p)"

definition auth_handles_put :: "string \<Rightarrow> bool" where
  "auth_handles_put p = (auth_user_match p \<or> auth_role_match p)"

definition auth_handles_delete :: "string \<Rightarrow> bool" where
  "auth_handles_delete p = (auth_user_match p \<or> auth_role_match p
     \<or> full_match (seqs [lit ''/api/v1/auth/sessions/'', between 8 128 token_char]) p)"

definition vm_update_match :: "string \<Rightarrow> bool" where
  "vm_update_match = match_line (seqs [lit ''/api/v1/vms/'', plus is_digit, lit ''/update/'',
     alts [lit ''scan'', lit ''download'', lit ''apply'', lit ''rollback'']])"

definition vm_update_policy_match :: "string \<Rightarrow> bool" where
  "vm_update_policy_match = match_line (seqs [lit ''/api/v1/vms/'', plus is_digit, lit ''/update-'',
     alts [lit ''channel'', lit ''policy'']])"

definition vm_mutation_handles_path :: "string \<Rightarrow> bool" where
  "vm_mutation_handles_path p = (vm_update_match p \<or> vm_update_policy_match p
     \<or> (starts_with p ''/api/v1/vms/'' \<and> ends_with p ''/installer-prep'')
     \<or> (starts_with p ''/api/v1/vms/'' \<and> ends_with p ''/actions'')
     \<or> (starts_with p ''/api/v1/vms/'' \<and> ends_with p ''/usb/refresh'')
     \<or> (starts_with p ''/api/v1/vms/'' \<and> ends_with p ''/usb/attach'')
     \<or> (starts_with p ''/api/v1/vms/'' \<and> ends_with p ''/usb/detach'')
     \<or> (starts_with p ''/api/v1/vms/'' \<and> ends_with p ''/migrate'')
     \<or> (starts_with p ''/api/v1/vms/'' \<and> ends_with p ''/clone'')
     \<or> (starts_with p ''/api/v1/vms/'' \<and> ends_with p ''/snapshot'')
     \<or> (starts_with p ''/api/v1/vms/'' \<and> ends_with p ''/snapshot/revert'')
     \<or> (starts_with p ''/api/v1/vms/'' \<and> ends_with p ''/beagle-stream-server-access'')
     \<or> (starts_with p ''/api/v1/vms/'' \<and> ends_with p ''/beagle-stream-server-token/rotate'')
     \<or> (starts_with p ''/api/v1/virtualization/vms/'' \<and> ends_with p ''/power''))"

definition vm_mutation_handles_delete :: "string \<Rightarrow> bool" where
  "vm_mutation_handles_delete p = (starts_with p ''/api/v1/vms/'' \<and> ends_with p ''/snapshot'')"

definition vm_mutation_handles_put :: "string \<Rightarrow> bool" where
  "vm_mutation_handles_put p = ((starts_with p ''/api/v1/virtualization/vms/'' \<and> ends_with p ''/config'')
     \<or> vm_update_policy_match p)"

end
