(* ===== verification/AuthzProps.thy ===== *)
theory AuthzProps
  imports Authz
begin

text \<open>
  What the authorization table guarantees, and the mutating routes it leaves open.
\<close>

lemma first_rule_Some: "first_rule rules r = Some p \<Longrightarrow> p \<in> set (map snd rules)"
  by (induction rules) (auto split: if_splits)

lemma rule_tags:
  "set (map snd post_rules) \<union> set (map snd put_rules) \<union> set (map snd delete_rules) \<union> set (map snd get_rules)
     \<subseteq> catalog_tags - {''*''}"
  by code_simp

lemma mutation_tags:
  "list_all (\<lambda>t. \<not> ends_with t '':read'') (map snd post_rules @ map snd put_rules @ map snd delete_rules)"
  by code_simp

lemma required_permission_cases:
  "required_permission m p = Some t \<Longrightarrow>
     (upper m = ''GET'' \<and> t \<in> set (map snd get_rules)) \<or>
     (upper m \<in> {''POST'', ''PUT'', ''DELETE''} \<and>
       t \<in> set (map snd post_rules @ map snd put_rules @ map snd delete_rules))"
  unfolding required_permission_def Let_def
  by (auto simp del: set_map dest!: first_rule_Some split: if_splits)

text \<open>C31: Every permission a route can require is a tag of the catalog the role editor offers, and never
  the wildcard, so each guarded route can be granted to a role on its own.\<close>

theorem required_permission_in_catalog:
  "required_permission meth path = Some tag \<Longrightarrow> tag \<in> catalog_tags - {''*''}"
  using required_permission_cases [of meth path tag] rule_tags by auto

theorem required_permission_in_catalog_witness:
  "required_permission ''put'' ''/api/v1/policies/p1'' = Some ''policy:write'' \<and> ''policy:write'' \<in> catalog_tags - {''*''}"
proof -
  have r: "required_permission ''put'' ''/api/v1/policies/p1'' = Some ''policy:write''" by code_simp
  with required_permission_in_catalog [OF r] show ?thesis by simp
qed

text \<open>A role has a permission exactly when it is the superadmin, or holds the wildcard, the permission
  itself, or a permission that implies it (\<open>vm:mutate\<close> for \<open>vm:power\<close>, \<open>pool:write\<close> for \<open>pool:scale\<close>); a
  role with more permissions is allowed at least as much.\<close>

lemma is_allowed_iff:
  "(is_allowed role (Some p) P \<longleftrightarrow> role_name_of role = ''superadmin'' \<or> ''*'' \<in> clean_permissions P
      \<or> p \<in> clean_permissions P \<or> (p = ''vm:power'' \<and> ''vm:mutate'' \<in> clean_permissions P)
      \<or> (p = ''pool:scale'' \<and> ''pool:write'' \<in> clean_permissions P))
   \<and> (is_allowed role (Some p) P \<le> is_allowed role (Some p) (P \<union> Q))"
  by (auto simp: is_allowed_def Let_def clean_permissions_def)

text \<open>A role whose permissions are all read permissions passes the gate for no guarded mutation: every
  POST, PUT or DELETE route that has a rule needs a permission that is not a read permission.\<close>

lemma read_only_role_cannot_mutate:
  assumes "required_permission meth path = Some tag" and "upper meth \<in> {''POST'', ''PUT'', ''DELETE''}"
    and "role_name_of role \<noteq> ''superadmin''"
    and "\<forall>v \<in> P. ends_with (strip v) '':read''"
  shows "\<not> is_allowed role (Some tag) P"
proof -
  have "tag \<in> set (map snd post_rules @ map snd put_rules @ map snd delete_rules)"
    using required_permission_cases [OF assms(1)] assms(2) by auto
  then have "\<not> ends_with tag '':read''"
    using mutation_tags unfolding list_all_iff by blast
  moreover have "\<And>t. t \<in> clean_permissions P \<Longrightarrow> ends_with t '':read''"
    using assms(4) by (auto simp: clean_permissions_def)
  moreover have "\<not> ends_with ''*'' '':read''" "\<not> ends_with ''vm:mutate'' '':read''" "\<not> ends_with ''pool:write'' '':read''"
    by (simp_all add: ends_with_rev)
  ultimately show ?thesis
    using assms(3) by (auto simp: is_allowed_def Let_def)
qed

subsection \<open>Routes without a rule\<close>

lemma match_line_prefix: "match_line (seqs (lit a # rs)) s \<Longrightarrow> starts_with s a"
  unfolding match_line_def full_match_iff matches_seqs_Cons matches_lit_iff starts_with_iff
  by (metis append_assoc append_butlast_last_id)

lemma no_match_line: "\<not> starts_with s a \<Longrightarrow> match_line (seqs (lit a # rs)) s = False"
  using match_line_prefix by blast

lemma match_line_suffix:
  "match_line (seqs [r, r', lit b]) s \<Longrightarrow> last s \<noteq> CHR 0x0A \<Longrightarrow> ends_with s b"
  by (auto simp: match_line_def full_match_iff matches_seqs_Cons matches_seqs_Nil matches_lit_iff ends_with_iff)

lemma no_match_line_suffix:
  "last s \<noteq> CHR 0x0A \<Longrightarrow> \<not> ends_with s b \<Longrightarrow> match_line (seqs [r, r', lit b]) s = False"
  using match_line_suffix by blast

lemma match_line_middle:
  "u \<noteq> [] \<Longrightarrow> list_all p u \<Longrightarrow> match_line (seqs [lit a, plus p, lit b]) (a @ u @ b)"
  by (auto simp: match_line_def full_match_iff matches_seqs_Cons matches_seqs_Nil matches_lit_iff matches_plus_iff)

lemma totp_route_has_no_rule:
  assumes "b = ''/totp/disable'' \<or> b = ''/totp/enroll''"
  shows "required_permission ''POST'' (''/api/v1/auth/users/'' @ u @ b) = None"
proof -
  have l: "last (''/api/v1/auth/users/'' @ u @ b) \<noteq> CHR 0x0A" using assms by auto
  have e: "\<not> ends_with (''/api/v1/auth/users/'' @ u @ b) ''/revoke-sessions''" using assms by (auto simp: ends_with_rev)
  have "match_line (seqs [lit ''/api/v1/auth/users/'', plus name_char, lit ''/revoke-sessions''])
      (''/api/v1/auth/users/'' @ u @ b) = False"
    by (rule no_match_line_suffix [OF l e])
  moreover have "upper ''POST'' = ''POST''" by code_simp
  ultimately show ?thesis
    using assms by (auto simp: required_permission_def post_rules_def no_match_line)
qed

lemma vm_route_has_no_rule:
  assumes "b \<in> {''/clone'', ''/snapshot'', ''/snapshot/revert''}"
  shows "required_permission ''POST'' (''/api/v1/vms/'' @ u @ b) = None"
proof -
  have "upper ''POST'' = ''POST''" by code_simp
  then show ?thesis
    using assms by (auto simp: required_permission_def post_rules_def no_match_line ends_with_rev)
qed

lemma delete_route_has_no_rule:
  "required_permission ''DELETE'' (''/api/v1/vms/'' @ u) = None"
  "required_permission ''DELETE'' (''/api/v1/auth/sessions/'' @ u) = None"
proof -
  have "upper ''DELETE'' = ''DELETE''" by code_simp
  then show "required_permission ''DELETE'' (''/api/v1/vms/'' @ u) = None"
    "required_permission ''DELETE'' (''/api/v1/auth/sessions/'' @ u) = None"
    by (simp_all add: required_permission_def delete_rules_def no_match_line)
qed

text \<open>C4: Some mutations the control plane serves have no authorization rule, so the gate lets every
  principal through whatever its role: enrolling and disabling the second factor of any user,
  revoking any session by DELETE, deleting, taking and reverting VM snapshots and cloning VMs.\<close>

theorem unguarded_mutations:
  assumes "u \<noteq> []" and "list_all name_char u"
  shows "auth_handles_post (''/api/v1/auth/users/'' @ u @ ''/totp/disable'')
      \<and> authorize_or_respond perms role ''POST'' (''/api/v1/auth/users/'' @ u @ ''/totp/disable'')
      \<and> auth_handles_post (''/api/v1/auth/users/'' @ u @ ''/totp/enroll'')
      \<and> authorize_or_respond perms role ''POST'' (''/api/v1/auth/users/'' @ u @ ''/totp/enroll'')
      \<and> (8 \<le> length t \<and> length t \<le> 128 \<and> list_all token_char t \<longrightarrow>
           auth_handles_delete (''/api/v1/auth/sessions/'' @ t))
      \<and> authorize_or_respond perms role ''DELETE'' (''/api/v1/auth/sessions/'' @ t)
      \<and> vm_mutation_handles_delete (''/api/v1/vms/'' @ u @ ''/snapshot'')
      \<and> authorize_or_respond perms role ''DELETE'' (''/api/v1/vms/'' @ u @ ''/snapshot'')
      \<and> (\<forall>op \<in> {''/clone'', ''/snapshot'', ''/snapshot/revert''}.
           vm_mutation_handles_path (''/api/v1/vms/'' @ u @ op)
           \<and> authorize_or_respond perms role ''POST'' (''/api/v1/vms/'' @ u @ op))"
proof -
  have open_route: "authorize_or_respond perms role m p" if "required_permission m p = None" for m p
    using that by (simp add: authorize_or_respond_def)
  have "auth_user_totp_disable_match (''/api/v1/auth/users/'' @ u @ ''/totp/disable'')"
    "auth_user_totp_enroll_match (''/api/v1/auth/users/'' @ u @ ''/totp/enroll'')"
    unfolding auth_user_totp_disable_match_def auth_user_totp_enroll_match_def
    by (rule match_line_middle [OF assms])+
  then have 1: "auth_handles_post (''/api/v1/auth/users/'' @ u @ ''/totp/disable'')"
    "auth_handles_post (''/api/v1/auth/users/'' @ u @ ''/totp/enroll'')"
    by (simp_all only: auth_handles_post_def simp_thms)
  have 2: "auth_handles_delete (''/api/v1/auth/sessions/'' @ t)"
    if "8 \<le> length t \<and> length t \<le> 128 \<and> list_all token_char t"
    using that unfolding auth_handles_delete_def full_match_iff matches_seqs_Cons matches_seqs_Nil matches_lit_iff
    by (auto simp: matches_between)
  have 3: "vm_mutation_handles_delete (''/api/v1/vms/'' @ u @ ''/snapshot'')"
    by (simp add: vm_mutation_handles_delete_def ends_with_rev)
  have 4: "vm_mutation_handles_path (''/api/v1/vms/'' @ u @ op)"
    if "op \<in> {''/clone'', ''/snapshot'', ''/snapshot/revert''}" for op
    using that by (auto simp: vm_mutation_handles_path_def ends_with_rev)
  show ?thesis
    using 1 2 3 4 open_route totp_route_has_no_rule [of "''/totp/disable''" u]
      totp_route_has_no_rule [of "''/totp/enroll''" u] vm_route_has_no_rule delete_route_has_no_rule
    by (intro conjI ballI impI) (simp_all only: simp_thms)
qed

theorem unguarded_mutations_witness:
  "authorize_or_respond (\<lambda>r. {}) (Some ''viewer'') ''POST'' ''/api/v1/auth/users/admin/totp/disable''
   \<and> authorize_or_respond (\<lambda>r. {}) (Some ''viewer'') ''DELETE'' ''/api/v1/vms/100/snapshot''"
  using unguarded_mutations [of "''admin''" "\<lambda>r. {}" "Some ''viewer''" "''abcdefgh''"]
    unguarded_mutations [of "''100''" "\<lambda>r. {}" "Some ''viewer''" "''abcdefgh''"]
  by (simp add: name_char_def is_alnum_def is_alpha_def is_digit_def)

end
