(* ===== verification/Identifiers.thy ===== *)
theory Identifiers
  imports Regex PyValue
begin

text \<open>
  \<open>core/validation/identifiers.py\<close>: the validators applied to identifiers before they reach commands and
  file paths. A validator strips its argument, matches it against an anchored pattern and returns the
  stripped text, or raises \<open>ValueError\<close>. Text is ASCII and Latin-1, the alphabet of \<open>char\<close>.
\<close>

definition word_dash :: "char \<Rightarrow> bool" where
  "word_dash c = (is_alnum c \<or> c = CHR ''_'' \<or> c = CHR ''-'')"

definition host_char :: "char \<Rightarrow> bool" where
  "host_char c = (is_alnum c \<or> c = CHR ''.'' \<or> c = CHR ''-'' \<or> c = CHR ''_'')"

definition RE_VMID :: re where "RE_VMID = between 1 9 is_digit"
definition RE_NETWORK_NAME :: re where "RE_NETWORK_NAME = seqs [RCls is_alnum, upto 62 word_dash]"
definition RE_POOL_ID :: re where "RE_POOL_ID = seqs [RCls is_alnum, upto 63 word_dash]"
definition RE_NODE_ID :: re where "RE_NODE_ID = seqs [RCls is_alnum, upto 63 host_char]"
definition RE_DEVICE_ID :: re where "RE_DEVICE_ID = between 1 128 word_dash"
definition RE_ZONE_ID :: re where "RE_ZONE_ID = seqs [RCls is_alnum, upto 63 word_dash]"
definition RE_SECRET_NAME :: re where "RE_SECRET_NAME = between 1 64 word_dash"

definition validate_vmid :: "py \<Rightarrow> int result" where
  "validate_vmid v = (let s = strip (py_str v) in
     if \<not> match_line RE_VMID s
     then Inl (ValueError (''Invalid VM ID '' @ py_repr v @ ''. Must be 1-9 digits (e.g. 100, 200).''))
     else rbind (py_int (PStr s)) (\<lambda>n.
       if n < 1 then Inl (ValueError (''VM ID must be >= 1, got '' @ int_str n)) else Inr n))"

text \<open>The shape the six text validators share: the pattern, the kind of identifier and the rule it states.\<close>

definition validate_text :: "re \<Rightarrow> string \<Rightarrow> string \<Rightarrow> py \<Rightarrow> string result" where
  "validate_text r kind rule v = (let s = strip (py_str v) in
     if \<not> match_line r s then Inl (ValueError (''Invalid '' @ kind @ '' '' @ py_repr v @ ''. '' @ rule)) else Inr s)"

definition validate_network_name :: "py \<Rightarrow> string result" where
  "validate_network_name = validate_text RE_NETWORK_NAME ''network name''
     ''Must start with [a-zA-Z0-9], contain only [a-zA-Z0-9_-], max 63 chars.''"

definition validate_pool_id :: "py \<Rightarrow> string result" where
  "validate_pool_id = validate_text RE_POOL_ID ''pool ID''
     ''Must start with [a-zA-Z0-9], contain only [a-zA-Z0-9_-], max 64 chars.''"

definition validate_node_id :: "py \<Rightarrow> string result" where
  "validate_node_id = validate_text RE_NODE_ID ''node ID''
     ''Must start with [a-zA-Z0-9], contain only [a-zA-Z0-9._-], max 64 chars.''"

definition validate_device_id :: "py \<Rightarrow> string result" where
  "validate_device_id = validate_text RE_DEVICE_ID ''device ID''
     ''Must contain only [a-zA-Z0-9_-], max 128 chars.''"

definition validate_zone_id :: "py \<Rightarrow> string result" where
  "validate_zone_id = validate_text RE_ZONE_ID ''zone ID''
     ''Must start with [a-zA-Z0-9], contain only [a-zA-Z0-9_-], max 64 chars.''"

definition validate_secret_name :: "py \<Rightarrow> string result" where
  "validate_secret_name = validate_text RE_SECRET_NAME ''secret name''
     ''Must contain only [a-zA-Z0-9_-], max 64 chars.''"

subsection \<open>What the validators accept\<close>

text \<open>A safe identifier: a letter or digit, then at most \<open>n\<close> characters of the class.\<close>

definition named :: "nat \<Rightarrow> (char \<Rightarrow> bool) \<Rightarrow> string \<Rightarrow> bool" where
  "named n p s = (s \<noteq> [] \<and> is_alnum (hd s) \<and> length s \<le> Suc n \<and> list_all p (tl s))"

lemma matches_named: "matches (seqs [RCls is_alnum, upto n p]) s \<longleftrightarrow> named n p s"
  by (cases s) (simp_all add: seqs_def matches_cls_seq matches_seq [of "upto n p"] matches_upto named_def)

lemma matches_bounded: "1 \<le> n \<Longrightarrow> matches (between (Suc 0) n p) s \<longleftrightarrow> s \<noteq> [] \<and> length s \<le> n \<and> list_all p s"
  by (cases s) (auto simp: matches_between)

lemma validate_text_Inr: "validate_text r kind rule v = Inr s \<longleftrightarrow> s = strip (py_str v) \<and> matches r s"
  by (auto simp: validate_text_def Let_def match_line_strip)

text \<open>C32: The text validators accept exactly the documented languages: they return the argument without
  the blanks around it when that is a name of the documented alphabet and length, and raise
  \<open>ValueError\<close> in every other case.\<close>

theorem validators_exact:
  "(validate_network_name v = Inr s \<longleftrightarrow> s = strip (py_str v) \<and> named 62 word_dash s)
   \<and> (validate_pool_id v = Inr s \<longleftrightarrow> s = strip (py_str v) \<and> named 63 word_dash s)
   \<and> (validate_node_id v = Inr s \<longleftrightarrow> s = strip (py_str v) \<and> named 63 host_char s)
   \<and> (validate_zone_id v = Inr s \<longleftrightarrow> s = strip (py_str v) \<and> named 63 word_dash s)
   \<and> (validate_device_id v = Inr s \<longleftrightarrow> s = strip (py_str v) \<and> s \<noteq> [] \<and> length s \<le> 128 \<and> list_all word_dash s)
   \<and> (validate_secret_name v = Inr s \<longleftrightarrow> s = strip (py_str v) \<and> s \<noteq> [] \<and> length s \<le> 64 \<and> list_all word_dash s)
   \<and> ((\<exists>m. validate_pool_id v = Inl (ValueError m)) \<longleftrightarrow> \<not> named 63 word_dash (strip (py_str v)))"
  unfolding validate_network_name_def validate_pool_id_def validate_node_id_def validate_zone_id_def
    validate_device_id_def validate_secret_name_def validate_text_Inr RE_NETWORK_NAME_def RE_POOL_ID_def
    RE_NODE_ID_def RE_ZONE_ID_def RE_DEVICE_ID_def RE_SECRET_NAME_def matches_named
  by (auto simp: validate_text_def Let_def match_line_strip matches_named matches_bounded)

lemma vmid_of_int: "matches RE_VMID (int_str i) \<longleftrightarrow> 0 \<le> i \<and> i < 10 ^ 9"
proof (cases "i < 0")
  case True
  then show ?thesis by (simp add: RE_VMID_def matches_bounded int_str_def)
next
  case False
  then have "length (nat_str (nat i)) \<le> 9 \<longleftrightarrow> nat i < 10 ^ 9" by (intro length_nat_str) simp
  moreover have "list_all is_digit (nat_str (nat i))" by (simp add: list_all_iff nat_str_digits)
  ultimately show ?thesis
    using False by (auto simp: RE_VMID_def matches_bounded int_str_def)
qed

text \<open>A VM id given as an integer is accepted exactly when it lies between 1 and 999999999, and is returned
  unchanged, also when it is given as decimal text with blanks around it.\<close>

lemma vmid_range:
  "(validate_vmid (PInt i) = Inr n \<longleftrightarrow> n = i \<and> 1 \<le> i \<and> i \<le> 999999999)
   \<and> (validate_vmid (PStr ('' '' @ int_str i @ '' '')) = Inr n \<longleftrightarrow> n = i \<and> 1 \<le> i \<and> i \<le> 999999999)"
proof -
  have strips: "strip ('' '' @ int_str i @ '' '') = int_str i"
    by (simp only: strip_blanks strip_int_str)
  have 1: "validate_vmid v = Inr n \<longleftrightarrow> n = i \<and> 1 \<le> i \<and> i \<le> 999999999" if "strip (py_str v) = int_str i" for v
  proof -
    have "match_line RE_VMID (int_str i) \<longleftrightarrow> 0 \<le> i \<and> i < 10 ^ 9"
      using match_line_strip [of RE_VMID "int_str i"] vmid_of_int by simp
    with that show ?thesis by (auto simp: validate_vmid_def Let_def split: if_splits)
  qed
  show ?thesis using 1 [of "PInt i"] 1 [of "PStr ('' '' @ int_str i @ '' '')"] strips by simp
qed

end
