(* ===== verification/StreamingProfile.thy ===== *)
theory StreamingProfile
  imports PyValue
begin

text \<open>
  \<open>core/virtualization/streaming_profile.py\<close>: the streaming profile of a desktop pool, its three
  enumerations, the parser of payloads and the serialiser. What the parser returns is in range, and
  what the serialiser writes parses back to the same profile.
\<close>

datatype streaming_encoder = ENC_AUTO | NVENC | VAAPI | QUICKSYNC | SOFTWARE
datatype streaming_color_codec = H264 | H265 | AV1
datatype streaming_network_mode = VPN_REQUIRED | VPN_PREFERRED | DIRECT_ALLOWED

fun encoder_value :: "streaming_encoder \<Rightarrow> string" where
  "encoder_value ENC_AUTO = ''auto''"
| "encoder_value NVENC = ''nvenc''"
| "encoder_value VAAPI = ''vaapi''"
| "encoder_value QUICKSYNC = ''quicksync''"
| "encoder_value SOFTWARE = ''software''"

fun color_value :: "streaming_color_codec \<Rightarrow> string" where
  "color_value H264 = ''h264''"
| "color_value H265 = ''h265''"
| "color_value AV1 = ''av1''"

fun network_value :: "streaming_network_mode \<Rightarrow> string" where
  "network_value VPN_REQUIRED = ''vpn_required''"
| "network_value VPN_PREFERRED = ''vpn_preferred''"
| "network_value DIRECT_ALLOWED = ''direct_allowed''"

text \<open>\<open>Enum(value)\<close>: the member with the value, \<open>ValueError\<close> when there is none.\<close>

definition enum_of :: "('e \<Rightarrow> string) \<Rightarrow> 'e list \<Rightarrow> string \<Rightarrow> 'e option" where
  "enum_of f es s = List.find (\<lambda>e. f e = s) es"

lemma enum_of_value:
  "e \<in> set es \<Longrightarrow> inj_on f (set es) \<Longrightarrow> enum_of f es (f e) = Some e"
  unfolding enum_of_def by (induction es) (auto simp: inj_on_def)

lemma enum_of_Some: "enum_of f es s = Some e \<Longrightarrow> f e = s"
  by (auto simp: enum_of_def find_Some_iff)

definition STREAMING_ENCODERS :: "streaming_encoder list" where
  "STREAMING_ENCODERS = [ENC_AUTO, NVENC, VAAPI, QUICKSYNC, SOFTWARE]"
definition STREAMING_COLORS :: "streaming_color_codec list" where
  "STREAMING_COLORS = [H264, H265, AV1]"
definition STREAMING_NETWORK_MODES :: "streaming_network_mode list" where
  "STREAMING_NETWORK_MODES = [VPN_REQUIRED, VPN_PREFERRED, DIRECT_ALLOWED]"

record streaming_profile =
  sp_encoder :: streaming_encoder
  sp_bitrate_kbps :: int
  sp_resolution :: string
  sp_fps :: int
  sp_color :: streaming_color_codec
  sp_network_mode :: streaming_network_mode
  sp_hdr :: bool
  sp_audio_input_enabled :: bool
  sp_gamepad_redirect_enabled :: bool
  sp_wacom_tablet_enabled :: bool
  sp_usb_redirect_enabled :: bool

definition production_beaglestream_profile :: streaming_profile where
  "production_beaglestream_profile = \<lparr>sp_encoder = SOFTWARE, sp_bitrate_kbps = 32000,
     sp_resolution = ''1920x1080'', sp_fps = 60, sp_color = H264, sp_network_mode = VPN_REQUIRED,
     sp_hdr = False, sp_audio_input_enabled = False, sp_gamepad_redirect_enabled = False,
     sp_wacom_tablet_enabled = False, sp_usb_redirect_enabled = False\<rparr>"

definition normalize_resolution :: "py \<Rightarrow> string result" where
  "normalize_resolution v =
     (let raw = replace_char CHR ''@'' ''x'' (lower (strip (str_or v))) in
      if CHR ''x'' \<notin> set raw then Inl (ValueError ''resolution must be WIDTHxHEIGHT'')
      else let (width_text, height_text) = split_first CHR ''x'' raw in
        rbind (py_int (PStr width_text)) (\<lambda>width.
        rbind (py_int (PStr height_text)) (\<lambda>height.
          if width < 640 \<or> width > 7680 then Inl (ValueError ''resolution width out of range'')
          else if height < 360 \<or> height > 4320 then Inl (ValueError ''resolution height out of range'')
          else Inr (int_str width @ ''x'' @ int_str height))))"

text \<open>
  \<open>dict(payload or {})\<close>: a dictionary is copied; a sequence must consist of pairs, of which those with a
  string key can be read back.
\<close>

definition dict_pair :: "py \<Rightarrow> (string \<times> py) option result" where
  "dict_pair v = (let wrong_length = Inl (ValueError ''dictionary update sequence element has wrong length; 2 is required'') in
     case v of
       PList [k, x] \<Rightarrow> (case k of PStr s \<Rightarrow> Inr (Some (s, x))
          | PList xs \<Rightarrow> Inl (TypeError ''unhashable type: list'') | PDict d \<Rightarrow> Inl (TypeError ''unhashable type: dict'') | _ \<Rightarrow> Inr None)
     | PList xs \<Rightarrow> wrong_length
     | PStr [a, b] \<Rightarrow> Inr (Some ([a], PStr [b]))
     | PStr s \<Rightarrow> wrong_length
     | PDict [(a, u), (b, w)] \<Rightarrow> Inr (Some (a, PStr b))
     | PDict d \<Rightarrow> wrong_length
     | _ \<Rightarrow> Inl (TypeError ''cannot convert dictionary update sequence element to a sequence''))"

definition py_dict :: "py \<Rightarrow> dict result" where
  "py_dict v = (if \<not> truthy v then Inr [] else
     (case v of PDict d \<Rightarrow> Inr d
      | PList xs \<Rightarrow> rbind (rmap dict_pair xs)
          (\<lambda>ps. Inr (fold (\<lambda>p d. case p of None \<Rightarrow> d | Some (k, x) \<Rightarrow> dset k x d) ps []))
      | PStr s \<Rightarrow> Inl (ValueError ''dictionary update sequence element #0 has length 1; 2 is required'')
      | _ \<Rightarrow> Inl (TypeError ''object is not iterable'')))"

definition enum_field :: "('e \<Rightarrow> string) \<Rightarrow> 'e list \<Rightarrow> string \<Rightarrow> string \<Rightarrow> 'e \<Rightarrow> dict \<Rightarrow> 'e result" where
  "enum_field f es kind key e0 body =
     (case enum_of f es (lower (py_str (por (pget_or body key (PStr (f e0))) (PStr (f e0))))) of
        Some e \<Rightarrow> Inr e
      | None \<Rightarrow> Inl (ValueError (''invalid streaming '' @ kind @ '': '' @ py_str (pget body key))))"

definition int_field :: "string \<Rightarrow> int \<Rightarrow> dict \<Rightarrow> int result" where
  "int_field key n body = py_int (por (pget_or body key (PInt n)) (PInt n))"

definition bool_field :: "string \<Rightarrow> dict \<Rightarrow> bool" where
  "bool_field key body = truthy (pget_or body key (PBool False))"

definition streaming_profile_from_payload :: "py \<Rightarrow> streaming_profile result" where
  "streaming_profile_from_payload payload =
     rbind (py_dict payload) (\<lambda>body.
     rbind (enum_field encoder_value STREAMING_ENCODERS ''encoder'' ''encoder'' ENC_AUTO body) (\<lambda>encoder.
     rbind (enum_field color_value STREAMING_COLORS ''color codec'' ''color'' H265 body) (\<lambda>color.
     rbind (enum_field network_value STREAMING_NETWORK_MODES ''network mode'' ''network_mode'' VPN_PREFERRED body) (\<lambda>network_mode.
     rbind (int_field ''bitrate_kbps'' 32000 body) (\<lambda>bitrate_kbps.
       if bitrate_kbps < 2000 \<or> bitrate_kbps > 150000 then Inl (ValueError ''bitrate_kbps out of range'') else
     rbind (int_field ''fps'' 60 body) (\<lambda>fps.
       if fps < 24 \<or> fps > 240 then Inl (ValueError ''fps out of range'') else
     rbind (normalize_resolution (pget_or body ''resolution'' (PStr ''1920x1080''))) (\<lambda>resolution.
     Inr \<lparr>sp_encoder = encoder, sp_bitrate_kbps = bitrate_kbps, sp_resolution = resolution, sp_fps = fps,
          sp_color = color, sp_network_mode = network_mode, sp_hdr = bool_field ''hdr'' body,
          sp_audio_input_enabled = bool_field ''audio_input_enabled'' body,
          sp_gamepad_redirect_enabled = bool_field ''gamepad_redirect_enabled'' body,
          sp_wacom_tablet_enabled = bool_field ''wacom_tablet_enabled'' body,
          sp_usb_redirect_enabled = bool_field ''usb_redirect_enabled'' body\<rparr>)))))))"

definition streaming_profile_dict :: "streaming_profile \<Rightarrow> dict" where
  "streaming_profile_dict p = [
     (''encoder'', PStr (encoder_value (sp_encoder p))),
     (''bitrate_kbps'', PInt (sp_bitrate_kbps p)),
     (''resolution'', PStr (sp_resolution p)),
     (''fps'', PInt (sp_fps p)),
     (''color'', PStr (color_value (sp_color p))),
     (''network_mode'', PStr (network_value (sp_network_mode p))),
     (''hdr'', PBool (sp_hdr p)),
     (''audio_input_enabled'', PBool (sp_audio_input_enabled p)),
     (''gamepad_redirect_enabled'', PBool (sp_gamepad_redirect_enabled p)),
     (''wacom_tablet_enabled'', PBool (sp_wacom_tablet_enabled p)),
     (''usb_redirect_enabled'', PBool (sp_usb_redirect_enabled p))]"

definition streaming_profile_to_dict :: "streaming_profile option \<Rightarrow> py" where
  "streaming_profile_to_dict p = (case p of None \<Rightarrow> PNone | Some q \<Rightarrow> PDict (streaming_profile_dict q))"

subsection \<open>Range and round trip\<close>

definition resolution_ok :: "string \<Rightarrow> bool" where
  "resolution_ok s = (\<exists>w \<in> {640..7680}. \<exists>h \<in> {360..4320}. s = int_str w @ ''x'' @ int_str h)"

definition profile_ok :: "streaming_profile \<Rightarrow> bool" where
  "profile_ok p = (2000 \<le> sp_bitrate_kbps p \<and> sp_bitrate_kbps p \<le> 150000 \<and> 24 \<le> sp_fps p \<and> sp_fps p \<le> 240
     \<and> resolution_ok (sp_resolution p))"

lemma normalize_resolution_ok: "normalize_resolution v = Inr s \<Longrightarrow> resolution_ok s"
  unfolding resolution_ok_def
  by (auto simp: normalize_resolution_def Let_def rbind_eq_Inr simp del: py_int.simps split: if_splits prod.splits)
     (metis atLeastAtMost_iff linorder_not_less)

lemma from_payload_ok: "streaming_profile_from_payload v = Inr p \<Longrightarrow> profile_ok p"
  by (auto simp: streaming_profile_from_payload_def rbind_eq_Inr profile_ok_def split: if_splits
      dest: normalize_resolution_ok)

lemma digit_lower: "is_digit c \<Longrightarrow> lower_char c = c \<and> c \<noteq> CHR ''@'' \<and> c \<noteq> CHR ''x'' \<and> \<not> is_space c"
  by (auto simp: is_digit_def lower_char_def is_space_def Let_def)

lemma normalize_resolution_fixed:
  assumes "resolution_ok s"
  shows "normalize_resolution (PStr s) = Inr s"
proof -
  obtain w h where r: "640 \<le> w" "w \<le> 7680" "360 \<le> h" "h \<le> 4320" and s: "s = int_str w @ ''x'' @ int_str h"
    using assms by (auto simp: resolution_ok_def)
  have dw: "\<forall>c \<in> set (int_str w). is_digit c" and dh: "\<forall>c \<in> set (int_str h). is_digit c"
    using r by (auto simp: int_str_def nat_str_digits)
  have pl: "\<forall>c \<in> set s. lower_char c = c \<and> c \<noteq> CHR ''@'' \<and> \<not> is_space c"
    using dw dh digit_lower unfolding s by (auto simp: lower_char_def is_space_def)
  have 1: "strip s = s" using pl by (intro strip_no_space) auto
  have 2: "lower s = s" using pl by (auto simp: lower_def intro!: map_idI)
  have "\<forall>c \<in> set u. c \<noteq> CHR ''@'' \<Longrightarrow> replace_char CHR ''@'' ''x'' u = u" for u
    by (induction u) (simp_all add: replace_char_def)
  then have 3: "replace_char CHR ''@'' ''x'' s = s" using pl by blast
  have "\<forall>c \<in> set (int_str w). c \<noteq> CHR ''x''" using dw digit_lower by blast
  then have 4: "split_first CHR ''x'' s = (int_str w, int_str h)"
    by (simp add: split_first_def s takeWhile_append dropWhile_append)
  have 5: "CHR ''x'' \<in> set s" by (simp add: s)
  from r show ?thesis
    by (simp add: normalize_resolution_def 1 2 3 4 5) (simp add: s)
qed

lemma enum_field_value:
  assumes "map_of body key = Some (PStr (f e))" "e \<in> set es" "inj_on f (set es)" "lower (f e) = f e" "f e \<noteq> []"
  shows "enum_field f es kind key e0 body = Inr e"
  using assms enum_of_value [of e es f] by (simp add: enum_field_def pget_or_def)

lemma from_payload_to_dict:
  assumes "profile_ok p"
  shows "streaming_profile_from_payload (PDict (streaming_profile_dict p)) = Inr p"
proof -
  let ?b = "streaming_profile_dict p"
  have "enum_field encoder_value STREAMING_ENCODERS ''encoder'' ''encoder'' ENC_AUTO ?b = Inr (sp_encoder p)"
  proof (rule enum_field_value)
    show "map_of ?b ''encoder'' = Some (PStr (encoder_value (sp_encoder p)))" by (simp add: streaming_profile_dict_def)
    show "sp_encoder p \<in> set STREAMING_ENCODERS" by (cases "sp_encoder p") (auto simp: STREAMING_ENCODERS_def)
    show "inj_on encoder_value (set STREAMING_ENCODERS)" by (auto simp: inj_on_def STREAMING_ENCODERS_def)
    show "lower (encoder_value (sp_encoder p)) = encoder_value (sp_encoder p)" by (cases "sp_encoder p") (simp_all add: lower_def lower_char_def)
    show "encoder_value (sp_encoder p) \<noteq> []" by (cases "sp_encoder p") simp_all
  qed
  moreover have "enum_field color_value STREAMING_COLORS ''color codec'' ''color'' H265 ?b = Inr (sp_color p)"
  proof (rule enum_field_value)
    show "map_of ?b ''color'' = Some (PStr (color_value (sp_color p)))" by (simp add: streaming_profile_dict_def)
    show "sp_color p \<in> set STREAMING_COLORS" by (cases "sp_color p") (auto simp: STREAMING_COLORS_def)
    show "inj_on color_value (set STREAMING_COLORS)" by (auto simp: inj_on_def STREAMING_COLORS_def)
    show "lower (color_value (sp_color p)) = color_value (sp_color p)" by (cases "sp_color p") (simp_all add: lower_def lower_char_def)
    show "color_value (sp_color p) \<noteq> []" by (cases "sp_color p") simp_all
  qed
  moreover have "enum_field network_value STREAMING_NETWORK_MODES ''network mode'' ''network_mode'' VPN_PREFERRED ?b = Inr (sp_network_mode p)"
  proof (rule enum_field_value)
    show "map_of ?b ''network_mode'' = Some (PStr (network_value (sp_network_mode p)))" by (simp add: streaming_profile_dict_def)
    show "sp_network_mode p \<in> set STREAMING_NETWORK_MODES" by (cases "sp_network_mode p") (auto simp: STREAMING_NETWORK_MODES_def)
    show "inj_on network_value (set STREAMING_NETWORK_MODES)" by (auto simp: inj_on_def STREAMING_NETWORK_MODES_def)
    show "lower (network_value (sp_network_mode p)) = network_value (sp_network_mode p)" by (cases "sp_network_mode p") (simp_all add: lower_def lower_char_def)
    show "network_value (sp_network_mode p) \<noteq> []" by (cases "sp_network_mode p") simp_all
  qed
  moreover have "py_dict (PDict ?b) = Inr ?b" by (simp add: py_dict_def streaming_profile_dict_def)
  moreover have "int_field ''bitrate_kbps'' 32000 ?b = Inr (sp_bitrate_kbps p)" "int_field ''fps'' 60 ?b = Inr (sp_fps p)"
    using assms by (simp_all add: int_field_def streaming_profile_dict_def profile_ok_def)
  moreover have "normalize_resolution (pget_or ?b ''resolution'' (PStr ''1920x1080'')) = Inr (sp_resolution p)"
    using assms normalize_resolution_fixed by (simp add: streaming_profile_dict_def profile_ok_def)
  moreover have "bool_field ''hdr'' ?b = sp_hdr p" "bool_field ''audio_input_enabled'' ?b = sp_audio_input_enabled p"
    "bool_field ''gamepad_redirect_enabled'' ?b = sp_gamepad_redirect_enabled p"
    "bool_field ''wacom_tablet_enabled'' ?b = sp_wacom_tablet_enabled p"
    "bool_field ''usb_redirect_enabled'' ?b = sp_usb_redirect_enabled p"
    by (simp_all add: bool_field_def streaming_profile_dict_def)
  ultimately show ?thesis
    using assms by (simp add: streaming_profile_from_payload_def profile_ok_def)
qed

text \<open>A payload the parser accepts gives a profile in range (bitrate 2000 to 150000 kbit/s, 24 to 240 frames,
  a resolution between 640x360 and 7680x4320), and serialising that profile and parsing it again
  gives the same profile.\<close>

lemma streaming_profile_roundtrip:
  assumes "streaming_profile_from_payload payload = Inr p"
  shows "profile_ok p \<and> streaming_profile_from_payload (streaming_profile_to_dict (Some p)) = Inr p"
  using from_payload_ok [OF assms] from_payload_to_dict by (simp add: streaming_profile_to_dict_def)

end
