(* ===== verification/DesktopPool.thy ===== *)
theory DesktopPool
  imports StreamingProfile
begin

text \<open>
  \<open>core/virtualization/desktop_pool.py\<close> and \<open>scheduler_policy.py\<close>: the modes and types of desktop pools,
  the specification a pool is created from, the lease and the summary the pool manager returns, and
  the affinity groups a scheduler policy is parsed into.
\<close>

subsection \<open>Enumerations\<close>

datatype pool_mode = FLOATING_NON_PERSISTENT | FLOATING_PERSISTENT | DEDICATED

datatype pool_type = PT_DESKTOP | PT_GAMING | PT_KIOSK | PT_GPU_PASSTHROUGH | PT_GPU_TIMESLICE | PT_GPU_VGPU

datatype recording_policy = REC_DISABLED | REC_ON_DEMAND | REC_ALWAYS

fun mode_value :: "pool_mode \<Rightarrow> string" where
  "mode_value FLOATING_NON_PERSISTENT = ''floating_non_persistent''"
| "mode_value FLOATING_PERSISTENT = ''floating_persistent''"
| "mode_value DEDICATED = ''dedicated''"

fun type_value :: "pool_type \<Rightarrow> string" where
  "type_value PT_DESKTOP = ''desktop''"
| "type_value PT_GAMING = ''gaming''"
| "type_value PT_KIOSK = ''kiosk''"
| "type_value PT_GPU_PASSTHROUGH = ''gpu_passthrough''"
| "type_value PT_GPU_TIMESLICE = ''gpu_timeslice''"
| "type_value PT_GPU_VGPU = ''gpu_vgpu''"

fun recording_value :: "recording_policy \<Rightarrow> string" where
  "recording_value REC_DISABLED = ''disabled''"
| "recording_value REC_ON_DEMAND = ''on_demand''"
| "recording_value REC_ALWAYS = ''always''"

definition MODES :: "pool_mode list" where "MODES = [FLOATING_NON_PERSISTENT, FLOATING_PERSISTENT, DEDICATED]"
definition TYPES :: "pool_type list" where
  "TYPES = [PT_DESKTOP, PT_GAMING, PT_KIOSK, PT_GPU_PASSTHROUGH, PT_GPU_TIMESLICE, PT_GPU_VGPU]"
definition RECORDINGS :: "recording_policy list" where "RECORDINGS = [REC_DISABLED, REC_ON_DEMAND, REC_ALWAYS]"

text \<open>\<open>Enum(value)\<close> of any value: only a string can be the value of a member; \<open>None\<close> is \<open>ValueError\<close>.\<close>

definition enum_member :: "('e \<Rightarrow> string) \<Rightarrow> 'e list \<Rightarrow> py \<Rightarrow> 'e option" where
  "enum_member f es v = (case v of PStr s \<Rightarrow> enum_of f es s | _ \<Rightarrow> None)"

lemma mode_member [simp]: "enum_member mode_value MODES (PStr (mode_value m)) = Some m"
  unfolding enum_member_def by (cases m) (simp_all add: enum_of_def MODES_def)

lemma type_member [simp]: "enum_member type_value TYPES (PStr (type_value t)) = Some t"
  unfolding enum_member_def by (cases t) (simp_all add: enum_of_def TYPES_def)

lemma recording_member [simp]: "enum_of recording_value RECORDINGS (recording_value r) = Some r"
  by (cases r) (simp_all add: enum_of_def RECORDINGS_def)

subsection \<open>Pool specification, lease and summary\<close>

record pool_spec =
  spec_pool_id :: string
  spec_template_id :: string
  spec_mode :: pool_mode
  spec_min_pool_size :: int
  spec_max_pool_size :: int
  spec_warm_pool_size :: int
  spec_cpu_cores :: int
  spec_memory_mib :: int
  spec_storage_pool :: string
  spec_gpu_class :: string
  spec_session_recording :: recording_policy
  spec_recording_retention_days :: int
  spec_recording_watermark_enabled :: bool
  spec_recording_watermark_custom_text :: string
  spec_enabled :: bool
  spec_labels :: "string list"
  spec_streaming_profile :: "streaming_profile option"
  spec_tenant_id :: string
  spec_pool_type :: pool_type
  spec_session_time_limit_minutes :: int
  spec_session_cost_per_minute :: rat
  spec_session_extension_options_minutes :: "int list"

record lease =
  lease_pool_id :: string
  lease_vmid :: int
  lease_user_id :: string
  lease_mode :: pool_mode
  lease_state :: string
  lease_assigned_at :: string
  lease_stream_health :: py

record pool_info =
  info_pool_id :: string
  info_template_id :: py
  info_mode :: pool_mode
  info_min_pool_size :: int
  info_max_pool_size :: int
  info_warm_pool_size :: int
  info_gpu_class :: string
  info_session_recording :: recording_policy
  info_recording_retention_days :: int
  info_free_desktops :: nat
  info_in_use_desktops :: nat
  info_recycling_desktops :: nat
  info_error_desktops :: nat
  info_enabled :: bool
  info_streaming_profile :: "streaming_profile option"
  info_recording_watermark_enabled :: bool
  info_recording_watermark_custom_text :: string
  info_tenant_id :: string
  info_pool_type :: pool_type
  info_session_time_limit_minutes :: int
  info_session_cost_per_minute :: rat
  info_session_extension_options_minutes :: "int list"

subsection \<open>Scheduler policy\<close>

record scheduler_group =
  group_id :: string
  group_vmids :: "int list"

record scheduler_policy =
  affinity_groups :: "scheduler_group list"
  anti_affinity_groups :: "scheduler_group list"

fun group_vmids_of :: "int list \<Rightarrow> py list \<Rightarrow> int list" where
  "group_vmids_of acc [] = acc"
| "group_vmids_of acc (item # items) = (case py_int item of
     Inl e \<Rightarrow> group_vmids_of acc items
   | Inr vmid \<Rightarrow> if vmid \<le> 0 then group_vmids_of acc items
       else group_vmids_of (if vmid \<in> set acc then acc else acc @ [vmid]) items)"

definition normalize_group :: "string \<Rightarrow> nat \<Rightarrow> py \<Rightarrow> scheduler_group option" where
  "normalize_group prefix index raw = (if \<not> is_dict raw then None else
     (let d = dict_of raw; vmids = group_vmids_of [] (list_of (pget d ''vmids'')); dflt = prefix @ ''-'' @ nat_str index
      in if length vmids < 2 then None
         else Some \<lparr>group_id = sor (strip (py_str (por (pget d ''group_id'') (por (pget d ''name'') (PStr dflt))))) dflt,
                    group_vmids = vmids\<rparr>))"

fun normalize_groups :: "string \<Rightarrow> nat \<Rightarrow> py list \<Rightarrow> scheduler_group list" where
  "normalize_groups prefix idx [] = []"
| "normalize_groups prefix idx (item # items) =
     (case normalize_group prefix idx item of None \<Rightarrow> [] | Some g \<Rightarrow> [g]) @ normalize_groups prefix (Suc idx) items"

definition scheduler_policy_from_payload :: "py \<Rightarrow> scheduler_policy" where
  "scheduler_policy_from_payload payload = (if \<not> is_dict payload
     then \<lparr>affinity_groups = [], anti_affinity_groups = []\<rparr>
     else \<lparr>affinity_groups = normalize_groups ''affinity'' 1 (list_of (pget (dict_of payload) ''affinity_groups'')),
           anti_affinity_groups = normalize_groups ''anti-affinity'' 1 (list_of (pget (dict_of payload) ''anti_affinity_groups''))\<rparr>)"

definition group_ok :: "scheduler_group \<Rightarrow> bool" where
  "group_ok g = (2 \<le> length (group_vmids g) \<and> distinct (group_vmids g) \<and> (\<forall>v \<in> set (group_vmids g). 0 < v) \<and> group_id g \<noteq> [])"

lemma group_vmids_of_ok:
  "distinct acc \<and> (\<forall>v \<in> set acc. 0 < v) \<Longrightarrow>
     distinct (group_vmids_of acc items) \<and> (\<forall>v \<in> set (group_vmids_of acc items). 0 < v)"
proof (induction items arbitrary: acc)
  case (Cons item items)
  show ?case
  proof (cases "py_int item")
    case (Inr b)
    define acc' where "acc' = (if b \<le> 0 \<or> b \<in> set acc then acc else acc @ [b])"
    have "group_vmids_of acc (item # items) = group_vmids_of acc' items"
      by (simp add: Inr acc'_def)
    moreover have "distinct acc' \<and> (\<forall>v \<in> set acc'. 0 < v)"
      using Cons.prems by (simp add: acc'_def)
    ultimately show ?thesis using Cons.IH [of acc'] by simp
  qed (use Cons in simp)
qed simp

lemma normalize_group_ok:
  assumes "normalize_group prefix idx raw = Some g"
  shows "group_ok g"
proof -
  define vmids where "vmids = group_vmids_of [] (list_of (pget (dict_of raw) ''vmids''))"
  have "distinct vmids \<and> (\<forall>v \<in> set vmids. 0 < v)"
    unfolding vmids_def by (rule group_vmids_of_ok) simp
  moreover have "2 \<le> length vmids \<and> (\<exists>t. g = \<lparr>group_id = sor t (prefix @ ''-'' @ nat_str idx), group_vmids = vmids\<rparr>)"
    using assms unfolding normalize_group_def Let_def vmids_def [symmetric]
    by (simp only: split: if_splits) (simp_all, blast)
  ultimately show ?thesis by (auto simp: group_ok_def sor_def split: if_splits)
qed

lemma normalize_groups_ok: "g \<in> set (normalize_groups prefix idx items) \<Longrightarrow> group_ok g"
  by (induction prefix idx items rule: normalize_groups.induct) (auto dest: normalize_group_ok [OF sym] split: option.splits)

lemma scheduler_policy_ok:
  "g \<in> set (affinity_groups (scheduler_policy_from_payload p)) \<or>
   g \<in> set (anti_affinity_groups (scheduler_policy_from_payload p)) \<Longrightarrow> group_ok g"
  by (auto simp: scheduler_policy_from_payload_def dest: normalize_groups_ok split: if_splits)

end
