(* ===== verification/PyTime.thy ===== *)
theory PyTime
  imports PyValue "HOL-Library.Code_Target_Numeral"
begin

text \<open>
  The clock text of the services: the calendar, \<open>datetime.fromisoformat\<close> on the extended ISO 8601 format
  (date, optional separator and time with up to six decimals, optional offset), \<open>strptime\<close> and
  \<open>strftime\<close> of \<open>%Y-%m-%dT%H:%M:%SZ\<close>. An aware \<open>datetime\<close> in UTC is the number of microseconds since
  0001-01-01T00:00:00Z, between 0 and \<open>MAX_INSTANT\<close>. Formatting and parsing round-trip.
\<close>

type_synonym instant = int

subsection \<open>The Gregorian calendar\<close>

definition is_leap :: "nat \<Rightarrow> bool" where
  "is_leap y = (y mod 4 = 0 \<and> (y mod 100 \<noteq> 0 \<or> y mod 400 = 0))"

definition year_days :: "nat \<Rightarrow> nat" where
  "year_days y = (if is_leap y then 366 else 365)"

definition month_days :: "nat \<Rightarrow> nat list" where
  "month_days y = [31, if is_leap y then 29 else 28, 31, 30, 31, 30, 31, 31, 30, 31, 30, 31]"

definition days_before_year :: "nat \<Rightarrow> nat" where
  "days_before_year y = (let k = y - 1 in k * 365 + k div 4 + k div 400 - k div 100)"

definition days_before_month :: "nat \<Rightarrow> nat \<Rightarrow> nat" where
  "days_before_month y m = sum_list (take (m - 1) (month_days y))"

text \<open>Days since 0001-01-01.\<close>

definition ymd_to_days :: "nat \<Rightarrow> nat \<Rightarrow> nat \<Rightarrow> nat" where
  "ymd_to_days y m d = days_before_year y + days_before_month y m + (d - 1)"

definition valid_date :: "nat \<Rightarrow> nat \<Rightarrow> nat \<Rightarrow> bool" where
  "valid_date y m d = (1 \<le> y \<and> y \<le> 9999 \<and> 1 \<le> m \<and> m \<le> 12 \<and> 1 \<le> d \<and> d \<le> month_days y ! (m - 1))"

function year_scan :: "nat \<Rightarrow> nat \<Rightarrow> nat \<times> nat" where
  "year_scan y n = (if n < year_days y then (y, n) else year_scan (Suc y) (n - year_days y))"
  by auto
termination by (relation "measure snd") (auto simp: year_days_def split: if_splits)

declare year_scan.simps [simp del]

fun month_scan :: "nat \<Rightarrow> nat list \<Rightarrow> nat \<Rightarrow> nat \<times> nat" where
  "month_scan m [] n = (m, n)"
| "month_scan m (l # ls) n = (if n < l then (m, n) else month_scan (Suc m) ls (n - l))"

text \<open>The calendar date of a day: whole 400-year cycles, then years, then months.\<close>

definition days_to_ymd :: "nat \<Rightarrow> nat \<times> nat \<times> nat" where
  "days_to_ymd n = (let (y0, r) = year_scan 1 (n mod 146097);
       y = 400 * (n div 146097) + y0;
       (m, d) = month_scan 1 (month_days y) r
     in (y, m, Suc d))"

lemma days_before_year_Suc: "1 \<le> y \<Longrightarrow> days_before_year (Suc y) = days_before_year y + year_days y"
proof -
  assume "1 \<le> y"
  then obtain k where y: "y = Suc k" by (cases y) auto
  have le: "k div 100 \<le> k div 4" by (rule div_le_mono2) simp_all
  have "Suc k mod 4 = 0" if "Suc k mod 100 = 0"
    using that dvd_trans [of 4 100 "Suc k"] by (simp add: dvd_eq_mod_eq_0)
  moreover have "Suc k mod 100 = 0" if "Suc k mod 400 = 0"
    using that dvd_trans [of 100 400 "Suc k"] by (simp add: dvd_eq_mod_eq_0)
  moreover define a b c where "a = k div 4" and "b = k div 100" and "c = k div 400"
  ultimately show ?thesis
    using le unfolding days_before_year_def year_days_def is_leap_def y Let_def
    by (simp add: div_Suc ac_simps flip: a_def b_def c_def)
qed

lemma year_scan_spec:
  "1 \<le> y \<Longrightarrow> year_scan y n = (y', r) \<Longrightarrow>
     y \<le> y' \<and> r < year_days y' \<and> days_before_year y' + r = days_before_year y + n"
proof (induction y n arbitrary: y' r rule: year_scan.induct)
  case (1 y n)
  show ?case
  proof (cases "n < year_days y")
    case True
    with 1 show ?thesis by (simp add: year_scan.simps)
  next
    case False
    then have "year_scan (Suc y) (n - year_days y) = (y', r)"
      using "1.prems" by (simp add: year_scan.simps [of y n])
    then have "Suc y \<le> y' \<and> r < year_days y' \<and> days_before_year y' + r = days_before_year (Suc y) + (n - year_days y)"
      using "1.IH" [OF False, of y' r] by simp
    with False show ?thesis by (simp add: days_before_year_Suc [OF "1.prems"(1)])
  qed
qed

lemma days_before_year_mono: "1 \<le> y \<Longrightarrow> y \<le> z \<Longrightarrow> days_before_year y \<le> days_before_year z"
proof (induction z)
  case (Suc z)
  then show ?case by (cases "y = Suc z") (auto simp: days_before_year_Suc)
qed simp

lemma days_before_year_cycle: "1 \<le> y \<Longrightarrow> days_before_year (400 * q + y) = 146097 * q + days_before_year y"
proof -
  assume "1 \<le> y"
  then obtain k where y: "y = Suc k" by (cases y) auto
  have "(400 * q + k) div 4 = 100 * q + k div 4"
    using div_mult_self2 [of 4 k "100 * q"] by (simp add: ac_simps)
  moreover have "(400 * q + k) div 100 = 4 * q + k div 100"
    using div_mult_self2 [of 100 k "4 * q"] by (simp add: ac_simps)
  moreover have "(400 * q + k) div 400 = q + k div 400"
    using div_mult_self2 [of 400 k q] by (simp add: ac_simps)
  moreover have "k div 100 \<le> k div 4" by (rule div_le_mono2) simp_all
  ultimately show ?thesis by (simp add: days_before_year_def y ac_simps)
qed

lemma is_leap_cycle [simp]: "is_leap (400 * q + y) = is_leap y"
proof -
  have "(400 * q + y) mod 4 = y mod 4" using mod_mult_self2 [of y 4 "100 * q"] by (simp add: ac_simps)
  moreover have "(400 * q + y) mod 100 = y mod 100" using mod_mult_self2 [of y 100 "4 * q"] by (simp add: ac_simps)
  moreover have "(400 * q + y) mod 400 = y mod 400" using mod_mult_self2 [of y 400 q] by (simp add: ac_simps)
  ultimately show ?thesis by (simp add: is_leap_def)
qed

lemma month_scan_spec:
  "n < sum_list ls \<Longrightarrow> month_scan m ls n = (m', d) \<Longrightarrow>
     m \<le> m' \<and> m' - m < length ls \<and> d < ls ! (m' - m) \<and> sum_list (take (m' - m) ls) + d = n"
proof (induction ls arbitrary: m n)
  case (Cons l ls)
  show ?case
  proof (cases "n < l")
    case True
    with Cons.prems show ?thesis by auto
  next
    case False
    then have *: "Suc m \<le> m' \<and> m' - Suc m < length ls \<and> d < ls ! (m' - Suc m) \<and> sum_list (take (m' - Suc m) ls) + d = n - l"
      using Cons.prems by (intro Cons.IH) auto
    have "m' - m = Suc (m' - Suc m)" using * by linarith
    with * False show ?thesis by (simp, linarith)
  qed
qed simp

lemma sum_month_days: "sum_list (month_days y) = year_days y"
  by (simp add: month_days_def year_days_def)

text \<open>Every day has one calendar date, and the date counts back to the day.\<close>

lemma days_to_ymd_spec:
  assumes "days_to_ymd n = (y, m, d)"
  shows "ymd_to_days y m d = n" and "1 \<le> y" and "1 \<le> m \<and> m \<le> 12 \<and> 1 \<le> d \<and> d \<le> month_days y ! (m - 1)"
    and "days_before_year y \<le> n"
proof -
  obtain y0 r where ys: "year_scan 1 (n mod 146097) = (y0, r)" by (cases "year_scan 1 (n mod 146097)")
  define y' where "y' = 400 * (n div 146097) + y0"
  obtain m' d' where ms: "month_scan 1 (month_days y') r = (m', d')" by (cases "month_scan 1 (month_days y') r")
  have e: "y = y'" "m = m'" "d = Suc d'" using assms ys ms by (simp_all add: days_to_ymd_def y'_def)
  have Y: "1 \<le> y0" "r < year_days y0" "days_before_year y0 + r = n mod 146097"
    using year_scan_spec [OF _ ys] by (simp_all add: days_before_year_def)
  have "r < sum_list (month_days y')"
    using Y(2) by (simp add: sum_month_days y'_def year_days_def)
  from month_scan_spec [OF this ms]
  have M: "1 \<le> m'" "m' - 1 < length (month_days y')" "d' < month_days y' ! (m' - 1)"
    "sum_list (take (m' - 1) (month_days y')) + d' = r" by auto
  show "1 \<le> y" using Y(1) e by (simp add: y'_def)
  have cyc: "days_before_year y' = 146097 * (n div 146097) + days_before_year y0"
    unfolding y'_def by (rule days_before_year_cycle [OF Y(1)])
  show *: "ymd_to_days y m d = n"
    using M(4) Y(3) cyc e mult_div_mod_eq [of 146097 n] unfolding ymd_to_days_def days_before_month_def e by linarith
  show "1 \<le> m \<and> m \<le> 12 \<and> 1 \<le> d \<and> d \<le> month_days y ! (m - 1)"
    using M e by (simp add: month_days_def)
  show "days_before_year y \<le> n" using * by (simp add: ymd_to_days_def)
qed

lemma days_to_ymd_before: "days_to_ymd n = (y, m, d) \<Longrightarrow> n < days_before_year (Suc y)"
proof -
  assume a: "days_to_ymd n = (y, m, d)"
  obtain y0 r where ys: "year_scan 1 (n mod 146097) = (y0, r)" by (cases "year_scan 1 (n mod 146097)")
  have y: "y = 400 * (n div 146097) + y0"
    using a ys by (cases "month_scan 1 (month_days (400 * (n div 146097) + y0)) r") (simp add: days_to_ymd_def)
  have Y: "1 \<le> y0" "r < year_days y0" "days_before_year y0 + r = n mod 146097"
    using year_scan_spec [OF _ ys] by (simp_all add: days_before_year_def)
  have "days_before_year (Suc y) = 146097 * (n div 146097) + days_before_year y0 + year_days y0"
    using days_before_year_Suc [of y] days_before_year_cycle [OF Y(1), of "n div 146097"] Y(1) y
    by (simp add: year_days_def)
  with Y mult_div_mod_eq [of 146097 n] show ?thesis by linarith
qed

lemma year_bound: "days_to_ymd n = (y, m, d) \<Longrightarrow> n < 3652059 \<Longrightarrow> y \<le> 9999"
proof (rule ccontr)
  assume a: "days_to_ymd n = (y, m, d)" "n < 3652059" "\<not> y \<le> 9999"
  have "days_before_year 10000 \<le> days_before_year y" using a(3) by (intro days_before_year_mono) auto
  then show False using days_to_ymd_spec(4) [OF a(1)] a(2) by (simp add: days_before_year_def)
qed

subsection \<open>Instants\<close>

definition MAX_INSTANT :: instant where "MAX_INSTANT = 3652059 * 86400 * 1000000"

definition instant_ok :: "instant \<Rightarrow> bool" where
  "instant_ok t = (0 \<le> t \<and> t < MAX_INSTANT)"

definition check_instant :: "instant \<Rightarrow> instant result" where
  "check_instant t = (if instant_ok t then Inr t else Inl (OverflowError ''date value out of range''))"

definition ymdhms :: "nat \<Rightarrow> nat \<Rightarrow> nat \<Rightarrow> nat \<Rightarrow> nat \<Rightarrow> nat \<Rightarrow> nat \<Rightarrow> instant" where
  "ymdhms y m d hh mm ss us =
     ((int (ymd_to_days y m d) * 24 + int hh) * 60 + int mm) * 60000000 + int ss * 1000000 + int us"

text \<open>\<open>dt + timedelta(minutes=n)\<close> and \<open>(a - b).total_seconds()\<close>.\<close>

definition add_minutes :: "instant \<Rightarrow> int \<Rightarrow> instant result" where
  "add_minutes t n = check_instant (t + n * 60000000)"

definition seconds_between :: "instant \<Rightarrow> instant \<Rightarrow> rat" where
  "seconds_between a b = of_int (a - b) / 1000000"

subsection \<open>Formatting\<close>

definition pad2 :: "nat \<Rightarrow> string" where
  "pad2 n = [digit_char (n div 10), digit_char (n mod 10)]"

text \<open>\<open>strftime("%Y-%m-%dT%H:%M:%SZ")\<close>; the platform's \<open>%Y\<close> does not pad years below 1000.\<close>

definition strftime_utc :: "instant \<Rightarrow> string" where
  "strftime_utc t = (let s = nat (t div 1000000); (y, m, d) = days_to_ymd (s div 86400); r = s mod 86400
     in nat_str y @ ''-'' @ pad2 m @ ''-'' @ pad2 d @ ''T'' @ pad2 (r div 3600) @ '':''
        @ pad2 (r div 60 mod 60) @ '':'' @ pad2 (r mod 60) @ ''Z'')"

text \<open>\<open>isoformat()\<close> of a UTC instant: four digits for the year, microseconds only when there are any.\<close>

definition pad_to :: "nat \<Rightarrow> nat \<Rightarrow> string" where
  "pad_to k n = replicate (k - length (nat_str n)) (CHR ''0'') @ nat_str n"

definition isoformat_utc :: "instant \<Rightarrow> string" where
  "isoformat_utc t = (let s = nat (t div 1000000); us = nat (t mod 1000000); (y, m, d) = days_to_ymd (s div 86400); r = s mod 86400
     in pad_to 4 y @ ''-'' @ pad2 m @ ''-'' @ pad2 d @ ''T'' @ pad2 (r div 3600) @ '':'' @ pad2 (r div 60 mod 60) @ '':''
        @ pad2 (r mod 60) @ (if us = 0 then [] else ''.'' @ pad_to 6 us) @ ''+00:00'')"

subsection \<open>Parsing\<close>

definition take_num :: "nat \<Rightarrow> string \<Rightarrow> (nat \<times> string) option" where
  "take_num k s = (if k \<le> length s \<and> list_all is_digit (take k s)
     then Some (digits_val (take k s), drop k s) else None)"

fun expect :: "char \<Rightarrow> string \<Rightarrow> string option" where
  "expect c [] = None"
| "expect c (x # s) = (if x = c then Some s else None)"

text \<open>\<open>HH\<close>, \<open>HH:MM\<close>, \<open>HH:MM:SS\<close>, with three or six decimals after the seconds.\<close>

definition parse_decimals :: "string \<Rightarrow> nat option" where
  "parse_decimals s = (if list_all is_digit s then
     (if length s = 6 then Some (digits_val s) else if length s = 3 then Some (1000 * digits_val s) else None)
     else None)"

definition parse_clock :: "string \<Rightarrow> (nat \<times> nat \<times> nat \<times> nat) option" where
  "parse_clock s = (case take_num 2 s of None \<Rightarrow> None | Some (hh, s1) \<Rightarrow>
     if s1 = [] then Some (hh, 0, 0, 0) else
     (case Option.bind (expect CHR '':'' s1) (take_num 2) of None \<Rightarrow> None | Some (mm, s2) \<Rightarrow>
     if s2 = [] then Some (hh, mm, 0, 0) else
     (case Option.bind (expect CHR '':'' s2) (take_num 2) of None \<Rightarrow> None | Some (ss, s3) \<Rightarrow>
     if s3 = [] then Some (hh, mm, ss, 0) else
     (case Option.bind (expect CHR ''.'' s3) parse_decimals of None \<Rightarrow> None
      | Some us \<Rightarrow> Some (hh, mm, ss, us)))))"

text \<open>The offset after its sign, in microseconds; it must be less than a day.\<close>

definition parse_offset :: "string \<Rightarrow> int option" where
  "parse_offset s = (if length s \<notin> {5, 8, 15} then None else
     (case parse_clock s of None \<Rightarrow> None
      | Some (hh, mm, ss, us) \<Rightarrow>
          let off = (int hh * 3600 + int mm * 60 + int ss) * 1000000 + int us
          in if off < 86400000000 then Some off else None))"

definition is_sign :: "char \<Rightarrow> bool" where
  "is_sign c = (c = CHR ''+'' \<or> c = CHR ''-'')"

text \<open>\<open>datetime.fromisoformat\<close>: the local time in microseconds and the offset, if there is one.\<close>

definition fromisoformat :: "string \<Rightarrow> (int \<times> int option) option" where
  "fromisoformat s =
    (case take_num 4 s of None \<Rightarrow> None | Some (y, s1) \<Rightarrow>
    (case Option.bind (expect CHR ''-'' s1) (take_num 2) of None \<Rightarrow> None | Some (m, s2) \<Rightarrow>
    (case Option.bind (expect CHR ''-'' s2) (take_num 2) of None \<Rightarrow> None | Some (d, s3) \<Rightarrow>
     if \<not> valid_date y m d then None
     else if s3 = [] then Some (ymdhms y m d 0 0 0 0, None)
     else let t = tl s3; clock = takeWhile (\<lambda>c. \<not> is_sign c) t; zone = dropWhile (\<lambda>c. \<not> is_sign c) t
     in (case parse_clock clock of None \<Rightarrow> None | Some (hh, mm, ss, us) \<Rightarrow>
          if \<not> (hh < 24 \<and> mm < 60 \<and> ss < 60) then None
          else let local = ymdhms y m d hh mm ss us
          in (case zone of [] \<Rightarrow> Some (local, None)
              | sign # z \<Rightarrow> map_option (\<lambda>off. (local, Some (if sign = CHR ''-'' then - off else off))) (parse_offset z))))))"

text \<open>
  \<open>strptime\<close> of \<open>%Y-%m-%dT%H:%M:%SZ\<close> (\<open>zulu\<close>) and of the format without the \<open>Z\<close>: fields of one or two
  digits, a day below ten may have a blank before it, \<open>T\<close> and \<open>Z\<close> in either case.
\<close>

definition short_num :: "string \<Rightarrow> (nat \<times> string) option" where
  "short_num s = (let ds = takeWhile is_digit s in
     if length ds = 1 \<or> length ds = 2 then Some (digits_val ds, dropWhile is_digit s) else None)"

definition day_num :: "string \<Rightarrow> (nat \<times> string) option" where
  "day_num s = (case s of [] \<Rightarrow> None
     | c # t \<Rightarrow> if c = CHR '' '' then (if length (takeWhile is_digit t) = 1 then short_num t else None) else short_num s)"

definition expect_letter :: "char \<Rightarrow> string \<Rightarrow> string option" where
  "expect_letter c s = (case s of [] \<Rightarrow> None | x # t \<Rightarrow> if upper_char x = c then Some t else None)"

definition strptime_utc :: "bool \<Rightarrow> string \<Rightarrow> instant option" where
  "strptime_utc zulu s =
    (case take_num 4 s of None \<Rightarrow> None | Some (y, s1) \<Rightarrow>
    (case Option.bind (expect CHR ''-'' s1) short_num of None \<Rightarrow> None | Some (m, s2) \<Rightarrow>
    (case Option.bind (expect CHR ''-'' s2) day_num of None \<Rightarrow> None | Some (d, s3) \<Rightarrow>
    (case Option.bind (expect_letter CHR ''T'' s3) short_num of None \<Rightarrow> None | Some (hh, s4) \<Rightarrow>
    (case Option.bind (expect CHR '':'' s4) short_num of None \<Rightarrow> None | Some (mm, s5) \<Rightarrow>
    (case Option.bind (expect CHR '':'' s5) short_num of None \<Rightarrow> None | Some (ss, s6) \<Rightarrow>
    (case (if zulu then expect_letter CHR ''Z'' s6 else Some s6) of None \<Rightarrow> None | Some s7 \<Rightarrow>
     if s7 = [] \<and> valid_date y m d \<and> hh < 24 \<and> mm < 60 \<and> ss < 60
     then Some (ymdhms y m d hh mm ss 0) else None)))))))"

text \<open>
  The parser of the services (\<open>PoolManagerService._parse_utc_timestamp\<close>): \<open>fromisoformat\<close> with \<open>Z\<close>
  replaced by \<open>+00:00\<close>, then the two \<open>strptime\<close> formats.
\<close>

definition parse_utc_timestamp :: "string \<Rightarrow> instant result" where
  "parse_utc_timestamp value = (let text = strip value in
     if text = [] then Inl (ValueError ''empty timestamp'') else
     let normalized = (if ends_with text ''Z'' then replace_char CHR ''Z'' ''+00:00'' text else text) in
     (case fromisoformat normalized of
        Some (local, None) \<Rightarrow> Inr local
      | Some (local, Some off) \<Rightarrow> check_instant (local - off)
      | None \<Rightarrow> (case strptime_utc True text of Some t \<Rightarrow> Inr t
          | None \<Rightarrow> (case strptime_utc False text of Some t \<Rightarrow> Inr t
              | None \<Rightarrow> Inl (ValueError (''Cannot parse: '' @ repr_str text))))))"

subsection \<open>Round trip\<close>

lemma take_num_append:
  "length ds = k \<Longrightarrow> list_all is_digit ds \<Longrightarrow> take_num k (ds @ s) = Some (digits_val ds, s)"
  by (simp add: take_num_def)

lemma pad2_digits: "n < 100 \<Longrightarrow> list_all is_digit (pad2 n)"
  by (simp add: pad2_def is_digit_digit_char)

lemma digits_val_pad2: "n < 100 \<Longrightarrow> digits_val (pad2 n) = n"
  by (simp add: pad2_def digits_val_def digit_val_digit_char)

lemma take_pad2 [simp]: "n < 100 \<Longrightarrow> take_num 2 (pad2 n @ s) = Some (n, s)"
  by (subst take_num_append) (simp_all add: pad2_digits digits_val_pad2, simp add: pad2_def)

lemma take_year:
  assumes "1000 \<le> y" "y \<le> 9999"
  shows "take_num 4 (nat_str y @ s) = Some (y, s)"
proof -
  have "length (nat_str y) \<le> 4" using assms by (subst length_nat_str) auto
  moreover have "\<not> length (nat_str y) \<le> 3" using assms by (subst length_nat_str) auto
  ultimately have "length (nat_str y) = 4" by simp
  then show ?thesis by (subst take_num_append) (auto simp: list_all_iff nat_str_digits)
qed

lemma parse_clock_pad:
  "hh < 100 \<Longrightarrow> mm < 100 \<Longrightarrow> parse_clock (pad2 hh @ '':'' @ pad2 mm) = Some (hh, mm, 0, 0)"
  "hh < 100 \<Longrightarrow> mm < 100 \<Longrightarrow> ss < 100 \<Longrightarrow>
     parse_clock (pad2 hh @ '':'' @ pad2 mm @ '':'' @ pad2 ss) = Some (hh, mm, ss, 0)"
  using take_pad2 [of mm "[]"] take_pad2 [of ss "[]"] by (simp_all add: parse_clock_def)

lemma digit_plain: "is_digit c \<Longrightarrow> \<not> is_sign c \<and> c \<noteq> CHR ''Z'' \<and> \<not> is_space c"
  by (auto simp: is_sign_def is_digit_def is_space_def Let_def)

lemma pad2_char: "n < 100 \<Longrightarrow> c \<in> set (pad2 n) \<Longrightarrow> is_digit c"
  using pad2_digits by (auto simp: list_all_iff)

lemma colon_plain: "\<not> is_sign CHR '':''" "\<not> is_space CHR '':''" "\<not> is_space CHR ''T''" "\<not> is_space CHR ''Z''"
  by (simp_all add: is_sign_def is_space_def)

lemma fromisoformat_utc_bounds: "valid_date y m d \<Longrightarrow> m < 100 \<and> d < 100 \<and> y \<le> 9999"
proof -
  assume v: "valid_date y m d"
  then have "m - 1 < 12" by (auto simp: valid_date_def)
  then have "month_days y ! (m - 1) \<in> set (month_days y)" by (intro nth_mem) (simp add: month_days_def)
  then have "month_days y ! (m - 1) \<le> 31" by (auto simp: month_days_def split: if_splits)
  with v show ?thesis by (auto simp: valid_date_def)
qed

lemma fromisoformat_utc:
  assumes "valid_date y m d" "1000 \<le> y" "hh < 24" "mm < 60" "ss < 60"
  shows "fromisoformat (nat_str y @ ''-'' @ pad2 m @ ''-'' @ pad2 d @ ''T'' @ pad2 hh @ '':'' @ pad2 mm @ '':''
      @ pad2 ss @ ''+00:00'') = Some (ymdhms y m d hh mm ss 0, Some 0)"
proof -
  have md: "m < 100" "d < 100" "y \<le> 9999" using fromisoformat_utc_bounds [OF assms(1)] by auto
  define clock where "clock = pad2 hh @ '':'' @ pad2 mm @ '':'' @ pad2 ss"
  have "\<forall>c \<in> set clock. \<not> is_sign c"
    using assms unfolding clock_def by (auto simp: colon_plain dest!: digit_plain pad2_char [rotated])
  then have c: "takeWhile (\<lambda>c. \<not> is_sign c) (clock @ ''+00:00'') = clock"
    "dropWhile (\<lambda>c. \<not> is_sign c) (clock @ ''+00:00'') = ''+00:00''"
    by (simp_all add: takeWhile_append dropWhile_append is_sign_def)
  have pc: "parse_clock clock = Some (hh, mm, ss, 0)"
    using assms unfolding clock_def by (intro parse_clock_pad) auto
  have off: "parse_offset ''00:00'' = Some 0" by code_simp
  have s: "fromisoformat (nat_str y @ ''-'' @ pad2 m @ ''-'' @ pad2 d @ ''T'' @ clock @ ''+00:00'')
      = Some (ymdhms y m d hh mm ss 0, Some 0)"
    using assms md c pc off by (simp add: fromisoformat_def take_year)
  then show ?thesis by (simp add: clock_def)
qed

lemma strftime_form:
  assumes "0 \<le> t" and "t < MAX_INSTANT" and "ymdhms 1000 1 1 0 0 0 0 \<le> t"
  obtains y m d hh mm ss where "valid_date y m d" "1000 \<le> y" "hh < 24" "mm < 60" "ss < 60"
    "strftime_utc t = nat_str y @ ''-'' @ pad2 m @ ''-'' @ pad2 d @ ''T'' @ pad2 hh @ '':'' @ pad2 mm @ '':'' @ pad2 ss @ ''Z''"
    "t mod 1000000 = 0 \<Longrightarrow> isoformat_utc t
       = nat_str y @ ''-'' @ pad2 m @ ''-'' @ pad2 d @ ''T'' @ pad2 hh @ '':'' @ pad2 mm @ '':'' @ pad2 ss @ ''+00:00''"
    "ymdhms y m d hh mm ss 0 = t - t mod 1000000"
proof -
  define s where "s = nat (t div 1000000)"
  obtain y m d where ymd: "days_to_ymd (s div 86400) = (y, m, d)" by (cases "days_to_ymd (s div 86400)")
  define r where "r = s mod 86400"
  have t: "int s = t div 1000000" using assms(1) by (simp add: s_def)
  have "s < 3652059 * 86400" using assms(2) t unfolding MAX_INSTANT_def by linarith
  then have "s div 86400 < 3652059" by (simp add: div_less_iff_less_mult)
  then have y: "y \<le> 9999" using year_bound [OF ymd] by simp
  note D = days_to_ymd_spec [OF ymd]
  have "ymdhms 1000 1 1 0 0 0 0 = 364877 * 86400 * 1000000" by code_simp
  then have "364877 * 86400 \<le> s" using assms(3) t by linarith
  then have lo: "364877 \<le> s div 86400" by (simp add: less_eq_div_iff_mult_less_eq)
  have y1000: "1000 \<le> y"
  proof (rule ccontr)
    assume a: "\<not> 1000 \<le> y"
    then have "days_before_year (Suc y) \<le> days_before_year 1000" using D(2) by (intro days_before_year_mono) auto
    moreover have "days_before_year 1000 = 364877" by (simp add: days_before_year_def)
    moreover have "s div 86400 < days_before_year (Suc y)"
      using days_to_ymd_before [OF ymd] by simp
    ultimately show False using lo by linarith
  qed
  have hms: "r div 3600 < 24" "r div 60 mod 60 < 60" "r mod 60 < 60"
    by (simp_all add: r_def div_less_iff_less_mult)
  have rr: "r = r div 3600 * 3600 + r div 60 mod 60 * 60 + r mod 60"
  proof -
    have "r div 60 = r div 60 div 60 * 60 + r div 60 mod 60" "r = r div 60 * 60 + r mod 60" by simp_all
    moreover have "r div 60 div 60 = r div 3600" by (simp flip: div_mult2_eq)
    ultimately show ?thesis by linarith
  qed
  show ?thesis
  proof (rule that)
    show "valid_date y m d" using D y by (simp add: valid_date_def)
    show "strftime_utc t = nat_str y @ ''-'' @ pad2 m @ ''-'' @ pad2 d @ ''T'' @ pad2 (r div 3600) @ '':''
        @ pad2 (r div 60 mod 60) @ '':'' @ pad2 (r mod 60) @ ''Z''"
      using ymd by (simp add: strftime_utc_def s_def r_def Let_def)
    have "\<not> length (nat_str y) \<le> 3" using y1000 by (subst length_nat_str) auto
    then show "isoformat_utc t = nat_str y @ ''-'' @ pad2 m @ ''-'' @ pad2 d @ ''T'' @ pad2 (r div 3600) @ '':''
        @ pad2 (r div 60 mod 60) @ '':'' @ pad2 (r mod 60) @ ''+00:00''" if "t mod 1000000 = 0"
      using ymd that by (simp add: isoformat_utc_def s_def r_def pad_to_def Let_def)
    have "s = ymd_to_days y m d * 86400 + r" using D(1) by (simp add: r_def)
    then have "int s = int (ymd_to_days y m d) * 86400 + int r" by linarith
    moreover have "int r = int (r div 3600) * 3600 + int (r div 60 mod 60) * 60 + int (r mod 60)" using rr by linarith
    ultimately show "ymdhms y m d (r div 3600) (r div 60 mod 60) (r mod 60) 0 = t - t mod 1000000"
      unfolding ymdhms_def using t minus_mod_eq_mult_div [of t 1000000] by (simp add: algebra_simps)
  qed (use y1000 hms in auto)
qed

text \<open>A clock reading formatted by the services parses back to itself, to the second.\<close>

lemma parse_strftime:
  assumes "0 \<le> t" and "t < MAX_INSTANT" and "ymdhms 1000 1 1 0 0 0 0 \<le> t"
  shows "parse_utc_timestamp (strftime_utc t) = Inr (t - t mod 1000000)"
proof -
  obtain y m d hh mm ss where v: "valid_date y m d" "1000 \<le> y" "hh < 24" "mm < 60" "ss < 60"
    and f: "strftime_utc t = nat_str y @ ''-'' @ pad2 m @ ''-'' @ pad2 d @ ''T'' @ pad2 hh @ '':'' @ pad2 mm @ '':'' @ pad2 ss @ ''Z''"
    and i: "ymdhms y m d hh mm ss 0 = t - t mod 1000000"
    by (rule strftime_form [OF assms])
  define b where "b = nat_str y @ ''-'' @ pad2 m @ ''-'' @ pad2 d @ ''T'' @ pad2 hh @ '':'' @ pad2 mm @ '':'' @ pad2 ss"
  have fb: "strftime_utc t = b @ ''Z''" by (simp add: f b_def)
  have "m < 100" "d < 100"
    using fromisoformat_utc_bounds [OF v(1)] by auto
  then have chars: "\<forall>c \<in> set b. c \<noteq> CHR ''Z'' \<and> \<not> is_space c"
    using v unfolding b_def by (auto simp: colon_plain dest!: digit_plain nat_str_digits pad2_char [rotated])
  have "strip (b @ ''Z'') = b @ ''Z''"
    using chars by (intro strip_no_space) (auto simp: colon_plain)
  moreover have "ends_with (b @ ''Z'') ''Z''" by (simp add: ends_with_iff)
  moreover have "replace_char CHR ''Z'' ''+00:00'' (b @ ''Z'') = b @ ''+00:00''"
  proof -
    have "\<forall>c \<in> set u. c \<noteq> CHR ''Z'' \<Longrightarrow> replace_char CHR ''Z'' ''+00:00'' (u @ ''Z'') = u @ ''+00:00''" for u
      by (induction u) (simp_all add: replace_char_def)
    with chars show ?thesis by blast
  qed
  moreover have "fromisoformat (b @ ''+00:00'') = Some (t - t mod 1000000, Some 0)"
    using fromisoformat_utc [OF v] by (simp add: b_def i)
  moreover have "instant_ok (t - t mod 1000000)"
    using assms by (simp add: instant_ok_def) (smt (verit) pos_mod_sign zmod_le_nonneg_dividend)
  ultimately show ?thesis by (simp add: parse_utc_timestamp_def fb check_instant_def Let_def)
qed

lemma parse_isoformat:
  assumes "0 \<le> t" and "t < MAX_INSTANT" and "ymdhms 1000 1 1 0 0 0 0 \<le> t" and "t mod 1000000 = 0"
  shows "fromisoformat (isoformat_utc t) = Some (t, Some 0)" and "strip (isoformat_utc t) = isoformat_utc t"
    and "isoformat_utc t \<noteq> []" and "\<not> ends_with (isoformat_utc t) ''Z''" and "list_all (\<lambda>c. (of_char c :: nat) < 128) (isoformat_utc t)"
proof -
  obtain y m d hh mm ss where v: "valid_date y m d" "1000 \<le> y" "hh < 24" "mm < 60" "ss < 60"
    and f: "isoformat_utc t = nat_str y @ ''-'' @ pad2 m @ ''-'' @ pad2 d @ ''T'' @ pad2 hh @ '':'' @ pad2 mm @ '':'' @ pad2 ss @ ''+00:00''"
    and i: "ymdhms y m d hh mm ss 0 = t - t mod 1000000"
    by (rule strftime_form [OF assms(1-3)]) (use assms(4) in blast)
  show "fromisoformat (isoformat_utc t) = Some (t, Some 0)" using fromisoformat_utc [OF v] assms(4) by (simp add: f i)
  have md: "m < 100" "d < 100" using fromisoformat_utc_bounds [OF v(1)] by auto
  have A: "is_digit c \<or> c = CHR ''-'' \<or> c = CHR ''T'' \<or> c = CHR '':'' \<or> c = CHR ''+''" if "c \<in> set (isoformat_utc t)" for c
    using that md v unfolding f by (auto dest!: nat_str_digits pad2_char [rotated] simp: is_digit_def)
  then have c: "\<not> is_space c \<and> c \<noteq> CHR ''Z'' \<and> (of_char c :: nat) < 128" if "c \<in> set (isoformat_utc t)" for c
    using A [OF that] digit_plain [of c] by (elim disjE) (simp_all add: is_space_def is_digit_def Let_def)
  show "strip (isoformat_utc t) = isoformat_utc t" using c by (intro strip_no_space) auto
  show "isoformat_utc t \<noteq> []" by (simp add: f)
  show "\<not> ends_with (isoformat_utc t) ''Z''" using c [of "CHR ''Z''"] by (auto simp: ends_with_iff)
  show "list_all (\<lambda>c. (of_char c :: nat) < 128) (isoformat_utc t)" using c by (simp add: list_all_iff)
qed

end
