(* ===== verification/PoolConfig.thy ===== *)
theory PoolConfig
  imports DesktopPool PyTime StateStore
begin

text \<open>
  \<open>beagle-host/services/pool_manager.py\<close>, first part: the state of the pool manager, how it is read from
  and written to its JSON file, the normalisers of pool fields, and the operations on pool
  configurations (create, get, list, update, delete, scale). The optional SQLite pool repository is
  not configured here. A pool and a desktop slot are dictionaries, as in the code; the tables that
  hold them are keyed by pool id and by the decimal text of the VM id.
\<close>

subsection \<open>State\<close>

abbreviation STATE_FREE :: string where "STATE_FREE \<equiv> ''free''"
abbreviation STATE_IN_USE :: string where "STATE_IN_USE \<equiv> ''in_use''"
abbreviation STATE_RECYCLING :: string where "STATE_RECYCLING \<equiv> ''recycling''"
abbreviation STATE_ERROR :: string where "STATE_ERROR \<equiv> ''error''"
abbreviation STATE_PENDING_GPU :: string where "STATE_PENDING_GPU \<equiv> ''pending-gpu''"

record pm_data =
  pools :: "dict table"
  vms :: "dict table"
  gpu_reservations :: "dict table"
  prewarm_events :: "py list"

text \<open>The calls the manager makes to the provider callables, in order.\<close>

datatype provider_call =
    StartVm py
  | StopVm int
  | ResetVm int py
  | AssignGpu pool_type string py
  | ReleaseGpu pool_type string py

text \<open>
  The manager between two operations: the saved state, the number of clock readings so far and the
  provider calls made. The \<open>k\<close>-th reading of the clock is \<open>utcnow k\<close>.
\<close>

record pm =
  pm_state :: pm_data
  pm_ticks :: nat
  pm_calls :: "provider_call list"

record pick_request =
  pick_cpu :: int
  pick_ram :: int
  pick_gpu :: bool
  pick_hour :: nat
  pick_green_hours :: py
  pick_allowed :: "string list"

text \<open>
  The constructor's callables: a callable that was not given is \<open>None\<close> (or \<open>False\<close> where only the fact
  that it is called matters); what a given one answers is a value or an exception.
\<close>

record pm_env =
  utcnow :: "nat \<Rightarrow> string"
  env_start_vm :: bool
  env_stop_vm :: bool
  env_reset_vm :: "(int \<Rightarrow> py \<Rightarrow> unit result) option"
  env_list_nodes :: "py result option"
  env_vm_node_of :: "(int \<Rightarrow> py result) option"
  env_list_gpu_inventory :: "py result option"
  env_assign_gpu :: "pool_type \<Rightarrow> bool"
  env_release_gpu :: "pool_type \<Rightarrow> bool"
  env_smart_pick_node :: "(pick_request \<Rightarrow> py result) option"

text \<open>\<open>_load\<close> and \<open>_save\<close>: sections of the wrong type are replaced by empty ones.\<close>

definition as_table :: "py \<Rightarrow> dict table" where
  "as_table v = map (\<lambda>(k, x). (k, dict_of x)) (dict_of v)"

definition pm_load :: "dict \<Rightarrow> pm_data" where
  "pm_load data = \<lparr>pools = as_table (pget data ''pools''), vms = as_table (pget data ''vms''),
     gpu_reservations = as_table (pget data ''gpu_reservations''), prewarm_events = list_of (pget data ''prewarm_events'')\<rparr>"

definition table_value :: "dict table \<Rightarrow> py" where
  "table_value t = PDict (map (\<lambda>(k, d). (k, PDict d)) t)"

definition pm_save :: "pm_data \<Rightarrow> dict" where
  "pm_save s = [(''pools'', table_value (pools s)), (''vms'', table_value (vms s)),
     (''gpu_reservations'', table_value (gpu_reservations s)), (''prewarm_events'', PList (prewarm_events s))]"

lemma as_table_value [simp]: "as_table (table_value t) = t"
  by (simp add: as_table_def table_value_def comp_def case_prod_unfold)

lemma pm_load_save: "pm_load (pm_save s) = s"
  by (simp add: pm_load_def pm_save_def)

definition not_found :: "string \<Rightarrow> exn" where
  "not_found pid = ValueError (''pool '' @ repr_str pid @ '' not found'')"

definition advance :: "nat \<Rightarrow> pm \<Rightarrow> pm" where
  "advance k w = w\<lparr>pm_ticks := pm_ticks w + k\<rparr>"

definition reading :: "pm_env \<Rightarrow> pm \<Rightarrow> nat \<Rightarrow> string" where
  "reading env w k = utcnow env (pm_ticks w + k)"

definition commit :: "pm_data \<Rightarrow> pm \<Rightarrow> pm" where
  "commit s w = w\<lparr>pm_state := s\<rparr>"

definition log_call :: "provider_call \<Rightarrow> pm \<Rightarrow> pm" where
  "log_call c w = w\<lparr>pm_calls := pm_calls w @ [c]\<rparr>"

lemma pm_simps [simp]:
  "pm_state (advance k w) = pm_state w" "pm_calls (advance k w) = pm_calls w"
  "pm_ticks (advance k w) = pm_ticks w + k"
  "pm_state (commit s w) = s" "pm_calls (commit s w) = pm_calls w" "pm_ticks (commit s w) = pm_ticks w"
  "pm_state (log_call c w) = pm_state w" "pm_calls (log_call c w) = pm_calls w @ [c]"
  "pm_ticks (log_call c w) = pm_ticks w"
  by (simp_all add: advance_def commit_def log_call_def)

definition put_vm :: "string \<Rightarrow> dict \<Rightarrow> pm_data \<Rightarrow> pm_data" where
  "put_vm k vm s = s\<lparr>vms := dset k vm (vms s)\<rparr>"

definition put_pool :: "string \<Rightarrow> dict \<Rightarrow> pm_data \<Rightarrow> pm_data" where
  "put_pool k cfg s = s\<lparr>pools := dset k cfg (pools s)\<rparr>"

lemma put_simps [simp]:
  "vms (put_vm k vm s) = dset k vm (vms s)" "pools (put_vm k vm s) = pools s"
  "gpu_reservations (put_vm k vm s) = gpu_reservations s" "prewarm_events (put_vm k vm s) = prewarm_events s"
  "pools (put_pool k cfg s) = dset k cfg (pools s)" "vms (put_pool k cfg s) = vms s"
  "gpu_reservations (put_pool k cfg s) = gpu_reservations s" "prewarm_events (put_pool k cfg s) = prewarm_events s"
  by (simp_all add: put_vm_def put_pool_def)

subsection \<open>Fields of a pool\<close>

definition mode_of :: "dict \<Rightarrow> pool_mode" where
  "mode_of cfg = (case enum_member mode_value MODES (pget_or cfg ''mode'' (PStr ''floating_non_persistent'')) of
     Some m \<Rightarrow> m | None \<Rightarrow> FLOATING_NON_PERSISTENT)"

definition type_of :: "dict \<Rightarrow> pool_type" where
  "type_of cfg = (case enum_member type_value TYPES (pget_or cfg ''pool_type'' (PStr ''desktop'')) of
     Some t \<Rightarrow> t | None \<Rightarrow> PT_DESKTOP)"

definition normalize_session_recording :: "py \<Rightarrow> string" where
  "normalize_session_recording v = (let raw = lower (strip (py_str (por v (PStr ''disabled'')))) in
     if raw \<in> set (map recording_value RECORDINGS) then raw else ''disabled'')"

definition normalize_retention_days :: "py \<Rightarrow> int" where
  "normalize_retention_days v = (let days = (case py_int v of Inr d \<Rightarrow> d | Inl e \<Rightarrow> 30) in max 1 (min days 3650))"

definition normalize_watermark_text :: "py \<Rightarrow> string" where
  "normalize_watermark_text v = take 120 (strip (str_or v))"

text \<open>The extension levels of a kiosk session: minutes from 1 to 480, each once, in order, at most six.\<close>

definition extension_parts :: "py \<Rightarrow> py list" where
  "extension_parts raw = (case raw of PStr s \<Rightarrow> if CHR '','' \<in> set s then map PStr (split_char CHR '','' s) else [raw]
     | _ \<Rightarrow> [raw])"

fun extension_minutes :: "int list \<Rightarrow> py list \<Rightarrow> int list" where
  "extension_minutes acc [] = acc"
| "extension_minutes acc (part # parts) = (case parse_int (strip (py_str part)) of
     None \<Rightarrow> extension_minutes acc parts
   | Some minutes \<Rightarrow> extension_minutes
       (if minutes \<le> 0 \<or> minutes > 480 \<or> minutes \<in> set acc then acc else acc @ [minutes]) parts)"

definition normalize_session_extension_options :: "py \<Rightarrow> bool \<Rightarrow> int list" where
  "normalize_session_extension_options v default_for_kiosk =
     (if v = PNone \<or> v = PStr [] then (if default_for_kiosk then [15, 30, 60] else [])
      else let raw_items = (case v of PList xs \<Rightarrow> xs | _ \<Rightarrow> [v]);
               options = sort (extension_minutes [] (concat (map extension_parts raw_items)))
           in if options = [] \<and> default_for_kiosk then [15, 30, 60] else take 6 options)"

definition parse_streaming_profile :: "py \<Rightarrow> streaming_profile option result" where
  "parse_streaming_profile raw = (if \<not> is_dict raw then Inr None
     else (case streaming_profile_from_payload raw of Inr p \<Rightarrow> Inr (Some p)
           | Inl (ValueError m) \<Rightarrow> Inr None | Inl e \<Rightarrow> Inl e))"

subsection \<open>Pool summary (\<open>_pool_info\<close>)\<close>

definition pool_vms :: "pm_data \<Rightarrow> string \<Rightarrow> dict table" where
  "pool_vms s pid = filter (\<lambda>(k, vm). pget vm ''pool_id'' = PStr pid) (vms s)"

definition vm_state :: "dict \<Rightarrow> py" where
  "vm_state vm = pget_or vm ''state'' (PStr STATE_FREE)"

definition count_state :: "dict table \<Rightarrow> string \<Rightarrow> nat" where
  "count_state ts st = length (filter (\<lambda>(k, vm). vm_state vm = PStr st) ts)"

definition pool_info_of :: "pm_data \<Rightarrow> string \<Rightarrow> pool_info result" where
  "pool_info_of s pid = (case map_of (pools s) pid of None \<Rightarrow> Inl (KeyError pid) | Some pool \<Rightarrow>
     let ts = pool_vms s pid in
     if \<exists>(k, vm) \<in> set ts. is_list (vm_state vm) \<or> is_dict (vm_state vm) then Inl (TypeError ''unhashable type'') else
     rbind (py_int (pget_or pool ''min_pool_size'' (PInt 0))) (\<lambda>min_size.
     rbind (py_int (pget_or pool ''max_pool_size'' (PInt 0))) (\<lambda>max_size.
     rbind (py_int (pget_or pool ''warm_pool_size'' (PInt 0))) (\<lambda>warm_size.
     rbind (parse_streaming_profile (pget pool ''streaming_profile'')) (\<lambda>profile.
     rbind (py_int (pget_or pool ''session_time_limit_minutes'' (PInt 0))) (\<lambda>limit.
     rbind (py_float (por (pget_or pool ''session_cost_per_minute'' (PFloat 0)) (PFloat 0))) (\<lambda>cost.
     Inr \<lparr>info_pool_id = pid, info_template_id = pget_or pool ''template_id'' (PStr []),
          info_mode = mode_of pool, info_min_pool_size = min_size, info_max_pool_size = max_size,
          info_warm_pool_size = warm_size, info_gpu_class = stget pool ''gpu_class'',
          info_session_recording =
            (case enum_of recording_value RECORDINGS (normalize_session_recording (pget pool ''session_recording'')) of
               Some r \<Rightarrow> r | None \<Rightarrow> REC_DISABLED),
          info_recording_retention_days = normalize_retention_days (pget_or pool ''recording_retention_days'' (PInt 30)),
          info_free_desktops = count_state ts STATE_FREE, info_in_use_desktops = count_state ts STATE_IN_USE,
          info_recycling_desktops = count_state ts STATE_RECYCLING, info_error_desktops = count_state ts STATE_ERROR,
          info_enabled = truthy (pget_or pool ''enabled'' (PBool True)), info_streaming_profile = profile,
          info_recording_watermark_enabled = truthy (pget_or pool ''recording_watermark_enabled'' (PBool False)),
          info_recording_watermark_custom_text = normalize_watermark_text (pget_or pool ''recording_watermark_custom_text'' (PStr [])),
          info_tenant_id = stget pool ''tenant_id'', info_pool_type = type_of pool,
          info_session_time_limit_minutes = limit, info_session_cost_per_minute = cost,
          info_session_extension_options_minutes =
            normalize_session_extension_options (pget pool ''session_extension_options_minutes'') (type_of pool = PT_KIOSK)\<rparr>)))))))"

subsection \<open>Pool operations\<close>

definition new_pool :: "pool_spec \<Rightarrow> string \<Rightarrow> string \<Rightarrow> dict" where
  "new_pool spec pid now = [
     (''pool_id'', PStr pid),
     (''template_id'', PStr (spec_template_id spec)),
     (''mode'', PStr (mode_value (spec_mode spec))),
     (''min_pool_size'', PInt (spec_min_pool_size spec)),
     (''max_pool_size'', PInt (spec_max_pool_size spec)),
     (''warm_pool_size'', PInt (spec_warm_pool_size spec)),
     (''cpu_cores'', PInt (spec_cpu_cores spec)),
     (''memory_mib'', PInt (spec_memory_mib spec)),
     (''storage_pool'', PStr (spec_storage_pool spec)),
     (''gpu_class'', PStr (strip (spec_gpu_class spec))),
     (''session_recording'', PStr (recording_value (spec_session_recording spec))),
     (''recording_retention_days'', PInt (normalize_retention_days (PInt (spec_recording_retention_days spec)))),
     (''recording_watermark_enabled'', PBool (spec_recording_watermark_enabled spec)),
     (''recording_watermark_custom_text'', PStr (normalize_watermark_text (PStr (spec_recording_watermark_custom_text spec)))),
     (''enabled'', PBool (spec_enabled spec)),
     (''labels'', PList (map PStr (spec_labels spec))),
     (''streaming_profile'', streaming_profile_to_dict (spec_streaming_profile spec)),
     (''tenant_id'', PStr (strip (spec_tenant_id spec))),
     (''pool_type'', PStr (type_value (spec_pool_type spec))),
     (''session_time_limit_minutes'', PInt (spec_session_time_limit_minutes spec)),
     (''session_cost_per_minute'', PFloat (spec_session_cost_per_minute spec)),
     (''session_extension_options_minutes'', PList (map PInt (normalize_session_extension_options
        (PList (map PInt (spec_session_extension_options_minutes spec))) (spec_pool_type spec = PT_KIOSK)))),
     (''created_at'', PStr now)]"

definition create_pool :: "pm_env \<Rightarrow> pool_spec \<Rightarrow> pm \<Rightarrow> pool_info result \<times> pm" where
  "create_pool env spec w = (let pid = strip (spec_pool_id spec); s = pm_state w in
     if pid = [] then (Inl (ValueError ''pool_id is required''), w)
     else if spec_pool_type spec = PT_GAMING \<and> strip (spec_gpu_class spec) = []
       then (Inl (ValueError ''gaming pools require gpu_class''), w)
     else if spec_pool_type spec = PT_KIOSK \<and> spec_session_time_limit_minutes spec \<le> 0
       then (Inl (ValueError ''kiosk pools require session_time_limit_minutes > 0''), w)
     else if has_key (pools s) pid then (Inl (ValueError (''pool '' @ repr_str pid @ '' already exists'')), w)
     else let s' = put_pool pid (new_pool spec pid (reading env w 0)) s
          in (pool_info_of s' pid, commit s' (advance 1 w)))"

definition get_pool :: "string \<Rightarrow> pm \<Rightarrow> pool_info option result" where
  "get_pool pid w = (if has_key (pools (pm_state w)) pid
     then rbind (pool_info_of (pm_state w) pid) (\<lambda>i. Inr (Some i)) else Inr None)"

definition list_pools :: "string option \<Rightarrow> pm \<Rightarrow> pool_info list result" where
  "list_pools tenant w = rbind (rmap (pool_info_of (pm_state w)) (keys (pools (pm_state w))))
     (\<lambda>infos. Inr (case tenant of None \<Rightarrow> infos
        | Some t \<Rightarrow> if strip t = [] then infos else filter (\<lambda>i. info_tenant_id i = strip t) infos))"

definition delete_pool :: "string \<Rightarrow> pm \<Rightarrow> bool \<times> pm" where
  "delete_pool pid w = (let s = pm_state w in
     if \<not> has_key (pools s) pid then (False, w)
     else (True, commit (s\<lparr>pools := ddel pid (pools s),
        vms := filter (\<lambda>(k, vm). pget vm ''pool_id'' \<noteq> PStr pid) (vms s),
        gpu_reservations := filter (\<lambda>(k, item). sget item ''pool_id'' \<noteq> pid) (gpu_reservations s)\<rparr>) w))"

definition UPDATABLE :: "string set" where
  "UPDATABLE = {''min_pool_size'', ''max_pool_size'', ''warm_pool_size'', ''enabled'', ''labels'',
     ''streaming_profile'', ''gpu_class'', ''session_recording'', ''recording_retention_days'',
     ''recording_watermark_enabled'', ''recording_watermark_custom_text'', ''session_extension_options_minutes''}"

definition update_field :: "dict \<Rightarrow> string \<Rightarrow> py \<Rightarrow> py result" where
  "update_field cfg key v =
     (if key = ''streaming_profile'' then
        (if v = PNone then Inr PNone
         else rbind (streaming_profile_from_payload v) (\<lambda>p. Inr (streaming_profile_to_dict (Some p))))
      else if key = ''gpu_class'' then Inr (PStr (strip (str_or v)))
      else if key = ''session_recording'' then Inr (PStr (normalize_session_recording v))
      else if key = ''recording_retention_days'' then Inr (PInt (normalize_retention_days v))
      else if key = ''recording_watermark_enabled'' then Inr (PBool (truthy v))
      else if key = ''recording_watermark_custom_text'' then Inr (PStr (normalize_watermark_text v))
      else if key = ''session_extension_options_minutes'' then
        Inr (PList (map PInt (normalize_session_extension_options v (lower (stget cfg ''pool_type'') = ''kiosk''))))
      else Inr v)"

fun apply_updates :: "dict \<Rightarrow> (string \<times> py) list \<Rightarrow> dict result" where
  "apply_updates cfg [] = Inr cfg"
| "apply_updates cfg ((key, v) # us) = (if key \<in> UPDATABLE
     then rbind (update_field cfg key v) (\<lambda>x. apply_updates (dset key x cfg) us)
     else apply_updates cfg us)"

definition update_pool :: "string \<Rightarrow> dict \<Rightarrow> pm \<Rightarrow> pool_info result \<times> pm" where
  "update_pool pid updates w = (let s = pm_state w in
     case map_of (pools s) pid of None \<Rightarrow> (Inl (not_found pid), w)
     | Some cfg \<Rightarrow> (case apply_updates cfg updates of
           Inl e \<Rightarrow> (Inl e, w)
         | Inr cfg' \<Rightarrow> let s' = put_pool pid cfg' s in (pool_info_of s' pid, commit s' w)))"

definition get_pool_recording_retention_days :: "string \<Rightarrow> pm \<Rightarrow> int" where
  "get_pool_recording_retention_days pid w = (case map_of (pools (pm_state w)) (strip pid) of
     None \<Rightarrow> 30 | Some pool \<Rightarrow> normalize_retention_days (pget_or pool ''recording_retention_days'' (PInt 30)))"

definition get_pool_recording_watermark :: "string \<Rightarrow> pm \<Rightarrow> bool \<times> string" where
  "get_pool_recording_watermark pid w = (case map_of (pools (pm_state w)) (strip pid) of
     None \<Rightarrow> (False, [])
   | Some pool \<Rightarrow> (truthy (pget_or pool ''recording_watermark_enabled'' (PBool False)),
        normalize_watermark_text (pget_or pool ''recording_watermark_custom_text'' (PStr []))))"

definition pool_info_to_dict :: "pool_info \<Rightarrow> dict" where
  "pool_info_to_dict i = [
     (''pool_id'', PStr (info_pool_id i)), (''template_id'', info_template_id i),
     (''mode'', PStr (mode_value (info_mode i))), (''min_pool_size'', PInt (info_min_pool_size i)),
     (''max_pool_size'', PInt (info_max_pool_size i)), (''warm_pool_size'', PInt (info_warm_pool_size i)),
     (''gpu_class'', PStr (info_gpu_class i)),
     (''session_recording'', PStr (recording_value (info_session_recording i))),
     (''recording_retention_days'', PInt (info_recording_retention_days i)),
     (''recording_watermark_enabled'', PBool (info_recording_watermark_enabled i)),
     (''recording_watermark_custom_text'', PStr (info_recording_watermark_custom_text i)),
     (''free_desktops'', PInt (int (info_free_desktops i))), (''in_use_desktops'', PInt (int (info_in_use_desktops i))),
     (''recycling_desktops'', PInt (int (info_recycling_desktops i))), (''error_desktops'', PInt (int (info_error_desktops i))),
     (''enabled'', PBool (info_enabled i)), (''streaming_profile'', streaming_profile_to_dict (info_streaming_profile i)),
     (''tenant_id'', PStr (info_tenant_id i)), (''pool_type'', PStr (type_value (info_pool_type i))),
     (''session_time_limit_minutes'', PInt (info_session_time_limit_minutes i)),
     (''session_cost_per_minute'', PFloat (info_session_cost_per_minute i)),
     (''session_extension_options_minutes'', PList (map PInt (info_session_extension_options_minutes i)))]"

end
