(* ===== verification/PoolPlacement.thy ===== *)
theory PoolPlacement
  imports PoolConfig
begin

text \<open>
  \<open>beagle-host/services/pool_manager.py\<close>, second part: GPU inventory and reservations, the choice of a node
  for a desktop under affinity and anti-affinity groups, the registration of a desktop slot
  (\<open>register_vm\<close>) and the scaling of a pool.
\<close>

subsection \<open>GPU inventory\<close>

definition gpu_class_normalized :: "py \<Rightarrow> string" where
  "gpu_class_normalized v = lower (strip (str_or v))"

definition gpu_matches_class :: "dict \<Rightarrow> string \<Rightarrow> bool" where
  "gpu_matches_class item gpu_class = (let normalized = gpu_class_normalized (PStr gpu_class); status = lower (stget item ''status'') in
     if normalized = [] then True
     else if status = [] then False
     else if starts_with normalized ''passthrough-'' then
       (let remainder = drop (length ''passthrough-'') normalized;
            (vendor, model_token) = (if CHR ''-'' \<in> set remainder then split_first CHR ''-'' remainder else (remainder, []));
            item_vendor = lower (stget item ''vendor''); item_model = lower (stget item ''model'')
        in if vendor \<noteq> [] \<and> item_vendor \<noteq> vendor then False
           else if model_token \<noteq> [] \<and> (\<exists>part \<in> set (filter (\<lambda>p. p \<noteq> []) (split_char CHR ''-'' model_token)). \<not> contains item_model part) then False
           else status \<in> {''available-for-passthrough'', ''assigned''})
     else False)"

text \<open>One inventory item added to the free slots by node.\<close>

definition add_slot :: "string \<Rightarrow> py \<Rightarrow> string list table \<Rightarrow> string list table" where
  "add_slot gpu_class item t = (if \<not> is_dict item \<or> \<not> gpu_matches_class (dict_of item) gpu_class then t else
     (let d = dict_of item; node = stget d ''node''; pci = lower (stget d ''pci_address''); status = lower (stget d ''status'') in
      if node = [] \<or> pci = [] \<or> status \<noteq> ''available-for-passthrough'' then t
      else (let slots = (case map_of t node of Some xs \<Rightarrow> xs | None \<Rightarrow> [])
            in dset node (if pci \<in> set slots then slots else slots @ [pci]) t)))"

definition gpu_slots_by_node :: "pm_env \<Rightarrow> string \<Rightarrow> string list table" where
  "gpu_slots_by_node env gpu_class = (case env_list_gpu_inventory env of None \<Rightarrow> []
     | Some (Inl e) \<Rightarrow> []
     | Some (Inr inventory) \<Rightarrow> fold (add_slot gpu_class) (list_of inventory) [])"

definition reserved_slots :: "pm_data \<Rightarrow> string \<Rightarrow> string set" where
  "reserved_slots s gpu_class = set (filter (\<lambda>slot. slot \<noteq> [])
     (map (\<lambda>(k, item). lower (stget item ''slot''))
       (filter (\<lambda>(k, item). gpu_class_normalized (pget item ''gpu_class'') = gpu_class_normalized (PStr gpu_class))
         (gpu_reservations s))))"

definition cleanup_stale_gpu_reservations :: "pm_data \<Rightarrow> pm_data" where
  "cleanup_stale_gpu_reservations s = s\<lparr>gpu_reservations := filter (\<lambda>(k, item). has_key (vms s) k) (gpu_reservations s)\<rparr>"

subsection \<open>Choice of a node\<close>

definition online_node :: "py \<Rightarrow> string list \<Rightarrow> string list" where
  "online_node item nodes = (if \<not> is_dict item then nodes else
     (let d = dict_of item; node = strip (str_or (por (pget d ''name'') (pget d ''node'')));
          status = lower (strip (py_str (por (pget d ''status'') (PStr ''unknown''))))
      in if node = [] \<or> status \<noteq> ''online'' \<or> node \<in> set nodes then nodes else nodes @ [node]))"

definition online_nodes :: "pm_env \<Rightarrow> string list" where
  "online_nodes env = (case env_list_nodes env of None \<Rightarrow> [] | Some (Inl e) \<Rightarrow> []
     | Some (Inr payload) \<Rightarrow> sort (fold online_node (list_of payload) []))"

definition known_vm_node :: "pm_env \<Rightarrow> int \<Rightarrow> string" where
  "known_vm_node env vmid = (case env_vm_node_of env of None \<Rightarrow> []
     | Some f \<Rightarrow> (case f vmid of Inl e \<Rightarrow> [] | Inr v \<Rightarrow> strip (str_or v)))"

definition placement :: "(int \<times> string) list \<Rightarrow> int \<Rightarrow> string" where
  "placement placements vmid = (case map_of placements vmid of None \<Rightarrow> [] | Some n \<Rightarrow> n)"

definition nodes_for_group :: "int list \<Rightarrow> (int \<times> string) list \<Rightarrow> int \<Rightarrow> string list" where
  "nodes_for_group vmids placements skip_vmid =
     filter (\<lambda>n. n \<noteq> []) (map (\<lambda>v. strip (placement placements v)) (filter (\<lambda>v. v \<noteq> skip_vmid) vmids))"

definition nodes_of_groups :: "scheduler_group list \<Rightarrow> (int \<times> string) list \<Rightarrow> int \<Rightarrow> string list" where
  "nodes_of_groups groups placements vmid = remdups (concat
     (map (\<lambda>g. nodes_for_group (group_vmids g) placements vmid) (filter (\<lambda>g. vmid \<in> set (group_vmids g)) groups)))"

definition hour_of :: "instant \<Rightarrow> nat" where
  "hour_of t = nat (t div 3600000000) mod 24"

text \<open>
  The request to the smart scheduler; \<open>Inl\<close> where building it raises (before or after the clock
  reading it makes, which the second component counts).
\<close>

definition smart_request :: "pm_env \<Rightarrow> dict \<Rightarrow> string list \<Rightarrow> pm \<Rightarrow> pick_request result \<times> nat" where
  "smart_request env cfg allowed w =
     (case rbind (py_int (por (pget_or cfg ''cpu_cores'' (PInt 1)) (PInt 1))) (\<lambda>cpu.
           rbind (py_int (por (pget_or cfg ''memory_mib'' (PInt 1024)) (PInt 1024))) (\<lambda>ram. Inr (cpu, ram))) of
        Inl e \<Rightarrow> (Inl e, 0)
      | Inr (cpu, ram) \<Rightarrow> (rbind (parse_utc_timestamp (reading env w 0)) (\<lambda>t.
          let green = por (pget_or cfg ''green_hours_override'' (PList [])) (PList []) in
          case green of PInt i \<Rightarrow> Inl (TypeError ''not iterable'') | PFloat r \<Rightarrow> Inl (TypeError ''not iterable'')
             | PBool b \<Rightarrow> Inl (TypeError ''not iterable'')
             | _ \<Rightarrow> Inr \<lparr>pick_cpu = cpu, pick_ram = ram, pick_gpu = (stget cfg ''gpu_class'' \<noteq> []),
                         pick_hour = hour_of t, pick_green_hours = green, pick_allowed = allowed\<rparr>), 1))"

definition smart_choice :: "pm_env \<Rightarrow> dict \<Rightarrow> string list \<Rightarrow> pm \<Rightarrow> string option \<times> nat" where
  "smart_choice env cfg allowed w = (case env_smart_pick_node env of None \<Rightarrow> (None, 0)
     | Some pick \<Rightarrow> if allowed = [] then (None, 0) else
         (case smart_request env cfg allowed w of
            (Inl e, n) \<Rightarrow> (None, n)
          | (Inr req, n) \<Rightarrow> (case pick req of Inl e \<Rightarrow> (None, n)
              | Inr v \<Rightarrow> (let selected = (if is_dict v then stget (dict_of v) ''node_id'' else strip (str_or v))
                  in (if selected \<noteq> [] \<and> selected \<in> set allowed then Some selected else None, n)))))"

definition node_candidates :: "string list \<Rightarrow> string list \<Rightarrow> string list" where
  "node_candidates online avoid = (let cs = filter (\<lambda>n. n \<notin> set avoid) online in if cs = [] then online else cs)"

text \<open>The node and the number of clock readings made.\<close>

definition choose_node_for_vmid ::
  "pm_env \<Rightarrow> int \<Rightarrow> scheduler_policy \<Rightarrow> (int \<times> string) list \<Rightarrow> dict \<Rightarrow> pm \<Rightarrow> (string \<times> nat) result" where
  "choose_node_for_vmid env vmid policy placements cfg w =
    (let online = online_nodes env;
         current = strip (sor (placement placements vmid) (known_vm_node env vmid))
     in if online = [] then Inr (current, 0) else
        let candidates = node_candidates online (nodes_of_groups (anti_affinity_groups policy) placements vmid);
            preferred = filter (\<lambda>n. n \<in> set candidates) (sort (nodes_of_groups (affinity_groups policy) placements vmid));
            allowed = (if preferred \<noteq> [] then preferred else candidates)
        in rbind (parse_streaming_profile (pget cfg ''streaming_profile'')) (\<lambda>_.
           case smart_choice env cfg allowed w of
             (Some n, k) \<Rightarrow> Inr (n, k)
           | (None, k) \<Rightarrow> Inr (if preferred \<noteq> [] then hd preferred
                else if current \<noteq> [] \<and> current \<in> set candidates then current
                else hd (sort candidates), k)))"

subsection \<open>Registration of a desktop\<close>

definition policy_of :: "scheduler_policy + py \<Rightarrow> scheduler_policy" where
  "policy_of p = (case p of Inl q \<Rightarrow> q | Inr v \<Rightarrow> scheduler_policy_from_payload v)"

fun collect_placements :: "pm_env \<Rightarrow> dict list \<Rightarrow> (int \<times> string) list \<Rightarrow> (int \<times> string) list result" where
  "collect_placements env [] acc = Inr acc"
| "collect_placements env (item # items) acc = rbind (int_or0 (pget item ''vmid'')) (\<lambda>v.
     let node = strip (sor (sget item ''node'') (known_vm_node env v))
     in collect_placements env items (if v \<le> 0 \<or> node = [] then acc else dset v node acc))"

text \<open>The GPU part of the registration: node, state of the desktop and the slot it reserves.\<close>

definition gpu_placement :: "string list table \<Rightarrow> string set \<Rightarrow> string \<Rightarrow> string \<times> string \<times> string" where
  "gpu_placement slots reserved node =
     (let slots_of = (\<lambda>n. case map_of slots n of Some xs \<Rightarrow> xs | None \<Rightarrow> []);
          nodes = filter (\<lambda>n. \<exists>x \<in> set (slots_of n). x \<notin> reserved) (sort (keys slots))
      in if slots = [] \<or> nodes = [] then ([], STATE_PENDING_GPU, [])
         else let n = (if node \<in> set nodes then node else hd nodes)
              in (n, STATE_FREE, case List.find (\<lambda>x. x \<notin> reserved) (slots_of n) of Some x \<Rightarrow> x | None \<Rightarrow> []))"

definition new_vm :: "int \<Rightarrow> string \<Rightarrow> string \<Rightarrow> string \<Rightarrow> dict" where
  "new_vm vmid pid node st = [(''vmid'', PInt vmid), (''pool_id'', PStr pid), (''node'', PStr node),
     (''state'', PStr st), (''user_id'', PNone), (''assigned_at'', PNone)]"

definition new_reservation :: "string \<Rightarrow> int \<Rightarrow> string \<Rightarrow> string \<Rightarrow> string \<Rightarrow> string \<Rightarrow> dict" where
  "new_reservation pid vmid gpu_class node slot now = [(''pool_id'', PStr pid), (''vmid'', PInt vmid),
     (''gpu_class'', PStr gpu_class), (''node'', PStr node), (''slot'', PStr slot), (''reserved_at'', PStr now)]"

definition register_vm :: "pm_env \<Rightarrow> string \<Rightarrow> int \<Rightarrow> scheduler_policy + py \<Rightarrow> pm \<Rightarrow> dict result \<times> pm" where
  "register_vm env pid vmid sched w = (case map_of (pools (pm_state w)) pid of
      None \<Rightarrow> (Inl (not_found pid), w)
    | Some cfg \<Rightarrow>
       let gpu_class = stget cfg ''gpu_class'';
           s = cleanup_stale_gpu_reservations (pm_state w)
       in (case collect_placements env (vals (pool_vms s pid)) [] of
            Inl e \<Rightarrow> (Inl e, w)
          | Inr placements \<Rightarrow>
             (case choose_node_for_vmid env vmid (policy_of sched) placements cfg w of
                Inl e \<Rightarrow> (Inl e, w)
              | Inr (node0, n) \<Rightarrow>
                 let (node, st, slot) = (if gpu_class = [] then (node0, STATE_FREE, [])
                       else gpu_placement (gpu_slots_by_node env gpu_class) (reserved_slots s gpu_class) node0);
                     vm = new_vm vmid pid node st;
                     s1 = put_vm (int_str vmid) vm s;
                     reserve = (gpu_class \<noteq> [] \<and> st = STATE_FREE \<and> slot \<noteq> []);
                     s2 = (if reserve
                           then s1\<lparr>gpu_reservations := dset (int_str vmid)
                                  (new_reservation pid vmid gpu_class node slot (reading env w n)) (gpu_reservations s1)\<rparr>
                           else s1)
                 in (Inr vm, commit s2 (advance (if reserve then Suc n else n) w)))))"

subsection \<open>Scaling (\<open>scale_pool\<close>)\<close>

definition total_slots :: "string list table \<Rightarrow> nat" where
  "total_slots t = sum_list (map length (vals t))"

definition scale_target :: "int \<Rightarrow> int \<Rightarrow> nat \<Rightarrow> int \<Rightarrow> int" where
  "scale_target min_size max_size slots target =
     (let t1 = (if target < min_size then min_size else target); t2 = (if t1 > max_size then max_size else t1)
      in if slots > 0 \<and> t2 > int slots then int slots else t2)"

definition scale_pool :: "pm_env \<Rightarrow> string \<Rightarrow> int \<Rightarrow> pm \<Rightarrow> pool_info result \<times> pm" where
  "scale_pool env pid target w = (let s = pm_state w in
     case map_of (pools s) pid of None \<Rightarrow> (Inl (not_found pid), w)
     | Some cfg \<Rightarrow>
       (case rbind (py_int (pget_or cfg ''min_pool_size'' (PInt 0))) (\<lambda>lo.
             rbind (py_int (pget_or cfg ''max_pool_size'' (PInt 999))) (\<lambda>hi. Inr (lo, hi))) of
          Inl e \<Rightarrow> (Inl e, w)
        | Inr (lo, hi) \<Rightarrow>
            let gpu_class = stget cfg ''gpu_class'';
                slots = (if gpu_class = [] then 0 else total_slots (gpu_slots_by_node env gpu_class));
                s' = put_pool pid (dset ''warm_pool_size'' (PInt (scale_target lo hi slots target)) cfg) s
            in (pool_info_of s' pid, commit s' w)))"

end
