(* ===== verification/PoolSessions.thy ===== *)
theory PoolSessions
  imports PoolPlacement
begin

text \<open>
  \<open>beagle-host/services/pool_manager.py\<close>, third part: the allocation, release and recycling of desktops,
  time limits of kiosk sessions, telemetry, and the queries on desktops and prewarm events.
\<close>

subsection \<open>Leases and prewarm events\<close>

definition make_lease :: "string \<Rightarrow> dict \<Rightarrow> pool_mode \<Rightarrow> lease result" where
  "make_lease pid vm mode = (case map_of vm ''vmid'' of None \<Rightarrow> Inl (KeyError ''vmid'')
     | Some v \<Rightarrow> rbind (py_int v) (\<lambda>vmid. Inr \<lparr>lease_pool_id = pid, lease_vmid = vmid,
         lease_user_id = sget vm ''user_id'', lease_mode = mode, lease_state = py_str (vm_state vm),
         lease_assigned_at = sget vm ''assigned_at'',
         lease_stream_health = (if is_dict (pget vm ''stream_health'') then pget vm ''stream_health'' else PNone)\<rparr>))"

definition lease_to_dict :: "lease \<Rightarrow> dict" where
  "lease_to_dict l = [(''pool_id'', PStr (lease_pool_id l)), (''vmid'', PInt (lease_vmid l)),
     (''user_id'', PStr (lease_user_id l)), (''mode'', PStr (mode_value (lease_mode l))),
     (''state'', PStr (lease_state l)), (''assigned_at'', PStr (lease_assigned_at l)),
     (''stream_health'', lease_stream_health l)]"

definition default_session_expires_at :: "string \<Rightarrow> int \<Rightarrow> string result" where
  "default_session_expires_at assigned_at limit = (if limit \<le> 0 then Inr [] else
     rbind (parse_utc_timestamp assigned_at) (\<lambda>t. rbind (add_minutes t limit) (\<lambda>u. Inr (strftime_utc u))))"

definition prewarm_saved_wait_seconds :: int where "prewarm_saved_wait_seconds = 30"

definition prewarm_event :: "py list \<Rightarrow> string \<Rightarrow> string \<Rightarrow> string \<Rightarrow> string \<Rightarrow> int option \<Rightarrow> int \<Rightarrow> py" where
  "prewarm_event events now pid user outcome vmid saved = PDict [
     (''sequence'', PInt (int (length events) + 1)), (''timestamp'', PStr now),
     (''pool_id'', PStr (strip pid)), (''user_id'', PStr (strip user)),
     (''vmid'', PInt (case vmid of Some v \<Rightarrow> v | None \<Rightarrow> 0)), (''outcome'', PStr (strip outcome)),
     (''saved_wait_seconds'', PInt (max 0 saved))]"

text \<open>\<open>del events[:-1000]\<close>: only the last thousand events are kept.\<close>

definition record_prewarm_event :: "string \<Rightarrow> string \<Rightarrow> string \<Rightarrow> string \<Rightarrow> int option \<Rightarrow> int \<Rightarrow> pm_data \<Rightarrow> pm_data" where
  "record_prewarm_event now pid user outcome vmid saved s =
     (let events = prewarm_events s @ [prewarm_event (prewarm_events s) now pid user outcome vmid saved]
      in s\<lparr>prewarm_events := (if length events > 1000 then drop (length events - 1000) events else events)\<rparr>)"

subsection \<open>GPU assignment of a pool\<close>

definition gpu_handle :: "pool_type \<Rightarrow> dict \<Rightarrow> string" where
  "gpu_handle t cfg = (case t of PT_GPU_PASSTHROUGH \<Rightarrow> stget cfg ''gpu_pci_address''
     | PT_GPU_TIMESLICE \<Rightarrow> stget cfg ''gpu_id'' | PT_GPU_VGPU \<Rightarrow> stget cfg ''gpu_mdev_uuid'' | _ \<Rightarrow> [])"

definition maybe_assign_gpu :: "pm_env \<Rightarrow> pool_type \<Rightarrow> dict \<Rightarrow> dict \<Rightarrow> pm \<Rightarrow> pm" where
  "maybe_assign_gpu env t cfg vm w = (if pget vm ''vmid'' \<noteq> PNone \<and> env_assign_gpu env t \<and> gpu_handle t cfg \<noteq> []
     then log_call (AssignGpu t (gpu_handle t cfg) (pget vm ''vmid'')) w else w)"

definition maybe_release_gpu :: "pm_env \<Rightarrow> pool_type \<Rightarrow> dict \<Rightarrow> dict \<Rightarrow> pm \<Rightarrow> pm" where
  "maybe_release_gpu env t cfg vm w = (if pget vm ''vmid'' \<noteq> PNone \<and> env_release_gpu env t \<and> gpu_handle t cfg \<noteq> []
     then log_call (ReleaseGpu t (gpu_handle t cfg) (pget vm ''vmid'')) w else w)"

definition maybe_start_vm :: "pm_env \<Rightarrow> dict \<Rightarrow> pm \<Rightarrow> pm" where
  "maybe_start_vm env vm w = (if env_start_vm env \<and> has_key vm ''vmid'' then log_call (StartVm (pget vm ''vmid'')) w else w)"

subsection \<open>Allocation\<close>

definition vm_is :: "string \<Rightarrow> string \<Rightarrow> dict \<Rightarrow> bool" where
  "vm_is user st vm = (pget vm ''user_id'' = PStr user \<and> pget vm ''state'' = PStr st)"

definition vm_unassigned :: "dict \<Rightarrow> bool" where
  "vm_unassigned vm = (pget vm ''state'' = PStr STATE_FREE \<and> pget vm ''user_id'' = PNone)"

text \<open>The start of a session on a slot: the reading of the clock and the end of the session.\<close>

definition begin_session :: "dict \<Rightarrow> string \<Rightarrow> dict \<Rightarrow> dict result" where
  "begin_session cfg now vm = rbind (int_or0 (pget cfg ''session_time_limit_minutes'')) (\<lambda>limit.
     rbind (default_session_expires_at now limit) (\<lambda>expires.
     Inr (dset ''session_expires_at'' (PStr expires) (dset ''assigned_at'' (PStr now) vm))))"

definition allocate_again :: "pm_env \<Rightarrow> string \<Rightarrow> dict \<Rightarrow> string \<times> dict \<Rightarrow> pm \<Rightarrow> lease result \<times> pm" where
  "allocate_again env pid cfg slot w =
     (case begin_session cfg (reading env w 0) (dset ''state'' (PStr STATE_IN_USE) (snd slot)) of
        Inl e \<Rightarrow> (Inl e, advance 1 w)
      | Inr vm \<Rightarrow> (make_lease pid vm (mode_of cfg),
          maybe_start_vm env vm (commit (put_vm (fst slot) vm (pm_state w)) (advance 1 w))))"

definition allocate_fresh :: "pm_env \<Rightarrow> string \<Rightarrow> string \<Rightarrow> dict \<Rightarrow> string \<times> dict \<Rightarrow> pm \<Rightarrow> lease result \<times> pm" where
  "allocate_fresh env pid user cfg slot w =
     (case rbind (begin_session cfg (reading env w 0)
             (dset ''user_id'' (PStr user) (dset ''state'' (PStr STATE_IN_USE) (snd slot))))
           (\<lambda>vm. rbind (int_or0 (pget vm ''vmid'')) (\<lambda>vmid. Inr (vm, vmid))) of
        Inl e \<Rightarrow> (Inl e, advance 1 w)
      | Inr (vm, vmid) \<Rightarrow>
          let s = record_prewarm_event (reading env w 1) pid user ''hit'' (Some vmid) prewarm_saved_wait_seconds
                    (put_vm (fst slot) vm (pm_state w))
          in (make_lease pid vm (mode_of cfg),
              maybe_assign_gpu env (type_of cfg) cfg vm (maybe_start_vm env vm (commit s (advance 2 w)))))"

definition allocate_miss :: "pm_env \<Rightarrow> string \<Rightarrow> string \<Rightarrow> pm \<Rightarrow> lease result \<times> pm" where
  "allocate_miss env pid user w =
     (Inl (RuntimeError (''no free desktop available in pool '' @ repr_str pid)),
      commit (record_prewarm_event (reading env w 0) pid user ''miss'' None 0 (pm_state w)) (advance 1 w))"

definition allocate_desktop :: "pm_env \<Rightarrow> string \<Rightarrow> string \<Rightarrow> pm \<Rightarrow> lease result \<times> pm" where
  "allocate_desktop env pid user_id w = (let user = strip user_id; s = pm_state w in
     if user = [] then (Inl (ValueError ''user_id is required''), w)
     else case map_of (pools s) pid of None \<Rightarrow> (Inl (not_found pid), w)
     | Some cfg \<Rightarrow>
         let ts = pool_vms s pid; keep = (mode_of cfg \<noteq> FLOATING_NON_PERSISTENT) in
         case (if keep then List.find (\<lambda>(k, vm). vm_is user STATE_IN_USE vm) ts else None) of
           Some (k, vm) \<Rightarrow> (make_lease pid vm (mode_of cfg), w)
         | None \<Rightarrow> (case (if keep then List.find (\<lambda>(k, vm). vm_is user STATE_FREE vm) ts else None) of
             Some slot \<Rightarrow> allocate_again env pid cfg slot w
           | None \<Rightarrow> (case List.find (\<lambda>(k, vm). vm_unassigned vm) ts of
               Some slot \<Rightarrow> allocate_fresh env pid user cfg slot w
             | None \<Rightarrow> allocate_miss env pid user w)))"

subsection \<open>Release and recycling\<close>

definition vm_in_pool :: "string \<Rightarrow> string \<Rightarrow> pm_data \<Rightarrow> dict option" where
  "vm_in_pool pid k s = (case map_of (vms s) k of None \<Rightarrow> None
     | Some vm \<Rightarrow> if pget vm ''pool_id'' = PStr pid then Some vm else None)"

definition vm_not_found :: "int \<Rightarrow> string \<Rightarrow> exn" where
  "vm_not_found vmid pid = ValueError (''vmid '' @ int_str vmid @ '' not found in pool '' @ repr_str pid)"

definition pool_cfg :: "pm_data \<Rightarrow> string \<Rightarrow> dict" where
  "pool_cfg s pid = (case map_of (pools s) pid of Some cfg \<Rightarrow> cfg | None \<Rightarrow> [])"

definition cleared_vm :: "dict \<Rightarrow> dict" where
  "cleared_vm vm = dset ''stream_health'' PNone (dset ''session_expires_at'' PNone
     (dset ''assigned_at'' PNone (dset ''user_id'' PNone vm)))"

definition recycle_desktop :: "pm_env \<Rightarrow> string \<Rightarrow> int \<Rightarrow> pm \<Rightarrow> lease result \<times> pm" where
  "recycle_desktop env pid vmid w = (let s = pm_state w; k = int_str vmid in
     case vm_in_pool pid k s of None \<Rightarrow> (Inl (vm_not_found vmid pid), w)
     | Some vm \<Rightarrow>
         let cfg = pool_cfg s pid; template = pget_or cfg ''template_id'' (PStr []);
             (failed, w1) = (case env_reset_vm env of None \<Rightarrow> (False, w)
                | Some reset \<Rightarrow> (case reset vmid template of Inl e \<Rightarrow> True | Inr u \<Rightarrow> False, log_call (ResetVm vmid template) w));
             vm' = (if failed then dset ''state'' (PStr STATE_ERROR) vm
                    else cleared_vm (dset ''state'' (PStr STATE_FREE) vm))
         in (make_lease pid vm' (mode_of cfg), commit (put_vm k vm' s) w1))"

definition released_vm :: "pool_mode \<Rightarrow> dict \<Rightarrow> dict" where
  "released_vm mode vm = (if mode = FLOATING_NON_PERSISTENT
     then cleared_vm (dset ''state'' (PStr STATE_RECYCLING) vm)
     else dset ''stream_health'' PNone (dset ''session_expires_at'' PNone (dset ''state'' (PStr STATE_FREE) vm)))"

definition maybe_stop_vm :: "pm_env \<Rightarrow> int \<Rightarrow> pm \<Rightarrow> pm" where
  "maybe_stop_vm env vmid w = (if env_stop_vm env then log_call (StopVm vmid) w else w)"

definition release_desktop :: "pm_env \<Rightarrow> string \<Rightarrow> int \<Rightarrow> string \<Rightarrow> pm \<Rightarrow> lease result \<times> pm" where
  "release_desktop env pid vmid user_id w = (let s = pm_state w; k = int_str vmid in
     case vm_in_pool pid k s of None \<Rightarrow> (Inl (vm_not_found vmid pid), w)
     | Some vm \<Rightarrow>
         let cfg = pool_cfg s pid; mode = mode_of cfg; t = type_of cfg; vm' = released_vm mode vm;
             w1 = maybe_stop_vm env vmid (commit (put_vm k vm' s) (maybe_release_gpu env t cfg vm w))
         in if mode = FLOATING_NON_PERSISTENT \<and> t = PT_KIOSK then recycle_desktop env pid vmid w1
            else (make_lease pid vm' mode, w1))"

subsection \<open>Session time limits\<close>

definition elapsed_seconds :: "string \<Rightarrow> string \<Rightarrow> rat result" where
  "elapsed_seconds now assigned_at = (if assigned_at = [] then Inr 0 else
     rbind (parse_utc_timestamp now) (\<lambda>n. rbind (parse_utc_timestamp assigned_at) (\<lambda>a. Inr (max 0 (seconds_between n a)))))"

definition catch_value_error :: "'a result \<Rightarrow> 'a result \<Rightarrow> 'a result" where
  "catch_value_error r r' = (case r of Inl (ValueError m) \<Rightarrow> r' | _ \<Rightarrow> r)"

definition time_remaining_seconds :: "pm_env \<Rightarrow> string \<Rightarrow> int \<Rightarrow> pm \<Rightarrow> rat result" where
  "time_remaining_seconds env pid vmid w = (let s = pm_state w; cfg = pool_cfg s pid in
     rbind (py_int (pget_or cfg ''session_time_limit_minutes'' (PInt 0))) (\<lambda>limit.
       if limit \<le> 0 then Inr (- 1) else
       (case map_of (vms s) (int_str vmid) of None \<Rightarrow> Inl (KeyError (''vmid '' @ int_str vmid @ '' not found''))
        | Some vm \<Rightarrow>
            let expires_at = stget vm ''session_expires_at'';
                by_elapsed = (\<lambda>now. rbind (elapsed_seconds now (sget vm ''assigned_at'')) (\<lambda>e. Inr (max 0 (of_int limit * 60 - e))))
            in if expires_at = [] then by_elapsed (reading env w 0)
               else catch_value_error
                 (rbind (parse_utc_timestamp (reading env w 0)) (\<lambda>n.
                  rbind (parse_utc_timestamp expires_at) (\<lambda>x. Inr (max 0 (seconds_between x n)))))
                 (by_elapsed (reading env w 1)))))"

definition extension_allowed :: "dict \<Rightarrow> int \<Rightarrow> unit result" where
  "extension_allowed cfg minutes = (let allowed = normalize_session_extension_options (pget cfg ''session_extension_options_minutes'') True in
     if allowed \<noteq> [] \<and> minutes \<notin> set allowed
     then Inl (ValueError (''minutes must match one of the configured extension levels: '' @ join_with '', '' (map int_str allowed)))
     else Inr ())"

text \<open>The instant an extension counts from: the recorded end of the session, or the one the limit gives.\<close>

definition session_baseline :: "int \<Rightarrow> dict \<Rightarrow> instant result" where
  "session_baseline limit vm = (let expires = stget vm ''session_expires_at'' in
     rbind (if expires = [] then default_session_expires_at (sget vm ''assigned_at'') limit else Inr expires)
       parse_utc_timestamp)"

definition extended_vm :: "instant \<Rightarrow> int \<Rightarrow> string \<Rightarrow> dict \<Rightarrow> dict result" where
  "extended_vm baseline minutes now vm =
     rbind (parse_utc_timestamp now) (\<lambda>n.
     rbind (add_minutes (max baseline n) minutes) (\<lambda>x.
     Inr (dset ''session_expires_at'' (PStr (strftime_utc x)) vm)))"

definition extend_kiosk_session :: "pm_env \<Rightarrow> string \<Rightarrow> int \<Rightarrow> int \<Rightarrow> pm \<Rightarrow> lease result \<times> pm" where
  "extend_kiosk_session env pid vmid minutes w = (let s = pm_state w; k = int_str vmid in
     case map_of (pools s) pid of None \<Rightarrow> (Inl (not_found pid), w)
     | Some cfg \<Rightarrow>
        if lower (stget cfg ''pool_type'') \<noteq> ''kiosk''
          then (Inl (ValueError ''session extension is only supported for kiosk pools''), w)
        else if minutes \<le> 0 then (Inl (ValueError ''minutes must be > 0''), w)
        else if minutes > 480 then (Inl (ValueError ''minutes must be <= 480''), w)
        else case map_of (vms s) k of None \<Rightarrow> (Inl (vm_not_found vmid pid), w)
        | Some vm \<Rightarrow>
           if sget vm ''pool_id'' \<noteq> pid then (Inl (vm_not_found vmid pid), w)
           else if sget vm ''state'' \<noteq> STATE_IN_USE then (Inl (RuntimeError ''kiosk session is not active''), w)
           else case int_or0 (pget cfg ''session_time_limit_minutes'') of Inl e \<Rightarrow> (Inl e, w)
           | Inr limit \<Rightarrow>
              if limit \<le> 0 then (Inl (ValueError ''pool has no session time limit''), w)
              else case extension_allowed cfg minutes of Inl e \<Rightarrow> (Inl e, w)
              | Inr u \<Rightarrow> (case session_baseline limit vm of Inl e \<Rightarrow> (Inl e, w)
                 | Inr baseline \<Rightarrow> (case extended_vm baseline minutes (reading env w 0) vm of Inl e \<Rightarrow> (Inl e, advance 1 w)
                    | Inr vm' \<Rightarrow> (make_lease pid vm' (mode_of cfg), commit (put_vm k vm' s) (advance 1 w)))))"

text \<open>
  \<open>expire_overdue_sessions\<close>: first the scan of all slots (it may raise), then the release of each
  overdue session, with the slot marked expired where the release raises.
\<close>

definition overdue :: "string \<Rightarrow> pm_data \<Rightarrow> dict \<Rightarrow> (string \<times> int \<times> string) option result" where
  "overdue now s vm = (let pid = sget vm ''pool_id'' in
     if sget vm ''state'' \<noteq> STATE_IN_USE then Inr None
     else case map_of (pools s) pid of None \<Rightarrow> Inr None
     | Some cfg \<Rightarrow> if pid = [] then Inr None else
         rbind (py_int (pget_or cfg ''session_time_limit_minutes'' (PInt 0))) (\<lambda>limit.
           if limit \<le> 0 then Inr None else
           rbind (elapsed_seconds now (sget vm ''assigned_at'')) (\<lambda>elapsed.
             if elapsed \<ge> of_int limit * 60
             then rbind (int_or0 (pget vm ''vmid'')) (\<lambda>vmid. Inr (Some (pid, vmid, sget vm ''user_id'')))
             else Inr None)))"

text \<open>Whether the scan of a slot reads the clock.\<close>

definition reads_clock :: "pm_data \<Rightarrow> dict \<Rightarrow> bool" where
  "reads_clock s vm = (let pid = sget vm ''pool_id'' in sget vm ''state'' = STATE_IN_USE \<and> pid \<noteq> []
     \<and> sget vm ''assigned_at'' \<noteq> []
     \<and> (case map_of (pools s) pid of None \<Rightarrow> False
        | Some cfg \<Rightarrow> (case py_int (pget_or cfg ''session_time_limit_minutes'' (PInt 0)) of Inl e \<Rightarrow> False | Inr l \<Rightarrow> 0 < l)))"

fun scan_overdue :: "pm_env \<Rightarrow> dict list \<Rightarrow> pm \<Rightarrow> (string \<times> int \<times> string) list result \<times> pm" where
  "scan_overdue env [] w = (Inr [], w)"
| "scan_overdue env (vm # ts) w =
     (let w1 = (if reads_clock (pm_state w) vm then advance 1 w else w) in
      case overdue (reading env w 0) (pm_state w) vm of Inl e \<Rightarrow> (Inl e, w1)
      | Inr x \<Rightarrow> (case scan_overdue env ts w1 of (Inl e, w2) \<Rightarrow> (Inl e, w2)
          | (Inr xs, w2) \<Rightarrow> (Inr (case x of None \<Rightarrow> xs | Some y \<Rightarrow> y # xs), w2)))"

definition expire_one :: "pm_env \<Rightarrow> string \<times> int \<times> string \<Rightarrow> pm \<Rightarrow> pm" where
  "expire_one env item w = (case item of (pid, vmid, user) \<Rightarrow>
     (case release_desktop env pid vmid user w of (Inr l, w1) \<Rightarrow> w1
      | (Inl e, w1) \<Rightarrow> (case map_of (vms (pm_state w1)) (int_str vmid) of None \<Rightarrow> w1
          | Some vm \<Rightarrow> commit (put_vm (int_str vmid) (dset ''ended_at'' (PStr (reading env w1 0))
                         (dset ''state'' (PStr ''expired'') vm)) (pm_state w1)) (advance 1 w1))))"

definition expire_overdue_sessions :: "pm_env \<Rightarrow> pm \<Rightarrow> (string \<times> int \<times> string) list result \<times> pm" where
  "expire_overdue_sessions env w = (case scan_overdue env (vals (vms (pm_state w))) w of
      (Inl e, w1) \<Rightarrow> (Inl e, w1)
    | (Inr items, w1) \<Rightarrow> (Inr items, fold (expire_one env) items w1))"

subsection \<open>Telemetry\<close>

definition opt_int :: "dict \<Rightarrow> string \<Rightarrow> py result" where
  "opt_int d k = (if pget d k = PNone then Inr PNone else rbind (py_int (pget d k)) (\<lambda>i. Inr (PInt i)))"

definition stream_health_of :: "string \<Rightarrow> dict \<Rightarrow> dict result" where
  "stream_health_of now m =
     rbind (rmap (\<lambda>k. rbind (opt_int m k) (\<lambda>v. Inr (k, v)))
       [''rtt_ms'', ''fps'', ''dropped_frames'', ''encoder_load'', ''gpu_util_pct'', ''gpu_temp_c''])
     (\<lambda>fields. Inr (fields @ [(''window_title'', PStr (stget m ''window_title'')),
        (''updated_at'', PStr (py_str (por (pget m ''updated_at'') (PStr now))))]))"

definition update_stream_health :: "pm_env \<Rightarrow> string \<Rightarrow> int \<Rightarrow> py \<Rightarrow> pm \<Rightarrow> lease result \<times> pm" where
  "update_stream_health env pid vmid health w = (let s = pm_state w; k = int_str vmid in
     case vm_in_pool pid k s of None \<Rightarrow> (Inl (vm_not_found vmid pid), w)
     | Some vm \<Rightarrow> let m = dict_of health in
         (case stream_health_of (reading env w 0) m of Inl e \<Rightarrow> (Inl e, w)
          | Inr h \<Rightarrow> let vm' = dset ''stream_health'' (PDict h) vm
              in (make_lease pid vm' (mode_of (pool_cfg s pid)),
                  commit (put_vm k vm' s) (if truthy (pget m ''updated_at'') then w else advance 1 w))))"

subsection \<open>Queries\<close>

definition list_desktops :: "string \<Rightarrow> pm \<Rightarrow> dict list result" where
  "list_desktops pid w = (if \<not> has_key (pools (pm_state w)) pid then Inl (not_found pid)
     else Inr (vals (pool_vms (pm_state w) pid)))"

definition session_of :: "pm_data \<Rightarrow> dict \<Rightarrow> (string \<times> dict) option result" where
  "session_of s vm = (let pid = stget vm ''pool_id'' in
     if sget vm ''state'' \<noteq> STATE_IN_USE \<or> pid = [] then Inr None
     else rbind (int_or0 (pget vm ''vmid'')) (\<lambda>vmid. Inr (Some (sget vm ''assigned_at'', [
        (''session_id'', PStr (pid @ '':'' @ int_str vmid)), (''pool_id'', PStr pid), (''vmid'', PInt vmid),
        (''user_id'', PStr (sget vm ''user_id'')), (''mode'', PStr (mode_value (mode_of (pool_cfg s pid)))),
        (''state'', PStr STATE_IN_USE), (''assigned_at'', PStr (sget vm ''assigned_at'')),
        (''stream_health'', if is_dict (pget vm ''stream_health'') then pget vm ''stream_health'' else PNone)]))))"

definition list_active_sessions :: "pm \<Rightarrow> dict list result" where
  "list_active_sessions w = rbind (rmap (session_of (pm_state w)) (vals (vms (pm_state w))))
     (\<lambda>xs. Inr (map snd (sort_key_desc fst (List.map_filter (\<lambda>x. x) xs))))"

definition desktop_row :: "dict \<Rightarrow> ((string \<times> int) \<times> dict) result" where
  "desktop_row vm = rbind (int_or0 (pget vm ''vmid'')) (\<lambda>vmid. Inr ((stget vm ''pool_id'', vmid), [
     (''vmid'', PInt vmid), (''pool_id'', PStr (stget vm ''pool_id'')), (''node'', PStr (stget vm ''node'')),
     (''state'', PStr (sget vm ''state'')), (''user_id'', PStr (sget vm ''user_id'')),
     (''assigned_at'', PStr (sget vm ''assigned_at''))]))"

definition list_pool_desktops :: "string \<Rightarrow> pm \<Rightarrow> dict list result" where
  "list_pool_desktops pid w = (let selected = strip pid in
     rbind (rmap desktop_row (filter (\<lambda>vm. selected = [] \<or> stget vm ''pool_id'' = selected) (vals (vms (pm_state w)))))
     (\<lambda>rows. Inr (map snd (sort_key fst rows))))"

definition event_row :: "dict \<Rightarrow> ((string \<times> int) \<times> dict) result" where
  "event_row item = rbind (int_or0 (pget item ''sequence'')) (\<lambda>sequence.
     rbind (int_or0 (pget item ''vmid'')) (\<lambda>vmid.
     rbind (int_or0 (pget item ''saved_wait_seconds'')) (\<lambda>saved.
     Inr ((sget item ''timestamp'', sequence), [(''timestamp'', PStr (sget item ''timestamp'')), (''sequence'', PInt sequence),
       (''pool_id'', PStr (sget item ''pool_id'')), (''user_id'', PStr (sget item ''user_id'')), (''vmid'', PInt vmid),
       (''outcome'', PStr (sget item ''outcome'')), (''saved_wait_seconds'', PInt saved)]))))"

definition list_prewarm_events :: "string \<Rightarrow> string \<Rightarrow> pm \<Rightarrow> dict list result" where
  "list_prewarm_events pid user w =
     rbind (rmap event_row (filter (\<lambda>d. (strip pid = [] \<or> stget d ''pool_id'' = strip pid)
         \<and> (strip user = [] \<or> stget d ''user_id'' = strip user))
       (map dict_of (filter is_dict (prewarm_events (pm_state w))))))
     (\<lambda>rows. Inr (map snd (sort_key_desc fst rows)))"

end
