(* ===== verification/PoolInvariant.thy ===== *)
theory PoolInvariant
  imports PoolSessions
begin

text \<open>
  The pool manager as a machine: its operations are the instructions, and every run from a state that
  satisfies the invariant stays in it. The invariant says what a desktop slot, a pool and the GPU
  reservations look like, whatever the provider answers and whatever the clients ask for.
\<close>

subsection \<open>The machine\<close>

datatype pm_op =
    OpCreate pool_spec
  | OpUpdate string dict
  | OpDelete string
  | OpRegister string int "scheduler_policy + py"
  | OpScale string int
  | OpAllocate string string
  | OpRelease string int string
  | OpRecycle string int
  | OpExtend string int int
  | OpExpire
  | OpHealth string int py

fun pm_exec :: "pm_env \<Rightarrow> pm_op \<Rightarrow> pm \<Rightarrow> pm" where
  "pm_exec env (OpCreate spec) w = snd (create_pool env spec w)"
| "pm_exec env (OpUpdate pid us) w = snd (update_pool pid us w)"
| "pm_exec env (OpDelete pid) w = snd (delete_pool pid w)"
| "pm_exec env (OpRegister pid vmid sched) w = snd (register_vm env pid vmid sched w)"
| "pm_exec env (OpScale pid n) w = snd (scale_pool env pid n w)"
| "pm_exec env (OpAllocate pid user) w = snd (allocate_desktop env pid user w)"
| "pm_exec env (OpRelease pid vmid user) w = snd (release_desktop env pid vmid user w)"
| "pm_exec env (OpRecycle pid vmid) w = snd (recycle_desktop env pid vmid w)"
| "pm_exec env (OpExtend pid vmid n) w = snd (extend_kiosk_session env pid vmid n w)"
| "pm_exec env OpExpire w = snd (expire_overdue_sessions env w)"
| "pm_exec env (OpHealth pid vmid h) w = snd (update_stream_health env pid vmid h w)"

subsection \<open>The invariant\<close>

definition SLOT_STATES :: "string set" where
  "SLOT_STATES = {STATE_FREE, STATE_IN_USE, STATE_RECYCLING, STATE_ERROR, STATE_PENDING_GPU, ''expired''}"

definition owner_ok :: "py \<Rightarrow> bool" where
  "owner_ok v = (v = PNone \<or> (\<exists>u. v = PStr u \<and> u \<noteq> [] \<and> trimmed u))"

definition slot_ok :: "dict table \<Rightarrow> string \<Rightarrow> dict \<Rightarrow> bool" where
  "slot_ok ps k vm = ((\<exists>i. k = int_str i \<and> map_of vm ''vmid'' = Some (PInt i))
     \<and> (\<exists>p. pget vm ''pool_id'' = PStr p \<and> has_key ps p)
     \<and> (\<exists>st \<in> SLOT_STATES. map_of vm ''state'' = Some (PStr st))
     \<and> owner_ok (pget vm ''user_id'')
     \<and> (pget vm ''state'' = PStr STATE_IN_USE \<longrightarrow> pget vm ''user_id'' \<noteq> PNone))"

definition pool_ok :: "dict \<Rightarrow> bool" where
  "pool_ok cfg = (pget cfg ''gpu_pci_address'' = PNone \<and> pget cfg ''gpu_id'' = PNone \<and> pget cfg ''gpu_mdev_uuid'' = PNone)"

definition reservation_key :: "dict \<Rightarrow> string \<times> string" where
  "reservation_key r = (gpu_class_normalized (pget r ''gpu_class''), lower (stget r ''slot''))"

definition data_inv :: "pm_data \<Rightarrow> bool" where
  "data_inv s = (wf_dict (pools s) \<and> wf_dict (vms s) \<and> wf_dict (gpu_reservations s)
     \<and> (\<forall>k vm. map_of (vms s) k = Some vm \<longrightarrow> slot_ok (pools s) k vm)
     \<and> (\<forall>pid cfg. map_of (pools s) pid = Some cfg \<longrightarrow> pool_ok cfg)
     \<and> distinct (map (\<lambda>(k, r). reservation_key r) (gpu_reservations s))
     \<and> length (prewarm_events s) \<le> 1000)"

definition no_gpu_call :: "provider_call \<Rightarrow> bool" where
  "no_gpu_call c = (case c of AssignGpu t h v \<Rightarrow> False | ReleaseGpu t h v \<Rightarrow> False | _ \<Rightarrow> True)"

definition pm_inv :: "pm \<Rightarrow> bool" where
  "pm_inv w = (data_inv (pm_state w) \<and> list_all no_gpu_call (pm_calls w))"

definition pm_empty :: pm where
  "pm_empty = \<lparr>pm_state = \<lparr>pools = [], vms = [], gpu_reservations = [], prewarm_events = []\<rparr>, pm_ticks = 0, pm_calls = []\<rparr>"

lemma pm_inv_empty: "pm_inv pm_empty"
  by (simp add: pm_inv_def data_inv_def pm_empty_def)

lemma data_inv_slot: "data_inv s \<Longrightarrow> map_of (vms s) k = Some vm \<Longrightarrow> slot_ok (pools s) k vm"
  by (simp add: data_inv_def)

lemma data_inv_pool: "data_inv s \<Longrightarrow> map_of (pools s) pid = Some cfg \<Longrightarrow> pool_ok cfg"
  by (simp add: data_inv_def)

lemma pm_inv_data: "pm_inv w \<Longrightarrow> data_inv (pm_state w)"
  by (simp add: pm_inv_def)

subsection \<open>Changes that keep it\<close>

lemma slot_ok_mono: "slot_ok ps k vm \<Longrightarrow> (\<And>p. has_key ps p \<Longrightarrow> has_key ps' p) \<Longrightarrow> slot_ok ps' k vm"
  unfolding slot_ok_def by blast

lemma data_inv_put_vm: "data_inv s \<Longrightarrow> slot_ok (pools s) k vm \<Longrightarrow> data_inv (put_vm k vm s)"
  by (simp add: data_inv_def)

lemma data_inv_put_pool:
  assumes "data_inv s" and "pool_ok cfg"
  shows "data_inv (put_pool pid cfg s)"
proof -
  have "slot_ok (dset pid cfg (pools s)) k vm" if "map_of (vms s) k = Some vm" for k vm
    using data_inv_slot [OF assms(1) that] by (rule slot_ok_mono) simp
  then show ?thesis using assms by (simp add: data_inv_def)
qed

lemma data_inv_events: "data_inv s \<Longrightarrow> data_inv (record_prewarm_event now pid user outcome vmid saved s)"
  by (simp add: data_inv_def record_prewarm_event_def Let_def)

lemma slot_ok_other:
  "slot_ok ps k vm \<Longrightarrow> key \<notin> {''vmid'', ''pool_id'', ''state'', ''user_id''} \<Longrightarrow> slot_ok ps k (dset key v vm)"
  by (simp add: slot_ok_def eq_commute [of "''vmid''" key] eq_commute [of "''pool_id''" key]
      eq_commute [of "''state''" key] eq_commute [of "''user_id''" key])

lemma slot_ok_state:
  "slot_ok ps k vm \<Longrightarrow> st \<in> SLOT_STATES \<Longrightarrow> (st = STATE_IN_USE \<Longrightarrow> pget vm ''user_id'' \<noteq> PNone) \<Longrightarrow>
     slot_ok ps k (dset ''state'' (PStr st) vm)"
  by (simp add: slot_ok_def)

lemma slot_ok_user:
  "slot_ok ps k vm \<Longrightarrow> u \<noteq> [] \<Longrightarrow> trimmed u \<Longrightarrow> slot_ok ps k (dset ''user_id'' (PStr u) (dset ''state'' (PStr STATE_IN_USE) vm))"
  by (simp add: slot_ok_def owner_ok_def SLOT_STATES_def)

lemma slot_ok_cleared:
  "slot_ok ps k vm \<Longrightarrow> st \<in> SLOT_STATES \<Longrightarrow> st \<noteq> STATE_IN_USE \<Longrightarrow> slot_ok ps k (cleared_vm (dset ''state'' (PStr st) vm))"
  by (simp add: slot_ok_def cleared_vm_def owner_ok_def)

lemma slot_ok_released: "slot_ok ps k vm \<Longrightarrow> slot_ok ps k (released_vm mode vm)"
proof (cases "mode = FLOATING_NON_PERSISTENT")
  case False
  assume "slot_ok ps k vm"
  then have "slot_ok ps k (dset ''state'' (PStr STATE_FREE) vm)" by (rule slot_ok_state) (simp_all add: SLOT_STATES_def)
  then have "slot_ok ps k (dset ''session_expires_at'' PNone (dset ''state'' (PStr STATE_FREE) vm))" by (rule slot_ok_other) simp
  then show ?thesis using False by (simp add: released_vm_def slot_ok_other)
qed (simp add: released_vm_def slot_ok_cleared SLOT_STATES_def)

lemma slot_ok_begin:
  assumes "slot_ok ps k vm" and "begin_session cfg now vm = Inr vm'"
  shows "slot_ok ps k vm'"
  using assms by (auto simp: begin_session_def rbind_eq_Inr intro!: slot_ok_other)

lemma vm_in_pool_Some: "vm_in_pool pid k s = Some vm \<Longrightarrow> map_of (vms s) k = Some vm \<and> pget vm ''pool_id'' = PStr pid"
  by (simp add: vm_in_pool_def split: option.splits if_splits)

lemma find_slot:
  assumes "wf_dict (vms s)" and "List.find P (pool_vms s pid) = Some (k, vm)"
  shows "map_of (vms s) k = Some vm" and "pget vm ''pool_id'' = PStr pid" and "P (k, vm)"
proof -
  have "(k, vm) \<in> set (pool_vms s pid)" "P (k, vm)"
    using assms(2) by (auto simp: find_Some_iff in_set_conv_nth)
  then show "map_of (vms s) k = Some vm" "pget vm ''pool_id'' = PStr pid" "P (k, vm)"
    using wf_dict_mem [OF assms(1)] by (auto simp: pool_vms_def)
qed

lemma no_handle: "pool_ok cfg \<Longrightarrow> gpu_handle t cfg = []"
  by (cases t) (simp_all add: pool_ok_def gpu_handle_def stget_def sget_def)

lemma no_gpu_assignment: "pool_ok cfg \<Longrightarrow> maybe_assign_gpu env t cfg vm w = w" "pool_ok cfg \<Longrightarrow> maybe_release_gpu env t cfg vm w = w"
  by (simp_all add: maybe_assign_gpu_def maybe_release_gpu_def no_handle)

lemma pool_ok_cfg: "data_inv s \<Longrightarrow> pool_ok (pool_cfg s pid)"
  by (simp add: pool_cfg_def split: option.splits) (auto simp: pool_ok_def dest: data_inv_pool)

lemma maybe_state [simp]:
  "pm_state (maybe_start_vm env vm w) = pm_state w" "pm_state (maybe_stop_vm env vmid w) = pm_state w"
  "pm_state (maybe_assign_gpu env t cfg vm w) = pm_state w" "pm_state (maybe_release_gpu env t cfg vm w) = pm_state w"
  by (simp_all add: maybe_start_vm_def maybe_stop_vm_def maybe_assign_gpu_def maybe_release_gpu_def)

lemma no_gpu_start [simp]:
  "list_all no_gpu_call (pm_calls (maybe_start_vm env vm w)) = list_all no_gpu_call (pm_calls w)"
  "list_all no_gpu_call (pm_calls (maybe_stop_vm env vmid w)) = list_all no_gpu_call (pm_calls w)"
  by (simp_all add: maybe_start_vm_def maybe_stop_vm_def no_gpu_call_def)

lemma pm_inv_simps [simp]:
  "pm_inv (advance n w) = pm_inv w" "pm_inv (maybe_start_vm env vm w) = pm_inv w" "pm_inv (maybe_stop_vm env vmid w) = pm_inv w"
  by (simp_all add: pm_inv_def)

lemma pm_inv_commit: "pm_inv w \<Longrightarrow> data_inv s \<Longrightarrow> pm_inv (commit s w)"
  by (simp add: pm_inv_def)

subsection \<open>Pool operations\<close>

lemma pool_ok_new: "pool_ok (new_pool spec pid now)"
  by (simp add: pool_ok_def new_pool_def)

lemma inv_create: "pm_inv w \<Longrightarrow> pm_inv (snd (create_pool env spec w))"
  unfolding create_pool_def Let_def
  by (simp add: pm_inv_commit data_inv_put_pool pm_inv_data pool_ok_new)

lemma pool_ok_update: "pool_ok cfg \<Longrightarrow> key \<in> UPDATABLE \<Longrightarrow> pool_ok (dset key v cfg)"
  by (auto simp: pool_ok_def UPDATABLE_def)

lemma pool_ok_apply: "apply_updates cfg us = Inr cfg' \<Longrightarrow> pool_ok cfg \<Longrightarrow> pool_ok cfg'"
  by (induction cfg us rule: apply_updates.induct) (auto simp: rbind_eq_Inr pool_ok_update split: if_splits)

lemma inv_update: "pm_inv w \<Longrightarrow> pm_inv (snd (update_pool pid us w))"
  unfolding update_pool_def Let_def
  by (auto split: option.splits sum.splits intro!: pm_inv_commit data_inv_put_pool
      dest: pm_inv_data data_inv_pool pool_ok_apply)

lemma inv_delete:
  assumes "pm_inv w"
  shows "pm_inv (snd (delete_pool pid w))"
proof (cases "has_key (pools (pm_state w)) pid")
  case True
  let ?s = "pm_state w"
  let ?P = "\<lambda>vm. pget vm ''pool_id'' \<noteq> PStr pid"
  have I: "data_inv ?s" by (rule pm_inv_data [OF assms])
  have "slot_ok (ddel pid (pools ?s)) k vm" if "map_of (filter (\<lambda>(k, vm). ?P vm) (vms ?s)) k = Some vm" for k vm
  proof -
    have v: "map_of (vms ?s) k = Some vm" "?P vm"
      using that I by (auto simp: map_of_filter_val data_inv_def split: option.splits if_splits)
    then have "slot_ok (pools ?s) k vm" by (intro data_inv_slot [OF I])
    with v(2) show ?thesis by (auto simp: slot_ok_def)
  qed
  then show ?thesis
    using I assms by (auto simp: pm_inv_def delete_pool_def Let_def True data_inv_def distinct_map_filter)
qed (use assms in \<open>simp add: delete_pool_def Let_def\<close>)

lemma inv_scale: "pm_inv w \<Longrightarrow> pm_inv (snd (scale_pool env pid n w))"
proof -
  assume I: "pm_inv w"
  have "pool_ok (dset ''warm_pool_size'' v cfg)" if "map_of (pools (pm_state w)) pid = Some cfg" for v cfg
    using data_inv_pool [OF pm_inv_data [OF I] that] by (rule pool_ok_update) (simp add: UPDATABLE_def)
  with I show ?thesis
    unfolding scale_pool_def Let_def
    by (auto split: option.splits sum.splits intro!: pm_inv_commit data_inv_put_pool pm_inv_data)
qed

subsection \<open>Registration\<close>

definition slots_normal :: "string list table \<Rightarrow> bool" where
  "slots_normal t = (\<forall>n xs. map_of t n = Some xs \<longrightarrow> (\<forall>x \<in> set xs. x \<noteq> [] \<and> lower (strip x) = x))"

lemma slots_normal_dset:
  "slots_normal t \<Longrightarrow> \<forall>x \<in> set xs. x \<noteq> [] \<and> lower (strip x) = x \<Longrightarrow> slots_normal (dset n xs t)"
  by (simp add: slots_normal_def)

lemma slots_normal_add:
  assumes "slots_normal t"
  shows "slots_normal (add_slot c item t)"
proof -
  define pci where "pci = lower (stget (dict_of item) ''pci_address'')"
  define node where "node = stget (dict_of item) ''node''"
  define slots where "slots = (case map_of t node of Some xs \<Rightarrow> xs | None \<Rightarrow> [])"
  have "lower (strip pci) = pci" by (simp add: pci_def strip_lower stget_def)
  moreover have "\<forall>x \<in> set slots. x \<noteq> [] \<and> lower (strip x) = x"
    using assms by (cases "map_of t node") (simp_all add: slots_normal_def slots_def)
  ultimately have "slots_normal (dset node (if pci \<in> set slots then slots else slots @ [pci]) t)" if "pci \<noteq> []"
    using assms that by (intro slots_normal_dset) auto
  then show ?thesis
    using assms unfolding add_slot_def Let_def pci_def [symmetric] node_def [symmetric] slots_def [symmetric]
    by simp
qed

lemma slots_normal_inventory: "slots_normal (gpu_slots_by_node env c)"
proof -
  have "slots_normal t \<Longrightarrow> slots_normal (fold (add_slot c) items t)" for items t
    by (induction items arbitrary: t) (auto intro: slots_normal_add)
  moreover have "slots_normal []" by (simp add: slots_normal_def)
  ultimately show ?thesis unfolding gpu_slots_by_node_def by (simp split: option.splits sum.splits)
qed

text \<open>A slot is reserved only if no reservation of the same class holds it.\<close>

lemma gpu_placement_slot:
  assumes "gpu_placement slots reserved node = (n, st, x)" and "x \<noteq> []"
  shows "x \<notin> reserved" and "\<exists>xs. map_of slots n = Some xs \<and> x \<in> set xs"
proof -
  let ?of = "\<lambda>n. case map_of slots n of Some xs \<Rightarrow> xs | None \<Rightarrow> []"
  have "List.find (\<lambda>x. x \<notin> reserved) (?of n) = Some x"
    using assms unfolding gpu_placement_def Let_def by (auto split: if_splits option.splits)
  then have "x \<notin> reserved \<and> x \<in> set (?of n)" by (metis find_Some_iff nth_mem)
  then show "x \<notin> reserved" and "\<exists>xs. map_of slots n = Some xs \<and> x \<in> set xs"
    by (simp, cases "map_of slots n") auto
qed

lemma gpu_placement_state:
  "gpu_placement slots reserved node = (n, st, x) \<Longrightarrow> st = STATE_FREE \<or> st = STATE_PENDING_GPU"
  unfolding gpu_placement_def Let_def by (auto split: if_splits)

lemma reserved_slots_key:
  assumes "(k, r) \<in> set (gpu_reservations s)" and "reservation_key r = (gpu_class_normalized (PStr c), x)" and "x \<noteq> []"
  shows "x \<in> reserved_slots s c"
  using assms unfolding reserved_slots_def reservation_key_def by (auto simp: image_iff intro!: bexI [of _ "(k, r)"])

lemma distinct_dset_key:
  assumes "distinct (map (\<lambda>(k, r). f r) d)" and "f v \<notin> (\<lambda>(k, r). f r) ` set d"
  shows "distinct (map (\<lambda>(k, r). f r) (dset k v d))"
  using assms
proof (induction d)
  case (Cons p d)
  obtain k' r where p: "p = (k', r)" by (cases p)
  have "(\<lambda>(k, r). f r) ` set (dset k v d) \<subseteq> {f v} \<union> (\<lambda>(k, r). f r) ` set d"
    by (induction d) auto
  moreover have "f r \<noteq> f v" "f r \<notin> (\<lambda>(k, r). f r) ` set d" using Cons.prems by (auto simp: p)
  ultimately have "f r \<notin> (\<lambda>(k, r). f r) ` set (dset k v d)" by blast
  with Cons show ?case by (auto simp: p)
qed simp

lemma cleanup_simps [simp]:
  "pools (cleanup_stale_gpu_reservations s) = pools s" "vms (cleanup_stale_gpu_reservations s) = vms s"
  "prewarm_events (cleanup_stale_gpu_reservations s) = prewarm_events s"
  by (simp_all add: cleanup_stale_gpu_reservations_def)

lemma data_inv_cleanup: "data_inv s \<Longrightarrow> data_inv (cleanup_stale_gpu_reservations s)"
  by (simp add: data_inv_def cleanup_stale_gpu_reservations_def distinct_map_filter)

lemma slot_ok_new:
  "has_key ps pid \<Longrightarrow> st = STATE_FREE \<or> st = STATE_PENDING_GPU \<Longrightarrow> slot_ok ps (int_str i) (new_vm i pid node st)"
  by (auto simp: slot_ok_def new_vm_def SLOT_STATES_def owner_ok_def)

lemma reservation_key_new:
  "reservation_key (new_reservation pid i c node x now) = (gpu_class_normalized (PStr c), lower (strip x))"
  by (simp add: reservation_key_def new_reservation_def stget_def)

lemma data_inv_reserve:
  assumes "data_inv s" and "x \<notin> reserved_slots s c" and "lower (strip x) = x" and "x \<noteq> []"
  shows "data_inv (s\<lparr>gpu_reservations := dset k (new_reservation pid i c node x now) (gpu_reservations s)\<rparr>)"
proof -
  have "reservation_key (new_reservation pid i c node x now) \<notin> (\<lambda>(k, r). reservation_key r) ` set (gpu_reservations s)"
    using assms reserved_slots_key by (force simp: reservation_key_new)
  with assms(1) show ?thesis by (simp add: data_inv_def distinct_dset_key)
qed

lemma inv_register:
  assumes "pm_inv w"
  shows "pm_inv (snd (register_vm env pid vmid sched w))"
proof (cases "map_of (pools (pm_state w)) pid")
  case None
  then show ?thesis using assms by (simp add: register_vm_def)
next
  case (Some cfg)
  let ?s = "cleanup_stale_gpu_reservations (pm_state w)"
  let ?c = "stget cfg ''gpu_class''"
  show ?thesis
  proof (cases "collect_placements env (vals (pool_vms ?s pid)) []")
    case (Inl e)
    then show ?thesis using assms Some by (simp add: register_vm_def Let_def)
  next
    case (Inr pl)
    show ?thesis
    proof (cases "choose_node_for_vmid env vmid (policy_of sched) pl cfg w")
      case (Inl e)
      then show ?thesis using assms Some \<open>_ = Inr pl\<close> by (simp add: register_vm_def Let_def)
    next
      case c: (Inr r)
      obtain node0 n where r: "r = (node0, n)" by (cases r)
      obtain node st x where g: "(if ?c = [] then (node0, STATE_FREE, [])
          else gpu_placement (gpu_slots_by_node env ?c) (reserved_slots ?s ?c) node0) = (node, st, x)"
        by (metis prod_cases3)
      define s1 where "s1 = put_vm (int_str vmid) (new_vm vmid pid node st) ?s"
      have I: "data_inv ?s" by (intro data_inv_cleanup pm_inv_data assms)
      have st: "st = STATE_FREE \<or> st = STATE_PENDING_GPU"
        using g gpu_placement_state by (auto split: if_splits)
      have I1: "data_inv s1"
        unfolding s1_def using I st Some by (intro data_inv_put_vm slot_ok_new) (auto simp: has_key_def)
      have R: "reserved_slots s1 = reserved_slots ?s" by (simp add: reserved_slots_def s1_def fun_eq_iff)
      have "data_inv (s1\<lparr>gpu_reservations := dset k (new_reservation pid vmid ?c node x now) (gpu_reservations s1)\<rparr>)"
        if "?c \<noteq> []" "x \<noteq> []" for k now
      proof (rule data_inv_reserve [OF I1])
        have g': "gpu_placement (gpu_slots_by_node env ?c) (reserved_slots ?s ?c) node0 = (node, st, x)" using g that by simp
        show "x \<notin> reserved_slots s1 ?c" using gpu_placement_slot(1) [OF g' that(2)] by (simp add: R)
        show "lower (strip x) = x"
          using gpu_placement_slot(2) [OF g' that(2)] slots_normal_inventory [of env ?c] by (auto simp: slots_normal_def)
      qed (rule that(2))
      moreover have "snd (register_vm env pid vmid sched w) =
          commit (if ?c \<noteq> [] \<and> st = STATE_FREE \<and> x \<noteq> []
            then s1\<lparr>gpu_reservations := dset (int_str vmid) (new_reservation pid vmid ?c node x (reading env w n)) (gpu_reservations s1)\<rparr>
            else s1) (advance (if ?c \<noteq> [] \<and> st = STATE_FREE \<and> x \<noteq> [] then Suc n else n) w)"
        using Some \<open>collect_placements _ _ _ = Inr pl\<close> c r g
        by (simp add: register_vm_def Let_def s1_def)
      ultimately show ?thesis using assms I1 by (simp add: pm_inv_commit)
    qed
  qed
qed

subsection \<open>Sessions\<close>

lemma inv_allocate_again:
  assumes "pm_inv w" and "map_of (vms (pm_state w)) (fst slot) = Some (snd slot)" and "pget (snd slot) ''user_id'' \<noteq> PNone"
  shows "pm_inv (snd (allocate_again env pid cfg slot w))"
proof (cases "begin_session cfg (reading env w 0) (dset ''state'' (PStr STATE_IN_USE) (snd slot))")
  case (Inr vm)
  have "slot_ok (pools (pm_state w)) (fst slot) (dset ''state'' (PStr STATE_IN_USE) (snd slot))"
    using data_inv_slot [OF pm_inv_data [OF assms(1)] assms(2)] assms(3) by (intro slot_ok_state) (auto simp: SLOT_STATES_def)
  from slot_ok_begin [OF this Inr] assms(1) show ?thesis
    by (simp add: allocate_again_def Inr pm_inv_commit data_inv_put_vm pm_inv_data)
qed (use assms in \<open>simp add: allocate_again_def\<close>)

lemma inv_allocate_fresh:
  assumes "pm_inv w" and "map_of (vms (pm_state w)) (fst slot) = Some (snd slot)" and "user \<noteq> []" and "trimmed user"
    and "map_of (pools (pm_state w)) pid = Some cfg"
  shows "pm_inv (snd (allocate_fresh env pid user cfg slot w))"
proof -
  let ?vm = "dset ''user_id'' (PStr user) (dset ''state'' (PStr STATE_IN_USE) (snd slot))"
  let ?r = "rbind (begin_session cfg (reading env w 0) ?vm) (\<lambda>vm. rbind (int_or0 (pget vm ''vmid'')) (\<lambda>vmid. Inr (vm, vmid)))"
  note I = pm_inv_data [OF assms(1)]
  show ?thesis
  proof (cases ?r)
    case (Inr r)
    obtain vm vmid where r: "r = (vm, vmid)" by (cases r)
    have "begin_session cfg (reading env w 0) ?vm = Inr vm" using Inr by (auto simp: rbind_eq_Inr r)
    from slot_ok_begin [OF slot_ok_user [OF data_inv_slot [OF I assms(2)] assms(3,4)] this]
    have "data_inv (put_vm (fst slot) vm (pm_state w))" using I by (intro data_inv_put_vm)
    then show ?thesis
      using assms data_inv_pool [OF I assms(5)]
      by (simp add: allocate_fresh_def Inr r Let_def no_gpu_assignment pm_inv_commit data_inv_events)
  qed (use assms in \<open>simp add: allocate_fresh_def\<close>)
qed

text \<open>The branch an allocation takes, with the slot it takes it on.\<close>

lemma allocate_cases:
  assumes wf: "wf_dict (vms (pm_state w))"
  obtains (refused) e where "strip user_id = [] \<or> map_of (pools (pm_state w)) pid = None"
      "allocate_desktop env pid user_id w = (Inl e, w)"
  | (active) cfg k vm where "map_of (pools (pm_state w)) pid = Some cfg" "mode_of cfg \<noteq> FLOATING_NON_PERSISTENT"
      "map_of (vms (pm_state w)) k = Some vm" "pget vm ''pool_id'' = PStr pid" "vm_is (strip user_id) STATE_IN_USE vm"
      "strip user_id \<noteq> []" "allocate_desktop env pid user_id w = (make_lease pid vm (mode_of cfg), w)"
  | (again) cfg k vm where "map_of (pools (pm_state w)) pid = Some cfg" "mode_of cfg \<noteq> FLOATING_NON_PERSISTENT"
      "map_of (vms (pm_state w)) k = Some vm" "pget vm ''pool_id'' = PStr pid" "vm_is (strip user_id) STATE_FREE vm"
      "strip user_id \<noteq> []" "allocate_desktop env pid user_id w = allocate_again env pid cfg (k, vm) w"
  | (fresh) cfg k vm where "map_of (pools (pm_state w)) pid = Some cfg"
      "map_of (vms (pm_state w)) k = Some vm" "pget vm ''pool_id'' = PStr pid" "vm_unassigned vm"
      "strip user_id \<noteq> []" "allocate_desktop env pid user_id w = allocate_fresh env pid (strip user_id) cfg (k, vm) w"
      "\<And>k vm. mode_of cfg \<noteq> FLOATING_NON_PERSISTENT \<Longrightarrow> map_of (vms (pm_state w)) k = Some vm \<Longrightarrow>
         pget vm ''pool_id'' = PStr pid \<Longrightarrow> \<not> vm_is (strip user_id) STATE_FREE vm"
  | (miss) cfg where "map_of (pools (pm_state w)) pid = Some cfg" "strip user_id \<noteq> []"
      "allocate_desktop env pid user_id w = allocate_miss env pid (strip user_id) w"
      "\<And>k vm. map_of (vms (pm_state w)) k = Some vm \<Longrightarrow> pget vm ''pool_id'' = PStr pid \<Longrightarrow> \<not> vm_unassigned vm"
      "\<And>k vm. mode_of cfg \<noteq> FLOATING_NON_PERSISTENT \<Longrightarrow> map_of (vms (pm_state w)) k = Some vm \<Longrightarrow>
         pget vm ''pool_id'' = PStr pid \<Longrightarrow> \<not> vm_is (strip user_id) STATE_FREE vm"
proof (cases "strip user_id = [] \<or> map_of (pools (pm_state w)) pid = None")
  case True
  then show ?thesis using refused by (cases "strip user_id = []") (auto simp: allocate_desktop_def Let_def)
next
  case False
  let ?s = "pm_state w" and ?u = "strip user_id"
  obtain cfg where cfg: "map_of (pools ?s) pid = Some cfg" using False by auto
  let ?keep = "mode_of cfg \<noteq> FLOATING_NON_PERSISTENT"
  let ?f = "\<lambda>P. List.find (\<lambda>(k, vm). P vm) (pool_vms ?s pid)"
  have u: "?u \<noteq> []" using False by simp
  note unf = allocate_desktop_def Let_def
  have slot: "map_of (vms ?s) k = Some vm \<and> pget vm ''pool_id'' = PStr pid \<and> P vm" if "?f P = Some (k, vm)" for P k vm
    using find_slot [OF wf that] by simp
  show ?thesis
  proof (cases "if ?keep then ?f (vm_is ?u STATE_IN_USE) else None")
    case (Some p)
    obtain k vm where p: "p = (k, vm)" by (cases p)
    have "?keep" "?f (vm_is ?u STATE_IN_USE) = Some (k, vm)" using Some p by (auto split: if_splits)
    then show ?thesis using slot [of "vm_is ?u STATE_IN_USE" k vm] cfg u Some p by (intro active) (auto simp: unf)
  next
    case n1: None
    show ?thesis
    proof (cases "if ?keep then ?f (vm_is ?u STATE_FREE) else None")
      case (Some p)
      obtain k vm where p: "p = (k, vm)" by (cases p)
      have "?keep" "?f (vm_is ?u STATE_FREE) = Some (k, vm)" using Some p by (auto split: if_splits)
      then show ?thesis using slot [of "vm_is ?u STATE_FREE" k vm] cfg u Some p n1 by (intro again) (auto simp: unf)
    next
      case n2: None
      have none: "\<not> P vm" if "?f P = None" "map_of (vms ?s) k = Some vm" "pget vm ''pool_id'' = PStr pid" for P k vm
      proof -
        have "(k, vm) \<in> set (pool_vms ?s pid)" using that wf_dict_mem [OF wf] by (simp add: pool_vms_def)
        then show ?thesis using that(1) by (auto simp: find_None_iff)
      qed
      have free: "\<not> vm_is ?u STATE_FREE vm"
        if "?keep" "map_of (vms ?s) k = Some vm" "pget vm ''pool_id'' = PStr pid" for k vm
        using none [of "vm_is ?u STATE_FREE" k vm] n2 that by simp
      show ?thesis
      proof (cases "?f vm_unassigned")
        case (Some p)
        obtain k vm where p: "p = (k, vm)" by (cases p)
        show ?thesis
        proof (rule fresh [OF cfg])
          show "allocate_desktop env pid user_id w = allocate_fresh env pid ?u cfg (k, vm) w"
            using cfg u Some p n1 n2 by (auto simp: unf)
        qed (use slot [of vm_unassigned k vm] Some p u free in auto)
      next
        case None
        show ?thesis
        proof (rule miss [OF cfg u])
          show "allocate_desktop env pid user_id w = allocate_miss env pid ?u w"
            using cfg u None n1 n2 by (auto simp: unf)
        qed (use none [OF None] free in auto)
      qed
    qed
  qed
qed

lemma wf_vms: "pm_inv w \<Longrightarrow> wf_dict (vms (pm_state w))"
  by (simp add: pm_inv_def data_inv_def)

lemma inv_allocate:
  assumes "pm_inv w"
  shows "pm_inv (snd (allocate_desktop env pid user_id w))"
  using wf_vms [OF assms]
proof (cases rule: allocate_cases [where w = w and env = env and pid = pid and user_id = user_id])
  case (again cfg k vm)
  then show ?thesis using assms by (simp add: inv_allocate_again vm_is_def)
next
  case (fresh cfg k vm)
  then show ?thesis using assms by (simp add: inv_allocate_fresh)
next
  case (miss cfg)
  then show ?thesis using assms by (simp add: allocate_miss_def pm_inv_commit data_inv_events pm_inv_data)
qed (use assms in simp_all)

lemma pm_inv_log_reset: "pm_inv (log_call (ResetVm vmid t) w) = pm_inv w"
  by (simp add: pm_inv_def no_gpu_call_def)

lemma inv_recycle:
  assumes "pm_inv w"
  shows "pm_inv (snd (recycle_desktop env pid vmid w))"
proof (cases "vm_in_pool pid (int_str vmid) (pm_state w)")
  case (Some vm)
  note I = pm_inv_data [OF assms]
  have v: "slot_ok (pools (pm_state w)) (int_str vmid) vm"
    using vm_in_pool_Some [OF Some] by (intro data_inv_slot [OF I]) simp
  then have "data_inv (put_vm (int_str vmid) (dset ''state'' (PStr STATE_ERROR) vm) (pm_state w))"
    "data_inv (put_vm (int_str vmid) (cleared_vm (dset ''state'' (PStr STATE_FREE) vm)) (pm_state w))"
    using I by (auto intro!: data_inv_put_vm slot_ok_state slot_ok_cleared simp: SLOT_STATES_def)
  then show ?thesis
    using assms by (auto simp: recycle_desktop_def Let_def Some pm_inv_commit pm_inv_log_reset split: option.splits sum.splits)
qed (use assms in \<open>simp add: recycle_desktop_def Let_def\<close>)

lemma inv_release:
  assumes "pm_inv w"
  shows "pm_inv (snd (release_desktop env pid vmid user w))"
proof (cases "vm_in_pool pid (int_str vmid) (pm_state w)")
  case (Some vm)
  note I = pm_inv_data [OF assms]
  let ?cfg = "pool_cfg (pm_state w) pid"
  define vm' where "vm' = released_vm (mode_of ?cfg) vm"
  define w1 where "w1 = maybe_stop_vm env vmid (commit (put_vm (int_str vmid) vm' (pm_state w)) w)"
  have "slot_ok (pools (pm_state w)) (int_str vmid) vm'"
    using vm_in_pool_Some [OF Some] unfolding vm'_def by (intro slot_ok_released data_inv_slot [OF I]) simp
  then have "pm_inv w1"
    using I assms by (simp add: w1_def pm_inv_commit data_inv_put_vm)
  moreover have rel: "maybe_release_gpu env (type_of ?cfg) ?cfg vm w = w"
    by (rule no_gpu_assignment(2) [OF pool_ok_cfg [OF I]])
  ultimately show ?thesis
    unfolding release_desktop_def Let_def Some option.case vm'_def [symmetric] rel w1_def [symmetric]
    by (simp add: inv_recycle)
qed (use assms in \<open>simp add: release_desktop_def Let_def\<close>)

lemma inv_extend:
  assumes "pm_inv w"
  shows "pm_inv (snd (extend_kiosk_session env pid vmid n w))"
proof -
  have "slot_ok (pools (pm_state w)) k vm'" if "map_of (vms (pm_state w)) k = Some vm" "extended_vm b n now vm = Inr vm'"
    for k vm vm' b now
    using data_inv_slot [OF pm_inv_data [OF assms] that(1)] that(2)
    by (auto simp: extended_vm_def rbind_eq_Inr intro!: slot_ok_other)
  then show ?thesis
    using assms unfolding extend_kiosk_session_def Let_def
    by (auto split: option.splits sum.splits intro!: pm_inv_commit data_inv_put_vm pm_inv_data)
qed

lemma scan_state: "pm_state (snd (scan_overdue env ts w)) = pm_state w \<and> pm_calls (snd (scan_overdue env ts w)) = pm_calls w"
  by (induction ts arbitrary: w) (auto simp: Let_def split: sum.splits prod.splits option.splits, (metis pm_simps(1) pm_simps(2) snd_conv)+)

lemma inv_expire_one: "pm_inv w \<Longrightarrow> pm_inv (expire_one env item w)"
proof -
  assume w: "pm_inv w"
  obtain pid vmid user where item: "item = (pid, vmid, user)" by (cases item)
  define w1 where "w1 = snd (release_desktop env pid vmid user w)"
  have 1: "pm_inv w1" unfolding w1_def by (rule inv_release [OF w])
  have "pm_inv (commit (put_vm (int_str vmid) (dset ''ended_at'' v (dset ''state'' (PStr ''expired'') vm)) (pm_state w1)) (advance 1 w1))"
    if "map_of (vms (pm_state w1)) (int_str vmid) = Some vm" for v vm
  proof -
    have "slot_ok (pools (pm_state w1)) (int_str vmid) (dset ''state'' (PStr ''expired'') vm)"
      using data_inv_slot [OF pm_inv_data [OF 1] that] by (rule slot_ok_state) (simp_all add: SLOT_STATES_def)
    then have "slot_ok (pools (pm_state w1)) (int_str vmid) (dset ''ended_at'' v (dset ''state'' (PStr ''expired'') vm))"
      by (rule slot_ok_other) simp
    then show ?thesis using 1 by (intro pm_inv_commit data_inv_put_vm pm_inv_data) simp_all
  qed
  with 1 show ?thesis
    unfolding expire_one_def item w1_def by (auto split: prod.splits sum.splits option.splits)
qed

lemma inv_expire: "pm_inv w \<Longrightarrow> pm_inv (snd (expire_overdue_sessions env w))"
proof -
  assume w: "pm_inv w"
  obtain r w1 where r: "scan_overdue env (vals (vms (pm_state w))) w = (r, w1)"
    by (cases "scan_overdue env (vals (vms (pm_state w))) w")
  then have "pm_inv w1" using w scan_state [of env "vals (vms (pm_state w))" w] by (simp add: pm_inv_def)
  then have "pm_inv (fold (expire_one env) items w1)" for items
    by (induction items arbitrary: w1) (auto intro: inv_expire_one)
  with \<open>pm_inv w1\<close> r show ?thesis by (simp add: expire_overdue_sessions_def split: sum.splits)
qed

lemma inv_health: "pm_inv w \<Longrightarrow> pm_inv (snd (update_stream_health env pid vmid h w))"
  unfolding update_stream_health_def Let_def
  by (auto split: option.splits sum.splits dest!: vm_in_pool_Some
      intro!: pm_inv_commit data_inv_put_vm slot_ok_other pm_inv_data intro: data_inv_slot)

subsection \<open>Every run keeps the invariant\<close>

lemma pm_exec_inv: "pm_inv w \<Longrightarrow> pm_inv (pm_exec env op w)"
  by (cases op) (simp_all add: inv_create inv_update inv_delete inv_register inv_scale inv_allocate inv_release
      inv_recycle inv_extend inv_expire inv_health)

text \<open>An instruction is an operation together with the environment it runs in.\<close>

definition pm_instr :: "pm \<Rightarrow> pm_env \<times> pm_op \<Rightarrow> pm" where
  "pm_instr w c = pm_exec (fst c) (snd c) w"

interpretation manager: machine pm_instr pm_inv
  by unfold_locales (simp add: pm_instr_def pm_exec_inv)

lemma reachable_inv: "pm_inv (run pm_instr pm_empty cs)"
  by (rule manager.run_inv [OF pm_inv_empty])

end
