(* ===== verification/PoolProps.thy ===== *)
theory PoolProps
  imports PoolInvariant
begin

text \<open>
  What the pool manager guarantees, and two places where it does not do what it means to: allocation is
  exclusive and total on free desktops, persistent users get their desktop back, a non-persistent
  desktop is reset before it is handed out again, sizes and extension levels stay in their bounds,
  placement respects the affinity groups.
\<close>

subsection \<open>Runs of the manager\<close>

text \<open>C1: Whatever sequence of operations clients and providers drive the manager through, its state stays
  well formed: tables have one entry per key, every desktop has its VM id, belongs to a pool that
  exists, is in a known state, has an owner when it is in use; no two reservations of a GPU class
  hold the same GPU; at most a thousand prewarm events are kept.\<close>

theorem pool_manager_invariant: "data_inv (pm_state (run pm_instr pm_empty cs))"
  by (rule pm_inv_data [OF reachable_inv])

text \<open>No run of the manager ever assigns a GPU to a desktop of a GPU pool, or releases one: the pool entry
  fields that name the GPU are written by no operation, so the assignment that follows an
  allocation finds no handle in any pool the manager created.\<close>

lemma gpu_pools_never_assign: "filter (\<lambda>c. \<not> no_gpu_call c) (pm_calls (run pm_instr pm_empty cs)) = []"
  using reachable_inv [of cs] by (simp add: pm_inv_def list_all_iff filter_empty_conv)

subsection \<open>Allocation\<close>

lemma make_lease_ok:
  assumes "slot_ok ps k vm"
  obtains l where "make_lease pid vm m = Inr l" "k = int_str (lease_vmid l)" "lease_user_id l = sget vm ''user_id''"
    "PStr (lease_state l) = pget vm ''state''" "lease_pool_id l = pid" "lease_mode l = m" "lease_assigned_at l = sget vm ''assigned_at''"
proof -
  obtain i st where i: "k = int_str i" "map_of vm ''vmid'' = Some (PInt i)" and st: "map_of vm ''state'' = Some (PStr st)"
    using assms by (auto simp: slot_ok_def)
  show ?thesis
    by (rule that [of "\<lparr>lease_pool_id = pid, lease_vmid = i, lease_user_id = sget vm ''user_id'', lease_mode = m,
          lease_state = st, lease_assigned_at = sget vm ''assigned_at'',
          lease_stream_health = (if is_dict (pget vm ''stream_health'') then pget vm ''stream_health'' else PNone)\<rparr>"])
       (use i st in \<open>simp_all add: make_lease_def vm_state_def pget_or_def pget_def\<close>)
qed

lemma make_lease_Inr: "make_lease pid vm m = Inr l \<Longrightarrow> lease_user_id l = sget vm ''user_id'' \<and> lease_pool_id l = pid
    \<and> lease_state l = py_str (vm_state vm) \<and> (\<exists>v. map_of vm ''vmid'' = Some v \<and> py_int v = Inr (lease_vmid l))"
  by (auto simp: make_lease_def rbind_eq_Inr split: option.splits)

definition same_elsewhere :: "string \<Rightarrow> pm_data \<Rightarrow> pm_data \<Rightarrow> bool" where
  "same_elsewhere k s s' = (pools s' = pools s \<and> gpu_reservations s' = gpu_reservations s
     \<and> fun_upd (map_of (vms s')) k None = fun_upd (map_of (vms s)) k None)"

text \<open>A desktop that was without an owner counts as one prewarm hit, a repeated allocation leaves the events alone.\<close>

definition hit_recorded :: "string \<Rightarrow> string \<Rightarrow> int \<Rightarrow> dict \<Rightarrow> pm_data \<Rightarrow> pm_data \<Rightarrow> bool" where
  "hit_recorded pid user vmid vm s s' = (if vm_unassigned vm
     then \<exists>now. prewarm_events s' = prewarm_events (record_prewarm_event now pid user ''hit'' (Some vmid) prewarm_saved_wait_seconds s)
     else prewarm_events s' = prewarm_events s)"

definition allocated :: "string \<Rightarrow> string \<Rightarrow> lease \<Rightarrow> pm_data \<Rightarrow> pm_data \<Rightarrow> bool" where
  "allocated pid user l s s' = (\<exists>vm vm'. map_of (vms s) (int_str (lease_vmid l)) = Some vm
     \<and> map_of (vms s') (int_str (lease_vmid l)) = Some vm' \<and> pget vm ''pool_id'' = PStr pid
     \<and> (vm_unassigned vm \<or> vm_is user STATE_FREE vm \<or> vm_is user STATE_IN_USE vm) \<and> vm_is user STATE_IN_USE vm'
     \<and> lease_user_id l = user \<and> lease_pool_id l = pid \<and> lease_state l = STATE_IN_USE
     \<and> same_elsewhere (int_str (lease_vmid l)) s s' \<and> hit_recorded pid user (lease_vmid l) vm s s')"

lemma begin_session_keeps:
  "begin_session cfg now vm = Inr vm' \<Longrightarrow> pget vm' k = (if k = ''assigned_at'' then PStr now else
     if k = ''session_expires_at'' then pget vm' k else pget vm k)"
  by (auto simp: begin_session_def rbind_eq_Inr)

lemma begin_session_map: "begin_session cfg now vm = Inr vm' \<Longrightarrow> k \<noteq> ''assigned_at'' \<Longrightarrow> k \<noteq> ''session_expires_at'' \<Longrightarrow>
    map_of vm' k = map_of vm k"
  by (auto simp: begin_session_def rbind_eq_Inr)

lemma record_simps [simp]:
  "vms (record_prewarm_event now pid user outcome vmid saved s) = vms s"
  "pools (record_prewarm_event now pid user outcome vmid saved s) = pools s"
  "gpu_reservations (record_prewarm_event now pid user outcome vmid saved s) = gpu_reservations s"
  by (simp_all add: record_prewarm_event_def Let_def)

lemma lease_key:
  assumes "slot_ok ps k vm0" and "make_lease pid vm m = Inr l" and "map_of vm ''vmid'' = map_of vm0 ''vmid''"
  shows "int_str (lease_vmid l) = k"
  using assms make_lease_Inr [OF assms(2)] by (auto simp: slot_ok_def)

lemma same_elsewhere_refl [simp]: "same_elsewhere k s s"
  by (simp add: same_elsewhere_def)

lemma vm_is_sget: "vm_is u st vm \<Longrightarrow> sget vm ''user_id'' = u"
  by (simp add: vm_is_def sget_def)

lemma vm_is_state: "vm_is u st vm \<Longrightarrow> py_str (vm_state vm) = st"
  by (auto simp: vm_is_def vm_state_def pget_or_def pget_def split: option.splits)

lemma owned_not_unassigned: "vm_is u st vm \<Longrightarrow> \<not> vm_unassigned vm"
  by (auto simp: vm_is_def vm_unassigned_def)

lemma put_vm_events [simp]: "prewarm_events (put_vm k vm s) = prewarm_events s"
  by (simp add: put_vm_def)

lemma recorded_events: "prewarm_events s = prewarm_events t \<Longrightarrow>
    prewarm_events (record_prewarm_event now pid user outcome vmid saved s) = prewarm_events (record_prewarm_event now pid user outcome vmid saved t)"
  by (simp add: record_prewarm_event_def Let_def)

lemma allocate_allocated:
  assumes inv: "pm_inv w" and r: "allocate_desktop env pid user_id w = (Inr l, w')"
  shows "allocated pid (strip user_id) l (pm_state w) (pm_state w')"
  using wf_vms [OF inv]
proof (cases rule: allocate_cases [where w = w and env = env and pid = pid and user_id = user_id])
  case (active cfg k vm)
  have k: "slot_ok (pools (pm_state w)) k vm" by (rule data_inv_slot [OF pm_inv_data [OF inv] active(3)])
  have l: "make_lease pid vm (mode_of cfg) = Inr l" "w' = w" using active r by auto
  from lease_key [OF k l(1) refl] make_lease_Inr [OF l(1)] vm_is_sget [OF active(5)] vm_is_state [OF active(5)] active l(2) owned_not_unassigned [OF active(5)]
  show ?thesis by (simp add: allocated_def hit_recorded_def)
next
  case (again cfg k vm)
  have k: "slot_ok (pools (pm_state w)) k vm" by (rule data_inv_slot [OF pm_inv_data [OF inv] again(3)])
  obtain vm' where b: "begin_session cfg (reading env w 0) (dset ''state'' (PStr STATE_IN_USE) vm) = Inr vm'"
    using again(7) r by (auto simp: allocate_again_def split: sum.splits)
  have l: "make_lease pid vm' (mode_of cfg) = Inr l" and w': "pm_state w' = put_vm k vm' (pm_state w)"
    using again(7) r b by (auto simp: allocate_again_def)
  have u: "vm_is (strip user_id) STATE_IN_USE vm'"
    using again(5) begin_session_keeps [OF b, of "''user_id''"] begin_session_keeps [OF b, of "''state''"] by (simp add: vm_is_def)
  have e: "int_str (lease_vmid l) = k"
    using begin_session_map [OF b, of "''vmid''"] by (intro lease_key [OF k l]) simp
  show ?thesis
    using make_lease_Inr [OF l] vm_is_sget [OF u] vm_is_state [OF u] again u w' e owned_not_unassigned [OF again(5)]
    by (simp add: allocated_def same_elsewhere_def hit_recorded_def)
next
  case (fresh cfg k vm)
  let ?vm = "dset ''user_id'' (PStr (strip user_id)) (dset ''state'' (PStr STATE_IN_USE) vm)"
  have k: "slot_ok (pools (pm_state w)) k vm" by (rule data_inv_slot [OF pm_inv_data [OF inv] fresh(2)])
  obtain vm' where b: "begin_session cfg (reading env w 0) ?vm = Inr vm'"
    using fresh(6) r by (cases "begin_session cfg (reading env w 0) ?vm") (auto simp: allocate_fresh_def)
  have l: "make_lease pid vm' (mode_of cfg) = Inr l"
    using fresh(6) r b by (cases "int_or0 (pget vm' ''vmid'')") (auto simp: allocate_fresh_def Let_def)
  have w': "vms (pm_state w') = dset k vm' (vms (pm_state w))" "pools (pm_state w') = pools (pm_state w)"
    "gpu_reservations (pm_state w') = gpu_reservations (pm_state w)"
    using fresh(6) r b by (cases "int_or0 (pget vm' ''vmid'')"; auto simp: allocate_fresh_def Let_def)+
  have u: "vm_is (strip user_id) STATE_IN_USE vm'"
    using begin_session_keeps [OF b, of "''user_id''"] begin_session_keeps [OF b, of "''state''"] by (simp add: vm_is_def)
  have vmid: "map_of vm' ''vmid'' = map_of vm ''vmid''" using begin_session_map [OF b, of "''vmid''"] by simp
  have e: "int_str (lease_vmid l) = k" using vmid by (intro lease_key [OF k l])
  obtain i where i: "map_of vm' ''vmid'' = Some (PInt i)" using k vmid by (auto simp: slot_ok_def)
  then have "lease_vmid l = i" using make_lease_Inr [OF l] by auto
  moreover have "int_or0 (pget vm' ''vmid'') = Inr i" using i by (cases "i = 0") (simp_all add: int_or0_def pget_def)
  then have "pm_state w' = record_prewarm_event (reading env w 1) pid (strip user_id) ''hit'' (Some i) prewarm_saved_wait_seconds
      (put_vm k vm' (pm_state w))"
    using fresh(6) r b by (auto simp: allocate_fresh_def Let_def)
  ultimately have ev: "hit_recorded pid (strip user_id) (lease_vmid l) vm (pm_state w) (pm_state w')"
    using fresh(4) recorded_events [OF put_vm_events] by (auto simp: hit_recorded_def)
  show ?thesis
    using make_lease_Inr [OF l] vm_is_sget [OF u] vm_is_state [OF u] fresh u w' e ev by (simp add: allocated_def same_elsewhere_def)
next
  case (miss cfg)
  with r show ?thesis by (simp add: allocate_miss_def)
qed (use r in auto)

text \<open>C2: An allocation is exclusive: the desktop it leases belonged to the pool and was free without an owner, or
  already belonged to this user; afterwards it is in use by this user, the lease says so, and no
  other desktop, pool or GPU reservation has changed. Beside them only the prewarm statistics change, by one hit
  when the desktop had no owner. The operation is one step from a well-formed state; two that run at once are
  the subject of \<open>parallel_allocations_collide\<close>.\<close>

theorem allocation_exclusive:
  assumes "pm_inv w" and "allocate_desktop env pid user_id w = (Inr l, w')"
  shows "allocated pid (strip user_id) l (pm_state w) (pm_state w')"
  by (rule allocate_allocated [OF assms])

text \<open>A small installation the concrete instances below use: one pool with two desktops.\<close>

definition demo_env :: "string \<Rightarrow> pm_env" where
  "demo_env now = \<lparr>utcnow = (\<lambda>k. now), env_start_vm = True, env_stop_vm = True,
     env_reset_vm = Some (\<lambda>vmid template. Inr ()), env_list_nodes = None, env_vm_node_of = None,
     env_list_gpu_inventory = None, env_assign_gpu = (\<lambda>t. True), env_release_gpu = (\<lambda>t. True), env_smart_pick_node = None\<rparr>"

definition demo_spec :: "pool_mode \<Rightarrow> pool_type \<Rightarrow> int \<Rightarrow> pool_spec" where
  "demo_spec mode t limit = \<lparr>spec_pool_id = ''p'', spec_template_id = ''tpl'', spec_mode = mode,
     spec_min_pool_size = 1, spec_max_pool_size = 4, spec_warm_pool_size = 2, spec_cpu_cores = 2, spec_memory_mib = 2048,
     spec_storage_pool = ''local'', spec_gpu_class = [], spec_session_recording = REC_DISABLED,
     spec_recording_retention_days = 30, spec_recording_watermark_enabled = False,
     spec_recording_watermark_custom_text = [], spec_enabled = True, spec_labels = [], spec_streaming_profile = None,
     spec_tenant_id = [], spec_pool_type = t, spec_session_time_limit_minutes = limit, spec_session_cost_per_minute = 0,
     spec_session_extension_options_minutes = [15, 30, 60]\<rparr>"

definition demo_pool :: "pool_mode \<Rightarrow> pool_type \<Rightarrow> int \<Rightarrow> pm" where
  "demo_pool mode t limit = \<lparr>pm_state = \<lparr>pools = [(''p'', new_pool (demo_spec mode t limit) ''p'' ''2024-05-01T10:00:00Z'')],
     vms = [(''100'', new_vm 100 ''p'' [] STATE_FREE), (''101'', new_vm 101 ''p'' [] STATE_FREE)],
     gpu_reservations = [], prewarm_events = []\<rparr>, pm_ticks = 1, pm_calls = []\<rparr>"

lemma demo_inv: "pm_inv (demo_pool mode t limit)"
proof -
  have "int_str 100 = ''100''" "int_str 101 = ''101''" by code_simp+
  then have "slot_ok (pools (pm_state (demo_pool mode t limit))) k vm" if "map_of (vms (pm_state (demo_pool mode t limit))) k = Some vm" for k vm
    using that slot_ok_new [of "pools (pm_state (demo_pool mode t limit))" "''p''" STATE_FREE 100 "[]"]
      slot_ok_new [of "pools (pm_state (demo_pool mode t limit))" "''p''" STATE_FREE 101 "[]"]
    by (auto simp: demo_pool_def has_key_def split: if_splits)
  then show ?thesis
    by (simp add: pm_inv_def data_inv_def demo_pool_def wf_dict_def pool_ok_new)
qed

theorem allocation_exclusive_witness:
  "\<exists>l (w' :: pm). allocated ''p'' ''ann'' l (pm_state (demo_pool DEDICATED PT_KIOSK 60)) (pm_state w') \<and> lease_vmid l = 100"
proof -
  let ?r = "allocate_desktop (demo_env ''2024-05-01T10:00:00Z'') ''p'' '' ann '' (demo_pool DEDICATED PT_KIOSK 60)"
  have "(case fst ?r of Inr l \<Rightarrow> lease_vmid l = 100 | Inl e \<Rightarrow> False)" by code_simp
  then obtain l where l: "?r = (Inr l, snd ?r)" "lease_vmid l = 100" by (cases ?r) (auto split: sum.splits)
  have "strip '' ann '' = ''ann''" by code_simp
  have "allocated ''p'' (strip '' ann '') l (pm_state (demo_pool DEDICATED PT_KIOSK 60)) (pm_state (snd ?r))"
    by (rule allocation_exclusive [OF demo_inv l(1)])
  with \<open>strip '' ann '' = ''ann''\<close> l(2) show ?thesis by (intro exI [of _ l] exI [of _ "snd ?r"]) simp
qed

text \<open>The service takes no lock between reading its file and writing it: two requests that read the same state are
  given the same desktop, each with a lease in its name.\<close>

lemma parallel_allocations_collide:
  "\<exists>l l' w w'. allocate_desktop (demo_env ''2024-05-01T10:00:00Z'') ''p'' ''ann'' (demo_pool FLOATING_NON_PERSISTENT PT_DESKTOP 0) = (Inr l, w)
     \<and> allocate_desktop (demo_env ''2024-05-01T10:00:00Z'') ''p'' ''bob'' (demo_pool FLOATING_NON_PERSISTENT PT_DESKTOP 0) = (Inr l', w')
     \<and> lease_vmid l = lease_vmid l' \<and> lease_user_id l = ''ann'' \<and> lease_user_id l' = ''bob''"
proof -
  let ?a = "\<lambda>u. allocate_desktop (demo_env ''2024-05-01T10:00:00Z'') ''p'' u (demo_pool FLOATING_NON_PERSISTENT PT_DESKTOP 0)"
  have "(case fst (?a ''ann'') of Inr l \<Rightarrow> lease_vmid l = 100 \<and> lease_user_id l = ''ann'' | Inl e \<Rightarrow> False)"
    "(case fst (?a ''bob'') of Inr l \<Rightarrow> lease_vmid l = 100 \<and> lease_user_id l = ''bob'' | Inl e \<Rightarrow> False)" by code_simp+
  then show ?thesis by (cases "?a ''ann''"; cases "?a ''bob''") (auto split: sum.splits)
qed

text \<open>A time limit no clock can represent is accepted for a pool and makes every allocation of a desktop raise.\<close>

lemma huge_limit_refuses:
  "fst (allocate_desktop (demo_env ''2024-05-01T10:00:00Z'') ''p'' ''ann'' (demo_pool FLOATING_NON_PERSISTENT PT_KIOSK 10000000000))
    = Inl (OverflowError ''date value out of range'')"
  by code_simp

text \<open>C28: An allocation cannot fail for want of a desktop while the pool has one that is free and has no owner: with
  a user named and a clock the session limit can be computed from, it returns a lease. The hypotheses on the
  limit are that it reads as a number and that the expiry it gives is a date; see \<open>huge_limit_refuses\<close>.\<close>

theorem allocation_available:
  assumes "pm_inv w" and "map_of (pools (pm_state w)) pid = Some cfg" and "strip user_id \<noteq> []"
    and "map_of (vms (pm_state w)) k = Some vm" and "pget vm ''pool_id'' = PStr pid" and "vm_unassigned vm"
    and "int_or0 (pget cfg ''session_time_limit_minutes'') = Inr limit"
    and "default_session_expires_at (reading env w 0) limit = Inr expires"
  shows "\<exists>l w'. allocate_desktop env pid user_id w = (Inr l, w')"
proof -
  have b: "\<exists>vm'. begin_session cfg (reading env w 0) v = Inr vm' \<and> map_of vm' ''vmid'' = map_of v ''vmid''
      \<and> map_of vm' ''state'' = map_of v ''state''" for v
    using assms(7,8) by (simp add: begin_session_def)
  have lease: "\<exists>l. make_lease pid vm' m = Inr l" if "slot_ok ps k v" "map_of vm' ''vmid'' = map_of v ''vmid''" for ps k v vm' m
    using that by (auto simp: slot_ok_def make_lease_def)
  show ?thesis
    using wf_vms [OF assms(1)]
  proof (cases rule: allocate_cases [where w = w and env = env and pid = pid and user_id = user_id])
    case (refused e)
    then show ?thesis using assms(2,3) by auto
  next
    case (active cfg' k' vm')
    then show ?thesis using lease [OF data_inv_slot [OF pm_inv_data [OF assms(1)] active(3)] refl] by auto
  next
    case (again cfg' k' v)
    obtain vm' where b': "begin_session cfg (reading env w 0) (dset ''state'' (PStr STATE_IN_USE) v) = Inr vm'" "map_of vm' ''vmid'' = map_of v ''vmid''"
      using b [of "dset ''state'' (PStr STATE_IN_USE) v"] by auto
    then show ?thesis
      using again assms(2) lease [OF data_inv_slot [OF pm_inv_data [OF assms(1)] again(3)] b'(2)]
      by (auto simp: allocate_again_def)
  next
    case (fresh cfg' k' v)
    let ?v = "dset ''user_id'' (PStr (strip user_id)) (dset ''state'' (PStr STATE_IN_USE) v)"
    obtain vm' where b': "begin_session cfg (reading env w 0) ?v = Inr vm'" "map_of vm' ''vmid'' = map_of v ''vmid''"
      using b [of ?v] by auto
    have s: "slot_ok (pools (pm_state w)) k' v" by (rule data_inv_slot [OF pm_inv_data [OF assms(1)] fresh(2)])
    then have "\<exists>i. pget vm' ''vmid'' = PInt i" using b'(2) by (auto simp: slot_ok_def pget_def)
    then show ?thesis
      using fresh assms(2) b' lease [OF s b'(2)] by (auto simp: allocate_fresh_def Let_def)
  next
    case (miss cfg')
    then show ?thesis using assms(4-6) by auto
  qed
qed

theorem allocation_available_witness:
  "\<exists>l w'. allocate_desktop (demo_env ''2024-05-01T10:00:00Z'') ''p'' ''ann'' (demo_pool FLOATING_NON_PERSISTENT PT_KIOSK 60) = (Inr l, w')"
proof (rule allocation_available [OF demo_inv])
  let ?w = "demo_pool FLOATING_NON_PERSISTENT PT_KIOSK 60"
  show "map_of (pools (pm_state ?w)) ''p'' = Some (new_pool (demo_spec FLOATING_NON_PERSISTENT PT_KIOSK 60) ''p'' ''2024-05-01T10:00:00Z'')"
    by code_simp
  show "map_of (vms (pm_state ?w)) ''101'' = Some (new_vm 101 ''p'' [] ''free'')" by code_simp
  show "default_session_expires_at (reading (demo_env ''2024-05-01T10:00:00Z'') ?w 0) 60 = Inr ''2024-05-01T11:00:00Z''" by code_simp
qed code_simp+

end
