(* ===== verification/PoolSessionProps.thy ===== *)
theory PoolSessionProps
  imports PoolProps
begin

text \<open>
  Sessions over time: a persistent user gets the same desktop back, a non-persistent desktop is reset
  before anybody else can get it, and kiosk sessions are extended, expired and released.
\<close>

subsection \<open>Persistent desktops\<close>

lemma released_keep: "m \<noteq> FLOATING_NON_PERSISTENT \<Longrightarrow> pget (released_vm m vm) k = (if k = ''state'' then PStr STATE_FREE
    else if k = ''session_expires_at'' \<or> k = ''stream_health'' then PNone else pget vm k)"
  by (simp add: released_vm_def)

lemma release_keep:
  assumes "vm_in_pool pid (int_str vmid) (pm_state w) = Some vm" and "mode_of (pool_cfg (pm_state w) pid) \<noteq> FLOATING_NON_PERSISTENT"
  shows "\<exists>w'. release_desktop env pid vmid u w = (make_lease pid (released_vm (mode_of (pool_cfg (pm_state w) pid)) vm) (mode_of (pool_cfg (pm_state w) pid)), w')
    \<and> pm_state w' = put_vm (int_str vmid) (released_vm (mode_of (pool_cfg (pm_state w) pid)) vm) (pm_state w)"
  using assms by (simp add: release_desktop_def Let_def)

text \<open>In a persistent or dedicated pool a user who logs out and in again gets the same desktop, provided no other
  desktop of the pool carries the user's name: the release frees the desktop and keeps its owner,
  and the next allocation for that user leases the same VM.\<close>

lemma persistent_relogin:
  assumes inv: "pm_inv w" and cfg: "map_of (pools (pm_state w)) pid = Some cfg" and mode: "mode_of cfg \<noteq> FLOATING_NON_PERSISTENT"
    and vm: "map_of (vms (pm_state w)) (int_str vmid) = Some vm" "pget vm ''pool_id'' = PStr pid" "vm_is (strip user) STATE_IN_USE vm"
    and only: "\<forall>k vm'. map_of (vms (pm_state w)) k = Some vm' \<and> pget vm' ''pool_id'' = PStr pid
        \<and> pget vm' ''user_id'' = PStr (strip user) \<longrightarrow> k = int_str vmid"
    and rel: "release_desktop env pid vmid anyone w = (r, w1)"
    and again: "allocate_desktop env' pid user w1 = (Inr l, w2)"
  shows "lease_vmid l = vmid \<and> (\<exists>l1. r = Inr l1 \<and> lease_state l1 = STATE_FREE \<and> lease_user_id l1 = strip user)"
proof -
  let ?u = "strip user" and ?k = "int_str vmid" and ?vm1 = "released_vm (mode_of cfg) vm"
  have in_pool: "vm_in_pool pid ?k (pm_state w) = Some vm" using vm by (simp add: vm_in_pool_def)
  have pc: "pool_cfg (pm_state w) pid = cfg" using cfg by (simp add: pool_cfg_def)
  have s1: "pm_state w1 = put_vm ?k ?vm1 (pm_state w)" and r: "r = make_lease pid ?vm1 (mode_of cfg)"
    using release_keep [OF in_pool, of env anyone] mode rel by (auto simp: pc)
  have I1: "pm_inv w1" using inv_release [OF inv, of env pid vmid anyone] rel by simp
  have k1: "slot_ok (pools (pm_state w1)) ?k ?vm1" by (rule data_inv_slot [OF pm_inv_data [OF I1]]) (simp add: s1)
  have u1: "pget ?vm1 ''user_id'' = PStr ?u" "pget ?vm1 ''state'' = PStr STATE_FREE" "pget ?vm1 ''pool_id'' = PStr pid"
    using vm mode by (simp_all add: released_keep vm_is_def)
  obtain l1 where l1: "make_lease pid ?vm1 (mode_of cfg) = Inr l1" "lease_user_id l1 = sget ?vm1 ''user_id''"
      "PStr (lease_state l1) = pget ?vm1 ''state''"
    by (rule make_lease_ok [OF k1])
  have one: "k = ?k" if "map_of (vms (pm_state w1)) k = Some v" "pget v ''pool_id'' = PStr pid" "pget v ''user_id'' = PStr ?u" for k v
    using only that by (auto simp: s1 split: if_splits)
  have "lease_vmid l = vmid"
    using wf_vms [OF I1]
  proof (cases rule: allocate_cases [where w = w1 and env = env' and pid = pid and user_id = user])
    case (active cfg' k v)
    then have "k = ?k" using one by (auto simp: vm_is_def)
    with active u1 show ?thesis by (simp add: s1 vm_is_def)
  next
    case (again cfg' k v)
    then have k: "k = ?k" using one by (auto simp: vm_is_def)
    have sl: "slot_ok (pools (pm_state w1)) k v" by (rule data_inv_slot [OF pm_inv_data [OF I1] again(3)])
    obtain v' where b: "begin_session cfg' (reading env' w1 0) (dset ''state'' (PStr STATE_IN_USE) v) = Inr v'"
      using again(7) assms(9) by (auto simp: allocate_again_def split: sum.splits)
    then have l: "make_lease pid v' (mode_of cfg') = Inr l" using again(7) assms(9) by (simp add: allocate_again_def)
    have "int_str (lease_vmid l) = k"
      using begin_session_map [OF b, of "''vmid''"] by (intro lease_key [OF sl l]) simp
    with k show ?thesis by simp
  next
    case (fresh cfg' k v)
    have "cfg' = cfg" using fresh(1) cfg by (simp add: s1)
    with fresh(7) [of ?k ?vm1] u1 mode show ?thesis by (simp add: s1 vm_is_def)
  next
    case (miss cfg')
    then show ?thesis using again by (simp add: allocate_miss_def)
  qed (use again in auto)
  with r l1 u1 show ?thesis by (simp add: sget_def)
qed

subsection \<open>Non-persistent desktops are reset\<close>

text \<open>A desktop of a non-persistent pool that has been used: it is not free without an owner.\<close>

definition dirty :: "string \<Rightarrow> pm \<Rightarrow> bool" where
  "dirty k w = (\<exists>vm p. map_of (vms (pm_state w)) k = Some vm \<and> \<not> vm_unassigned vm \<and> pget vm ''pool_id'' = PStr p
     \<and> mode_of (pool_cfg (pm_state w) p) = FLOATING_NON_PERSISTENT)"

definition reset_done :: "pm_env \<Rightarrow> string \<Rightarrow> provider_call list \<Rightarrow> bool" where
  "reset_done env k cs = (env_reset_vm env = None \<or>
     (\<exists>i t f. k = int_str i \<and> env_reset_vm env = Some f \<and> f i t = Inr () \<and> ResetVm i t \<in> set cs))"

text \<open>Between two states a dirty desktop stays dirty unless it was reset.\<close>

definition guarded :: "pm_env \<Rightarrow> string \<Rightarrow> pm \<Rightarrow> pm \<Rightarrow> bool" where
  "guarded env k w w' = (\<exists>cs. pm_calls w' = pm_calls w @ cs \<and> (dirty k w \<longrightarrow> dirty k w' \<or> reset_done env k cs))"

lemma guarded_refl [simp, intro]: "guarded env k w w"
  by (simp add: guarded_def)

lemma guarded_trans: "guarded env k w w1 \<Longrightarrow> guarded env k w1 w2 \<Longrightarrow> guarded env k w w2"
  unfolding guarded_def reset_done_def by fastforce

lemma dirty_state: "pm_state w = pm_state w' \<Longrightarrow> dirty k w = dirty k w'"
  by (simp add: dirty_def)

lemma guarded_same: "pm_state w' = pm_state w \<Longrightarrow> pm_calls w' = pm_calls w @ cs \<Longrightarrow> guarded env k w w'"
  using dirty_state [of w w'] by (auto simp: guarded_def)

text \<open>A step that writes one slot of the pool it works on and leaves the modes of the pools alone.\<close>

lemma guarded_put:
  assumes "pm_calls w' = pm_calls w @ cs" and "vms (pm_state w') = dset k' vm' (vms (pm_state w))"
    and "\<And>p. mode_of (pool_cfg (pm_state w') p) = mode_of (pool_cfg (pm_state w) p)"
    and "map_of (vms (pm_state w)) k' = Some vm" and "pget vm' ''pool_id'' = pget vm ''pool_id''"
    and "\<not> vm_unassigned vm \<Longrightarrow> (\<And>p. pget vm ''pool_id'' = PStr p \<Longrightarrow> mode_of (pool_cfg (pm_state w) p) = FLOATING_NON_PERSISTENT) \<Longrightarrow>
       \<not> vm_unassigned vm' \<or> reset_done env k' cs"
  shows "guarded env k w w'"
proof -
  have "dirty k w' \<or> reset_done env k cs" if d: "dirty k w"
  proof (cases "k = k'")
    case True
    with d assms(4) obtain p where p: "pget vm ''pool_id'' = PStr p" "mode_of (pool_cfg (pm_state w) p) = FLOATING_NON_PERSISTENT" "\<not> vm_unassigned vm"
      by (auto simp: dirty_def)
    then have "\<not> vm_unassigned vm' \<or> reset_done env k' cs" using assms(6) by auto
    then show ?thesis using True p assms(2,3,5) by (auto simp: dirty_def)
  next
    case False
    then show ?thesis using d assms(2,3) by (auto simp: dirty_def)
  qed
  then show ?thesis using assms(1) by (auto simp: guarded_def)
qed

lemma not_unassigned_state: "pget vm ''state'' \<noteq> PStr STATE_FREE \<Longrightarrow> \<not> vm_unassigned vm"
  by (simp add: vm_unassigned_def)

lemma calls_append [simp]:
  "pm_calls (maybe_start_vm env vm w) = pm_calls w @ (if env_start_vm env \<and> has_key vm ''vmid'' then [StartVm (pget vm ''vmid'')] else [])"
  "pm_calls (maybe_stop_vm env vmid w) = pm_calls w @ (if env_stop_vm env then [StopVm vmid] else [])"
  by (simp_all add: maybe_start_vm_def maybe_stop_vm_def)

lemma pool_cfg_put_vm [simp]: "pool_cfg (put_vm k vm s) p = pool_cfg s p"
  by (simp add: pool_cfg_def)

lemma pool_cfg_record [simp]: "pool_cfg (record_prewarm_event now pid user outcome vmid saved s) p = pool_cfg s p"
  by (simp add: pool_cfg_def)

lemma guarded_recycle:
  assumes "pm_inv w"
  shows "guarded env k w (snd (recycle_desktop env pid vmid w))"
proof (cases "vm_in_pool pid (int_str vmid) (pm_state w)")
  case (Some vm)
  note V = conjunct1 [OF vm_in_pool_Some [OF Some]] conjunct2 [OF vm_in_pool_Some [OF Some]]
  let ?s = "pm_state w" and ?t = "pget_or (pool_cfg (pm_state w) pid) ''template_id'' (PStr [])"
  let ?free = "cleared_vm (dset ''state'' (PStr STATE_FREE) vm)" and ?err = "dset ''state'' (PStr STATE_ERROR) vm"
  have pool: "pget ?free ''pool_id'' = pget vm ''pool_id''" "pget ?err ''pool_id'' = pget vm ''pool_id''" by (simp_all add: cleared_vm_def)
  show ?thesis
  proof (cases "env_reset_vm env")
    case None
    have e: "snd (recycle_desktop env pid vmid w) = commit (put_vm (int_str vmid) ?free ?s) w"
      by (simp add: recycle_desktop_def Let_def Some None)
    show ?thesis unfolding e
      by (rule guarded_put [where cs = "[]" and vm = vm and k' = "int_str vmid" and vm' = ?free]) (use V pool in \<open>simp_all add: reset_done_def None\<close>)
  next
    case f: (Some f)
    show ?thesis
    proof (cases "f vmid ?t")
      case (Inl x)
      have e: "snd (recycle_desktop env pid vmid w) = commit (put_vm (int_str vmid) ?err ?s) (log_call (ResetVm vmid ?t) w)"
        by (simp add: recycle_desktop_def Let_def Some f Inl)
      show ?thesis unfolding e
        by (rule guarded_put [where cs = "[ResetVm vmid ?t]" and vm = vm and k' = "int_str vmid" and vm' = ?err]) (use V pool in \<open>simp_all add: vm_unassigned_def\<close>)
    next
      case (Inr x)
      have e: "snd (recycle_desktop env pid vmid w) = commit (put_vm (int_str vmid) ?free ?s) (log_call (ResetVm vmid ?t) w)"
        by (simp add: recycle_desktop_def Let_def Some f Inr)
      have "reset_done env (int_str vmid) [ResetVm vmid ?t]" using f Inr by (auto simp: reset_done_def)
      then show ?thesis unfolding e
        by (intro guarded_put [where cs = "[ResetVm vmid ?t]" and vm = vm and k' = "int_str vmid" and vm' = ?free]) (use V pool in simp_all)
    qed
  qed
qed (simp add: recycle_desktop_def Let_def)

lemma guarded_release:
  assumes "pm_inv w"
  shows "guarded env k w (snd (release_desktop env pid vmid user w))"
proof (cases "vm_in_pool pid (int_str vmid) (pm_state w)")
  case (Some vm)
  note V = vm_in_pool_Some [OF Some] and I = pm_inv_data [OF assms]
  define cfg where "cfg = pool_cfg (pm_state w) pid"
  define vm' where "vm' = released_vm (mode_of cfg) vm"
  define w1 where "w1 = maybe_stop_vm env vmid (commit (put_vm (int_str vmid) vm' (pm_state w)) w)"
  have rel: "maybe_release_gpu env (type_of cfg) cfg vm w = w"
    unfolding cfg_def by (rule no_gpu_assignment(2) [OF pool_ok_cfg [OF I]])
  have r: "snd (release_desktop env pid vmid user w) = (if mode_of cfg = FLOATING_NON_PERSISTENT \<and> type_of cfg = PT_KIOSK
      then snd (recycle_desktop env pid vmid w1) else w1)"
    unfolding release_desktop_def Let_def Some option.case cfg_def [symmetric] vm'_def [symmetric] rel w1_def [symmetric] by simp
  have "pm_inv w1"
  proof -
    have "slot_ok (pools (pm_state w)) (int_str vmid) vm'"
      using V unfolding vm'_def by (intro slot_ok_released data_inv_slot [OF I]) simp
    then show ?thesis using I assms by (simp add: w1_def pm_inv_commit data_inv_put_vm)
  qed
  moreover have "guarded env k w w1"
  proof (rule guarded_put [where k' = "int_str vmid" and vm = vm and vm' = vm' and cs = "if env_stop_vm env then [StopVm vmid] else []"])
    assume a: "\<not> vm_unassigned vm" "\<And>p. pget vm ''pool_id'' = PStr p \<Longrightarrow> mode_of (pool_cfg (pm_state w) p) = FLOATING_NON_PERSISTENT"
    have "mode_of cfg = FLOATING_NON_PERSISTENT" using a(2) [of pid] V by (simp add: cfg_def)
    then have "pget vm' ''state'' = PStr STATE_RECYCLING" by (simp add: vm'_def released_vm_def cleared_vm_def)
    then show "\<not> vm_unassigned vm' \<or> reset_done env (int_str vmid) (if env_stop_vm env then [StopVm vmid] else [])"
      by (simp add: not_unassigned_state)
  qed (use V in \<open>simp_all add: w1_def vm'_def released_vm_def cleared_vm_def\<close>)
  ultimately show ?thesis using guarded_trans guarded_recycle unfolding r by simp
qed (simp add: release_desktop_def Let_def)

lemma guarded_allocate:
  assumes "pm_inv w"
  shows "guarded env k w (snd (allocate_desktop env pid user w))"
  using wf_vms [OF assms]
proof (cases rule: allocate_cases [where w = w and env = env and pid = pid and user_id = user])
  case (again cfg k' vm)
  show ?thesis
  proof (cases "begin_session cfg (reading env w 0) (dset ''state'' (PStr STATE_IN_USE) vm)")
    case (Inl e)
    then show ?thesis using again(7) by (auto simp: allocate_again_def intro: guarded_same [where cs = "[]"])
  next
    case (Inr vm')
    let ?w = "snd (allocate_again env pid cfg (k', vm) w)"
    have "guarded env k w ?w"
    proof (rule guarded_put [where k' = k' and vm = vm and vm' = vm'])
      show "pm_calls ?w = pm_calls w @ (if env_start_vm env \<and> has_key vm' ''vmid'' then [StartVm (pget vm' ''vmid'')] else [])"
        by (simp add: allocate_again_def Inr)
      show "\<not> vm_unassigned vm' \<or> reset_done env k' (if env_start_vm env \<and> has_key vm' ''vmid'' then [StartVm (pget vm' ''vmid'')] else [])"
        using begin_session_keeps [OF Inr, of "''state''"] by (simp add: not_unassigned_state)
      show "pget vm' ''pool_id'' = pget vm ''pool_id''" using begin_session_keeps [OF Inr, of "''pool_id''"] by simp
    qed (use again in \<open>simp_all add: allocate_again_def Inr\<close>)
    then show ?thesis using again(7) by simp
  qed
next
  case (fresh cfg k' vm)
  let ?vm = "dset ''user_id'' (PStr (strip user)) (dset ''state'' (PStr STATE_IN_USE) vm)"
  let ?r = "rbind (begin_session cfg (reading env w 0) ?vm) (\<lambda>vm. rbind (int_or0 (pget vm ''vmid'')) (\<lambda>vmid. Inr (vm, vmid)))"
  show ?thesis
  proof (cases ?r)
    case (Inl e)
    then show ?thesis using fresh(6) by (auto simp: allocate_fresh_def intro: guarded_same [where cs = "[]"])
  next
    case (Inr q)
    obtain vm' i where q: "q = (vm', i)" by (cases q)
    have b: "begin_session cfg (reading env w 0) ?vm = Inr vm'" using Inr by (auto simp: rbind_eq_Inr q)
    let ?w = "snd (allocate_fresh env pid (strip user) cfg (k', vm) w)"
    let ?cs = "if env_start_vm env \<and> has_key vm' ''vmid'' then [StartVm (pget vm' ''vmid'')] else []"
    have "guarded env k w ?w"
    proof (rule guarded_put [where k' = k' and vm = vm and vm' = vm'])
      show "pm_calls ?w = pm_calls w @ ?cs"
        using no_gpu_assignment(1) [OF data_inv_pool [OF pm_inv_data [OF assms] fresh(1)]]
        by (simp add: allocate_fresh_def Inr q Let_def)
      show "\<not> vm_unassigned vm' \<or> reset_done env k' ?cs"
        using begin_session_keeps [OF b, of "''state''"] by (simp add: not_unassigned_state)
      show "pget vm' ''pool_id'' = pget vm ''pool_id''" using begin_session_keeps [OF b, of "''pool_id''"] by simp
    qed (use fresh in \<open>simp_all add: allocate_fresh_def Inr q Let_def\<close>)
    then show ?thesis using fresh(6) by simp
  qed
next
  case (miss cfg)
  then show ?thesis by (auto simp: allocate_miss_def guarded_def dirty_def)
qed auto

lemma guarded_keep_slot:
  assumes "map_of (vms (pm_state w)) k' = Some vm" and "pget vm' ''pool_id'' = pget vm ''pool_id''"
    and "pget vm' ''state'' = pget vm ''state''" and "pget vm' ''user_id'' = pget vm ''user_id''"
  shows "guarded env k w (commit (put_vm k' vm' (pm_state w)) (advance n w))"
  by (rule guarded_put [where cs = "[]" and k' = k' and vm = vm and vm' = vm'])
     (use assms in \<open>simp_all add: vm_unassigned_def\<close>)

lemma guarded_advance [intro]: "guarded env k w (advance n w)"
  by (rule guarded_same [where cs = "[]"]) simp_all

lemma guarded_extend: "guarded env k w (snd (extend_kiosk_session env pid vmid n w))"
proof -
  have "guarded env k w (commit (put_vm k' vm' (pm_state w)) (advance 1 w))"
    if "map_of (vms (pm_state w)) k' = Some vm" "extended_vm b n now vm = Inr vm'" for k' vm vm' b now
    using that by (intro guarded_keep_slot [where vm = vm]) (auto simp: extended_vm_def rbind_eq_Inr)
  then show ?thesis
    unfolding extend_kiosk_session_def Let_def by (auto split: option.splits sum.splits)
qed

lemma guarded_health: "guarded env k w (snd (update_stream_health env pid vmid h w))"
proof -
  have "guarded env k w (commit (put_vm k' (dset ''stream_health'' v vm) (pm_state w)) (advance i w))"
    if "map_of (vms (pm_state w)) k' = Some vm" for k' v vm i
    using that by (intro guarded_keep_slot) simp_all
  from this [of _ _ _ 0] this [of _ _ _ 1] show ?thesis
    unfolding update_stream_health_def Let_def
    by (auto split: option.splits sum.splits dest!: vm_in_pool_Some simp: advance_def)
qed

lemma guarded_expire_one: "pm_inv w \<Longrightarrow> guarded env k w (expire_one env item w)"
proof -
  assume w: "pm_inv w"
  obtain pid vmid user where item: "item = (pid, vmid, user)" by (cases item)
  define w1 where "w1 = snd (release_desktop env pid vmid user w)"
  have 1: "guarded env k w w1" unfolding w1_def by (rule guarded_release [OF w])
  have "guarded env k w1 (commit (put_vm k' (dset ''ended_at'' v (dset ''state'' (PStr ''expired'') vm)) (pm_state w1)) (advance 1 w1))"
    if "map_of (vms (pm_state w1)) k' = Some vm" for k' v vm
    by (rule guarded_put [where cs = "[]" and k' = k' and vm = vm and vm' = "dset ''ended_at'' v (dset ''state'' (PStr ''expired'') vm)"])
       (use that in \<open>simp_all add: not_unassigned_state\<close>)
  with 1 show ?thesis
    unfolding expire_one_def item w1_def by (auto split: prod.splits sum.splits option.splits intro: guarded_trans)
qed

lemma guarded_expire:
  assumes "pm_inv w"
  shows "guarded env k w (snd (expire_overdue_sessions env w))"
proof -
  obtain r w1 where r: "scan_overdue env (vals (vms (pm_state w))) w = (r, w1)"
    by (cases "scan_overdue env (vals (vms (pm_state w))) w")
  have s: "pm_state w1 = pm_state w" "pm_calls w1 = pm_calls w" using r scan_state [of env "vals (vms (pm_state w))" w] by simp_all
  have 1: "guarded env k w w1" using s by (intro guarded_same [where cs = "[]"]) simp_all
  have "guarded env k w1 (fold (expire_one env) items w1)" if "pm_inv w1" for items
    using that
  proof (induction items arbitrary: w1)
    case (Cons i items)
    then show ?case using guarded_trans [OF guarded_expire_one Cons.IH] inv_expire_one by simp
  qed simp
  moreover have "pm_inv w1" using assms s by (simp add: pm_inv_def)
  ultimately show ?thesis
    using 1 r by (auto simp: expire_overdue_sessions_def split: sum.splits intro: guarded_trans)
qed

lemma apply_updates_mode: "apply_updates cfg us = Inr cfg' \<Longrightarrow> mode_of cfg' = mode_of cfg"
proof (induction cfg us rule: apply_updates.induct)
  case (2 cfg key v us)
  have "mode_of (dset key x cfg) = mode_of cfg" if "key \<in> UPDATABLE" for x
    using that by (auto simp: mode_of_def UPDATABLE_def)
  with 2 show ?case by (auto simp: rbind_eq_Inr split: if_splits)
qed simp

lemma guarded_pools:
  assumes "pm_calls w' = pm_calls w" and "vms (pm_state w') = vms (pm_state w)"
    and "\<And>p cfg. map_of (pools (pm_state w)) p = Some cfg \<Longrightarrow> mode_of (pool_cfg (pm_state w') p) = mode_of cfg"
    and "pm_inv w"
  shows "guarded env k w w'"
proof -
  have "dirty k w'" if d: "dirty k w"
  proof -
    obtain vm p where v: "map_of (vms (pm_state w)) k = Some vm" "\<not> vm_unassigned vm" "pget vm ''pool_id'' = PStr p"
      "mode_of (pool_cfg (pm_state w) p) = FLOATING_NON_PERSISTENT" using d by (auto simp: dirty_def)
    have "has_key (pools (pm_state w)) p"
      using data_inv_slot [OF pm_inv_data [OF assms(4)] v(1)] v(3) by (auto simp: slot_ok_def)
    then have "mode_of (pool_cfg (pm_state w') p) = mode_of (pool_cfg (pm_state w) p)"
      using assms(3) by (auto simp: has_key_def pool_cfg_def)
    with v assms(2) show ?thesis by (auto simp: dirty_def)
  qed
  with assms(1) show ?thesis by (simp add: guarded_def)
qed

lemma pool_cfg_put_pool: "pool_cfg (put_pool k cfg s) p = (if p = k then cfg else pool_cfg s p)"
  by (simp add: pool_cfg_def)

lemma guarded_config:
  assumes "pm_inv w" and "op = OpCreate spec \<or> op = OpUpdate pid us \<or> op = OpScale pid n"
  shows "guarded env k w (pm_exec env op w)"
proof (rule guarded_pools [OF _ _ _ assms(1)])
  show "pm_calls (pm_exec env op w) = pm_calls w" "vms (pm_state (pm_exec env op w)) = vms (pm_state w)"
    using assms(2) by (auto simp: create_pool_def update_pool_def scale_pool_def Let_def split: option.splits sum.splits)
  fix p cfg assume p: "map_of (pools (pm_state w)) p = Some cfg"
  have "mode_of (dset ''warm_pool_size'' v c) = mode_of c" for v c by (simp add: mode_of_def)
  then show "mode_of (pool_cfg (pm_state (pm_exec env op w)) p) = mode_of cfg"
    using assms(2) p apply_updates_mode
    by (auto simp: create_pool_def update_pool_def scale_pool_def Let_def pool_cfg_put_pool has_key_def
        split: option.splits sum.splits) (auto simp: pool_cfg_def)
qed

lemma exec_guarded:
  assumes "pm_inv w" and "\<And>pid. op \<noteq> OpDelete pid" and "\<And>pid i p. op \<noteq> OpRegister pid i p"
  shows "guarded env k w (pm_exec env op w)"
  using assms(2,3) guarded_config [OF assms(1), of op] assms(1)
  by (cases op) (auto simp: guarded_allocate guarded_release guarded_recycle guarded_extend guarded_expire guarded_health)

text \<open>C3: In a non-persistent pool a desktop that has been handed out becomes available to others only after a
  successful reset to the template: with a reset callable configured, and whatever operation runs, short of
  registering the VM anew or deleting the pool, if the desktop was not free without owner before and is so afterwards, the
  provider was asked to reset this VM during the operation and did not fail.\<close>

theorem reset_before_reuse:
  assumes "pm_inv w" and "map_of (vms (pm_state w)) (int_str vmid) = Some vm" and "pget vm ''pool_id'' = PStr pid"
    and "mode_of (pool_cfg (pm_state w) pid) = FLOATING_NON_PERSISTENT" and "\<not> vm_unassigned vm"
    and "\<And>p. op \<noteq> OpDelete p" and "\<And>p i q. op \<noteq> OpRegister p i q" and "env_reset_vm env = Some reset"
    and "map_of (vms (pm_state (pm_exec env op w))) (int_str vmid) = Some vm'" and "vm_unassigned vm'"
  shows "\<exists>template cs. pm_calls (pm_exec env op w) = pm_calls w @ cs \<and> ResetVm vmid template \<in> set cs \<and> reset vmid template = Inr ()"
proof -
  have "dirty (int_str vmid) w" using assms(2-5) by (auto simp: dirty_def)
  moreover have "\<not> dirty (int_str vmid) (pm_exec env op w)" using assms(9,10) by (auto simp: dirty_def)
  ultimately show ?thesis
    using exec_guarded [OF assms(1,6,7), of env "int_str vmid"] assms(8) by (auto simp: guarded_def reset_done_def)
qed

theorem reset_before_reuse_witness:
  "\<exists>w env template cs. pm_calls (pm_exec env (OpRecycle ''p'' 100) w) = pm_calls w @ cs \<and> ResetVm 100 template \<in> set cs"
proof -
  let ?env = "demo_env ''2024-05-01T12:00:00Z''"
  define w where "w = pm_exec ?env (OpRelease ''p'' 100 ''ann'') (pm_exec ?env (OpAllocate ''p'' ''ann'') (demo_pool FLOATING_NON_PERSISTENT PT_DESKTOP 0))"
  have inv: "pm_inv w" by (simp only: w_def pm_exec_inv demo_inv)
  define vm where "vm = cleared_vm (dset ''state'' (PStr STATE_RECYCLING) (dset ''session_expires_at'' (PStr []) (dset ''assigned_at'' (PStr ''2024-05-01T12:00:00Z'')
      (dset ''user_id'' (PStr ''ann'') (dset ''state'' (PStr STATE_IN_USE) (new_vm 100 ''p'' [] ''free''))))))"
  have "\<exists>template cs. pm_calls (pm_exec ?env (OpRecycle ''p'' 100) w) = pm_calls w @ cs \<and> ResetVm 100 template \<in> set cs
      \<and> (\<lambda>i t. Inr ()) 100 template = (Inr () :: unit result)"
  proof (rule reset_before_reuse [OF inv, where pid = "''p''" and vm = vm])
    show "map_of (vms (pm_state w)) (int_str 100) = Some vm" unfolding w_def vm_def by code_simp
    show "pget vm ''pool_id'' = PStr ''p''" "\<not> vm_unassigned vm" unfolding vm_def by code_simp+
    show "mode_of (pool_cfg (pm_state w) ''p'') = FLOATING_NON_PERSISTENT" unfolding w_def by code_simp
    show "map_of (vms (pm_state (pm_exec ?env (OpRecycle ''p'' 100) w))) (int_str 100) = Some (cleared_vm (dset ''state'' (PStr STATE_FREE) vm))"
      unfolding w_def vm_def by code_simp
    show "vm_unassigned (cleared_vm (dset ''state'' (PStr STATE_FREE) vm))" by (simp add: vm_unassigned_def cleared_vm_def)
    show "env_reset_vm ?env = Some (\<lambda>i t. Inr ())" by (simp add: demo_env_def)
  qed simp_all
  then show ?thesis by blast
qed

subsection \<open>Kiosk sessions\<close>

lemma normalize_options_range:
  "set (normalize_session_extension_options v b) \<subseteq> {1..480}"
proof -
  have "set acc \<subseteq> {1..480} \<Longrightarrow> set (extension_minutes acc parts) \<subseteq> {1..480}" for acc parts
  proof (induction parts arbitrary: acc)
    case (Cons p parts)
    show ?case
    proof (cases "parse_int (strip (py_str p))")
      case (Some m)
      have "set (if m \<le> 0 \<or> m > 480 \<or> m \<in> set acc then acc else acc @ [m]) \<subseteq> {1..480}" using Cons.prems by auto
      from Cons.IH [OF this] show ?thesis by (simp add: Some)
    qed (use Cons in simp)
  qed simp
  then have "set (extension_minutes [] parts) \<subseteq> {1..480}" for parts by simp
  then show ?thesis
    unfolding normalize_session_extension_options_def Let_def
    by (auto simp: subset_iff dest: in_set_takeD)
qed

lemma distinct_extension_minutes: "distinct acc \<Longrightarrow> distinct (extension_minutes acc parts)"
proof (induction parts arbitrary: acc)
  case (Cons p parts)
  show ?case
  proof (cases "parse_int (strip (py_str p))")
    case (Some m)
    then show ?thesis using Cons.IH Cons.prems by simp
  qed (use Cons in simp)
qed simp

lemma sorted_take_sort: "sorted (take n (sort xs))"
  by (simp add: sorted_wrt_take)

lemma normalize_options_shape:
  "sorted (normalize_session_extension_options v b) \<and> distinct (normalize_session_extension_options v b)
   \<and> length (normalize_session_extension_options v b) \<le> 6"
  using distinct_extension_minutes [of "[]"]
  by (simp add: normalize_session_extension_options_def Let_def sorted_take_sort)

lemma extension_minutes_ints:
  "set xs \<subseteq> {1..480} \<Longrightarrow> distinct (acc @ xs) \<Longrightarrow> extension_minutes acc (map PInt xs) = acc @ xs"
proof (induction xs arbitrary: acc)
  case (Cons x xs)
  then show ?case using Cons.IH [of "acc @ [x]"] by auto
qed simp

lemma normalize_options_idem:
  assumes "xs = normalize_session_extension_options v b"
  shows "normalize_session_extension_options (PList (map PInt xs)) b = xs"
proof -
  have shape: "sorted xs" "distinct xs" "length xs \<le> 6" "set xs \<subseteq> {1..480}"
    unfolding assms using normalize_options_shape normalize_options_range by blast+
  have parts: "concat (map (extension_parts \<circ> PInt) xs) = map PInt xs"
    by (induction xs) (simp_all add: extension_parts_def)
  have e: "extension_minutes [] (map PInt xs) = xs" using extension_minutes_ints [of xs "[]"] shape by simp
  have "xs = [] \<Longrightarrow> \<not> b" unfolding assms by (auto simp: normalize_session_extension_options_def Let_def split: if_splits)
  then show ?thesis
    using shape by (auto simp: normalize_session_extension_options_def Let_def parts e sorted_sort_id)
qed

text \<open>The extension levels of a pool are normalised whatever a client sends: ascending, without duplicates, each
  between 1 and 480 minutes, at most six, never empty for a kiosk; and normalising them once more
  changes nothing, so storing and reading them back is safe.\<close>

lemma extension_levels_normal:
  "sorted (normalize_session_extension_options v kiosk) \<and> distinct (normalize_session_extension_options v kiosk)
   \<and> length (normalize_session_extension_options v kiosk) \<le> 6
   \<and> set (normalize_session_extension_options v kiosk) \<subseteq> {1..480}
   \<and> normalize_session_extension_options v True \<noteq> []
   \<and> normalize_session_extension_options (PList (map PInt (normalize_session_extension_options v kiosk))) kiosk
      = normalize_session_extension_options v kiosk"
  using normalize_options_shape [of v kiosk] normalize_options_range [of v kiosk] normalize_options_idem [OF refl, of v kiosk]
  by (auto simp: normalize_session_extension_options_def Let_def split: if_splits)

end
