(* ===== verification/PoolKioskProps.thy ===== *)
theory PoolKioskProps
  imports PoolSessionProps
begin

text \<open>
  Time limits of sessions: what an extension grants, that overdue sessions end, and that the expiry scan
  does not look at the end an extension recorded.
\<close>

subsection \<open>Extensions\<close>

lemma extend_cases:
  assumes "extend_kiosk_session env pid vmid minutes w = (Inr l, w')"
  obtains cfg vm limit b n where "map_of (pools (pm_state w)) pid = Some cfg"
    "map_of (vms (pm_state w)) (int_str vmid) = Some vm" "sget vm ''pool_id'' = pid" "sget vm ''state'' = STATE_IN_USE"
    "1 \<le> minutes" "minutes \<le> 480" "minutes \<in> set (normalize_session_extension_options (pget cfg ''session_extension_options_minutes'') True)"
    "int_or0 (pget cfg ''session_time_limit_minutes'') = Inr limit" "0 < limit"
    "session_baseline limit vm = Inr b" "parse_utc_timestamp (reading env w 0) = Inr n"
    "add_minutes (max b n) minutes = Inr (max b n + minutes * 60000000)"
    "w' = commit (put_vm (int_str vmid) (dset ''session_expires_at'' (PStr (strftime_utc (max b n + minutes * 60000000))) vm) (pm_state w)) (advance 1 w)"
    "make_lease pid (dset ''session_expires_at'' (PStr (strftime_utc (max b n + minutes * 60000000))) vm) (mode_of cfg) = Inr l"
proof -
  have opts: "normalize_session_extension_options v True \<noteq> []" for v
    by (simp add: normalize_session_extension_options_def Let_def)
  obtain cfg where cfg: "map_of (pools (pm_state w)) pid = Some cfg"
    using assms by (cases "map_of (pools (pm_state w)) pid") (auto simp: extend_kiosk_session_def Let_def)
  have m: "lower (stget cfg ''pool_type'') = ''kiosk''" "\<not> minutes \<le> 0" "\<not> minutes > 480"
    using assms cfg by (auto simp: extend_kiosk_session_def Let_def split: if_splits)
  obtain vm where vm: "map_of (vms (pm_state w)) (int_str vmid) = Some vm"
    using assms cfg m by (cases "map_of (vms (pm_state w)) (int_str vmid)") (auto simp: extend_kiosk_session_def Let_def)
  have s: "sget vm ''pool_id'' = pid" "sget vm ''state'' = STATE_IN_USE"
    using assms cfg m vm by (auto simp: extend_kiosk_session_def Let_def split: if_splits)
  obtain limit where limit: "int_or0 (pget cfg ''session_time_limit_minutes'') = Inr limit"
    using assms cfg m vm s by (cases "int_or0 (pget cfg ''session_time_limit_minutes'')") (auto simp: extend_kiosk_session_def Let_def)
  have lp: "\<not> limit \<le> 0"
    using assms cfg m vm s limit by (auto simp: extend_kiosk_session_def Let_def)
  obtain u where al: "extension_allowed cfg minutes = Inr u"
    using assms cfg m vm s limit lp by (cases "extension_allowed cfg minutes") (auto simp: extend_kiosk_session_def Let_def)
  have o: "minutes \<in> set (normalize_session_extension_options (pget cfg ''session_extension_options_minutes'') True)"
    using al opts by (auto simp: extension_allowed_def Let_def split: if_splits)
  obtain b where b: "session_baseline limit vm = Inr b"
    using assms cfg m vm s limit lp al by (cases "session_baseline limit vm") (auto simp: extend_kiosk_session_def Let_def)
  obtain vm' where e: "extended_vm b minutes (reading env w 0) vm = Inr vm'"
    using assms cfg m vm s limit lp al b by (cases "extended_vm b minutes (reading env w 0) vm") (auto simp: extend_kiosk_session_def Let_def)
  obtain n x where n: "parse_utc_timestamp (reading env w 0) = Inr n" "add_minutes (max b n) minutes = Inr x"
      "vm' = dset ''session_expires_at'' (PStr (strftime_utc x)) vm"
    using e by (auto simp: extended_vm_def rbind_eq_Inr)
  have x: "x = max b n + minutes * 60000000" using n(2) by (auto simp: add_minutes_def check_instant_def split: if_splits)
  have r: "extend_kiosk_session env pid vmid minutes w = (make_lease pid vm' (mode_of cfg), commit (put_vm (int_str vmid) vm' (pm_state w)) (advance 1 w))"
    using cfg m vm s limit lp al b e by (simp add: extend_kiosk_session_def Let_def)
  show ?thesis
    using assms cfg m vm s limit lp o b n r by (intro that [of cfg vm limit b n]) (simp_all add: x)
qed

text \<open>Extending a kiosk session succeeds only for one of the configured extension levels, from 1 to 480 minutes, and
  only while the session is in use; the new end is the later of the old end and now, plus the
  minutes asked for; nothing else of the desktop and no other desktop changes.\<close>

lemma kiosk_extension:
  assumes "pm_inv w" and "extend_kiosk_session env pid vmid minutes w = (Inr l, w')"
  shows "\<exists>cfg vm limit b n. map_of (pools (pm_state w)) pid = Some cfg \<and> map_of (vms (pm_state w)) (int_str vmid) = Some vm
    \<and> pget vm ''state'' = PStr STATE_IN_USE \<and> 1 \<le> minutes \<and> minutes \<le> 480
    \<and> minutes \<in> set (normalize_session_extension_options (pget cfg ''session_extension_options_minutes'') True)
    \<and> session_baseline limit vm = Inr b \<and> parse_utc_timestamp (reading env w 0) = Inr n
    \<and> vms (pm_state w') = dset (int_str vmid) (dset ''session_expires_at'' (PStr (strftime_utc (max b n + minutes * 60000000))) vm) (vms (pm_state w))
    \<and> pools (pm_state w') = pools (pm_state w) \<and> lease_vmid l = vmid \<and> lease_user_id l = sget vm ''user_id''"
  using assms(2)
proof (cases rule: extend_cases)
  case (1 cfg vm limit b n)
  have sl: "slot_ok (pools (pm_state w)) (int_str vmid) vm" by (rule data_inv_slot [OF pm_inv_data [OF assms(1)] 1(2)])
  then obtain st where st: "pget vm ''state'' = PStr st" by (auto simp: slot_ok_def pget_def)
  have "int_str (lease_vmid l) = int_str vmid" by (rule lease_key [OF sl 1(14)]) simp
  then show ?thesis
    using 1 st make_lease_Inr [OF 1(14)]
    by (intro exI [of _ cfg] exI [of _ vm] exI [of _ limit] exI [of _ b] exI [of _ n]) (simp add: sget_def)
qed

text \<open>A kiosk session of 60 minutes, started at 10:00 and extended by 60 minutes at 10:50.\<close>

definition demo_kiosk :: pm where
  "demo_kiosk = (let w = demo_pool FLOATING_NON_PERSISTENT PT_KIOSK 60 in
     commit (put_vm ''100'' (dset ''session_expires_at'' (PStr ''2024-05-01T11:00:00Z'') (dset ''assigned_at'' (PStr ''2024-05-01T10:00:00Z'')
       (dset ''user_id'' (PStr ''ann'') (dset ''state'' (PStr STATE_IN_USE) (new_vm 100 ''p'' [] STATE_FREE))))) (pm_state w)) w)"

definition demo_extended :: pm where
  "demo_extended = snd (extend_kiosk_session (demo_env ''2024-05-01T10:50:00Z'') ''p'' 100 60 demo_kiosk)"

lemma demo_extended_eq: "demo_extended = commit (put_vm ''100'' (dset ''session_expires_at'' (PStr ''2024-05-01T12:00:00Z'')
    (dset ''assigned_at'' (PStr ''2024-05-01T10:00:00Z'') (dset ''user_id'' (PStr ''ann'') (dset ''state'' (PStr STATE_IN_USE)
      (new_vm 100 ''p'' [] STATE_FREE))))) (pm_state demo_kiosk)) (advance 1 demo_kiosk)"
  by code_simp

text \<open>An extension grants the time it names: measured at the moment of the extension, the time remaining is at
  least the minutes asked for, whatever was left of the session (for a clock of whole seconds after the year 1000).\<close>

lemma extension_grants_time:
  assumes "pm_inv w" and "extend_kiosk_session env pid vmid minutes w = (Inr l, w')"
    and "parse_utc_timestamp (reading env w 0) = Inr n" and "n mod 1000000 = 0" and "ymdhms 1000 1 1 0 0 0 0 \<le> n"
    and "reading env' w' 0 = reading env w 0"
  shows "\<exists>r. time_remaining_seconds env' pid vmid w' = Inr r \<and> of_int (minutes * 60) \<le> r"
  using assms(2)
proof (cases rule: extend_cases)
  case (1 cfg vm limit b m)
  have m: "m = n" using 1(11) assms(3) by simp
  let ?x = "max b n + minutes * 60000000"
  have ok: "0 \<le> ?x" "?x < MAX_INSTANT" using 1(12) m by (auto simp: add_minutes_def check_instant_def instant_ok_def split: if_splits)
  have lo: "ymdhms 1000 1 1 0 0 0 0 \<le> ?x" using assms(5) 1(5) by simp
  note ps = parse_strftime [OF ok lo]
  have cfg': "pool_cfg (pm_state w') pid = cfg" using 1(1,13) by (simp add: pool_cfg_def)
  have lim: "py_int (pget_or cfg ''session_time_limit_minutes'' (PInt 0)) = Inr limit"
    using 1(8,9) by (auto simp: int_or0_def por_def pget_def pget_or_def split: option.splits if_splits)
  have ne: "strip (strftime_utc ?x) \<noteq> []"
    using ps by (auto simp: parse_utc_timestamp_def Let_def)
  have sp: "parse_utc_timestamp (strip (strftime_utc ?x)) = Inr (?x - ?x mod 1000000)"
    using ps by (simp add: parse_utc_timestamp_def Let_def)
  have "time_remaining_seconds env' pid vmid w' = Inr (max 0 (seconds_between (?x - ?x mod 1000000) n))"
    using 1 lim cfg' assms(3,6) m ne sp
    by (simp add: time_remaining_seconds_def Let_def catch_value_error_def)
  moreover have "minutes * 60 * 1000000 \<le> ?x - ?x mod 1000000 - n"
  proof -
    obtain q where q: "n = 1000000 * q" using assms(4) by (metis mod_0_imp_dvd dvdE)
    have "1000000 * (q + 60 * minutes) \<le> ?x" by (simp add: q)
    then have "1000000 * (q + 60 * minutes) div 1000000 \<le> ?x div 1000000" by (rule zdiv_mono1) simp
    then have "q + 60 * minutes \<le> ?x div 1000000" by simp
    then show ?thesis using minus_mod_eq_mult_div [of ?x 1000000] q by linarith
  qed
  then have "(of_int (minutes * 60 * 1000000) :: rat) \<le> of_int (?x - ?x mod 1000000 - n)" by (simp only: of_int_le_iff)
  then have "of_int (minutes * 60) \<le> seconds_between (?x - ?x mod 1000000) n"
    by (simp add: seconds_between_def)
  ultimately show ?thesis by auto
qed

text \<open>The expiry scan ignores extensions: it measures from the start of the session only. A 60-minute kiosk
  session extended by an hour at minute 50 still has 55 minutes left at minute 65, yet the scan
  at that moment expires it and resets the desktop.\<close>

lemma extended_session_expires:
  "time_remaining_seconds (demo_env ''2024-05-01T11:05:00Z'') ''p'' 100 demo_extended = Inr (55 * 60)
   \<and> fst (expire_overdue_sessions (demo_env ''2024-05-01T11:05:00Z'') demo_extended) = Inr [(''p'', 100, ''ann'')]
   \<and> map_option vm_unassigned (map_of (vms (pm_state (snd (expire_overdue_sessions (demo_env ''2024-05-01T11:05:00Z'') demo_extended)))) ''100'') = Some True"
  unfolding demo_extended_eq
proof (intro conjI)
  let ?env = "demo_env ''2024-05-01T11:05:00Z''" and ?w = "commit (put_vm ''100'' (dset ''session_expires_at'' (PStr ''2024-05-01T12:00:00Z'')
    (dset ''assigned_at'' (PStr ''2024-05-01T10:00:00Z'') (dset ''user_id'' (PStr ''ann'') (dset ''state'' (PStr STATE_IN_USE)
      (new_vm 100 ''p'' [] STATE_FREE))))) (pm_state demo_kiosk)) (advance 1 demo_kiosk)"
  show "time_remaining_seconds ?env ''p'' 100 ?w = Inr (55 * 60)" by code_simp
  show "fst (expire_overdue_sessions ?env ?w) = Inr [(''p'', 100, ''ann'')]" by code_simp
  show "map_option vm_unassigned (map_of (vms (pm_state (snd (expire_overdue_sessions ?env ?w)))) ''100'') = Some True" by code_simp
qed

subsection \<open>Expiry\<close>

definition in_session :: "pm \<Rightarrow> string \<Rightarrow> bool" where
  "in_session w k = (\<exists>vm. map_of (vms (pm_state w)) k = Some vm \<and> pget vm ''state'' = PStr STATE_IN_USE)"

definition others_same :: "string \<Rightarrow> pm \<Rightarrow> pm \<Rightarrow> bool" where
  "others_same k w w' = ((map_of (vms (pm_state w')))(k := None) = (map_of (vms (pm_state w)))(k := None))"

lemma others_same_trans: "others_same k w w1 \<Longrightarrow> others_same k w1 w2 \<Longrightarrow> others_same k w w2"
  by (simp add: others_same_def)

lemma recycle_ends: "others_same (int_str vmid) w (snd (recycle_desktop env pid vmid w))
    \<and> (in_session (snd (recycle_desktop env pid vmid w)) (int_str vmid) \<longrightarrow> in_session w (int_str vmid) \<and> vm_in_pool pid (int_str vmid) (pm_state w) = None)"
  unfolding recycle_desktop_def Let_def
  by (auto simp: others_same_def in_session_def cleared_vm_def split: option.splits sum.splits)

lemma release_ends: "others_same (int_str vmid) w (snd (release_desktop env pid vmid u w))
    \<and> (in_session (snd (release_desktop env pid vmid u w)) (int_str vmid) \<longrightarrow>
         (\<exists>e. fst (release_desktop env pid vmid u w) = Inl e) \<and> vm_in_pool pid (int_str vmid) (pm_state w) = None)"
proof (cases "vm_in_pool pid (int_str vmid) (pm_state w)")
  case None
  then show ?thesis by (simp add: release_desktop_def others_same_def Let_def)
next
  case (Some vm)
  define cfg where "cfg = pool_cfg (pm_state w) pid"
  define vm' where "vm' = released_vm (mode_of cfg) vm"
  define w1 where "w1 = maybe_stop_vm env vmid (commit (put_vm (int_str vmid) vm' (pm_state w)) (maybe_release_gpu env (type_of cfg) cfg vm w))"
  have r: "snd (release_desktop env pid vmid u w) = (if mode_of cfg = FLOATING_NON_PERSISTENT \<and> type_of cfg = PT_KIOSK
      then snd (recycle_desktop env pid vmid w1) else w1)"
    unfolding release_desktop_def Let_def Some option.case cfg_def [symmetric] vm'_def [symmetric] w1_def [symmetric] by simp
  have 1: "others_same (int_str vmid) w w1" "\<not> in_session w1 (int_str vmid)"
    by (simp_all add: w1_def others_same_def in_session_def vm'_def released_vm_def cleared_vm_def)
  then show ?thesis
    unfolding r using recycle_ends [of vmid w1 env pid] others_same_trans by (cases "mode_of cfg = FLOATING_NON_PERSISTENT \<and> type_of cfg = PT_KIOSK") auto
qed

lemma expire_one_ends:
  "others_same (int_str vmid) w (expire_one env (pid, vmid, u) w) \<and> \<not> in_session (expire_one env (pid, vmid, u) w) (int_str vmid)"
proof -
  obtain r w1 where r: "release_desktop env pid vmid u w = (r, w1)" by (cases "release_desktop env pid vmid u w")
  note E = release_ends [of vmid w env pid u, unfolded r]
  show ?thesis
  proof (cases r)
    case (Inl e)
    have o: "others_same (int_str vmid) w w1" using E by simp
    show ?thesis
      using o by (cases "map_of (vms (pm_state w1)) (int_str vmid)")
        (auto simp: expire_one_def r Inl others_same_def in_session_def)
  next
    case (Inr l)
    then show ?thesis using E by (auto simp: expire_one_def r)
  qed
qed

lemma in_session_other: "others_same k' w w' \<Longrightarrow> k \<noteq> k' \<Longrightarrow> map_of (vms (pm_state w')) k = map_of (vms (pm_state w)) k"
  unfolding others_same_def by (metis fun_upd_other)

lemma fold_expire:
  "(k \<in> (\<lambda>(p, i, u). int_str i) ` set items \<or> \<not> in_session w k \<longrightarrow> \<not> in_session (fold (expire_one env) items w) k)
   \<and> (k \<notin> (\<lambda>(p, i, u). int_str i) ` set items \<longrightarrow>
        map_of (vms (pm_state (fold (expire_one env) items w))) k = map_of (vms (pm_state w)) k)"
proof (induction items arbitrary: w)
  case (Cons item items)
  obtain p i u where item: "item = (p, i, u)" by (cases item)
  let ?w = "expire_one env item w"
  have 1: "\<not> in_session ?w (int_str i)" using expire_one_ends [of i w env p u] by (simp add: item)
  have 2: "map_of (vms (pm_state ?w)) k = map_of (vms (pm_state w)) k" if "k \<noteq> int_str i"
    using in_session_other [OF _ that] expire_one_ends [of i w env p u] by (simp add: item)
  have 3: "\<not> in_session w k \<Longrightarrow> k \<noteq> int_str i \<Longrightarrow> \<not> in_session ?w k" using 2 by (simp add: in_session_def)
  show ?case using Cons.IH [of ?w] 1 2 3 by (cases "k = int_str i") (auto simp: item)
qed simp

text \<open>When the expiry scan finishes, every session it reports is over, whether its release succeeded or raised,
  and every desktop it does not report is exactly as it was.\<close>

lemma expiry_ends_sessions:
  assumes "expire_overdue_sessions env w = (Inr items, w')"
  shows "(\<forall>(p, vmid, u) \<in> set items. \<not> in_session w' (int_str vmid))
    \<and> (\<forall>k. k \<notin> (\<lambda>(p, vmid, u). int_str vmid) ` set items \<longrightarrow> map_of (vms (pm_state w')) k = map_of (vms (pm_state w)) k)"
proof -
  obtain w1 where s: "scan_overdue env (vals (vms (pm_state w))) w = (Inr items, w1)" and w': "w' = fold (expire_one env) items w1"
    using assms by (auto simp: expire_overdue_sessions_def split: prod.splits sum.splits)
  have w1: "pm_state w1 = pm_state w" using s scan_state [of env "vals (vms (pm_state w))" w] by simp
  have "\<not> in_session w' (int_str vmid)" if "(p, vmid, u) \<in> set items" for p vmid u
    using that fold_expire [of "int_str vmid" items w1 env] unfolding w' by force
  moreover have "map_of (vms (pm_state w')) k = map_of (vms (pm_state w)) k" if "k \<notin> (\<lambda>(p, vmid, u). int_str vmid) ` set items" for k
    using that fold_expire [of k items w1 env] w1 unfolding w' by simp
  ultimately show ?thesis by blast
qed

end
