(* ===== verification/DeviceRepository.thy ===== *)
theory DeviceRepository
  imports PyValue
begin

text \<open>
  \<open>core/repository/device_repository.py\<close>: the SQLite table of enrolled devices, as a table of rows by
  primary key. The payload column holds JSON text written with sorted keys; the row here holds the value
  that text reads back as, the dictionary with its keys sorted at every level.
\<close>

fun sort_keys :: "py \<Rightarrow> py" where
  "sort_keys (PList xs) = PList (map sort_keys xs)"
| "sort_keys (PDict d) = PDict (sort_key fst (map (\<lambda>(k, v). (k, sort_keys v)) d))"
| "sort_keys v = v"

record device_row =
  row_fingerprint :: string
  row_hostname :: string
  row_status :: string
  row_assigned_pool :: "string option"
  row_last_seen :: string
  row_payload :: dict

type_synonym device_repo = "device_row table"

text \<open>\<open>_normalize\<close>: the primary key and the columns.\<close>

definition device_row_of :: "dict \<Rightarrow> device_row" where
  "device_row_of d = \<lparr>row_fingerprint = stget d ''fingerprint'', row_hostname = stget d ''hostname'', row_status = stget d ''status'',
     row_assigned_pool = (if stget d ''assigned_pool_id'' = [] then None else Some (stget d ''assigned_pool_id'')),
     row_last_seen = strip (str_or (por (pget d ''last_seen'') (pget d ''last_seen_at''))),
     row_payload = dict_of (sort_keys (PDict d))\<rparr>"

definition normalize_device :: "dict \<Rightarrow> (string \<times> device_row) result" where
  "normalize_device d = (let did = stget d ''device_id'' in
     if did = [] then Inl (ValueError ''device.device_id is required'') else Inr (did, device_row_of d))"

definition row_to_device :: "string \<Rightarrow> device_row \<Rightarrow> dict" where
  "row_to_device did row =
     set_default ''last_seen'' (PStr (row_last_seen row))
     (set_default ''assigned_pool_id'' (case row_assigned_pool row of None \<Rightarrow> PNone | Some p \<Rightarrow> PStr p)
     (set_default ''status'' (PStr (row_status row))
     (set_default ''hostname'' (PStr (row_hostname row))
     (set_default ''fingerprint'' (PStr (row_fingerprint row))
     (set_default ''device_id'' (PStr did) (row_payload row))))))"

definition repo_get :: "string \<Rightarrow> device_repo \<Rightarrow> dict option" where
  "repo_get did repo = map_option (row_to_device did) (map_of repo did)"

definition repo_list :: "string option \<Rightarrow> string option \<Rightarrow> device_repo \<Rightarrow> dict list" where
  "repo_list status fingerprint repo = map (\<lambda>(did, row). row_to_device did row)
     (filter (\<lambda>(did, row). (status = None \<or> status = Some (row_status row)) \<and> (fingerprint = None \<or> fingerprint = Some (row_fingerprint row)))
       (sort_key fst repo))"

text \<open>\<open>save\<close>: insert the row or update the one with the same key, and read it back.\<close>

definition repo_save :: "dict \<Rightarrow> device_repo \<Rightarrow> dict result \<times> device_repo" where
  "repo_save d repo = (case normalize_device d of Inl e \<Rightarrow> (Inl e, repo)
     | Inr (did, row) \<Rightarrow> let repo' = dset did row repo in
        (case repo_get did repo' of None \<Rightarrow> (Inl (RuntimeError (''failed to persist device '' @ did)), repo')
         | Some stored \<Rightarrow> (Inr stored, repo')))"

definition repo_delete :: "string \<Rightarrow> device_repo \<Rightarrow> bool \<times> device_repo" where
  "repo_delete did repo = (has_key repo did, ddel did repo)"

subsection \<open>What a stored device reads back as\<close>

lemma dict_of_sort_keys: "dict_of (sort_keys (PDict d)) = sort_key fst (map (\<lambda>(k, v). (k, sort_keys v)) d)"
  by simp

lemma map_of_set_eq: "wf_dict a \<Longrightarrow> wf_dict b \<Longrightarrow> set a = set b \<Longrightarrow> map_of a = map_of b"
  by (simp add: wf_dict_def map_of_inject_set)

lemma wf_dict_sort_key [simp]: "wf_dict (sort_key fst d) = wf_dict d"
  by (simp add: wf_dict_def distinct_map)

lemma map_of_sort_key: "wf_dict d \<Longrightarrow> map_of (sort_key fst d) = map_of d"
  by (rule map_of_set_eq) simp_all

lemma wf_dict_map_snd [simp]: "wf_dict (map (\<lambda>(k, v). (k, f v)) d) = wf_dict d"
  by (simp add: wf_dict_def case_prod_unfold comp_def)

lemma payload_lookup: "wf_dict d \<Longrightarrow> map_of (dict_of (sort_keys (PDict d))) k = map_option sort_keys (map_of d k)"
  by (simp add: map_of_sort_key map_of_map_snd)

lemma set_default_lookup: "map_of d k = Some v \<Longrightarrow> map_of (set_default k' u d) k = Some v"
  by (auto simp: set_default_def has_key_def)

text \<open>A device the table can hold: it names itself by its key, which is not blank and has no outer blanks.\<close>

definition storable :: "string \<Rightarrow> dict \<Rightarrow> bool" where
  "storable did d = (wf_dict d \<and> map_of d ''device_id'' = Some (PStr did) \<and> trimmed did \<and> did \<noteq> [])"

lemma save_storable: "storable did d \<Longrightarrow> snd (repo_save d repo) = dset did (device_row_of d) repo"
  by (simp add: repo_save_def storable_def normalize_device_def stget_def sget_def pget_def trimmed_def repo_get_def Let_def)

text \<open>What was stored under a key is still there, with its dictionaries sorted.\<close>

lemma stored_reads:
  assumes "storable did d" and "map_of d k = Some v"
  shows "map_of (row_to_device did (device_row_of d)) k = Some (sort_keys v)"
proof -
  have "map_of (row_payload (device_row_of d)) k = Some (sort_keys v)"
    using payload_lookup [of d k] assms by (simp add: storable_def device_row_of_def del: sort_keys.simps)
  then show ?thesis by (simp add: row_to_device_def set_default_lookup)
qed

end
