(* ===== verification/DeviceRegistry.thy ===== *)
theory DeviceRegistry
  imports StateStore DeviceRepository
begin

text \<open>
  \<open>beagle-host/services/device_registry.py\<close>: the registry of enrolled thin clients. Devices are
  dictionaries in a table kept in memory and written to the state file by \<open>_save\<close>; a reader gets a
  \<open>Device\<close> record. An operation that raises after it changed the memory leaves the change there, so
  memory and file are modelled apart. With a SQLite repository configured \<open>_save\<close> mirrors the devices
  there, and a restart reads them back from it.
\<close>

subsection \<open>Devices\<close>

record device_hardware =
  hw_cpu_model :: py
  hw_cpu_cores :: int
  hw_ram_gb :: int
  hw_gpu_model :: py
  hw_network_interfaces :: py
  hw_disk_gb :: int

record device =
  dev_id :: py
  dev_hostname :: py
  dev_hardware :: device_hardware
  dev_os_version :: py
  dev_enrolled_at :: py
  dev_last_seen :: py
  dev_location :: py
  dev_group :: py
  dev_status :: py
  dev_vpn_active :: bool
  dev_vpn_interface :: py
  dev_wg_public_key :: py
  dev_wg_assigned_ip :: py
  dev_notes :: py
  dev_wipe_requested_at :: py
  dev_wipe_confirmed_at :: py
  dev_last_wipe_report :: dict
  dev_last_runtime_report :: dict
  dev_pending_stream_profile :: dict
  dev_stream_profile_updated_at :: py
  dev_auto_update :: bool
  dev_update_channel :: string
  dev_target_os_version :: string
  dev_update_status :: string
  dev_auto_sys_update :: bool
  dev_sys_update_status :: string
  dev_target_sys_update :: string
  dev_log_capture_enabled :: bool
  dev_log_retention_seconds :: int

definition LOG_RETENTIONS :: "int set" where
  "LOG_RETENTIONS = {3600, 7200, 18000, 43200, 86400, 604800, 2592000}"

definition normalize_log_retention_seconds :: "py \<Rightarrow> int result" where
  "normalize_log_retention_seconds v = (let n = (case py_int v of Inr i \<Rightarrow> i | Inl e \<Rightarrow> 86400) in
     if n \<notin> LOG_RETENTIONS
     then Inl (ValueError ''log_retention_seconds must be one of 3600, 7200, 18000, 43200, 86400, 604800, 2592000'')
     else Inr n)"

definition device_hardware_from_dict :: "py \<Rightarrow> device_hardware result" where
  "device_hardware_from_dict v = (if \<not> is_dict v then Inl (AttributeError ''object has no attribute get'') else
     let d = dict_of v in
     rbind (py_int (pget_or d ''cpu_cores'' (PInt 0))) (\<lambda>cores.
     rbind (py_int (pget_or d ''ram_gb'' (PInt 0))) (\<lambda>ram.
     rbind (py_int (pget_or d ''disk_gb'' (PInt 0))) (\<lambda>disk.
     Inr \<lparr>hw_cpu_model = pget_or d ''cpu_model'' (PStr []), hw_cpu_cores = cores, hw_ram_gb = ram,
          hw_gpu_model = pget_or d ''gpu_model'' (PStr []),
          hw_network_interfaces = pget_or d ''network_interfaces'' (PList []), hw_disk_gb = disk\<rparr>))))"

definition hardware_dict :: "device_hardware \<Rightarrow> py" where
  "hardware_dict h = PDict [(''cpu_model'', hw_cpu_model h), (''cpu_cores'', PInt (hw_cpu_cores h)),
     (''ram_gb'', PInt (hw_ram_gb h)), (''gpu_model'', hw_gpu_model h),
     (''network_interfaces'', hw_network_interfaces h), (''disk_gb'', PInt (hw_disk_gb h))]"

definition text_or :: "dict \<Rightarrow> string \<Rightarrow> string \<Rightarrow> string" where
  "text_or d k s = py_str (por (pget_or d k (PStr s)) (PStr s))"

definition device_from_dict :: "dict \<Rightarrow> device result" where
  "device_from_dict d = (case map_of d ''device_id'' of None \<Rightarrow> Inl (KeyError ''device_id'') | Some did \<Rightarrow>
     rbind (device_hardware_from_dict (pget_or d ''hardware'' (PDict []))) (\<lambda>hw.
     rbind (normalize_log_retention_seconds (pget_or d ''log_retention_seconds'' (PInt 86400))) (\<lambda>retention.
     Inr \<lparr>dev_id = did, dev_hostname = pget_or d ''hostname'' (PStr []), dev_hardware = hw,
          dev_os_version = pget_or d ''os_version'' (PStr []), dev_enrolled_at = pget_or d ''enrolled_at'' (PStr []),
          dev_last_seen = pget_or d ''last_seen'' (PStr []), dev_location = pget_or d ''location'' (PStr []),
          dev_group = pget_or d ''group'' (PStr []), dev_status = pget_or d ''status'' (PStr ''offline''),
          dev_vpn_active = truthy (pget_or d ''vpn_active'' (PBool False)),
          dev_vpn_interface = pget_or d ''vpn_interface'' (PStr []),
          dev_wg_public_key = pget_or d ''wg_public_key'' (PStr []),
          dev_wg_assigned_ip = pget_or d ''wg_assigned_ip'' (PStr []), dev_notes = pget_or d ''notes'' (PStr []),
          dev_wipe_requested_at = pget_or d ''wipe_requested_at'' (PStr []),
          dev_wipe_confirmed_at = pget_or d ''wipe_confirmed_at'' (PStr []),
          dev_last_wipe_report = dict_of (pget d ''last_wipe_report''),
          dev_last_runtime_report = dict_of (pget d ''last_runtime_report''),
          dev_pending_stream_profile = dict_of (pget d ''pending_stream_profile''),
          dev_stream_profile_updated_at = pget_or d ''stream_profile_updated_at'' (PStr []),
          dev_auto_update = truthy (pget_or d ''auto_update'' (PBool True)),
          dev_update_channel = text_or d ''update_channel'' ''stable'',
          dev_target_os_version = text_or d ''target_os_version'' [],
          dev_update_status = text_or d ''update_status'' ''idle'',
          dev_auto_sys_update = truthy (pget_or d ''auto_sys_update'' (PBool False)),
          dev_sys_update_status = text_or d ''sys_update_status'' ''idle'',
          dev_target_sys_update = text_or d ''target_sys_update'' [],
          dev_log_capture_enabled = truthy (pget_or d ''log_capture_enabled'' (PBool True)),
          dev_log_retention_seconds = retention\<rparr>)))"

text \<open>\<open>asdict(device)\<close>.\<close>

definition device_dict :: "device \<Rightarrow> dict" where
  "device_dict v = [
     (''device_id'', dev_id v), (''hostname'', dev_hostname v), (''hardware'', hardware_dict (dev_hardware v)),
     (''os_version'', dev_os_version v), (''enrolled_at'', dev_enrolled_at v), (''last_seen'', dev_last_seen v),
     (''location'', dev_location v), (''group'', dev_group v), (''status'', dev_status v),
     (''vpn_active'', PBool (dev_vpn_active v)), (''vpn_interface'', dev_vpn_interface v),
     (''wg_public_key'', dev_wg_public_key v), (''wg_assigned_ip'', dev_wg_assigned_ip v), (''notes'', dev_notes v),
     (''wipe_requested_at'', dev_wipe_requested_at v), (''wipe_confirmed_at'', dev_wipe_confirmed_at v),
     (''last_wipe_report'', PDict (dev_last_wipe_report v)), (''last_runtime_report'', PDict (dev_last_runtime_report v)),
     (''pending_stream_profile'', PDict (dev_pending_stream_profile v)),
     (''stream_profile_updated_at'', dev_stream_profile_updated_at v), (''auto_update'', PBool (dev_auto_update v)),
     (''update_channel'', PStr (dev_update_channel v)), (''target_os_version'', PStr (dev_target_os_version v)),
     (''update_status'', PStr (dev_update_status v)), (''auto_sys_update'', PBool (dev_auto_sys_update v)),
     (''sys_update_status'', PStr (dev_sys_update_status v)), (''target_sys_update'', PStr (dev_target_sys_update v)),
     (''log_capture_enabled'', PBool (dev_log_capture_enabled v)),
     (''log_retention_seconds'', PInt (dev_log_retention_seconds v))]"

subsection \<open>The registry\<close>

record registry =
  reg_devices :: "dict table"
  reg_groups :: "dict table"
  reg_saved :: "dict table \<times> dict table"
  reg_repo :: "device_repo option"

text \<open>The mirror in the repository: every device saved, errors ignored, then the rows deleted whose device is
  not in memory.\<close>

definition stale_ids :: "dict table \<Rightarrow> device_repo \<Rightarrow> py list" where
  "stale_ids ds repo = filter (\<lambda>v. \<forall>s \<in> set (keys ds). v \<noteq> PStr s) (map (\<lambda>d. pget d ''device_id'') (repo_list None None repo))"

definition mirror_devices :: "dict table \<Rightarrow> device_repo \<Rightarrow> device_repo" where
  "mirror_devices ds repo = (let repo' = fold (\<lambda>d rp. snd (repo_save d rp)) (vals ds) repo in
     fold (\<lambda>v rp. snd (repo_delete (py_str v) rp)) (stale_ids ds repo') repo')"

definition reg_save :: "registry \<Rightarrow> registry" where
  "reg_save r = r\<lparr>reg_repo := map_option (mirror_devices (reg_devices r)) (reg_repo r), reg_saved := (reg_devices r, reg_groups r)\<rparr>"

definition put_device :: "string \<Rightarrow> dict \<Rightarrow> registry \<Rightarrow> registry" where
  "put_device did d r = r\<lparr>reg_devices := dset did d (reg_devices r)\<rparr>"

lemma reg_simps [simp]:
  "reg_devices (reg_save r) = reg_devices r" "reg_groups (reg_save r) = reg_groups r"
  "reg_saved (reg_save r) = (reg_devices r, reg_groups r)"
  "reg_devices (put_device did d r) = dset did d (reg_devices r)" "reg_groups (put_device did d r) = reg_groups r"
  by (simp_all add: reg_save_def put_device_def)

text \<open>Opening a registry on a state file and an optional repository: with one, the devices come from its
  rows and the groups of the file are not read.\<close>

definition registry_open :: "device_repo option \<Rightarrow> dict table \<times> dict table \<Rightarrow> registry" where
  "registry_open repo file = (case repo of
      None \<Rightarrow> \<lparr>reg_devices = fst file, reg_groups = snd file, reg_saved = file, reg_repo = None\<rparr>
    | Some rp \<Rightarrow> \<lparr>reg_devices = fold (\<lambda>d. dset (py_str (pget d ''device_id'')) d) (repo_list None None rp) [], reg_groups = [],
        reg_saved = file, reg_repo = repo\<rparr>)"

record enrolment =
  en_os_version :: string
  en_vpn_active :: bool
  en_vpn_interface :: string
  en_wg_public_key :: string
  en_wg_assigned_ip :: string

definition new_device :: "string \<Rightarrow> string \<Rightarrow> device_hardware \<Rightarrow> enrolment \<Rightarrow> string \<Rightarrow> device" where
  "new_device did hostname hw e now = \<lparr>dev_id = PStr did, dev_hostname = PStr hostname, dev_hardware = hw,
     dev_os_version = PStr (en_os_version e), dev_enrolled_at = PStr now, dev_last_seen = PStr now, dev_location = PStr [],
     dev_group = PStr [], dev_status = PStr ''offline'', dev_vpn_active = en_vpn_active e,
     dev_vpn_interface = PStr (en_vpn_interface e), dev_wg_public_key = PStr (en_wg_public_key e),
     dev_wg_assigned_ip = PStr (en_wg_assigned_ip e), dev_notes = PStr [], dev_wipe_requested_at = PStr [],
     dev_wipe_confirmed_at = PStr [], dev_last_wipe_report = [], dev_last_runtime_report = [],
     dev_pending_stream_profile = [], dev_stream_profile_updated_at = PStr [], dev_auto_update = True,
     dev_update_channel = ''stable'', dev_target_os_version = [], dev_update_status = ''idle'', dev_auto_sys_update = False,
     dev_sys_update_status = ''idle'', dev_target_sys_update = [], dev_log_capture_enabled = True,
     dev_log_retention_seconds = 86400\<rparr>"

definition register_device :: "string \<Rightarrow> string \<Rightarrow> py \<Rightarrow> enrolment \<Rightarrow> string \<Rightarrow> registry \<Rightarrow> device result \<times> registry" where
  "register_device did hostname hardware e now r = (case device_hardware_from_dict hardware of
      Inl x \<Rightarrow> (Inl x, r)
    | Inr hw \<Rightarrow> let v = new_device did hostname hw e now in (Inr v, reg_save (put_device did (device_dict v) r)))"

text \<open>\<open>a or d.get(k, "")\<close>: a field keeps its value when the new one is empty.\<close>

definition keep_if_empty :: "string \<Rightarrow> string \<Rightarrow> dict \<Rightarrow> dict" where
  "keep_if_empty k s d = dset k (if s \<noteq> [] then PStr s else pget_or d k (PStr [])) d"

definition set_if_given :: "string \<Rightarrow> string \<Rightarrow> dict \<Rightarrow> dict" where
  "set_if_given k s d = (if s \<noteq> [] then dset k (PStr s) d else d)"

definition register_or_update_device ::
  "string \<Rightarrow> string \<Rightarrow> py \<Rightarrow> enrolment \<Rightarrow> string \<Rightarrow> registry \<Rightarrow> device result \<times> registry" where
  "register_or_update_device did hostname hardware e now r = (case map_of (reg_devices r) did of
      None \<Rightarrow> register_device did hostname hardware e now r
    | Some d \<Rightarrow> let d1 = keep_if_empty ''hostname'' hostname d in
        (case device_hardware_from_dict (por hardware (PDict [])) of
           Inl x \<Rightarrow> (Inl x, put_device did d1 r)
         | Inr hw \<Rightarrow>
             let d2 = keep_if_empty ''os_version'' (en_os_version e) (dset ''hardware'' (hardware_dict hw) d1);
                 d3 = dset ''vpn_interface'' (PStr (en_vpn_interface e)) (dset ''vpn_active'' (PBool (en_vpn_active e)) d2);
                 d4 = set_if_given ''wg_assigned_ip'' (en_wg_assigned_ip e) (set_if_given ''wg_public_key'' (en_wg_public_key e) d3)
             in (device_from_dict d4, reg_save (put_device did d4 r))))"

definition device_not_found :: "string \<Rightarrow> exn" where
  "device_not_found did = KeyError (''Device '' @ repr_str did @ '' not found'')"

text \<open>The shape of the operations on one device: look it up, change its dictionary, save, return it.\<close>

definition change_device :: "string \<Rightarrow> (dict \<Rightarrow> dict) \<Rightarrow> registry \<Rightarrow> device result \<times> registry" where
  "change_device did f r = (case map_of (reg_devices r) did of None \<Rightarrow> (Inl (device_not_found did), r)
     | Some d \<Rightarrow> (device_from_dict (f d), reg_save (put_device did (f d) r)))"

definition STICKY :: "string set" where "STICKY = {''locked'', ''wipe_pending'', ''wiped''}"

definition heartbeat_dict :: "string \<Rightarrow> dict \<Rightarrow> dict" where
  "heartbeat_dict now d = (let d1 = dset ''last_seen'' (PStr now) d;
       current = py_str (por (pget d1 ''status'') (PStr ''offline''))
     in if current \<notin> STICKY then dset ''status'' (PStr ''online'') d1 else d1)"

definition update_heartbeat :: "string \<Rightarrow> string \<Rightarrow> registry \<Rightarrow> device result \<times> registry" where
  "update_heartbeat did now = change_device did (heartbeat_dict now)"

definition get_device :: "string \<Rightarrow> registry \<Rightarrow> device option result" where
  "get_device did r = (case map_of (reg_devices r) did of None \<Rightarrow> Inr None
     | Some d \<Rightarrow> if d = [] then Inr None else rbind (device_from_dict d) (\<lambda>v. Inr (Some v)))"

definition list_devices :: "string \<Rightarrow> string \<Rightarrow> string \<Rightarrow> registry \<Rightarrow> device list result" where
  "list_devices location grp status r = rbind (rmap device_from_dict (vals (reg_devices r)))
     (\<lambda>vs. Inr (filter (\<lambda>v. (location = [] \<or> dev_location v = PStr location) \<and> (grp = [] \<or> dev_group v = PStr grp)
         \<and> (status = [] \<or> dev_status v = PStr status)) vs))"

definition set_location :: "string \<Rightarrow> string \<Rightarrow> registry \<Rightarrow> device result \<times> registry" where
  "set_location did location = change_device did (dset ''location'' (PStr location))"

definition ensure_group :: "string \<Rightarrow> string \<Rightarrow> registry \<Rightarrow> dict result \<times> registry" where
  "ensure_group name now r = (let clean = strip name in
     if clean = [] then (Inl (ValueError ''group name required''), r)
     else case map_of (reg_groups r) clean of Some g \<Rightarrow> (Inr g, r)
     | None \<Rightarrow> let rec = [(''name'', PStr clean), (''created_at'', PStr now)]
         in (Inr rec, reg_save (r\<lparr>reg_groups := dset clean rec (reg_groups r)\<rparr>)))"

definition with_group :: "string \<Rightarrow> string \<Rightarrow> registry \<Rightarrow> registry" where
  "with_group g now r = (if g \<noteq> [] then snd (ensure_group g now r) else r)"

definition set_group :: "string \<Rightarrow> string \<Rightarrow> string \<Rightarrow> registry \<Rightarrow> device result \<times> registry" where
  "set_group did grp now r = (if \<not> has_key (reg_devices r) did then (Inl (device_not_found did), r)
     else change_device did (dset ''group'' (PStr (strip grp))) (with_group (strip grp) now r))"

definition wipe_device :: "string \<Rightarrow> string \<Rightarrow> registry \<Rightarrow> device result \<times> registry" where
  "wipe_device did now = change_device did (\<lambda>d. dset ''wipe_confirmed_at'' (PStr [])
     (dset ''wipe_requested_at'' (PStr now) (dset ''status'' (PStr ''wipe_pending'') d)))"

definition wiped_dict :: "string \<Rightarrow> dict \<Rightarrow> dict" where
  "wiped_dict now d = dset ''wg_assigned_ip'' (PStr []) (dset ''wg_public_key'' (PStr []) (dset ''vpn_interface'' (PStr [])
     (dset ''vpn_active'' (PBool False) (dset ''wipe_confirmed_at'' (PStr now) (dset ''status'' (PStr ''wiped'') d)))))"

definition confirm_wiped :: "string \<Rightarrow> string \<Rightarrow> registry \<Rightarrow> device result \<times> registry" where
  "confirm_wiped did now = change_device did (wiped_dict now)"

definition update_wipe_report :: "string \<Rightarrow> dict \<Rightarrow> registry \<Rightarrow> device result \<times> registry" where
  "update_wipe_report did report = change_device did (dset ''last_wipe_report'' (PDict report))"

definition update_runtime_report :: "string \<Rightarrow> dict \<Rightarrow> registry \<Rightarrow> device result \<times> registry" where
  "update_runtime_report did report = change_device did (dset ''last_runtime_report'' (PDict report))"

definition update_stream_profile :: "string \<Rightarrow> dict \<Rightarrow> string \<Rightarrow> registry \<Rightarrow> device result \<times> registry" where
  "update_stream_profile did profile now = change_device did (\<lambda>d. dset ''stream_profile_updated_at'' (PStr now)
     (dset ''pending_stream_profile'' (PDict profile) d))"

definition lock_device :: "string \<Rightarrow> registry \<Rightarrow> device result \<times> registry" where
  "lock_device did = change_device did (dset ''status'' (PStr ''locked''))"

definition unlock_device :: "string \<Rightarrow> registry \<Rightarrow> device result \<times> registry" where
  "unlock_device did = change_device did (dset ''status'' (PStr ''offline''))"

record update_settings =
  us_auto_update :: "bool option"
  us_update_channel :: "string option"
  us_target_os_version :: "string option"
  us_update_status :: "string option"
  us_auto_sys_update :: "bool option"
  us_sys_update_status :: "string option"
  us_target_sys_update :: "string option"
  us_log_capture_enabled :: "bool option"
  us_log_retention_seconds :: "py option"

definition set_opt :: "string \<Rightarrow> ('a \<Rightarrow> py) \<Rightarrow> 'a option \<Rightarrow> dict \<Rightarrow> dict" where
  "set_opt k f x d = (case x of None \<Rightarrow> d | Some v \<Rightarrow> dset k (f v) d)"

definition settings_dict :: "update_settings \<Rightarrow> dict \<Rightarrow> dict" where
  "settings_dict u d = set_opt ''log_capture_enabled'' PBool (us_log_capture_enabled u)
     (set_opt ''target_sys_update'' PStr (us_target_sys_update u)
     (set_opt ''sys_update_status'' PStr (us_sys_update_status u)
     (set_opt ''auto_sys_update'' PBool (us_auto_sys_update u)
     (set_opt ''update_status'' PStr (us_update_status u)
     (set_opt ''target_os_version'' PStr (us_target_os_version u)
     (set_opt ''update_channel'' PStr (us_update_channel u)
     (set_opt ''auto_update'' PBool (us_auto_update u) d)))))))"

definition set_update_settings :: "string \<Rightarrow> update_settings \<Rightarrow> registry \<Rightarrow> device result \<times> registry" where
  "set_update_settings did u r = (case map_of (reg_devices r) did of None \<Rightarrow> (Inl (device_not_found did), r)
     | Some d \<Rightarrow> let d1 = settings_dict u d in
        (case us_log_retention_seconds u of
           None \<Rightarrow> (device_from_dict d1, reg_save (put_device did d1 r))
         | Some v \<Rightarrow> (case normalize_log_retention_seconds v of
              Inl e \<Rightarrow> (Inl e, put_device did d1 r)
            | Inr n \<Rightarrow> let d2 = dset ''log_retention_seconds'' (PInt n) d1
                in (device_from_dict d2, reg_save (put_device did d2 r)))))"

definition group_devices :: "string \<Rightarrow> string list \<Rightarrow> dict table \<Rightarrow> dict table" where
  "group_devices g ids ds = fold (\<lambda>did t. case map_of t did of None \<Rightarrow> t | Some d \<Rightarrow> dset did (dset ''group'' (PStr g) d) t) ids ds"

definition assign_group :: "string \<Rightarrow> string list \<Rightarrow> string \<Rightarrow> registry \<Rightarrow> string list \<times> registry" where
  "assign_group grp ids now r = (let g = strip grp; r1 = with_group g now r in
     (filter (has_key (reg_devices r1)) ids, reg_save (r1\<lparr>reg_devices := group_devices g ids (reg_devices r1)\<rparr>)))"

text \<open>\<open>list_group_records\<close> adds the groups only devices mention to the table in memory.\<close>

definition mention_group :: "dict \<Rightarrow> dict table \<Rightarrow> dict table" where
  "mention_group d gs = (let g = strip (str_or (pget_or d ''group'' (PStr []))) in
     if g \<noteq> [] \<and> \<not> has_key gs g then dset g [(''name'', PStr g), (''created_at'', PStr [])] gs else gs)"

definition list_group_records :: "registry \<Rightarrow> dict list \<times> registry" where
  "list_group_records r = (let gs = fold mention_group (vals (reg_devices r)) (reg_groups r);
       records = map (\<lambda>(name, rec). dset ''name'' (PStr (py_str (por (pget rec ''name'') (PStr name)))) rec) gs
     in (sort_key (\<lambda>rec. lower (py_str (pget_or rec ''name'' (PStr [])))) records, r\<lparr>reg_groups := gs\<rparr>))"

definition list_groups :: "registry \<Rightarrow> string list \<times> registry" where
  "list_groups r = (let (records, r') = list_group_records r in
     (filter (\<lambda>s. s \<noteq> []) (map (\<lambda>rec. str_or (pget_or rec ''name'' (PStr []))) records), r'))"

end
