(* ===== verification/DeviceInvariant.thy ===== *)
theory DeviceInvariant
  imports DeviceRegistry "HOL-Library.Sublist"
begin

text \<open>
  The device registry as a machine, and what holds of its runs: entries stay well formed, nobody
  forgets a device, a lock or wipe mark outlives everything but an explicit decision on that
  device, and what an operation returned is in the state file.
\<close>

subsection \<open>The machine\<close>

datatype reg_op =
    Register string string py enrolment string
  | RegisterOrUpdate string string py enrolment string
  | Heartbeat string string
  | SetLocation string string
  | SetGroup string string string
  | Wipe string string
  | ConfirmWiped string string
  | WipeReport string dict
  | RuntimeReport string dict
  | StreamProfile string dict string
  | Lock string
  | Unlock string
  | Settings string update_settings
  | AssignGroup string "string list" string
  | EnsureGroup string string
  | ListGroups

definition raised :: "'a result \<times> registry \<Rightarrow> exn option \<times> registry" where
  "raised p = (case fst p of Inl e \<Rightarrow> Some e | Inr _ \<Rightarrow> None, snd p)"

fun reg_step :: "reg_op \<Rightarrow> registry \<Rightarrow> exn option \<times> registry" where
  "reg_step (Register did h hw e now) r = raised (register_device did h hw e now r)"
| "reg_step (RegisterOrUpdate did h hw e now) r = raised (register_or_update_device did h hw e now r)"
| "reg_step (Heartbeat did now) r = raised (update_heartbeat did now r)"
| "reg_step (SetLocation did l) r = raised (set_location did l r)"
| "reg_step (SetGroup did g now) r = raised (set_group did g now r)"
| "reg_step (Wipe did now) r = raised (wipe_device did now r)"
| "reg_step (ConfirmWiped did now) r = raised (confirm_wiped did now r)"
| "reg_step (WipeReport did d) r = raised (update_wipe_report did d r)"
| "reg_step (RuntimeReport did d) r = raised (update_runtime_report did d r)"
| "reg_step (StreamProfile did d now) r = raised (update_stream_profile did d now r)"
| "reg_step (Lock did) r = raised (lock_device did r)"
| "reg_step (Unlock did) r = raised (unlock_device did r)"
| "reg_step (Settings did u) r = raised (set_update_settings did u r)"
| "reg_step (AssignGroup g ids now) r = (None, snd (assign_group g ids now r))"
| "reg_step (EnsureGroup g now) r = raised (ensure_group g now r)"
| "reg_step ListGroups r = (None, snd (list_group_records r))"

definition reg_exec :: "registry \<Rightarrow> reg_op \<Rightarrow> registry" where
  "reg_exec r c = snd (reg_step c r)"

subsection \<open>Where the operations write\<close>

lemma raised_simps [simp]: "snd (raised p) = snd p" "fst (raised p) = (case fst p of Inl e \<Rightarrow> Some e | Inr _ \<Rightarrow> None)"
  by (simp_all add: raised_def)

lemma change_device_devices:
  "reg_devices (snd (change_device did f r)) = (case map_of (reg_devices r) did of None \<Rightarrow> reg_devices r
     | Some d \<Rightarrow> dset did (f d) (reg_devices r))"
  by (simp add: change_device_def split: option.split)

lemma ensure_group_devices [simp]: "reg_devices (snd (ensure_group g now r)) = reg_devices r"
  by (simp add: ensure_group_def Let_def split: option.split)

lemma with_group_devices [simp]: "reg_devices (with_group g now r) = reg_devices r"
  by (simp add: with_group_def)

lemma group_devices_Cons:
  "group_devices g (x # xs) ds = group_devices g xs (case map_of ds x of None \<Rightarrow> ds | Some d \<Rightarrow> dset x (dset ''group'' (PStr g) d) ds)"
  by (simp add: group_devices_def)

lemma dset_idem [simp]: "dset k v (dset k v d) = dset k v d"
  by (induction d) auto

lemma map_of_group_devices:
  "map_of (group_devices g ids ds) k = (case map_of ds k of None \<Rightarrow> None
     | Some d \<Rightarrow> Some (if k \<in> set ids then dset ''group'' (PStr g) d else d))"
proof (induction ids arbitrary: ds)
  case Nil
  show ?case by (simp add: group_devices_def split: option.split)
next
  case (Cons x xs)
  show ?case
    by (simp add: group_devices_Cons Cons.IH split: option.split)
qed

text \<open>The operations that decide about a device's status, apart from a heartbeat.\<close>

definition decides :: "string \<Rightarrow> reg_op \<Rightarrow> bool" where
  "decides did c = (case c of Register k h hw e n \<Rightarrow> k = did | Wipe k n \<Rightarrow> k = did | ConfirmWiped k n \<Rightarrow> k = did
    | Lock k \<Rightarrow> k = did | Unlock k \<Rightarrow> k = did | _ \<Rightarrow> False)"

lemma pget_set_opt [simp]:
  "pget (set_opt k f x d) k' = (if k' = k \<and> x \<noteq> None then f (the x) else pget d k')"
  by (simp add: set_opt_def split: option.split)

lemma pget_set_if_given [simp]:
  "pget (set_if_given k s d) k' = (if k' = k \<and> s \<noteq> [] then PStr s else pget d k')"
  by (simp add: set_if_given_def)

lemma pget_keep_if_empty:
  "k' \<noteq> k \<Longrightarrow> pget (keep_if_empty k s d) k' = pget d k'"
  by (simp add: keep_if_empty_def)

text \<open>A known device stays known; a sticky status changes only by a decision on that device.\<close>

definition sticky_in :: "registry \<Rightarrow> string \<Rightarrow> string \<Rightarrow> bool" where
  "sticky_in r did s = (\<exists>d. map_of (reg_devices r) did = Some d \<and> pget d ''status'' = PStr s)"

lemma change_device_lookup:
  "map_of (reg_devices (snd (change_device did f r))) k
     = (if k = did then map_option f (map_of (reg_devices r) did) else map_of (reg_devices r) k)"
  by (simp add: change_device_devices split: option.split)

lemma sticky_change:
  assumes "sticky_in r did s" and "\<And>d. k = did \<Longrightarrow> pget d ''status'' = PStr s \<Longrightarrow> pget (f d) ''status'' = PStr s"
  shows "sticky_in (snd (change_device k f r)) did s"
  using assms by (auto simp: sticky_in_def change_device_lookup)

lemma sticky_put:
  assumes "sticky_in r did s" and "k = did \<Longrightarrow> pget d ''status'' = PStr s"
  shows "sticky_in (put_device k d r) did s"
  using assms by (auto simp: sticky_in_def)

lemma sticky_congs [simp]:
  "sticky_in (reg_save r) did s = sticky_in r did s" "sticky_in (with_group g now r) did s = sticky_in r did s"
  "sticky_in (snd (ensure_group g now r)) did s = sticky_in r did s" 
  "sticky_in (r\<lparr>reg_groups := gs\<rparr>) did s = sticky_in r did s"
  by (simp_all add: sticky_in_def)

lemma sticky_step:
  assumes st: "sticky_in r did s" and s: "s \<in> STICKY" and nd: "\<not> decides did c"
  shows "sticky_in (reg_exec r c) did s"
proof (cases c)
  case (Register k h hw e now)
  with st nd show ?thesis
    by (auto simp: reg_exec_def decides_def register_device_def Let_def intro!: sticky_put split: sum.split)
next
  case (RegisterOrUpdate k h hw e now)
  have k: "k = did \<and> map_of (reg_devices r) k = Some d \<Longrightarrow> pget d ''status'' = PStr s" for d
    using st by (auto simp: sticky_in_def)
  show ?thesis using RegisterOrUpdate st
    by (auto simp: reg_exec_def register_or_update_device_def register_device_def Let_def pget_keep_if_empty k
        intro!: sticky_put split: sum.split option.split) (auto simp: sticky_in_def)
next
  case (Heartbeat k now)
  have "s \<noteq> []" using s by (auto simp: STICKY_def)
  with Heartbeat st s show ?thesis
    by (auto simp: reg_exec_def update_heartbeat_def heartbeat_dict_def Let_def intro!: sticky_change)
next
  case (AssignGroup g ids now)
  with st show ?thesis
    by (auto simp: reg_exec_def assign_group_def Let_def sticky_in_def map_of_group_devices)
next
  case (SetGroup k g now)
  with st show ?thesis by (auto simp: reg_exec_def set_group_def intro!: sticky_change)
next
  case (Settings k u)
  have k: "k = did \<and> map_of (reg_devices r) k = Some d \<Longrightarrow> pget d ''status'' = PStr s" for d
    using st by (auto simp: sticky_in_def)
  show ?thesis using Settings st
    by (auto simp: reg_exec_def set_update_settings_def settings_dict_def Let_def k intro!: sticky_put
        split: sum.split option.split)
qed (use st nd in \<open>auto simp: reg_exec_def decides_def set_location_def update_wipe_report_def update_runtime_report_def
      update_stream_profile_def list_group_records_def Let_def wipe_device_def confirm_wiped_def lock_device_def
      unlock_device_def intro!: sticky_change\<close>)

subsection \<open>Nothing is forgotten\<close>

definition reg_le :: "registry \<Rightarrow> registry \<Rightarrow> bool" where
  "reg_le r r' = (prefix (keys (reg_devices r)) (keys (reg_devices r')) \<and> prefix (keys (reg_groups r)) (keys (reg_groups r')))"

lemma reg_le_refl [simp]: "reg_le r r"
  by (simp add: reg_le_def)

lemma reg_le_trans: "reg_le r s \<Longrightarrow> reg_le s t \<Longrightarrow> reg_le r t"
  by (auto simp: reg_le_def intro: prefix_order.trans)

lemma prefix_keys_dset: "prefix (keys d) (keys (dset k v d))"
  by (cases "has_key d k") (simp_all add: keys_def map_fst_dset_present dset_absent)

lemma reg_le_save [simp]: "reg_le r (reg_save r') = reg_le r r'"
  by (simp add: reg_le_def)

lemma reg_le_put [simp]: "reg_le r (put_device did d r)"
  by (simp add: reg_le_def prefix_keys_dset)

lemma reg_le_change [simp]: "reg_le r (snd (change_device did f r))"
  by (simp add: change_device_def split: option.split)

lemma reg_le_ensure [simp]: "reg_le r (snd (ensure_group g now r))"
  by (auto simp: ensure_group_def Let_def reg_le_def prefix_keys_dset split: option.split)

lemma reg_le_with_group [simp]: "reg_le r (with_group g now r)"
  by (simp add: with_group_def)

lemma keys_group_devices: "keys (group_devices g ids ds) = keys ds"
  by (induction ids arbitrary: ds)
    (auto simp: group_devices_def group_devices_Cons keys_def map_fst_dset_present has_key_def split: option.split)

lemma prefix_mention: "prefix (keys gs) (keys (fold mention_group ds gs))"
proof (induction ds arbitrary: gs)
  case (Cons d ds)
  have "prefix (keys gs) (keys (mention_group d gs))" by (simp add: mention_group_def Let_def prefix_keys_dset)
  with Cons.IH [of "mention_group d gs"] show ?case by (auto intro: prefix_order.trans)
qed simp

lemma reg_le_step: "reg_le r (reg_exec r c)"
proof (cases c)
  case (AssignGroup g ids now)
  have "reg_le (with_group (strip g) now r) (reg_exec r c)"
    by (simp add: AssignGroup reg_exec_def assign_group_def Let_def reg_le_def keys_group_devices)
  then show ?thesis by (rule reg_le_trans [OF reg_le_with_group])
next
  case (SetGroup did g now)
  have "reg_le r (snd (change_device did f (with_group (strip g) now r)))" for f
    by (rule reg_le_trans [OF reg_le_with_group reg_le_change])
  then show ?thesis by (simp add: SetGroup reg_exec_def set_group_def)
next
  case ListGroups
  then show ?thesis by (simp add: reg_exec_def list_group_records_def Let_def reg_le_def prefix_mention)
qed (simp_all add: reg_exec_def register_device_def register_or_update_device_def update_heartbeat_def set_location_def
      wipe_device_def confirm_wiped_def update_wipe_report_def update_runtime_report_def update_stream_profile_def
      lock_device_def unlock_device_def set_update_settings_def Let_def split: sum.split option.split)

interpretation known: monotone_machine reg_exec reg_le
  by unfold_locales (simp, erule (1) reg_le_trans, rule reg_le_step)

subsection \<open>Well-formed registries\<close>

definition parses :: "dict \<Rightarrow> bool" where
  "parses d = (\<not> isl (device_from_dict d))"

definition entry_ok :: "dict table \<Rightarrow> string \<Rightarrow> dict \<Rightarrow> bool" where
  "entry_ok gs k d = (map_of d ''device_id'' = Some (PStr k) \<and> parses d
     \<and> (\<exists>g. pget_or d ''group'' (PStr []) = PStr g \<and> trimmed g \<and> (g \<noteq> [] \<longrightarrow> has_key gs g)))"

definition group_ok :: "string \<Rightarrow> dict \<Rightarrow> bool" where
  "group_ok k g = (k \<noteq> [] \<and> trimmed k \<and> pget g ''name'' = PStr k)"

definition reg_inv :: "registry \<Rightarrow> bool" where
  "reg_inv r = (wf_dict (reg_devices r) \<and> wf_dict (reg_groups r)
     \<and> (\<forall>(k, d) \<in> set (reg_devices r). entry_ok (reg_groups r) k d)
     \<and> (\<forall>(k, g) \<in> set (reg_groups r). group_ok k g))"

lemma isl_rbind [simp]: "isl (rbind x f) \<longleftrightarrow> isl x \<or> isl (f (projr x))"
  by (cases x) simp_all

lemma parses_iff:
  "parses d \<longleftrightarrow> has_key d ''device_id'' \<and> \<not> isl (device_hardware_from_dict (pget_or d ''hardware'' (PDict [])))
     \<and> \<not> isl (normalize_log_retention_seconds (pget_or d ''log_retention_seconds'' (PInt 86400)))"
  by (simp add: parses_def device_from_dict_def has_key_def split: option.split)

lemma parses_dset [simp]:
  "k \<notin> {''device_id'', ''hardware'', ''log_retention_seconds''} \<Longrightarrow> parses (dset k v d) = parses d"
  by (auto simp: parses_iff)

lemma entry_ok_dset [simp]:
  "k \<notin> {''device_id'', ''hardware'', ''log_retention_seconds'', ''group''} \<Longrightarrow> entry_ok gs did (dset k v d) = entry_ok gs did d"
  by (auto simp: entry_ok_def parses_iff)

lemma entry_ok_group:
  "entry_ok gs did d \<Longrightarrow> trimmed g \<Longrightarrow> (g \<noteq> [] \<Longrightarrow> has_key gs g) \<Longrightarrow> entry_ok gs did (dset ''group'' (PStr g) d)"
  by (simp add: entry_ok_def parses_iff)

lemma hardware_reload [simp]: "device_hardware_from_dict (hardware_dict h) = Inr h"
  by (simp add: device_hardware_from_dict_def hardware_dict_def)

lemma entry_ok_hardware: "entry_ok gs did d \<Longrightarrow> entry_ok gs did (dset ''hardware'' (hardware_dict h) d)"
  by (simp add: entry_ok_def parses_iff)

lemma normalize_idem: "normalize_log_retention_seconds v = Inr n \<Longrightarrow> normalize_log_retention_seconds (PInt n) = Inr n"
  by (simp add: normalize_log_retention_seconds_def Let_def split: if_splits)

lemma entry_ok_retention:
  "entry_ok gs did d \<Longrightarrow> normalize_log_retention_seconds v = Inr n \<Longrightarrow> entry_ok gs did (dset ''log_retention_seconds'' (PInt n) d)"
  by (simp add: entry_ok_def parses_iff normalize_idem)

lemma entry_ok_more: "entry_ok gs k d \<Longrightarrow> entry_ok (dset g x gs) k d"
  by (auto simp: entry_ok_def)

lemma new_device_ok: "entry_ok gs did (device_dict (new_device did hostname hw e now))"
  by (simp add: entry_ok_def parses_iff device_dict_def new_device_def has_key_def normalize_log_retention_seconds_def
      LOG_RETENTIONS_def trimmed_def)

lemma reg_inv_put:
  assumes "reg_inv r" and "entry_ok (reg_groups r) did d"
  shows "reg_inv (put_device did d r)"
  using assms by (auto simp: reg_inv_def set_dset)

lemma reg_inv_save [simp]: "reg_inv (reg_save r) = reg_inv r"
  by (simp add: reg_inv_def)

lemma reg_inv_entry: "reg_inv r \<Longrightarrow> map_of (reg_devices r) did = Some d \<Longrightarrow> entry_ok (reg_groups r) did d"
  by (auto simp: reg_inv_def dest: map_of_SomeD)

lemma reg_inv_change:
  assumes "reg_inv r" and "\<And>d. entry_ok (reg_groups r) did d \<Longrightarrow> entry_ok (reg_groups r) did (f d)"
  shows "reg_inv (snd (change_device did f r))"
  using assms by (auto simp: change_device_def intro!: reg_inv_put dest: reg_inv_entry split: option.split)

lemma ensure_group_key: "strip g \<noteq> [] \<Longrightarrow> has_key (reg_groups (snd (ensure_group g now r))) (strip g)"
  by (auto simp: ensure_group_def Let_def has_key_def split: option.split)

lemma with_group_key: "g = strip g' \<Longrightarrow> g \<noteq> [] \<Longrightarrow> has_key (reg_groups (with_group g now r)) g"
  using ensure_group_key [of g now r] by (simp add: with_group_def)

lemma reg_inv_ensure: "reg_inv r \<Longrightarrow> reg_inv (snd (ensure_group g now r))"
  by (auto simp: ensure_group_def Let_def reg_inv_def set_dset group_ok_def intro: entry_ok_more split: option.split)

lemma reg_inv_with_group: "reg_inv r \<Longrightarrow> reg_inv (with_group g now r)"
  by (simp add: with_group_def reg_inv_ensure)

lemma reg_inv_group_devices:
  assumes inv: "reg_inv r" and g: "trimmed g" "g \<noteq> [] \<Longrightarrow> has_key (reg_groups r) g"
  shows "reg_inv (r\<lparr>reg_devices := group_devices g ids (reg_devices r)\<rparr>)"
proof -
  have wf: "wf_dict (group_devices g ids (reg_devices r))"
    using inv keys_group_devices [of g ids "reg_devices r"] by (simp add: reg_inv_def wf_dict_def keys_def)
  have "entry_ok (reg_groups r) k d" if "(k, d) \<in> set (group_devices g ids (reg_devices r))" for k d
  proof -
    from that have "map_of (group_devices g ids (reg_devices r)) k = Some d" using wf wf_dict_mem by fast
    then show ?thesis
      by (auto simp: map_of_group_devices intro: entry_ok_group reg_inv_entry [OF inv] g split: option.splits if_splits)
  qed
  with inv wf show ?thesis by (auto simp: reg_inv_def)
qed

text \<open>In a well-formed registry listing the groups changes nothing: every group is known already.\<close>

lemma mention_known: "entry_ok gs k d \<Longrightarrow> mention_group d gs = gs"
  by (auto simp: entry_ok_def mention_group_def Let_def trimmed_def)

lemma list_groups_unchanged: "reg_inv r \<Longrightarrow> snd (list_group_records r) = r"
proof -
  assume inv: "reg_inv r"
  have "fold mention_group ds (reg_groups r) = reg_groups r" if "\<forall>d \<in> set ds. \<exists>k. entry_ok (reg_groups r) k d" for ds
    using that by (induction ds) (auto simp: mention_known)
  moreover have "\<forall>d \<in> set (vals (reg_devices r)). \<exists>k. entry_ok (reg_groups r) k d"
    using inv by (fastforce simp: reg_inv_def vals_def)
  ultimately show ?thesis by (simp add: list_group_records_def Let_def)
qed

lemma reg_inv_step: "reg_inv r \<Longrightarrow> reg_inv (reg_exec r c)"
proof (cases c)
  case (Settings did u)
  assume inv: "reg_inv r"
  have "entry_ok gs did (settings_dict u d) = entry_ok gs did d" for gs d
    by (auto simp: settings_dict_def set_opt_def split: option.split)
  with inv show ?thesis
    by (auto simp: Settings reg_exec_def set_update_settings_def Let_def intro!: reg_inv_put entry_ok_retention
        dest: reg_inv_entry split: option.split sum.split)
next
  case (RegisterOrUpdate did h hw e now)
  assume inv: "reg_inv r"
  have *: "entry_ok gs did (keep_if_empty k s d) = entry_ok gs did d" "entry_ok gs did (set_if_given k s d) = entry_ok gs did d"
    if "k \<notin> {''device_id'', ''hardware'', ''log_retention_seconds'', ''group''}" for gs k s d
    using that by (auto simp: keep_if_empty_def set_if_given_def)
  show ?thesis using inv
    by (auto simp: RegisterOrUpdate reg_exec_def register_or_update_device_def register_device_def Let_def * reg_inv_entry
        intro!: reg_inv_put entry_ok_hardware new_device_ok split: option.split sum.split)
next
  case (AssignGroup g ids now)
  assume "reg_inv r"
  then show ?thesis
    using reg_inv_group_devices [of "with_group (strip g) now r" "strip g" ids]
    by (simp add: AssignGroup reg_exec_def assign_group_def Let_def reg_inv_with_group with_group_key)
next
  case (SetGroup did g now)
  assume "reg_inv r"
  then show ?thesis
    by (auto simp: SetGroup reg_exec_def set_group_def intro!: reg_inv_change reg_inv_with_group entry_ok_group with_group_key)
next
  case ListGroups
  assume "reg_inv r"
  then show ?thesis by (simp add: ListGroups reg_exec_def list_groups_unchanged)
qed (auto simp: reg_exec_def register_device_def update_heartbeat_def set_location_def heartbeat_dict_def
      wipe_device_def confirm_wiped_def wiped_dict_def update_wipe_report_def update_runtime_report_def update_stream_profile_def
      lock_device_def unlock_device_def Let_def reg_inv_ensure intro!: reg_inv_change reg_inv_put new_device_ok split: sum.split)

interpretation registry: machine reg_exec reg_inv
  by unfold_locales (rule reg_inv_step)

subsection \<open>What can fail, and what is saved\<close>

text \<open>The devices an operation needs to know, and the requests the registry rejects.\<close>

definition ids_of :: "reg_op \<Rightarrow> string list" where
  "ids_of c = (case c of Heartbeat did n \<Rightarrow> [did] | SetLocation did l \<Rightarrow> [did] | SetGroup did g n \<Rightarrow> [did]
    | Wipe did n \<Rightarrow> [did] | ConfirmWiped did n \<Rightarrow> [did] | WipeReport did d \<Rightarrow> [did] | RuntimeReport did d \<Rightarrow> [did]
    | StreamProfile did d n \<Rightarrow> [did] | Lock did \<Rightarrow> [did] | Unlock did \<Rightarrow> [did] | Settings did u \<Rightarrow> [did] | _ \<Rightarrow> [])"

definition bad_retention :: "update_settings \<Rightarrow> bool" where
  "bad_retention u = (case us_log_retention_seconds u of None \<Rightarrow> False | Some v \<Rightarrow> isl (normalize_log_retention_seconds v))"

definition bad_hardware :: "py \<Rightarrow> bool" where
  "bad_hardware h = isl (device_hardware_from_dict h)"

definition rejects :: "reg_op \<Rightarrow> registry \<Rightarrow> bool" where
  "rejects c r = (case c of
      Register did h hw e n \<Rightarrow> bad_hardware hw
    | RegisterOrUpdate did h hw e n \<Rightarrow> bad_hardware (if has_key (reg_devices r) did then por hw (PDict []) else hw)
    | EnsureGroup g n \<Rightarrow> strip g = []
    | Settings did u \<Rightarrow> \<not> has_key (reg_devices r) did \<or> bad_retention u
    | _ \<Rightarrow> \<exists>did \<in> set (ids_of c). \<not> has_key (reg_devices r) did)"

definition memory :: "registry \<Rightarrow> dict table \<times> dict table" where
  "memory r = (reg_devices r, reg_groups r)"

lemma change_ok:
  assumes inv: "reg_inv r" and d: "has_key (reg_devices r) did" and f: "\<And>d. parses d \<Longrightarrow> parses (f d)"
  obtains d v where "map_of (reg_devices r) did = Some d" "device_from_dict (f d) = Inr v"
    "change_device did f r = (Inr v, reg_save (put_device did (f d) r))"
proof -
  from d obtain d where d: "map_of (reg_devices r) did = Some d" by (auto simp: has_key_def)
  with inv f have "parses (f d)" by (auto simp: entry_ok_def dest: reg_inv_entry)
  then obtain v where "device_from_dict (f d) = Inr v" by (cases "device_from_dict (f d)") (auto simp: parses_def)
  with d that show ?thesis by (simp add: change_device_def)
qed

lemma change_raises:
  assumes "reg_inv r" and "\<And>d. parses d \<Longrightarrow> parses (f d)"
  shows "isl (fst (change_device did f r)) \<longleftrightarrow> \<not> has_key (reg_devices r) did"
proof (cases "has_key (reg_devices r) did")
  case True
  obtain d v where "change_device did f r = (Inr v, reg_save (put_device did (f d) r))"
    using change_ok [OF assms(1) True, of f] assms(2) by blast
  with True show ?thesis by simp
qed (simp add: change_device_def has_key_def)

lemma change_saved:
  "has_key (reg_devices r) did \<Longrightarrow> reg_saved (snd (change_device did f r)) = memory (snd (change_device did f r))"
  "\<not> has_key (reg_devices r) did \<Longrightarrow> snd (change_device did f r) = r"
  by (auto simp: change_device_def has_key_def memory_def)

lemma parses_ok: "entry_ok gs did d \<Longrightarrow> \<not> isl (device_from_dict d)"
  by (simp add: entry_ok_def parses_def)

lemma settings_entry [simp]: "entry_ok gs did (settings_dict u d) = entry_ok gs did d"
  by (auto simp: settings_dict_def set_opt_def split: option.split)

lemma update_entry [simp]:
  assumes "k \<notin> {''device_id'', ''hardware'', ''log_retention_seconds'', ''group''}"
  shows "entry_ok gs did (keep_if_empty k s d) = entry_ok gs did d" "entry_ok gs did (set_if_given k s d) = entry_ok gs did d"
  using assms by (auto simp: keep_if_empty_def set_if_given_def)

lemma raised_None: "fst (raised p) \<noteq> None \<longleftrightarrow> isl (fst p)"
  by (cases "fst p") simp_all

lemma settings_raises:
  assumes "reg_inv r"
  shows "isl (fst (set_update_settings did u r)) \<longleftrightarrow> \<not> has_key (reg_devices r) did \<or> bad_retention u"
proof (cases "map_of (reg_devices r) did")
  case (Some d)
  with assms have d: "entry_ok (reg_groups r) did d" by (rule reg_inv_entry)
  then have "\<not> isl (device_from_dict (settings_dict u d))" by (auto intro!: parses_ok)
  moreover have "\<not> isl (device_from_dict (dset ''log_retention_seconds'' (PInt n) (settings_dict u d)))"
    if "normalize_log_retention_seconds v = Inr n" for v n
    using that d by (auto intro!: parses_ok entry_ok_retention)
  ultimately show ?thesis using Some
    by (auto simp: set_update_settings_def Let_def bad_retention_def has_key_def split: option.split sum.split)
qed (simp add: set_update_settings_def has_key_def)

lemma update_raises:
  assumes "reg_inv r"
  shows "isl (fst (register_or_update_device did h hw e now r))
    \<longleftrightarrow> bad_hardware (if has_key (reg_devices r) did then por hw (PDict []) else hw)"
proof (cases "map_of (reg_devices r) did")
  case (Some d)
  with assms have d: "entry_ok (reg_groups r) did d" by (rule reg_inv_entry)
  show ?thesis
  proof (cases "device_hardware_from_dict (por hw (PDict []))")
    case (Inr x)
    have "entry_ok (reg_groups r) did (dset ''hardware'' (hardware_dict x) (keep_if_empty ''hostname'' h d))"
      using d by (auto intro: entry_ok_hardware)
    then show ?thesis using Some Inr
      by (auto simp: register_or_update_device_def Let_def bad_hardware_def has_key_def intro!: parses_ok)
  qed (use Some in \<open>simp add: register_or_update_device_def Let_def bad_hardware_def has_key_def\<close>)
qed (simp add: register_or_update_device_def register_device_def Let_def has_key_def bad_hardware_def split: sum.split)

lemma set_group_raises:
  assumes "reg_inv r"
  shows "isl (fst (set_group did g now r)) \<longleftrightarrow> \<not> has_key (reg_devices r) did"
proof -
  have "isl (fst (change_device did (dset ''group'' (PStr (strip g))) (with_group (strip g) now r)))
      \<longleftrightarrow> \<not> has_key (reg_devices (with_group (strip g) now r)) did"
    by (rule change_raises) (simp_all add: assms reg_inv_with_group)
  then show ?thesis by (simp add: set_group_def)
qed

lemma raises_iff: "reg_inv r \<Longrightarrow> fst (reg_step c r) \<noteq> None \<longleftrightarrow> rejects c r"
  by (cases c) (simp_all only: reg_step.simps raised_None, simp_all add: rejects_def ids_of_def settings_raises update_raises
      set_group_raises update_heartbeat_def heartbeat_dict_def set_location_def wipe_device_def confirm_wiped_def
      wiped_dict_def update_wipe_report_def update_runtime_report_def update_stream_profile_def lock_device_def
      unlock_device_def change_raises Let_def register_device_def bad_hardware_def ensure_group_def split: sum.split option.split)

lemmas change_ops = update_heartbeat_def set_location_def wipe_device_def confirm_wiped_def update_wipe_report_def
  update_runtime_report_def update_stream_profile_def lock_device_def unlock_device_def

lemma rejected_saved: "rejects c r \<Longrightarrow> reg_saved (reg_exec r c) = reg_saved r"
proof (cases c)
  case (RegisterOrUpdate did h hw e now)
  assume "rejects c r"
  then show ?thesis
    by (auto simp: RegisterOrUpdate reg_exec_def rejects_def register_or_update_device_def register_device_def bad_hardware_def
        has_key_def put_device_def Let_def isl_def split: option.split sum.split if_splits)
next
  case (Settings did u)
  assume "rejects c r"
  then show ?thesis
    by (auto simp: Settings reg_exec_def rejects_def set_update_settings_def bad_retention_def has_key_def put_device_def Let_def
        split: option.splits sum.splits)
qed (simp_all add: reg_exec_def rejects_def ids_of_def change_ops change_saved set_group_def register_device_def bad_hardware_def
      ensure_group_def Let_def isl_def, auto)

lemma accepted_saved:
  assumes inv: "reg_inv r" and "\<not> rejects c r" and clean: "reg_saved r = memory r"
  shows "reg_saved (reg_exec r c) = memory (reg_exec r c)"
proof (cases c)
  case ListGroups
  with inv clean show ?thesis by (simp add: reg_exec_def list_groups_unchanged)
next
  case (EnsureGroup g now)
  with clean show ?thesis by (auto simp: reg_exec_def ensure_group_def memory_def Let_def split: option.split)
next
  case (Settings did u)
  with assms show ?thesis
    by (auto simp: reg_exec_def rejects_def set_update_settings_def bad_retention_def has_key_def memory_def Let_def
        split: option.splits sum.splits)
next
  case (RegisterOrUpdate did h hw e now)
  with assms show ?thesis
    by (auto simp: reg_exec_def rejects_def register_or_update_device_def register_device_def bad_hardware_def has_key_def memory_def
        Let_def split: option.splits sum.splits)
qed (use assms in \<open>auto simp: reg_exec_def rejects_def ids_of_def change_ops change_saved set_group_def register_device_def
      bad_hardware_def assign_group_def memory_def Let_def split: sum.splits\<close>)

end
