(* ===== verification/DeviceProps.thy ===== *)
theory DeviceProps
  imports DeviceInvariant
begin

text \<open>
  Properties of the device registry: its invariant, the requests it rejects, how long a lock or a
  wipe mark lasts, and the round trip of a device through its dictionary.
\<close>

subsection \<open>Reading a device back\<close>

lemma device_fields:
  assumes "device_from_dict d = Inr v"
  shows "map_of d ''device_id'' = Some (dev_id v)" "dev_status v = pget_or d ''status'' (PStr ''offline'')"
    "dev_vpn_active v = truthy (pget_or d ''vpn_active'' (PBool False))" "dev_wg_public_key v = pget_or d ''wg_public_key'' (PStr [])"
    "normalize_log_retention_seconds (PInt (dev_log_retention_seconds v)) = Inr (dev_log_retention_seconds v)"
  using assms by (auto simp: device_from_dict_def rbind_eq_Inr dest: normalize_idem split: option.splits)

lemma py_repr_nonempty [simp]: "py_repr v \<noteq> []"
  by (cases v) (auto simp: float_str_def repr_str_def Let_def)

lemma py_str_truthy: "truthy v \<Longrightarrow> py_str v \<noteq> []"
  by (cases v) (auto simp: py_str_def float_str_def Let_def)

lemma text_or_nonempty: "s \<noteq> [] \<Longrightarrow> text_or d k s \<noteq> []"
  by (auto simp: text_or_def por_def py_str_truthy)

text \<open>The defaults a device never has: its channel and its two progress marks are never blank.\<close>

lemma device_texts:
  assumes "device_from_dict d = Inr v"
  shows "dev_update_channel v \<noteq> []" "dev_update_status v \<noteq> []" "dev_sys_update_status v \<noteq> []"
  using assms by (auto simp: device_from_dict_def rbind_eq_Inr text_or_nonempty split: option.splits)

lemma reload:
  assumes "dev_update_channel v \<noteq> []" "dev_update_status v \<noteq> []" "dev_sys_update_status v \<noteq> []"
    and "normalize_log_retention_seconds (PInt (dev_log_retention_seconds v)) = Inr (dev_log_retention_seconds v)"
  shows "device_from_dict (device_dict v) = Inr v"
  using assms by (simp add: device_from_dict_def device_dict_def text_or_def)

definition demo_device :: dict where
  "demo_device = device_dict (new_device ''tc-1'' ''lobby'' \<lparr>hw_cpu_model = PStr ''N100'', hw_cpu_cores = 4, hw_ram_gb = 8,
     hw_gpu_model = PStr [], hw_network_interfaces = PList [], hw_disk_gb = 64\<rparr>
     \<lparr>en_os_version = ''1.0'', en_vpn_active = True, en_vpn_interface = ''wg0'', en_wg_public_key = ''key'',
      en_wg_assigned_ip = ''10.0.0.2''\<rparr> ''2026-01-01T00:00:00Z'')"

definition demo_registry :: registry where
  "demo_registry = registry_open None ([(''tc-1'', demo_device)], [])"

lemma demo_entry: "entry_ok [] ''tc-1'' demo_device"
  unfolding demo_device_def by (rule new_device_ok)

lemma demo_registry_inv: "reg_inv demo_registry"
  by (simp add: demo_registry_def registry_open_def reg_inv_def demo_entry wf_dict_def)

lemma demo_registry_known: "has_key (reg_devices demo_registry) ''tc-1''"
  by (simp add: demo_registry_def registry_open_def has_key_def)

text \<open>a device the registry could read survives being serialised and parsed again: \<open>asdict\<close>
  followed by \<open>device_from_dict\<close> gives the same device.
\<close>

lemma device_roundtrip:
  assumes "device_from_dict d = Inr v"
  shows "device_from_dict (device_dict v) = Inr v"
  by (rule reload) (use device_fields(5) [OF assms] device_texts [OF assms] in auto)

text \<open>C33: every run of registry operations keeps the registry well formed (keys and stored ids agree, every
  entry reads back as a device, every group a device names is a known group) and forgets no
  device and no group: the old keys stay, in the old order.
\<close>

theorem device_registry_invariant:
  assumes "reg_inv r"
  shows "reg_inv (run reg_exec r cs) \<and> reg_le r (run reg_exec r cs)"
  using registry.run_inv [OF assms] known.run_le by simp

theorem device_registry_invariant_witness:
  "reg_inv (run reg_exec demo_registry [Heartbeat ''tc-1'' ''t'', AssignGroup '' lab '' [''tc-1'', ''tc-9''] ''t''])"
  using device_registry_invariant [OF demo_registry_inv] by blast

text \<open>which requests fail, and what is on disk afterwards. An operation raises exactly when it names a
  device that is not enrolled, hardware fields that are no numbers, a retention outside the list or an
  empty group name; then the state file is untouched. Otherwise, if memory and file agreed before,
  they agree after it.
\<close>

lemma device_requests_rejected:
  assumes "reg_inv r"
  shows "(fst (reg_step c r) \<noteq> None \<longleftrightarrow> rejects c r)
     \<and> (rejects c r \<longrightarrow> reg_saved (reg_exec r c) = reg_saved r)
     \<and> (\<not> rejects c r \<and> reg_saved r = memory r \<longrightarrow> reg_saved (reg_exec r c) = memory (reg_exec r c))"
  using raises_iff [OF assms] rejected_saved accepted_saved [OF assms] by blast

subsection \<open>Locks and wipes\<close>

lemma sticky_run:
  "sticky_in r did s \<Longrightarrow> s \<in> STICKY \<Longrightarrow> \<forall>c \<in> set cs. \<not> decides did c \<Longrightarrow> sticky_in (run reg_exec r cs) did s"
  by (induction cs arbitrary: r) (auto intro: sticky_step)

lemma sticky_mark:
  assumes "has_key (reg_devices r) did"
    and "(c, s) \<in> {(Wipe did t, ''wipe_pending''), (ConfirmWiped did t, ''wiped''), (Lock did, ''locked'')}"
  shows "sticky_in (reg_exec r c) did s"
  using assms by (auto simp: reg_exec_def sticky_in_def has_key_def wipe_device_def confirm_wiped_def wiped_dict_def
      lock_device_def change_device_lookup)

lemma sticky_seen:
  assumes "reg_inv r" and st: "sticky_in r did s" and s: "s \<in> STICKY"
  shows "\<exists>v. fst (update_heartbeat did now r) = Inr v \<and> dev_id v = PStr did \<and> dev_status v = PStr s"
    and "\<exists>v. get_device did r = Inr (Some v) \<and> dev_status v = PStr s"
proof -
  from st obtain d where d: "map_of (reg_devices r) did = Some d" "pget d ''status'' = PStr s" by (auto simp: sticky_in_def)
  then have ok: "entry_ok (reg_groups r) did d" using assms(1) by (blast intro: reg_inv_entry)
  have s': "s \<noteq> []" using s by (auto simp: STICKY_def)
  have stat: "pget_or d ''status'' x = PStr s" for x using d(2) by (simp add: pget_def pget_or_def split: option.splits)
  have h: "heartbeat_dict now d = dset ''last_seen'' (PStr now) d" using d(2) s s' by (simp add: heartbeat_dict_def)
  obtain v where v: "device_from_dict (dset ''last_seen'' (PStr now) d) = Inr v"
    using parses_ok [of "reg_groups r" did "dset ''last_seen'' (PStr now) d"] ok
    by (cases "device_from_dict (dset ''last_seen'' (PStr now) d)") simp_all
  show "\<exists>v. fst (update_heartbeat did now r) = Inr v \<and> dev_id v = PStr did \<and> dev_status v = PStr s"
    using device_fields(1,2) [OF v] ok d(1) stat by (simp add: update_heartbeat_def change_device_def h v entry_ok_def)
  obtain u where u: "device_from_dict d = Inr u" using parses_ok [OF ok] by (cases "device_from_dict d") auto
  show "\<exists>v. get_device did r = Inr (Some v) \<and> dev_status v = PStr s"
    using device_fields(2) [OF u] ok d(1) stat by (auto simp: get_device_def u entry_ok_def)
qed

text \<open>a wipe request, a confirmed wipe and a lock outlast everything but a decision about the device.
  However many heartbeats, reports, profile or group changes, re-enrolments of it or operations on other
  devices follow, the next heartbeat is answered with that status, and looking the device up shows it.
\<close>

lemma status_until_decided:
  assumes "reg_inv r" and "has_key (reg_devices r) did"
    and "(c, s) \<in> {(Wipe did t, ''wipe_pending''), (ConfirmWiped did t, ''wiped''), (Lock did, ''locked'')}"
    and "\<forall>c \<in> set cs. \<not> decides did c"
  shows "(\<exists>v. fst (update_heartbeat did now (run reg_exec r (c # cs))) = Inr v \<and> dev_id v = PStr did \<and> dev_status v = PStr s)
     \<and> (\<exists>v. get_device did (run reg_exec r (c # cs)) = Inr (Some v) \<and> dev_status v = PStr s)"
proof -
  have s: "s \<in> STICKY" using assms(3) by (auto simp: STICKY_def)
  have "sticky_in (run reg_exec r (c # cs)) did s"
    using sticky_run [OF sticky_mark [OF assms(2,3)] s assms(4)] by simp
  then show ?thesis
    using sticky_seen [OF registry.run_inv [OF assms(1)] _ s] by blast
qed

text \<open>lifting a lock also lifts a wipe that is still pending. After \<open>unlock_device\<close> the next
  heartbeat makes the device online again, with the time of the wipe request still on record and no
  confirmation: the client is never told to wipe itself.
\<close>

lemma unlock_drops_wipe:
  assumes "map_of (reg_devices r) did = Some d"
  shows "let r' = run reg_exec r [Wipe did t1, Unlock did, Heartbeat did t2] in
     \<exists>d'. map_of (reg_devices r') did = Some d' \<and> pget d' ''status'' = PStr ''online''
       \<and> pget d' ''wipe_requested_at'' = PStr t1 \<and> pget d' ''wipe_confirmed_at'' = PStr []"
  using assms by (simp add: reg_exec_def wipe_device_def unlock_device_def update_heartbeat_def change_device_lookup
      heartbeat_dict_def STICKY_def Let_def)

lemma unlock_drops_wipe_witness:
  "let r' = run reg_exec demo_registry [Wipe ''tc-1'' ''t1'', Unlock ''tc-1'', Heartbeat ''tc-1'' ''t2''] in
     \<exists>d'. map_of (reg_devices r') ''tc-1'' = Some d' \<and> pget d' ''status'' = PStr ''online''
       \<and> pget d' ''wipe_requested_at'' = PStr ''t1'' \<and> pget d' ''wipe_confirmed_at'' = PStr []"
  by (rule unlock_drops_wipe [where d = demo_device]) (simp add: demo_registry_def registry_open_def)

text \<open>a rejected change of the update settings takes effect all the same. With a retention outside the
  list the call raises and writes nothing, but the other settings are already changed in memory, and
  the next heartbeat of the device writes them to the state file.
\<close>

lemma rejected_settings_leak:
  assumes "map_of (reg_devices r) did = Some d" and "us_log_retention_seconds u = Some v"
    and "normalize_log_retention_seconds v = Inl e"
  shows "fst (reg_step (Settings did u) r) = Some e \<and> reg_saved (reg_exec r (Settings did u)) = reg_saved r
     \<and> map_of (fst (reg_saved (run reg_exec r [Settings did u, Heartbeat did now]))) did
         = Some (heartbeat_dict now (settings_dict u d))"
  using assms by (simp add: reg_exec_def set_update_settings_def Let_def update_heartbeat_def change_device_def put_device_def reg_save_def)

lemma rejected_settings_leak_witness:
  "let u = \<lparr>us_auto_update = Some False, us_update_channel = None, us_target_os_version = None, us_update_status = None,
       us_auto_sys_update = None, us_sys_update_status = None, us_target_sys_update = None, us_log_capture_enabled = Some False,
       us_log_retention_seconds = Some (PInt 60)\<rparr> in
     map_of (fst (reg_saved (run reg_exec demo_registry [Settings ''tc-1'' u, Heartbeat ''tc-1'' ''t'']))) ''tc-1''
       = Some (heartbeat_dict ''t'' (settings_dict u demo_device))"
proof -
  have "normalize_log_retention_seconds (PInt 60)
      = Inl (ValueError ''log_retention_seconds must be one of 3600, 7200, 18000, 43200, 86400, 604800, 2592000'')"
    by (simp add: normalize_log_retention_seconds_def LOG_RETENTIONS_def)
  moreover have "map_of (reg_devices demo_registry) ''tc-1'' = Some demo_device"
    by (simp add: demo_registry_def registry_open_def)
  ultimately show ?thesis
    unfolding Let_def by (intro rejected_settings_leak [THEN conjunct2, THEN conjunct2]) simp_all
qed

end
