(* ===== verification/DeviceRestart.thy ===== *)
theory DeviceRestart
  imports DeviceProps
begin

text \<open>
  A restart of the device registry over its SQLite repository: the rows mirror the devices in memory
  after every save, so a restart finds every device again; the groups it does not.
\<close>

text \<open>The rows of a repository that saves have written: each names itself.\<close>

definition repo_ok :: "device_repo \<Rightarrow> bool" where
  "repo_ok rp = (wf_dict rp \<and> (\<forall>(k, row) \<in> set rp. pget (row_to_device k row) ''device_id'' = PStr k))"

definition devices_storable :: "dict table \<Rightarrow> bool" where
  "devices_storable ds = (wf_dict ds \<and> (\<forall>(k, d) \<in> set ds. storable k d))"

lemma stored_id: "storable k d \<Longrightarrow> pget (row_to_device k (device_row_of d)) ''device_id'' = PStr k"
  using stored_reads [of k d "''device_id''" "PStr k"] by (simp add: storable_def pget_def)

lemma repo_ok_put: "repo_ok rp \<Longrightarrow> storable k d \<Longrightarrow> repo_ok (dset k (device_row_of d) rp)"
  by (auto simp: repo_ok_def set_dset stored_id)

lemma save_all:
  assumes "\<forall>(k, d) \<in> set ds. storable k d" and "wf_dict ds" and "repo_ok rp"
  shows "repo_ok (fold (\<lambda>d rp. snd (repo_save d rp)) (vals ds) rp)
    \<and> map_of (fold (\<lambda>d rp. snd (repo_save d rp)) (vals ds) rp) k
      = (case map_of ds k of Some d \<Rightarrow> Some (device_row_of d) | None \<Rightarrow> map_of rp k)"
  using assms
proof (induction ds arbitrary: rp)
  case (Cons p ds)
  obtain k' d where p: "p = (k', d)" by (cases p)
  have st: "storable k' d" using Cons.prems(1) by (simp add: p)
  have wf: "wf_dict ds" and new: "map_of ds k' = None" using Cons.prems(2) by (auto simp: wf_dict_def p map_of_eq_None_iff)
  have ok: "repo_ok (dset k' (device_row_of d) rp)" using Cons.prems(3) st by (rule repo_ok_put)
  show ?case
    using Cons.IH [OF _ wf ok] Cons.prems(1) new by (auto simp: vals_def p save_storable [OF st] split: option.split)
qed (simp add: vals_def)

lemma repo_list_all: "repo_list None None rp = map (\<lambda>(k, row). row_to_device k row) (sort_key fst rp)"
  by (simp add: repo_list_def)

lemma delete_all:
  "map_of (fold (\<lambda>v rp. snd (repo_delete (py_str v) rp)) vs rp) k = (if k \<in> py_str ` set vs then None else map_of rp k)"
  by (induction vs arbitrary: rp) (auto simp: repo_delete_def)

lemma delete_all_ok:
  "wf_dict rp \<Longrightarrow> wf_dict (fold (\<lambda>v rp. snd (repo_delete (py_str v) rp)) vs rp)
     \<and> set (fold (\<lambda>v rp. snd (repo_delete (py_str v) rp)) vs rp) \<subseteq> set rp"
proof (induction vs arbitrary: rp)
  case (Cons v vs)
  then show ?case using Cons.IH [of "ddel (py_str v) rp"] by (auto simp: repo_delete_def set_ddel)
qed simp

lemma mirror:
  assumes ds: "devices_storable ds" and rp: "repo_ok rp"
  shows "repo_ok (mirror_devices ds rp)" and "map_of (mirror_devices ds rp) k = map_option device_row_of (map_of ds k)"
proof -
  let ?s = "fold (\<lambda>d rp. snd (repo_save d rp)) (vals ds) rp"
  have S: "repo_ok ?s" "map_of ?s k = (case map_of ds k of Some d \<Rightarrow> Some (device_row_of d) | None \<Rightarrow> map_of rp k)" for k
    using save_all [of ds rp] ds rp by (auto simp: devices_storable_def)
  have ids: "set (map (\<lambda>d. pget d ''device_id'') (repo_list None None ?s)) = PStr ` fst ` set ?s"
    using S(1) by (force simp: repo_list_all repo_ok_def image_iff)
  have stale: "py_str ` set (stale_ids ds ?s) = {k \<in> fst ` set ?s. \<not> has_key ds k}"
    unfolding stale_ids_def set_filter ids by (force simp: has_key_iff keys_def)
  show "map_of (mirror_devices ds rp) k = map_option device_row_of (map_of ds k)"
  proof (cases "map_of ds k")
    case None
    then have "map_of (mirror_devices ds rp) k = (if k \<in> fst ` set ?s then None else map_of ?s k)"
      by (simp add: mirror_devices_def Let_def delete_all stale has_key_def)
    with None show ?thesis by (metis (no_types, lifting) map_of_eq_None_iff option.map_disc_iff)
  next
    case (Some d)
    then show ?thesis by (simp add: mirror_devices_def Let_def delete_all stale has_key_def S)
  qed
  show "repo_ok (mirror_devices ds rp)"
    using delete_all_ok [of ?s "stale_ids ds ?s"] S(1) by (auto simp: repo_ok_def mirror_devices_def Let_def)
qed

lemma open_lookup:
  assumes "repo_ok rp"
  shows "map_of (reg_devices (registry_open (Some rp) f)) k = map_option (row_to_device k) (map_of rp k)"
proof -
  have 1: "map_of (fold (\<lambda>d. dset (py_str (pget d ''device_id'')) d) (map (\<lambda>(k, row). row_to_device k row) ps) acc) k
      = (case map_of ps k of Some row \<Rightarrow> Some (row_to_device k row) | None \<Rightarrow> map_of acc k)"
    if "\<forall>(k, row) \<in> set ps. pget (row_to_device k row) ''device_id'' = PStr k" "wf_dict ps" for ps acc
    using that
  proof (induction ps arbitrary: acc)
    case (Cons p ps)
    obtain k' row where p: "p = (k', row)" by (cases p)
    have "wf_dict ps" "map_of ps k' = None" using Cons.prems(2) by (auto simp: wf_dict_def p map_of_eq_None_iff)
    then show ?case using Cons by (auto simp: p split: option.split)
  qed simp
  show ?thesis
    using 1 [of "sort_key fst rp" "[]"] assms
    by (auto simp: registry_open_def repo_list_all repo_ok_def map_of_sort_key split: option.split)
qed

text \<open>C34: the registry survives a restart over its repository, its groups do not. After a save, a registry opened
  again on the repository knows exactly the same devices, and every field stored for a device reads back
  as it was (dictionaries with their keys sorted), so that status, wipe marks and keys are kept; but the
  table of groups is empty, whatever the state file holds.\<close>

theorem restart_keeps_devices:
  assumes "devices_storable (reg_devices r)" and "reg_repo r = Some rp" and "repo_ok rp"
  shows "let r' = registry_open (reg_repo (reg_save r)) (reg_saved (reg_save r)) in
     (\<forall>did. has_key (reg_devices r') did = has_key (reg_devices r) did)
     \<and> (\<forall>did d k v. map_of (reg_devices r) did = Some d \<and> map_of d k = Some v
          \<longrightarrow> pget (the (map_of (reg_devices r') did)) k = sort_keys v)
     \<and> reg_groups r' = []"
proof -
  let ?m = "mirror_devices (reg_devices r) rp"
  have repo: "reg_repo (reg_save r) = Some ?m" using assms(2) by (simp add: reg_save_def)
  have look: "map_of (reg_devices (registry_open (Some ?m) f)) did
      = map_option (\<lambda>d. row_to_device did (device_row_of d)) (map_of (reg_devices r) did)" for did f
    using open_lookup [OF mirror(1) [OF assms(1,3)], of f did] mirror(2) [OF assms(1,3), of did]
    by (simp add: option.map_comp comp_def)
  have st: "storable did d" if "map_of (reg_devices r) did = Some d" for did d
    using assms(1) that by (auto simp: devices_storable_def dest: map_of_SomeD)
  show ?thesis
    unfolding Let_def repo
    by (auto simp: look has_key_def pget_def stored_reads st) (simp add: registry_open_def)
qed

definition demo_mirrored :: registry where
  "demo_mirrored = demo_registry\<lparr>reg_repo := Some []\<rparr>"

lemma demo_storable: "devices_storable (reg_devices demo_mirrored)"
  by (simp add: demo_mirrored_def demo_registry_def registry_open_def devices_storable_def storable_def demo_device_def
      device_dict_def new_device_def wf_dict_def trimmed_def) (simp add: strip_no_space is_space_def)

theorem restart_keeps_devices_witness:
  "has_key (reg_devices (registry_open (reg_repo (reg_save demo_mirrored)) (reg_saved (reg_save demo_mirrored)))) ''tc-1''"
proof -
  have "reg_repo demo_mirrored = Some []" "has_key (reg_devices demo_mirrored) ''tc-1''"
    by (simp_all add: demo_mirrored_def demo_registry_known)
  with restart_keeps_devices [OF demo_storable, of "[]"] show ?thesis by (simp add: Let_def repo_ok_def)
qed

end
