(* ===== verification/SessionManager.thy ===== *)
theory SessionManager
  imports StateStore
begin

text \<open>
  \<open>beagle-host/services/session_manager.py\<close>: running desktop sessions, their checkpoints, and their
  transfer from one node to another. Every operation reads the state file into memory, works on the
  copy and writes it back; \<open>get_current_node\<close> alone reads the memory as it is. The callables the
  service is given (saving, copying and restoring a VM, the audit log, the geo resolver, the clocks)
  are the environment; the calls made on them are a log in the state, and what they answer may
  depend on the calls before. The optional SQLite session repository is not configured, as in the
  service registry.
\<close>

subsection \<open>State and environment\<close>

record session_checkpoint =
  ck_session_id :: string
  ck_pool_id :: py
  ck_vm_id :: int
  ck_user_id :: py
  ck_source_node :: py
  ck_checkpoint_path :: string
  ck_checkpointed_at :: string
  ck_status :: string
  ck_error :: string

record session_transfer =
  st_session_id :: string
  st_source_node :: string
  st_target_node :: string
  st_checkpoint_path :: py
  st_started_at :: string
  st_completed_at :: string
  st_status :: string
  st_error :: string
  st_duration_seconds :: rat

text \<open>\<open>asdict\<close> of the two.\<close>

definition checkpoint_dict :: "session_checkpoint \<Rightarrow> dict" where
  "checkpoint_dict c = [(''session_id'', PStr (ck_session_id c)), (''pool_id'', ck_pool_id c), (''vm_id'', PInt (ck_vm_id c)),
     (''user_id'', ck_user_id c), (''source_node'', ck_source_node c), (''checkpoint_path'', PStr (ck_checkpoint_path c)),
     (''checkpointed_at'', PStr (ck_checkpointed_at c)), (''status'', PStr (ck_status c)), (''error'', PStr (ck_error c))]"

definition transfer_dict :: "session_transfer \<Rightarrow> dict" where
  "transfer_dict t = [(''session_id'', PStr (st_session_id t)), (''source_node'', PStr (st_source_node t)),
     (''target_node'', PStr (st_target_node t)), (''checkpoint_path'', st_checkpoint_path t), (''started_at'', PStr (st_started_at t)),
     (''completed_at'', PStr (st_completed_at t)), (''status'', PStr (st_status t)), (''error'', PStr (st_error t)),
     (''duration_seconds'', PFloat (st_duration_seconds t))]"

datatype sm_call =
    SaveState int string
  | CopyCheckpoint py string py
  | RestoreState int py
  | Audit string string

record sm_env =
  se_utcnow :: "nat \<Rightarrow> string"
  se_monotonic :: "nat \<Rightarrow> rat"
  se_provider :: "sm_call list \<Rightarrow> sm_call \<Rightarrow> exn option"
  se_has_save :: bool
  se_has_copy :: bool
  se_has_restore :: bool
  se_has_audit :: bool
  se_geo :: "(string \<Rightarrow> py result) option"
  se_threshold :: rat
  se_ckpt_dir :: string

definition slow_threshold :: "rat \<Rightarrow> rat" where
  "slow_threshold r = max 0 r"

record sm_data =
  sd_sessions :: "dict table"
  sd_events :: "dict list"
  sd_alerts :: "dict list"

record sm =
  sm_mem :: sm_data
  sm_file :: sm_data
  sm_ticks :: nat
  sm_log :: "sm_call list"

definition sm_refresh :: "sm \<Rightarrow> sm" where "sm_refresh w = w\<lparr>sm_mem := sm_file w\<rparr>"

definition sm_save :: "sm \<Rightarrow> sm" where "sm_save w = w\<lparr>sm_file := sm_mem w\<rparr>"

definition sm_tick :: "sm \<Rightarrow> sm" where "sm_tick w = w\<lparr>sm_ticks := Suc (sm_ticks w)\<rparr>"

definition utc :: "sm_env \<Rightarrow> sm \<Rightarrow> string" where "utc env w = se_utcnow env (sm_ticks w)"

definition mono_clock :: "sm_env \<Rightarrow> sm \<Rightarrow> rat" where "mono_clock env w = se_monotonic env (sm_ticks w)"

definition sm_call :: "sm_env \<Rightarrow> sm_call \<Rightarrow> sm \<Rightarrow> exn option \<times> sm" where
  "sm_call env c w = (se_provider env (sm_log w) c, w\<lparr>sm_log := sm_log w @ [c]\<rparr>)"

definition emit_audit :: "sm_env \<Rightarrow> string \<Rightarrow> string \<Rightarrow> sm \<Rightarrow> sm" where
  "emit_audit env kind outcome w = (if se_has_audit env then snd (sm_call env (Audit kind outcome) w) else w)"

definition record_handover_event :: "dict \<Rightarrow> sm \<Rightarrow> sm" where
  "record_handover_event e w = w\<lparr>sm_mem := (sm_mem w)\<lparr>sd_events := sd_events (sm_mem w) @ [e]\<rparr>\<rparr>"

definition record_handover_alert :: "dict \<Rightarrow> sm \<Rightarrow> sm" where
  "record_handover_alert a w = w\<lparr>sm_mem := (sm_mem w)\<lparr>sd_alerts := sd_alerts (sm_mem w) @ [a]\<rparr>\<rparr>"

definition put_session :: "string \<Rightarrow> dict \<Rightarrow> sm \<Rightarrow> sm" where
  "put_session sid s w = w\<lparr>sm_mem := (sm_mem w)\<lparr>sd_sessions := dset sid s (sd_sessions (sm_mem w))\<rparr>\<rparr>"

definition mem_session :: "sm \<Rightarrow> string \<Rightarrow> dict option" where
  "mem_session w sid = map_of (sd_sessions (sm_mem w)) sid"

text \<open>\<open>if not s\<close>: a missing session and an empty one are both not found.\<close>

definition live_session :: "sm \<Rightarrow> string \<Rightarrow> dict option" where
  "live_session w sid = (case mem_session w sid of None \<Rightarrow> None | Some s \<Rightarrow> if s = [] then None else Some s)"

definition session_not_found :: "string \<Rightarrow> exn" where
  "session_not_found sid = KeyError (''Session '' @ repr_str sid @ '' not found'')"

text \<open>\<open>s[k].append(v)\<close>.\<close>

definition append_to :: "string \<Rightarrow> py \<Rightarrow> dict \<Rightarrow> dict result" where
  "append_to k v s = (case map_of s k of None \<Rightarrow> Inl (KeyError k)
     | Some l \<Rightarrow> if is_list l then Inr (dset k (PList (list_of l @ [v])) s)
         else Inl (AttributeError ''object has no attribute append''))"

subsection \<open>Sessions\<close>

definition geo_routing_of :: "sm_env \<Rightarrow> string \<Rightarrow> dict" where
  "geo_routing_of env user = (case se_geo env of None \<Rightarrow> []
     | Some f \<Rightarrow> (case f user of Inl e \<Rightarrow> [] | Inr v \<Rightarrow> dict_of v))"

definition new_session :: "string \<Rightarrow> string \<Rightarrow> int \<Rightarrow> string \<Rightarrow> string \<Rightarrow> string \<Rightarrow> dict" where
  "new_session sid pool vm user node now = [(''session_id'', PStr sid), (''pool_id'', PStr pool), (''vm_id'', PInt vm),
     (''user_id'', PStr user), (''current_node'', PStr node), (''started_at'', PStr now), (''status'', PStr ''active''),
     (''checkpoints'', PList []), (''transfers'', PList [])]"

definition register_session :: "sm_env \<Rightarrow> string \<Rightarrow> string \<Rightarrow> int \<Rightarrow> string \<Rightarrow> string \<Rightarrow> sm \<Rightarrow> dict \<times> sm" where
  "register_session env sid pool vm user node w = (let w1 = sm_refresh w; geo = geo_routing_of env user;
       s = new_session sid pool vm user node (utc env w1);
       s' = (if geo \<noteq> [] then dset ''session_geo_routing'' (PDict geo) s else s)
     in (s', sm_save (put_session sid s' (sm_tick w1))))"

definition get_session :: "string \<Rightarrow> sm \<Rightarrow> dict option \<times> sm" where
  "get_session sid w = (mem_session (sm_refresh w) sid, sm_refresh w)"

definition get_current_node :: "string \<Rightarrow> sm \<Rightarrow> string result" where
  "get_current_node sid w = (case live_session w sid of None \<Rightarrow> Inl (session_not_found sid)
     | Some s \<Rightarrow> Inr (py_str (pget_or s ''current_node'' (PStr []))))"

definition is_active :: "dict \<Rightarrow> bool" where
  "is_active s = (sget s ''status'' = ''active'')"

definition session_matches :: "int \<Rightarrow> string \<Rightarrow> dict \<Rightarrow> bool result" where
  "session_matches vmid user s = (if \<not> is_active s then Inr False else
     rbind (if vmid > 0 then rbind (int_or0 (pget s ''vm_id'')) (\<lambda>i. Inr (i = vmid)) else Inr True)
       (\<lambda>ok. Inr (ok \<and> (user = [] \<or> stget s ''user_id'' = user))))"

fun first_match :: "('a \<Rightarrow> bool result) \<Rightarrow> 'a list \<Rightarrow> 'a option result" where
  "first_match p [] = Inr None"
| "first_match p (x # xs) = rbind (p x) (\<lambda>b. if b then Inr (Some x) else first_match p xs)"

definition find_active_session :: "string \<Rightarrow> int \<Rightarrow> string \<Rightarrow> sm \<Rightarrow> dict option result \<times> sm" where
  "find_active_session sid vmid user w = (let w1 = sm_refresh w; key = strip sid; u = strip user in
     if key \<noteq> [] then
       (case get_session key w1 of (found, w2) \<Rightarrow>
          (Inr (case found of None \<Rightarrow> None | Some s \<Rightarrow> if s \<noteq> [] \<and> is_active s then Some s else None), w2))
     else (first_match (session_matches vmid u) (vals (sd_sessions (sm_mem w1))), w1))"

definition set_session_geo_routing :: "string \<Rightarrow> py \<Rightarrow> sm \<Rightarrow> dict result \<times> sm" where
  "set_session_geo_routing sid geo w = (let w1 = sm_refresh w in
     case mem_session w1 (strip sid) of None \<Rightarrow> (Inl (session_not_found sid), w1)
     | Some s \<Rightarrow> let s' = (if is_dict geo \<and> truthy geo then dset ''session_geo_routing'' geo s else ddel ''session_geo_routing'' s)
         in (Inr s', sm_save (put_session (strip sid) s' w1)))"

definition end_session :: "sm_env \<Rightarrow> string \<Rightarrow> sm \<Rightarrow> dict result \<times> sm" where
  "end_session env sid w = (let w1 = sm_refresh w in
     case live_session w1 sid of None \<Rightarrow> (Inl (session_not_found sid), w1)
     | Some s \<Rightarrow> let s' = dset ''ended_at'' (PStr (utc env w1)) (dset ''status'' (PStr ''ended'') s)
         in (Inr s', sm_save (put_session sid s' (sm_tick w1))))"

definition list_sessions :: "string \<Rightarrow> sm \<Rightarrow> dict list \<times> sm" where
  "list_sessions status w = (let w1 = sm_refresh w; ss = vals (sd_sessions (sm_mem w1)) in
     (if status \<noteq> [] then filter (\<lambda>s. pget s ''status'' = PStr status) ss else ss, w1))"

subsection \<open>Checkpoints\<close>

text \<open>
  \<open>str(dir / name)\<close> of \<open>pathlib\<close>: empty and single-dot components vanish, an absolute name
  replaces the directory, and exactly two leading slashes stay.
\<close>

definition path_str :: "string \<Rightarrow> string \<Rightarrow> string" where
  "path_str dir name = (let parts = filter (\<lambda>c. c \<noteq> [] \<and> c \<noteq> ''.'') (split_char (CHR ''/'') name);
       rel = join_with ''/'' parts
     in if \<not> starts_with name ''/'' then dir @ ''/'' @ rel
        else if starts_with name ''//'' \<and> \<not> starts_with name ''///'' then ''//'' @ rel else ''/'' @ rel)"

definition pending_checkpoint :: "sm_env \<Rightarrow> string \<Rightarrow> dict \<Rightarrow> int \<Rightarrow> string \<Rightarrow> session_checkpoint" where
  "pending_checkpoint env sid s vm now = \<lparr>ck_session_id = sid, ck_pool_id = pget_or s ''pool_id'' (PStr []), ck_vm_id = vm,
     ck_user_id = pget_or s ''user_id'' (PStr []), ck_source_node = pget_or s ''current_node'' (PStr []),
     ck_checkpoint_path = path_str (se_ckpt_dir env) (sid @ ''.checkpoint''), ck_checkpointed_at = now,
     ck_status = ''pending'', ck_error = []\<rparr>"

definition save_vm_state :: "sm_env \<Rightarrow> session_checkpoint \<Rightarrow> sm \<Rightarrow> session_checkpoint \<times> sm" where
  "save_vm_state env ck w = (if \<not> se_has_save env then (ck\<lparr>ck_status := ''ready''\<rparr>, w)
     else (case sm_call env (SaveState (ck_vm_id ck) (ck_checkpoint_path ck)) w of
        (None, w') \<Rightarrow> (ck\<lparr>ck_status := ''ready''\<rparr>, w')
      | (Some e, w') \<Rightarrow> (ck\<lparr>ck_status := ''failed'', ck_error := exn_message e\<rparr>, w')))"

definition checkpoint_session :: "sm_env \<Rightarrow> string \<Rightarrow> sm \<Rightarrow> session_checkpoint result \<times> sm" where
  "checkpoint_session env sid w = (let w1 = sm_refresh w in
     case live_session w1 sid of None \<Rightarrow> (Inl (session_not_found sid), w1)
     | Some s \<Rightarrow> (case py_int (pget_or s ''vm_id'' (PInt 0)) of Inl e \<Rightarrow> (Inl e, w1)
     | Inr vm \<Rightarrow> (case save_vm_state env (pending_checkpoint env sid s vm (utc env w1)) (sm_tick w1) of (ck, w2) \<Rightarrow>
         (case append_to ''checkpoints'' (PDict (checkpoint_dict ck)) s of Inl e \<Rightarrow> (Inl e, w2)
          | Inr s' \<Rightarrow> (Inr ck, sm_save (put_session sid (dset ''last_checkpoint'' (PDict (checkpoint_dict ck)) s') w2))))))"

subsection \<open>Transfers\<close>

definition started_event :: "string \<Rightarrow> dict \<Rightarrow> string \<Rightarrow> string \<Rightarrow> dict" where
  "started_event sid s node now = [(''session_id'', PStr sid), (''pool_id'', PStr (sget s ''pool_id'')),
     (''user_id'', PStr (sget s ''user_id'')), (''source_node'', PStr (sget s ''current_node'')), (''target_node'', PStr node),
     (''status'', PStr ''started''), (''started_at'', PStr now)]"

definition ended_event :: "dict \<Rightarrow> session_transfer \<Rightarrow> string \<Rightarrow> dict" where
  "ended_event s t finished = [(''session_id'', PStr (st_session_id t)), (''pool_id'', PStr (sget s ''pool_id'')),
     (''user_id'', PStr (sget s ''user_id'')), (''source_node'', PStr (st_source_node t)), (''target_node'', PStr (st_target_node t)),
     (''status'', PStr (st_status t)), (''started_at'', PStr (st_started_at t)), (''completed_at'', PStr finished),
     (''duration_seconds'', PFloat (st_duration_seconds t))]"

text \<open>The two decimals of \<open>f"{x:.2f}"\<close>, for a value that is not negative; a tie goes to the even digit.\<close>

definition round_even :: "rat \<Rightarrow> int" where
  "round_even r = (let f = \<lfloor>r\<rfloor>; d = r - of_int f in if d < 1/2 \<or> (d = 1/2 \<and> even f) then f else f + 1)"

definition fixed2 :: "rat \<Rightarrow> string" where
  "fixed2 r = (let n = nat (round_even (100 * r)) in
     nat_str (n div 100) @ ''.'' @ [digit_char (n mod 100 div 10), digit_char (n mod 10)])"

definition slow_alert :: "sm_env \<Rightarrow> dict \<Rightarrow> session_transfer \<Rightarrow> string \<Rightarrow> dict" where
  "slow_alert env s t now = (let limit = slow_threshold (se_threshold env) in
     [(''session_id'', PStr (st_session_id t)), (''user_id'', PStr (sget s ''user_id'')), (''severity'', PStr ''warning''),
     (''metric'', PStr ''handover_duration_seconds''), (''threshold'', PFloat limit),
     (''current_value'', PFloat (st_duration_seconds t)),
     (''message'', PStr (''session '' @ st_session_id t @ '' handover took '' @ fixed2 (st_duration_seconds t) @ ''s > ''
        @ fixed2 limit @ ''s'')),
     (''fired_at'', PStr now)])"

text \<open>A checkpoint to transfer: the last one when it is ready, otherwise a new one.\<close>

definition fresh_checkpoint :: "sm_env \<Rightarrow> string \<Rightarrow> sm \<Rightarrow> dict result \<times> sm" where
  "fresh_checkpoint env sid w = (case checkpoint_session env sid w of (Inl e, w') \<Rightarrow> (Inl e, w')
     | (Inr ck, w') \<Rightarrow> if ck_status ck \<noteq> ''ready''
         then (Inl (RuntimeError (''Checkpoint failed for session '' @ repr_str sid)), w') else (Inr (checkpoint_dict ck), w'))"

definition ensure_checkpoint :: "sm_env \<Rightarrow> string \<Rightarrow> dict \<Rightarrow> sm \<Rightarrow> dict result \<times> sm" where
  "ensure_checkpoint env sid s w = (let lc = pget s ''last_checkpoint'' in
     if \<not> truthy lc then fresh_checkpoint env sid w
     else if \<not> is_dict lc then (Inl (AttributeError ''object has no attribute get''), w)
     else if pget (dict_of lc) ''status'' \<noteq> PStr ''ready'' then fresh_checkpoint env sid w
     else (Inr (dict_of lc), w))"

definition begin_transfer :: "sm_env \<Rightarrow> string \<Rightarrow> dict \<Rightarrow> string \<Rightarrow> sm \<Rightarrow> sm" where
  "begin_transfer env sid s node w = emit_audit env ''session_handover_started'' ''success''
     (sm_save (record_handover_event (started_event sid s node (utc env w)) (sm_tick w)))"

text \<open>Copying the checkpoint and restoring the VM on the target; an exception of either is caught.\<close>

definition restore_step :: "sm_env \<Rightarrow> dict \<Rightarrow> py \<Rightarrow> sm \<Rightarrow> exn option \<times> sm" where
  "restore_step env s path w = (if \<not> se_has_restore env then (None, w)
     else (case py_int (pget_or s ''vm_id'' (PInt 0)) of Inl e \<Rightarrow> (Some e, w) | Inr vm \<Rightarrow> sm_call env (RestoreState vm path) w))"

definition move_checkpoint :: "sm_env \<Rightarrow> dict \<Rightarrow> string \<Rightarrow> py \<Rightarrow> sm \<Rightarrow> exn option \<times> sm" where
  "move_checkpoint env s node path w =
     (case (if se_has_copy env then sm_call env (CopyCheckpoint path node path) w else (None, w)) of
        (Some e, w') \<Rightarrow> (Some e, w') | (None, w') \<Rightarrow> restore_step env s path w')"

definition complete_transfer :: "sm_env \<Rightarrow> string \<Rightarrow> dict \<Rightarrow> session_transfer \<Rightarrow> rat \<Rightarrow> sm \<Rightarrow> session_transfer \<times> dict \<times> sm" where
  "complete_transfer env sid s t duration w = (let w1 = sm_tick w;
       t' = t\<lparr>st_status := ''completed'', st_completed_at := utc env w1, st_duration_seconds := duration\<rparr>;
       s' = dset ''current_node'' (PStr (st_target_node t)) s;
       w2 = put_session sid s' (sm_tick w1);
       w3 = emit_audit env ''session_handover_completed'' ''success''
              (record_handover_event (ended_event s' t' (st_completed_at t')) w2);
       limit = slow_threshold (se_threshold env);
       w4 = (if limit > 0 \<and> duration > limit then record_handover_alert (slow_alert env s' t' (utc env w3)) (sm_tick w3) else w3)
     in (t', s', w4))"

definition fail_transfer :: "sm_env \<Rightarrow> dict \<Rightarrow> session_transfer \<Rightarrow> exn \<Rightarrow> rat \<Rightarrow> sm \<Rightarrow> session_transfer \<times> dict \<times> sm" where
  "fail_transfer env s t e duration w = (let w1 = sm_tick w;
       t' = t\<lparr>st_status := ''failed'', st_error := exn_message e, st_duration_seconds := duration\<rparr>;
       event = ended_event s t' (utc env w1) @ [(''error'', PStr (exn_message e))]
     in (t', s, emit_audit env ''session_handover_failed'' ''error'' (record_handover_event event (sm_tick w1))))"

definition attempt_transfer ::
  "sm_env \<Rightarrow> string \<Rightarrow> string \<Rightarrow> rat \<Rightarrow> py \<Rightarrow> dict \<Rightarrow> sm \<Rightarrow> session_transfer result \<times> sm" where
  "attempt_transfer env sid node start path s w =
     (let t = \<lparr>st_session_id = sid, st_source_node = py_str (pget_or s ''current_node'' (PStr [])), st_target_node = node,
             st_checkpoint_path = path, st_started_at = utc env w, st_completed_at = [], st_status = ''in_progress'',
             st_error = [], st_duration_seconds = 0\<rparr>;
          (failure, w1) = move_checkpoint env s node path (sm_tick w);
          duration = max 0 (mono_clock env w1 - start);
          (t', s', w2) = (case failure of None \<Rightarrow> complete_transfer env sid s t duration w1
             | Some e \<Rightarrow> fail_transfer env s t e duration w1)
      in (case append_to ''transfers'' (PDict (transfer_dict t')) s' of Inl e \<Rightarrow> (Inl e, w2)
          | Inr s'' \<Rightarrow> (Inr t', sm_save (put_session sid s'' w2))))"

definition transfer_session :: "sm_env \<Rightarrow> string \<Rightarrow> string \<Rightarrow> sm \<Rightarrow> session_transfer result \<times> sm" where
  "transfer_session env sid node w = (let w1 = sm_refresh w in
     case live_session w1 sid of None \<Rightarrow> (Inl (session_not_found sid), w1)
     | Some s0 \<Rightarrow> let start = mono_clock env w1 in
     (case ensure_checkpoint env sid s0 (begin_transfer env sid s0 node (sm_tick w1)) of (Inl e, w2) \<Rightarrow> (Inl e, w2)
     | (Inr ckpt, w2) \<Rightarrow> let w3 = sm_refresh w2 in
     (case mem_session w3 sid of None \<Rightarrow> (Inl (session_not_found sid), w3)
     | Some s \<Rightarrow> (case map_of ckpt ''checkpoint_path'' of None \<Rightarrow> (Inl (KeyError ''checkpoint_path''), w3)
     | Some path \<Rightarrow> attempt_transfer env sid node start path s w3))))"

subsection \<open>Reports\<close>

definition event_matches :: "string \<Rightarrow> string \<Rightarrow> dict \<Rightarrow> bool" where
  "event_matches sid user e = ((strip sid = [] \<or> stget e ''session_id'' = strip sid) \<and> (strip user = [] \<or> stget e ''user_id'' = strip user))"

definition alerting :: "sm_env \<Rightarrow> dict \<Rightarrow> bool result" where
  "alerting env e = rbind (py_float (por (pget e ''duration_seconds'') (PFloat 0))) (\<lambda>d. Inr (d > slow_threshold (se_threshold env)))"

definition event_wanted :: "sm_env \<Rightarrow> string \<Rightarrow> string \<Rightarrow> string \<Rightarrow> bool \<Rightarrow> dict \<Rightarrow> bool result" where
  "event_wanted env sid user status only_alerting e =
     (if event_matches sid user e \<and> (lower (strip status) = [] \<or> lower (stget e ''status'') = lower (strip status))
      then (if only_alerting then alerting env e else Inr True) else Inr False)"

fun filter_r :: "('a \<Rightarrow> bool result) \<Rightarrow> 'a list \<Rightarrow> 'a list result" where
  "filter_r p [] = Inr []"
| "filter_r p (x # xs) = rbind (p x) (\<lambda>b. rbind (filter_r p xs) (\<lambda>ys. Inr (if b then x # ys else ys)))"

definition list_handover_events ::
  "sm_env \<Rightarrow> string \<Rightarrow> string \<Rightarrow> string \<Rightarrow> bool \<Rightarrow> sm \<Rightarrow> dict list result \<times> sm" where
  "list_handover_events env sid user status only_alerting w = (let w1 = sm_refresh w in
     (rbind (filter_r (event_wanted env sid user status only_alerting) (sd_events (sm_mem w1)))
        (\<lambda>es. Inr (sort_key_desc (\<lambda>e. str_or (por (pget e ''started_at'') (pget e ''completed_at''))) es)), w1))"

definition list_handover_alerts :: "string \<Rightarrow> string \<Rightarrow> sm \<Rightarrow> dict list \<times> sm" where
  "list_handover_alerts sid user w = (let w1 = sm_refresh w in
     (sort_key_desc (\<lambda>a. sget a ''fired_at'') (filter (event_matches sid user) (sd_alerts (sm_mem w1))), w1))"

end
