(* ===== verification/SessionInvariant.thy ===== *)
theory SessionInvariant
  imports SessionManager
begin

text \<open>
  The session manager as a machine and its invariant: memory and file agree between operations, and
  the transfers a session lists form a walk that ends at its current node.
\<close>

subsection \<open>The machine\<close>

datatype sm_op =
    SmRegister string string int string string
  | SmCheckpoint string
  | SmTransfer string string
  | SmGeo string py
  | SmEnd string
  | SmFind string int string
  | SmRead

fun sm_exec :: "sm_env \<Rightarrow> sm \<Rightarrow> sm_op \<Rightarrow> sm" where
  "sm_exec env w (SmRegister sid pool vm user node) = snd (register_session env sid pool vm user node w)"
| "sm_exec env w (SmCheckpoint sid) = snd (checkpoint_session env sid w)"
| "sm_exec env w (SmTransfer sid node) = snd (transfer_session env sid node w)"
| "sm_exec env w (SmGeo sid geo) = snd (set_session_geo_routing sid geo w)"
| "sm_exec env w (SmEnd sid) = snd (end_session env sid w)"
| "sm_exec env w (SmFind sid vm user) = snd (find_active_session sid vm user w)"
| "sm_exec env w SmRead = sm_refresh w"

subsection \<open>Effects on memory, file and log\<close>

lemma sm_simps [simp]:
  "sm_mem (sm_refresh w) = sm_file w" "sm_file (sm_refresh w) = sm_file w" "sm_log (sm_refresh w) = sm_log w"
  "sm_mem (sm_save w) = sm_mem w" "sm_file (sm_save w) = sm_mem w" "sm_log (sm_save w) = sm_log w"
  "sm_mem (sm_tick w) = sm_mem w" "sm_file (sm_tick w) = sm_file w" "sm_log (sm_tick w) = sm_log w"
  "sm_mem (snd (sm_call env c w)) = sm_mem w" "sm_file (snd (sm_call env c w)) = sm_file w"
  "sm_log (snd (sm_call env c w)) = sm_log w @ [c]" "fst (sm_call env c w) = se_provider env (sm_log w) c"
  "sm_mem (emit_audit env k a w) = sm_mem w" "sm_file (emit_audit env k a w) = sm_file w"
  "sm_log (emit_audit env k a w) = sm_log w @ (if se_has_audit env then [Audit k a] else [])"
  by (simp_all add: sm_refresh_def sm_save_def sm_tick_def sm_call_def emit_audit_def)

lemma sm_put_simps [simp]:
  "sd_sessions (sm_mem (put_session sid s w)) = dset sid s (sd_sessions (sm_mem w))"
  "sd_events (sm_mem (put_session sid s w)) = sd_events (sm_mem w)" "sd_alerts (sm_mem (put_session sid s w)) = sd_alerts (sm_mem w)"
  "sm_file (put_session sid s w) = sm_file w" "sm_log (put_session sid s w) = sm_log w"
  "sd_sessions (sm_mem (record_handover_event e w)) = sd_sessions (sm_mem w)"
  "sd_events (sm_mem (record_handover_event e w)) = sd_events (sm_mem w) @ [e]"
  "sd_alerts (sm_mem (record_handover_event e w)) = sd_alerts (sm_mem w)"
  "sm_file (record_handover_event e w) = sm_file w" "sm_log (record_handover_event e w) = sm_log w"
  "sd_sessions (sm_mem (record_handover_alert e w)) = sd_sessions (sm_mem w)"
  "sd_events (sm_mem (record_handover_alert e w)) = sd_events (sm_mem w)"
  "sd_alerts (sm_mem (record_handover_alert e w)) = sd_alerts (sm_mem w) @ [e]"
  "sm_file (record_handover_alert e w) = sm_file w" "sm_log (record_handover_alert e w) = sm_log w"
  by (simp_all add: put_session_def record_handover_event_def record_handover_alert_def)

subsection \<open>The invariant\<close>

text \<open>Following the transfers from a node: each starts where the session is, a completed one moves it.\<close>

fun walk :: "string \<Rightarrow> py list \<Rightarrow> string option" where
  "walk n [] = Some n"
| "walk n (t # ts) = (if pget (dict_of t) ''source_node'' = PStr n
     then walk (if pget (dict_of t) ''status'' = PStr ''completed'' then py_str (pget (dict_of t) ''target_node'') else n) ts
     else None)"

lemma walk_append: "walk n (ts @ us) = (case walk n ts of None \<Rightarrow> None | Some m \<Rightarrow> walk m us)"
  by (induction n ts rule: walk.induct) auto

definition session_ok :: "string \<Rightarrow> dict \<Rightarrow> bool" where
  "session_ok sid s = (map_of s ''session_id'' = Some (PStr sid)
     \<and> (\<exists>i. map_of s ''vm_id'' = Some (PInt i))
     \<and> pget s ''status'' \<in> {PStr ''active'', PStr ''ended''}
     \<and> (\<exists>cs. map_of s ''checkpoints'' = Some (PList cs))
     \<and> (\<exists>n0 ts n. map_of s ''transfers'' = Some (PList ts) \<and> map_of s ''current_node'' = Some (PStr n) \<and> walk n0 ts = Some n)
     \<and> (map_of s ''last_checkpoint'' = None \<or> (\<exists>c. map_of s ''last_checkpoint'' = Some (PDict c) \<and> has_key c ''checkpoint_path'')))"

definition EVENT_STATUSES :: "py set" where
  "EVENT_STATUSES = {PStr ''started'', PStr ''completed'', PStr ''failed''}"

definition sd_inv :: "sm_data \<Rightarrow> bool" where
  "sd_inv d = (wf_dict (sd_sessions d) \<and> (\<forall>(k, s) \<in> set (sd_sessions d). session_ok k s)
     \<and> (\<forall>e \<in> set (sd_events d). pget e ''status'' \<in> EVENT_STATUSES))"

definition sm_inv :: "sm \<Rightarrow> bool" where
  "sm_inv w = (sm_mem w = sm_file w \<and> sd_inv (sm_file w))"

lemma session_ok_dset [simp]:
  "k \<notin> {''session_id'', ''vm_id'', ''status'', ''checkpoints'', ''transfers'', ''current_node'', ''last_checkpoint''}
     \<Longrightarrow> session_ok sid (dset k v s) = session_ok sid s"
proof -
  assume "k \<notin> {''session_id'', ''vm_id'', ''status'', ''checkpoints'', ''transfers'', ''current_node'', ''last_checkpoint''}"
  then have "''session_id'' \<noteq> k" "''vm_id'' \<noteq> k" "''status'' \<noteq> k" "''checkpoints'' \<noteq> k" "''transfers'' \<noteq> k" "''current_node'' \<noteq> k"
    "''last_checkpoint'' \<noteq> k" by auto
  then show ?thesis by (simp add: session_ok_def)
qed

lemma session_ok_nonempty: "session_ok sid s \<Longrightarrow> s \<noteq> []"
  by (auto simp: session_ok_def)

lemma inv_session: "sd_inv (sm_mem w) \<Longrightarrow> mem_session w sid = Some s \<Longrightarrow> session_ok sid s"
  by (auto simp: sd_inv_def mem_session_def dest: map_of_SomeD)

lemma live_iff: "sd_inv (sm_mem w) \<Longrightarrow> live_session w sid = mem_session w sid"
  by (auto simp: live_session_def dest: inv_session session_ok_nonempty split: option.split)

lemma sd_inv_put: "sd_inv (sm_mem w) \<Longrightarrow> session_ok sid s \<Longrightarrow> sd_inv (sm_mem (put_session sid s w))"
  by (auto simp: sd_inv_def set_dset)

lemma sd_inv_event:
  "sd_inv (sm_mem w) \<Longrightarrow> pget e ''status'' \<in> EVENT_STATUSES \<Longrightarrow> sd_inv (sm_mem (record_handover_event e w))"
  by (auto simp: sd_inv_def)

lemma sd_inv_alert: "sd_inv (sm_mem w) \<Longrightarrow> sd_inv (sm_mem (record_handover_alert a w))"
  by (auto simp: sd_inv_def)

lemma new_session_ok: "session_ok sid (new_session sid pool vm user node now)"
  by (simp add: session_ok_def new_session_def)

lemma append_ok: "map_of s k = Some (PList xs) \<Longrightarrow> append_to k v s = Inr (dset k (PList (xs @ [v])) s)"
  by (simp add: append_to_def)

subsection \<open>A checkpoint changes nothing but the checkpoints\<close>

text \<open>
  What a checkpoint of a known session does, in a well-formed state: the session keeps its entries but
  for the list of checkpoints and the last one, and nothing else changes.
\<close>

definition checkpointed :: "session_checkpoint \<Rightarrow> dict \<Rightarrow> dict \<Rightarrow> bool" where
  "checkpointed ck s s' = (\<exists>xs. s' = dset ''last_checkpoint'' (PDict (checkpoint_dict ck)) (dset ''checkpoints'' (PList xs) s))"

lemma checkpointed_other:
  "checkpointed ck s s' \<Longrightarrow> k \<notin> {''checkpoints'', ''last_checkpoint''} \<Longrightarrow> map_of s' k = map_of s k"
  by (auto simp: checkpointed_def)

lemma checkpointed_last: "checkpointed ck s s' \<Longrightarrow> map_of s' ''last_checkpoint'' = Some (PDict (checkpoint_dict ck))"
  by (auto simp: checkpointed_def)

lemma checkpointed_ok: "checkpointed ck s s' \<Longrightarrow> session_ok sid s \<Longrightarrow> session_ok sid s'"
  by (auto simp: checkpointed_def session_ok_def checkpoint_dict_def has_key_def)

lemma save_vm_state_effect:
  assumes "save_vm_state env ck w = (ck', w')"
  shows "ck_status ck' \<in> {''ready'', ''failed''}" "sm_mem w' = sm_mem w" "sm_file w' = sm_file w"
    "\<exists>log. sm_log w' = sm_log w @ log \<and> set log \<subseteq> {SaveState vm p | vm p. True}"
    "\<not> se_has_save env \<Longrightarrow> ck_status ck' = ''ready'' \<and> sm_log w' = sm_log w"
  using assms by (auto simp: save_vm_state_def sm_call_def split: if_splits option.splits prod.splits)

lemma checkpoint_outcome:
  assumes inv: "sd_inv (sm_file w)" and s: "map_of (sd_sessions (sm_file w)) sid = Some s"
  obtains ck s' w' where "checkpoint_session env sid w = (Inr ck, w')" "checkpointed ck s s'"
    "ck_status ck \<in> {''ready'', ''failed''}"
    "sm_file w' = (sm_file w)\<lparr>sd_sessions := dset sid s' (sd_sessions (sm_file w))\<rparr>" "sm_mem w' = sm_file w'"
    "\<exists>log. sm_log w' = sm_log w @ log \<and> set log \<subseteq> {SaveState vm p | vm p. True}"
    "\<not> se_has_save env \<longrightarrow> ck_status ck = ''ready'' \<and> sm_log w' = sm_log w"
proof -
  have ok: "session_ok sid s" using inv s by (auto simp: sd_inv_def dest: map_of_SomeD)
  have live: "live_session (sm_refresh w) sid = Some s"
    using s session_ok_nonempty [OF ok] by (simp add: live_session_def mem_session_def)
  from ok obtain vm xs where vm: "map_of s ''vm_id'' = Some (PInt vm)" and xs: "map_of s ''checkpoints'' = Some (PList xs)"
    by (auto simp: session_ok_def)
  obtain ck w2 where run: "save_vm_state env (pending_checkpoint env sid s vm (utc env (sm_refresh w))) (sm_tick (sm_refresh w)) = (ck, w2)"
    by (cases "save_vm_state env (pending_checkpoint env sid s vm (utc env (sm_refresh w))) (sm_tick (sm_refresh w))")
  note eff = save_vm_state_effect [OF run]
  define s' where "s' = dset ''last_checkpoint'' (PDict (checkpoint_dict ck)) (dset ''checkpoints'' (PList (xs @ [PDict (checkpoint_dict ck)])) s)"
  show ?thesis
  proof (rule that)
    show "checkpoint_session env sid w = (Inr ck, sm_save (put_session sid s' w2))"
      by (simp add: checkpoint_session_def live vm pget_or_def Let_def append_ok [OF xs] s'_def run)
    show "checkpointed ck s s'" by (auto simp: checkpointed_def s'_def)
    show "sm_file (sm_save (put_session sid s' w2)) = (sm_file w)\<lparr>sd_sessions := dset sid s' (sd_sessions (sm_file w))\<rparr>"
      by (simp add: put_session_def eff)
  qed (use eff in simp_all)
qed

subsection \<open>What a transfer does\<close>

lemma dset_same: "map_of d k = Some v \<Longrightarrow> dset k v d = d"
  by (induction d) (auto split: if_splits)

lemma dset_dset: "dset k v (dset k u d) = dset k v d"
  by (induction d) auto

text \<open>The state after a part of a transfer: only the session \<open>sid\<close> changed, and not its place.\<close>

definition same_place :: "dict \<Rightarrow> dict \<Rightarrow> bool" where
  "same_place s s' = (\<forall>k. k \<notin> {''checkpoints'', ''last_checkpoint''} \<longrightarrow> map_of s' k = map_of s k)"

lemma ensure_outcome:
  assumes inv: "sd_inv (sm_file w)" and mem: "sm_mem w = sm_file w" and s: "map_of (sd_sessions (sm_file w)) sid = Some s"
    and run: "ensure_checkpoint env sid s w = (r, w')"
  obtains s' where "sm_file w' = (sm_file w)\<lparr>sd_sessions := dset sid s' (sd_sessions (sm_file w))\<rparr>" "sm_mem w' = sm_file w'"
    "same_place s s'" "session_ok sid s'"
    "\<And>c. r = Inr c \<Longrightarrow> has_key c ''checkpoint_path'' \<and> map_of s' ''last_checkpoint'' = Some (PDict c) \<and> pget c ''status'' = PStr ''ready''"
    "\<exists>log. sm_log w' = sm_log w @ log \<and> set log \<subseteq> {SaveState vm p | vm p. True}"
    "\<not> se_has_save env \<Longrightarrow> \<not> isl r \<and> sm_log w' = sm_log w"
proof (cases "ensure_checkpoint env sid s w = fresh_checkpoint env sid w")
  case True
  obtain ck s' w1 where ck: "checkpoint_session env sid w = (Inr ck, w1)" "checkpointed ck s s'"
    "sm_file w1 = (sm_file w)\<lparr>sd_sessions := dset sid s' (sd_sessions (sm_file w))\<rparr>" "sm_mem w1 = sm_file w1"
    "\<exists>log. sm_log w1 = sm_log w @ log \<and> set log \<subseteq> {SaveState vm p | vm p. True}"
    "\<not> se_has_save env \<longrightarrow> ck_status ck = ''ready'' \<and> sm_log w1 = sm_log w"
    by (rule checkpoint_outcome [OF inv s, of env])
  have w': "w' = w1" using run unfolding True by (auto simp: fresh_checkpoint_def ck split: if_splits)
  have ok: "session_ok sid s" using inv s by (auto simp: sd_inv_def dest: map_of_SomeD)
  show ?thesis
  proof (rule that)
    show "same_place s s'" using ck(2) by (simp add: same_place_def checkpointed_other)
    show "session_ok sid s'" using ck(2) ok by (rule checkpointed_ok)
    show "has_key c ''checkpoint_path'' \<and> map_of s' ''last_checkpoint'' = Some (PDict c) \<and> pget c ''status'' = PStr ''ready''" if "r = Inr c" for c
      using run that unfolding True
      by (auto simp: fresh_checkpoint_def ck checkpoint_dict_def has_key_def checkpointed_last [OF ck(2)] split: if_splits)
    show "\<not> isl r \<and> sm_log w' = sm_log w" if "\<not> se_has_save env"
      using run ck(6) that unfolding True by (auto simp: fresh_checkpoint_def ck)
  qed (use ck in \<open>simp_all add: w'\<close>)
next
  case False
  have ok: "session_ok sid s" using inv s by (auto simp: sd_inv_def dest: map_of_SomeD)
  from False ok obtain c where c: "map_of s ''last_checkpoint'' = Some (PDict c)" "has_key c ''checkpoint_path''"
    "pget c ''status'' = PStr ''ready''" "r = Inr c" "w' = w"
    using run by (auto simp: ensure_checkpoint_def session_ok_def pget_def Let_def split: if_splits)
  show ?thesis
  proof (rule that [of s])
    show "sm_file w' = (sm_file w)\<lparr>sd_sessions := dset sid s (sd_sessions (sm_file w))\<rparr>"
      by (simp add: dset_same [OF s] c)
  qed (use c ok mem in \<open>auto simp: same_place_def\<close>)
qed

definition is_move :: "sm_call \<Rightarrow> bool" where
  "is_move c = (case c of CopyCheckpoint p n q \<Rightarrow> True | RestoreState vm p \<Rightarrow> True | _ \<Rightarrow> False)"

lemma move_effect:
  assumes "move_checkpoint env s node path w = (f, w')"
  shows "sm_mem w' = sm_mem w" "sm_file w' = sm_file w" "\<exists>log. sm_log w' = sm_log w @ log \<and> (\<forall>c \<in> set log. is_move c)"
    "\<not> se_has_copy env \<Longrightarrow> \<not> se_has_restore env \<Longrightarrow> f = None \<and> w' = w"
  using assms by (auto simp: move_checkpoint_def restore_step_def sm_call_def is_move_def
      split: if_splits option.splits prod.splits sum.splits)

text \<open>The end of a transfer: its record, the session it leaves and the state before the last save.\<close>

lemma end_effect:
  assumes "(t', s', w') = (case failure of None \<Rightarrow> complete_transfer env sid s t duration w | Some e \<Rightarrow> fail_transfer env s t e duration w)"
    and "map_of (sd_sessions (sm_mem w)) sid = Some s"
  shows "st_status t' = (if failure = None then ''completed'' else ''failed'')"
    and "s' = (if failure = None then dset ''current_node'' (PStr (st_target_node t)) s else s)"
    and "st_source_node t' = st_source_node t" "st_target_node t' = st_target_node t"
    and "sd_sessions (sm_mem w') = dset sid s' (sd_sessions (sm_mem w))"
    and "\<exists>e. sd_events (sm_mem w') = sd_events (sm_mem w) @ [e] \<and> pget e ''status'' = PStr (st_status t')"
    and "\<exists>log. sm_log w' = sm_log w @ log \<and> set log \<subseteq> {Audit k a | k a. True}"
  using assms by (auto simp: complete_transfer_def fail_transfer_def Let_def ended_event_def dset_same split: option.splits)

lemma session_ok_same_place:
  "same_place s s' \<Longrightarrow> map_of s' ''current_node'' = map_of s ''current_node'' \<and> map_of s' ''transfers'' = map_of s ''transfers''"
  by (simp add: same_place_def)

lemma session_ok_transfer:
  assumes ok: "session_ok sid s" and n: "map_of s ''current_node'' = Some (PStr n)" and ts: "map_of s ''transfers'' = Some (PList ts)"
    and t: "st_source_node t = n"
    and s': "s' = (if st_status t = ''completed'' then dset ''current_node'' (PStr (st_target_node t)) s else s)"
  shows "session_ok sid (dset ''transfers'' (PList (ts @ [PDict (transfer_dict t)])) s')"
proof -
  from ok n ts obtain n0 where "walk n0 ts = Some n" by (auto simp: session_ok_def)
  then have "walk n0 (ts @ [PDict (transfer_dict t)]) = Some (if st_status t = ''completed'' then st_target_node t else n)"
    by (simp add: walk_append transfer_dict_def t)
  with ok n show ?thesis by (auto simp: session_ok_def s')
qed

lemma begin_effect:
  "sm_mem (begin_transfer env sid s node w) = sm_file (begin_transfer env sid s node w)"
  "sm_file (begin_transfer env sid s node w)
     = (sm_mem w)\<lparr>sd_events := sd_events (sm_mem w) @ [started_event sid s node (utc env w)]\<rparr>"
  by (simp_all add: begin_transfer_def record_handover_event_def)

text \<open>The second half, from a well-formed state whose memory and file agree.\<close>

lemma attempt_effect:
  assumes fi: "sd_inv (sm_file w)" and mem: "sm_mem w = sm_file w" and s: "map_of (sd_sessions (sm_file w)) sid = Some s"
    and n: "map_of s ''current_node'' = Some (PStr n)"
  obtains t s' w' where "attempt_transfer env sid node start path s w = (Inr t, w')" "sm_inv w'"
    "st_status t \<in> {''completed'', ''failed''}" "st_source_node t = n"
    "sd_sessions (sm_file w') = dset sid s' (sd_sessions (sm_file w))" "session_ok sid s'"
    "map_of s' ''current_node'' = Some (PStr (if st_status t = ''completed'' then node else n))"
    "\<forall>k. k \<notin> {''current_node'', ''transfers''} \<longrightarrow> map_of s' k = map_of s k"
    "\<exists>e. sd_events (sm_file w') = sd_events (sm_file w) @ [e] \<and> pget e ''status'' = PStr (st_status t)"
    "\<exists>log. sm_log w' = sm_log w @ log \<and> (\<forall>c \<in> set log. is_move c \<or> (\<exists>k a. c = Audit k a))"
    "\<not> se_has_copy env \<Longrightarrow> \<not> se_has_restore env
       \<Longrightarrow> st_status t = ''completed'' \<and> (\<exists>log. sm_log w' = sm_log w @ log \<and> set log \<subseteq> {Audit k a | k a. True})"
proof -
  have ok: "session_ok sid s" using fi s by (auto simp: sd_inv_def dest: map_of_SomeD)
  then obtain ts where ts: "map_of s ''transfers'' = Some (PList ts)" by (auto simp: session_ok_def)
  define t0 where "t0 = \<lparr>st_session_id = sid, st_source_node = py_str (pget_or s ''current_node'' (PStr [])), st_target_node = node,
     st_checkpoint_path = path, st_started_at = utc env w, st_completed_at = [], st_status = ''in_progress'', st_error = [],
     st_duration_seconds = 0\<rparr>"
  obtain f w1 where mv: "move_checkpoint env s node path (sm_tick w) = (f, w1)" by (cases "move_checkpoint env s node path (sm_tick w)")
  note M = move_effect [OF mv]
  define d where "d = max 0 (mono_clock env w1 - start)"
  obtain t s1 w2 where en: "(t, s1, w2) = (case f of None \<Rightarrow> complete_transfer env sid s t0 d w1 | Some e \<Rightarrow> fail_transfer env s t0 e d w1)"
    by (metis surj_pair)
  have "map_of (sd_sessions (sm_mem w1)) sid = Some s" using M mem s by simp
  note E = end_effect [OF en this]
  have src: "st_source_node t = n" "st_target_node t = node" using E n by (simp_all add: t0_def pget_or_def)
  have st: "st_status t = ''completed'' \<longleftrightarrow> f = None" using E(1) by simp
  have s1: "map_of s1 ''transfers'' = Some (PList ts)" using E(2) ts by simp
  define s' where "s' = dset ''transfers'' (PList (ts @ [PDict (transfer_dict t)])) s1"
  have s'ok: "session_ok sid s'"
    unfolding s'_def by (rule session_ok_transfer [OF ok n ts src(1)]) (use E(2) st src in \<open>simp add: E(4)\<close>)
  have run: "attempt_transfer env sid node start path s w = (Inr t, sm_save (put_session sid s' w2))"
    unfolding attempt_transfer_def Let_def t0_def [symmetric] mv prod.case d_def [symmetric] en [symmetric]
    by (simp add: append_ok [OF s1] s'_def)
  obtain e where e: "sd_events (sm_mem w2) = sd_events (sm_file w) @ [e]" "pget e ''status'' = PStr (st_status t)"
    using E(6) M mem by auto
  show ?thesis
  proof (rule that [OF run])
    show "st_status t \<in> {''completed'', ''failed''}" using E(1) by simp
    then have "pget e ''status'' \<in> EVENT_STATUSES" by (auto simp: e EVENT_STATUSES_def)
    then show "sm_inv (sm_save (put_session sid s' w2))"
      using fi s'ok M mem by (auto simp: sm_inv_def sd_inv_def E(5) e set_dset dset_dset)
    show "map_of s' ''current_node'' = Some (PStr (if st_status t = ''completed'' then node else n))"
      using E(2) st n by (auto simp: s'_def t0_def)
    show "\<forall>k. k \<notin> {''current_node'', ''transfers''} \<longrightarrow> map_of s' k = map_of s k"
      using E(2) by (auto simp: s'_def)
  qed (use M E(7) mem src s'ok e st in \<open>auto simp: E(5) dset_dset\<close>)
qed

text \<open>The first half: the state in which the attempt starts, or the exception that prevents it.\<close>

lemma prepare_effect:
  assumes inv: "sm_inv w" and s0: "map_of (sd_sessions (sm_file w)) sid = Some s0"
  obtains (fails) e s w' where "transfer_session env sid node w = (Inl e, w')" "sm_inv w'"
      "sd_sessions (sm_file w') = dset sid s (sd_sessions (sm_file w))" "same_place s0 s" "session_ok sid s"
      "se_has_save env"
    | (starts) s path w' start where
      "transfer_session env sid node w = attempt_transfer env sid node start path s w'" "sd_inv (sm_file w')" "sm_mem w' = sm_file w'"
      "sd_sessions (sm_file w') = dset sid s (sd_sessions (sm_file w))" "same_place s0 s" "session_ok sid s"
      "\<exists>log. sm_log w' = sm_log w @ log \<and> (\<not> se_has_save env \<longrightarrow> set log \<subseteq> {Audit k a | k a. True})"
proof -
  let ?f = "sm_file w"
  from inv have fi: "sd_inv ?f" by (simp add: sm_inv_def)
  then have ok0: "session_ok sid s0" using s0 by (auto simp: sd_inv_def dest: map_of_SomeD)
  define w1 where "w1 = sm_tick (sm_refresh w)"
  define b where "b = begin_transfer env sid s0 node w1"
  have bf: "sm_file b = ?f\<lparr>sd_events := sd_events ?f @ [started_event sid s0 node (utc env w1)]\<rparr>" and bm: "sm_mem b = sm_file b"
    by (simp_all add: b_def begin_effect w1_def)
  have bi: "sd_inv (sm_file b)" using fi by (auto simp: bf sd_inv_def started_event_def EVENT_STATUSES_def)
  have sb: "map_of (sd_sessions (sm_file b)) sid = Some s0" by (simp add: bf s0)
  obtain r w2 where e: "ensure_checkpoint env sid s0 b = (r, w2)" by (cases "ensure_checkpoint env sid s0 b")
  have live: "live_session (sm_refresh w) sid = Some s0"
    using s0 session_ok_nonempty [OF ok0] by (simp add: live_session_def mem_session_def)
  have tr: "transfer_session env sid node w = (case r of Inl e \<Rightarrow> (Inl e, w2) | Inr ckpt \<Rightarrow> let w3 = sm_refresh w2 in
     (case mem_session w3 sid of None \<Rightarrow> (Inl (session_not_found sid), w3)
     | Some s \<Rightarrow> (case map_of ckpt ''checkpoint_path'' of None \<Rightarrow> (Inl (KeyError ''checkpoint_path''), w3)
     | Some path \<Rightarrow> attempt_transfer env sid node (mono_clock env (sm_refresh w)) path s w3)))"
    unfolding transfer_session_def Let_def live option.case w1_def [symmetric] b_def [symmetric] e
    by (simp split: sum.split)
  show ?thesis
  proof (rule ensure_outcome [OF bi bm sb e])
    fix s
    assume w2: "sm_file w2 = (sm_file b)\<lparr>sd_sessions := dset sid s (sd_sessions (sm_file b))\<rparr>" "sm_mem w2 = sm_file w2"
      and s: "same_place s0 s" "session_ok sid s"
      and c: "\<And>c. r = Inr c \<Longrightarrow> has_key c ''checkpoint_path'' \<and> map_of s ''last_checkpoint'' = Some (PDict c) \<and> pget c ''status'' = PStr ''ready''"
    assume "\<exists>log. sm_log w2 = sm_log b @ log \<and> set log \<subseteq> {SaveState vm p | vm p. True}"
      and u: "\<not> se_has_save env \<Longrightarrow> \<not> isl r \<and> sm_log w2 = sm_log b"
    then have lg: "\<exists>log. sm_log w2 = sm_log w @ log \<and> (\<not> se_has_save env \<longrightarrow> set log \<subseteq> {Audit k a | k a. True})"
      by (cases "se_has_save env") (auto simp: b_def begin_transfer_def w1_def)
    have i2: "sd_inv (sm_file w2)" using bi s(2) by (auto simp: w2(1) sd_inv_def set_dset)
    have ss: "sd_sessions (sm_file w2) = dset sid s (sd_sessions ?f)" by (simp add: w2(1) bf)
    show ?thesis
    proof (cases r)
      case (Inl x)
      show ?thesis by (rule fails [of x w2 s]) (use u in \<open>auto simp: tr Inl sm_inv_def w2(2) i2 ss s\<close>)
    next
      case (Inr ck)
      with c obtain path where "map_of ck ''checkpoint_path'' = Some path" by (auto simp: has_key_def)
      then have "transfer_session env sid node w = attempt_transfer env sid node (mono_clock env (sm_refresh w)) path s (sm_refresh w2)"
        by (simp add: tr Inr mem_session_def ss)
      then show ?thesis by (rule starts) (use i2 ss s lg in simp_all)
    qed
  qed
qed

text \<open>With a ready checkpoint on record the attempt starts at once, with that checkpoint.\<close>

lemma prepare_ready:
  assumes inv: "sm_inv w" and s0: "map_of (sd_sessions (sm_file w)) sid = Some s0"
    and c: "pget s0 ''last_checkpoint'' = PDict c" "pget c ''status'' = PStr ''ready''"
  obtains path w' start where
    "transfer_session env sid node w = attempt_transfer env sid node start path s0 w'" "sd_inv (sm_file w')" "sm_mem w' = sm_file w'"
    "sd_sessions (sm_file w') = sd_sessions (sm_file w)" "map_of c ''checkpoint_path'' = Some path"
    "\<exists>log. sm_log w' = sm_log w @ log \<and> set log \<subseteq> {Audit k a | k a. True}"
proof -
  let ?f = "sm_file w"
  from inv have fi: "sd_inv ?f" by (simp add: sm_inv_def)
  then have ok0: "session_ok sid s0" using s0 by (auto simp: sd_inv_def dest: map_of_SomeD)
  then obtain path where path: "map_of c ''checkpoint_path'' = Some path"
    using c(1) by (auto simp: session_ok_def pget_def has_key_def)
  define b where "b = begin_transfer env sid s0 node (sm_tick (sm_refresh w))"
  have bf: "sm_file b = ?f\<lparr>sd_events := sd_events ?f @ [started_event sid s0 node (utc env (sm_tick (sm_refresh w)))]\<rparr>"
    by (simp add: b_def begin_effect)
  have c0: "c \<noteq> []" using path by auto
  have e: "ensure_checkpoint env sid s0 b = (Inr c, b)" using c c0 by (simp add: ensure_checkpoint_def)
  have live: "live_session (sm_refresh w) sid = Some s0"
    using s0 session_ok_nonempty [OF ok0] by (simp add: live_session_def mem_session_def)
  have tr: "transfer_session env sid node w = attempt_transfer env sid node (mono_clock env (sm_refresh w)) path s0 (sm_refresh b)"
    unfolding transfer_session_def Let_def live option.case b_def [symmetric] e
    by (simp add: path mem_session_def bf s0)
  show ?thesis
    by (rule that [OF tr]) (use fi path in \<open>auto simp: bf sd_inv_def started_event_def EVENT_STATUSES_def b_def begin_transfer_def\<close>)
qed

subsection \<open>Every run keeps the invariant\<close>

lemma sm_inv_refresh: "sm_inv w \<Longrightarrow> sm_inv (sm_refresh w)"
  by (simp add: sm_inv_def)

lemma sm_inv_save_put: "sm_inv w \<Longrightarrow> session_ok sid s \<Longrightarrow> sm_inv (sm_save (put_session sid s w))"
  by (simp add: sm_inv_def sd_inv_put)

lemma sm_inv_tick [simp]: "sm_inv (sm_tick w) = sm_inv w"
  by (simp add: sm_inv_def)

lemma known_session: "sm_inv w \<Longrightarrow> mem_session (sm_refresh w) sid = Some s \<Longrightarrow> map_of (sd_sessions (sm_file w)) sid = Some s \<and> session_ok sid s"
  by (auto simp: sm_inv_def mem_session_def sd_inv_def dest: map_of_SomeD)

lemma live_known: "sm_inv w \<Longrightarrow> live_session (sm_refresh w) sid = mem_session (sm_refresh w) sid"
  by (rule live_iff) (simp add: sm_inv_def)

lemma transfer_inv: "sm_inv w \<Longrightarrow> sm_inv (snd (transfer_session env sid node w))"
proof (cases "mem_session (sm_refresh w) sid")
  case None
  assume "sm_inv w"
  then show ?thesis using None by (simp add: transfer_session_def Let_def live_known sm_inv_refresh)
next
  case (Some s0)
  assume inv: "sm_inv w"
  then have s0: "map_of (sd_sessions (sm_file w)) sid = Some s0" using Some known_session by blast
  show ?thesis
  proof (rule prepare_effect [OF inv s0, of env node])
    fix s path w' start
    assume tr: "transfer_session env sid node w = attempt_transfer env sid node start path s w'"
      and w': "sd_inv (sm_file w')" "sm_mem w' = sm_file w'" "sd_sessions (sm_file w') = dset sid s (sd_sessions (sm_file w))"
      and s: "session_ok sid s"
    from s obtain n where n: "map_of s ''current_node'' = Some (PStr n)" by (auto simp: session_ok_def)
    have "map_of (sd_sessions (sm_file w')) sid = Some s" by (simp add: w'(3))
    then show ?thesis using attempt_effect [OF w'(1,2) _ n, of sid env node start path] by (metis tr snd_conv)
  qed simp
qed

lemma place_reported:
  assumes "sm_inv w" and "map_of (sd_sessions (sm_file w)) sid = Some s" and "map_of s ''current_node'' = Some (PStr n)"
  shows "get_current_node sid w = Inr n"
proof -
  have "live_session w sid = Some s"
    using assms session_ok_nonempty by (auto simp: sm_inv_def live_session_def mem_session_def)
  with assms(3) show ?thesis by (simp add: get_current_node_def pget_or_def)
qed

lemma transfer_place:
  assumes inv: "sm_inv w" and s0: "map_of (sd_sessions (sm_file w)) sid = Some s0"
    and run: "transfer_session env sid node w = (Inr t, w')" "st_status t = ''completed''"
  shows "get_current_node sid w' = Inr node"
proof (rule prepare_effect [OF inv s0, of env node])
  fix s path w1 start
  assume tr: "transfer_session env sid node w = attempt_transfer env sid node start path s w1"
    and w1: "sd_inv (sm_file w1)" "sm_mem w1 = sm_file w1" "sd_sessions (sm_file w1) = dset sid s (sd_sessions (sm_file w))"
    and s: "session_ok sid s"
  from s obtain n where n: "map_of s ''current_node'' = Some (PStr n)" by (auto simp: session_ok_def)
  have m1: "map_of (sd_sessions (sm_file w1)) sid = Some s" by (simp add: w1(3))
  show ?thesis
    by (rule attempt_effect [OF w1(1,2) m1 n, of env node start path], rule place_reported)
      (use run tr in auto)
qed (use run in simp)

lemma sm_inv_step: "sm_inv w \<Longrightarrow> sm_inv (sm_exec env w c)"
proof (cases c)
  case (SmRegister sid pool vm user node)
  assume "sm_inv w"
  then show ?thesis
    by (auto simp: SmRegister register_session_def Let_def new_session_ok sm_inv_refresh intro!: sm_inv_save_put)
next
  case (SmCheckpoint sid)
  assume inv: "sm_inv w"
  show ?thesis
  proof (cases "mem_session (sm_refresh w) sid")
    case None
    with inv show ?thesis by (simp add: SmCheckpoint checkpoint_session_def Let_def live_known sm_inv_refresh)
  next
    case (Some s)
    with inv have s: "map_of (sd_sessions (sm_file w)) sid = Some s" "session_ok sid s" using known_session by blast+
    have fi: "sd_inv (sm_file w)" using inv by (simp add: sm_inv_def)
    show ?thesis
      by (rule checkpoint_outcome [OF fi s(1), of env])
        (use fi s(2) in \<open>auto simp: SmCheckpoint sm_inv_def sd_inv_def set_dset intro: checkpointed_ok\<close>)
  qed
next
  case (SmGeo sid geo)
  assume inv: "sm_inv w"
  have del: "session_ok k (ddel ''session_geo_routing'' s) = session_ok k s" for k s by (simp add: session_ok_def)
  from inv show ?thesis
    by (auto simp: SmGeo set_session_geo_routing_def Let_def del sm_inv_refresh intro!: sm_inv_save_put
        dest: known_session split: option.split)
next
  case (SmEnd sid)
  assume inv: "sm_inv w"
  have en: "session_ok k (dset ''status'' (PStr ''ended'') s)" if "session_ok k s" for k s using that by (auto simp: session_ok_def)
  from inv show ?thesis
    by (auto simp: SmEnd end_session_def Let_def live_known sm_inv_refresh intro!: sm_inv_save_put en
        dest: known_session split: option.split)
next
  case (SmFind sid vm user)
  assume "sm_inv w"
  then show ?thesis by (simp add: SmFind find_active_session_def get_session_def Let_def sm_inv_refresh)
next
  case (SmTransfer sid node)
  assume "sm_inv w"
  then show ?thesis by (simp add: SmTransfer transfer_inv)
qed (simp add: sm_inv_refresh)

interpretation sessions: machine "sm_exec env" sm_inv for env
  by unfold_locales (rule sm_inv_step)

end
