(* ===== verification/SessionProps.thy ===== *)
theory SessionProps
  imports SessionInvariant "HOL-Library.Sublist"
begin

text \<open>
  Properties of the session manager: where a session is after its transfers, when a transfer counts as
  completed, which checkpoint it restores, and what the handover report lists.
\<close>

definition demo_sm_env :: sm_env where
  "demo_sm_env = \<lparr>se_utcnow = (\<lambda>k. ''t'' @ nat_str k), se_monotonic = of_nat, se_provider = (\<lambda>h c. None),
     se_has_save = True, se_has_copy = True, se_has_restore = True, se_has_audit = False, se_geo = None, se_threshold = 10,
     se_ckpt_dir = ''/ckpt''\<rparr>"

definition demo_ready :: dict where
  "demo_ready = [(''checkpoint_path'', PStr ''/ckpt/s1.checkpoint''), (''status'', PStr ''ready'')]"

definition demo_session :: dict where
  "demo_session = dset ''last_checkpoint'' (PDict demo_ready) (new_session ''s1'' ''p'' 101 ''ann'' ''node-a'' ''t'')"

definition demo_sm :: sm where
  "demo_sm = (let d = \<lparr>sd_sessions = [(''s1'', demo_session)], sd_events = [], sd_alerts = []\<rparr>
     in \<lparr>sm_mem = d, sm_file = d, sm_ticks = 0, sm_log = []\<rparr>)"

lemma demo_sm_known: "map_of (sd_sessions (sm_file demo_sm)) ''s1'' = Some demo_session"
  by (simp add: demo_sm_def Let_def)

lemma demo_sm_inv: "sm_inv demo_sm"
proof -
  have "session_ok ''s1'' demo_session"
    using new_session_ok [of "''s1''" "''p''" 101 "''ann''" "''node-a''" "''t''"]
    by (simp add: demo_session_def demo_ready_def session_ok_def has_key_def)
  then show ?thesis by (simp add: demo_sm_def sm_inv_def sd_inv_def wf_dict_def Let_def)
qed

lemma demo_sm_ready: "pget demo_session ''last_checkpoint'' = PDict demo_ready" "pget demo_ready ''status'' = PStr ''ready''"
  by (simp_all add: demo_session_def demo_ready_def)

subsection \<open>Where a session is\<close>

text \<open>C35: the handover history of a session is consistent. After any run of operations, whatever the
  providers answer, the transfers a session lists form a walk: each starts at the node where the ones
  before it left the session, completed ones move it to their target, failed ones leave it; and the
  walk ends at the node that \<open>get_current_node\<close> reports to clients.\<close>

theorem handover_history:
  assumes "sm_inv w" and "map_of (sd_sessions (sm_file (run (sm_exec env) w cs))) sid = Some s"
  shows "\<exists>n0 ts n. map_of s ''transfers'' = Some (PList ts) \<and> walk n0 ts = Some n
     \<and> get_current_node sid (run (sm_exec env) w cs) = Inr n"
proof -
  let ?w = "run (sm_exec env) w cs"
  have inv: "sm_inv ?w" using assms(1) by (rule sessions.run_inv)
  then have ok: "session_ok sid s" using assms(2) by (auto simp: sm_inv_def sd_inv_def dest: map_of_SomeD)
  then obtain n0 ts n where "map_of s ''transfers'' = Some (PList ts)" "map_of s ''current_node'' = Some (PStr n)" "walk n0 ts = Some n"
    by (auto simp: session_ok_def)
  moreover have "live_session ?w sid = Some s"
    using inv assms(2) session_ok_nonempty [OF ok] by (simp add: sm_inv_def live_session_def mem_session_def)
  ultimately show ?thesis by (auto simp: get_current_node_def pget_or_def)
qed

theorem handover_history_witness:
  "\<exists>s n0 ts n. map_of s ''transfers'' = Some (PList ts) \<and> walk n0 ts = Some n
     \<and> get_current_node ''s1'' (run (sm_exec demo_sm_env) demo_sm []) = Inr n"
  using handover_history [OF demo_sm_inv, of demo_sm_env "[]" "''s1''" demo_session] demo_sm_known by auto

text \<open>A provider call that was made and succeeded between two states of the log.\<close>

definition succeeded :: "sm_env \<Rightarrow> (sm_call \<Rightarrow> bool) \<Rightarrow> sm_call list \<Rightarrow> sm_call list \<Rightarrow> bool" where
  "succeeded env P l l' = (\<exists>h c rest. l' = h @ c # rest \<and> prefix l h \<and> P c \<and> se_provider env h c = None)"

definition is_copy_to :: "string \<Rightarrow> sm_call \<Rightarrow> bool" where
  "is_copy_to node c = (case c of CopyCheckpoint p n q \<Rightarrow> n = node | _ \<Rightarrow> False)"

definition is_restore :: "sm_call \<Rightarrow> bool" where
  "is_restore c = (case c of RestoreState vm p \<Rightarrow> True | _ \<Rightarrow> False)"

lemma succeeded_mono: "succeeded env P l l' \<Longrightarrow> prefix k l \<Longrightarrow> prefix l' l'' \<Longrightarrow> succeeded env P k l''"
  unfolding succeeded_def by (metis append.assoc append_Cons prefixE prefix_order.trans)

lemma succeeded_call: "sm_call env c w = (None, w') \<Longrightarrow> P c \<Longrightarrow> succeeded env P (sm_log w) (sm_log w')"
  unfolding succeeded_def by (rule exI [of _ "sm_log w"]) (auto simp: sm_call_def)

lemma call_log: "sm_call env c w = (f, w') \<Longrightarrow> prefix (sm_log w) (sm_log w')"
  by (auto simp: sm_call_def)

lemma restore_succeeds:
  assumes "restore_step env s path w = (None, w')"
  shows "prefix (sm_log w) (sm_log w')" and "se_has_restore env \<Longrightarrow> succeeded env is_restore (sm_log w) (sm_log w')"
  using assms by (auto simp: restore_step_def is_restore_def split: if_splits sum.splits intro: succeeded_call call_log)

lemma move_succeeds:
  assumes mv: "move_checkpoint env s node path w = (None, w')"
  shows "se_has_copy env \<Longrightarrow> succeeded env (is_copy_to node) (sm_log w) (sm_log w')"
    and "se_has_restore env \<Longrightarrow> succeeded env is_restore (sm_log w) (sm_log w')"
proof -
  obtain f w1 where c: "(if se_has_copy env then sm_call env (CopyCheckpoint path node path) w else (None, w)) = (f, w1)"
    by fastforce
  with mv have f: "f = None" and r: "restore_step env s path w1 = (None, w')"
    by (auto simp: move_checkpoint_def split: option.splits)
  show "succeeded env (is_copy_to node) (sm_log w) (sm_log w')" if "se_has_copy env"
  proof -
    have "sm_call env (CopyCheckpoint path node path) w = (None, w1)" using c f that by simp
    then have "succeeded env (is_copy_to node) (sm_log w) (sm_log w1)" by (rule succeeded_call) (simp add: is_copy_to_def)
    then show ?thesis by (rule succeeded_mono) (simp_all add: restore_succeeds(1) [OF r])
  qed
  show "succeeded env is_restore (sm_log w) (sm_log w')" if "se_has_restore env"
  proof -
    have "prefix (sm_log w) (sm_log w1)" using c by (auto intro: call_log split: if_splits)
    with restore_succeeds(2) [OF r that] show ?thesis by (rule succeeded_mono) simp
  qed
qed

lemma move_log: "prefix (sm_log w) (sm_log (snd (move_checkpoint env s node path w)))"
  using move_effect(3) [of env s node path w] by (metis prefixI prod.collapse)

lemma attempt_completed:
  assumes run: "attempt_transfer env sid node start path s w = (Inr t, w')" and c: "st_status t = ''completed''"
    and s: "map_of (sd_sessions (sm_mem w)) sid = Some s"
  obtains w1 where "move_checkpoint env s node path (sm_tick w) = (None, w1)" "prefix (sm_log w1) (sm_log w')"
proof -
  obtain f w1 where mv: "move_checkpoint env s node path (sm_tick w) = (f, w1)" by (cases "move_checkpoint env s node path (sm_tick w)")
  have s1: "map_of (sd_sessions (sm_mem w1)) sid = Some s" using move_effect [OF mv] s by simp
  define t0 where "t0 = \<lparr>st_session_id = sid, st_source_node = py_str (pget_or s ''current_node'' (PStr [])), st_target_node = node,
     st_checkpoint_path = path, st_started_at = utc env w, st_completed_at = [], st_status = ''in_progress'', st_error = [],
     st_duration_seconds = 0\<rparr>"
  define d where "d = max 0 (mono_clock env w1 - start)"
  obtain t' s' w2 where en: "(t', s', w2) = (case f of None \<Rightarrow> complete_transfer env sid s t0 d w1 | Some e \<Rightarrow> fail_transfer env s t0 e d w1)"
    by (metis surj_pair)
  note E = end_effect [OF en s1]
  have t: "t = t'" and w': "sm_log w' = sm_log w2"
    using run unfolding attempt_transfer_def Let_def t0_def [symmetric] mv prod.case d_def [symmetric] en [symmetric]
    by (auto split: sum.splits)
  show ?thesis
  proof (rule that)
    show "move_checkpoint env s node path (sm_tick w) = (None, w1)" using c E(1) mv by (auto simp: t split: if_splits)
    show "prefix (sm_log w1) (sm_log w')" using E(7) w' by auto
  qed
qed

subsection \<open>Transfers\<close>

text \<open>C36: when a transfer moves a session. A transfer touches the entry of its own session only; the session
  is on the target afterwards exactly when the transfer is recorded as completed, and it stays where it
  was when the transfer failed or raised. A completed transfer has copied the checkpoint to that target
  and restored the VM, both without an error, as far as the service was given the callables.\<close>

theorem transfer_moves_when_completed:
  assumes inv: "sm_inv w" and s: "map_of (sd_sessions (sm_file w)) sid = Some s"
    and run: "transfer_session env sid node w = (r, w')"
  shows "\<exists>s'. sd_sessions (sm_file w') = dset sid s' (sd_sessions (sm_file w)) \<and>
    (case r of Inl e \<Rightarrow> map_of s' ''current_node'' = map_of s ''current_node''
     | Inr t \<Rightarrow> st_status t \<in> {''completed'', ''failed''}
         \<and> map_of s' ''current_node'' = (if st_status t = ''completed'' then Some (PStr node) else map_of s ''current_node'')
         \<and> (st_status t = ''completed'' \<and> se_has_copy env \<longrightarrow> succeeded env (is_copy_to node) (sm_log w) (sm_log w'))
         \<and> (st_status t = ''completed'' \<and> se_has_restore env \<longrightarrow> succeeded env is_restore (sm_log w) (sm_log w')))"
proof (rule prepare_effect [OF inv s, of env node])
  fix e s1 w1
  assume "transfer_session env sid node w = (Inl e, w1)" "sd_sessions (sm_file w1) = dset sid s1 (sd_sessions (sm_file w))" "same_place s s1"
  with run show ?thesis by (intro exI [of _ s1]) (auto dest: session_ok_same_place)
next
  fix s1 path w1 start
  assume tr: "transfer_session env sid node w = attempt_transfer env sid node start path s1 w1"
    and w1: "sd_inv (sm_file w1)" "sm_mem w1 = sm_file w1" "sd_sessions (sm_file w1) = dset sid s1 (sd_sessions (sm_file w))"
    and s1: "same_place s s1" "session_ok sid s1"
    and lg: "\<exists>log. sm_log w1 = sm_log w @ log \<and> (\<not> se_has_save env \<longrightarrow> set log \<subseteq> {Audit k a | k a. True})"
  from s1(2) obtain n where n: "map_of s1 ''current_node'' = Some (PStr n)" by (auto simp: session_ok_def)
  have m1: "map_of (sd_sessions (sm_file w1)) sid = Some s1" by (simp add: w1(3))
  show ?thesis
  proof (rule attempt_effect [OF w1(1,2) m1 n, of env node start path])
    fix t s' w2
    assume a: "attempt_transfer env sid node start path s1 w1 = (Inr t, w2)" "st_status t \<in> {''completed'', ''failed''}"
      "sd_sessions (sm_file w2) = dset sid s' (sd_sessions (sm_file w1))"
      "map_of s' ''current_node'' = Some (PStr (if st_status t = ''completed'' then node else n))"
    have r: "r = Inr t" "w' = w2" using run tr a(1) by simp_all
    have sc: "succeeded env P (sm_log w) (sm_log w')"
      if c: "st_status t = ''completed''"
        and ev: "\<And>w3. move_checkpoint env s1 node path (sm_tick w1) = (None, w3) \<Longrightarrow> succeeded env P (sm_log (sm_tick w1)) (sm_log w3)" for P
    proof (rule attempt_completed [OF a(1) c])
      fix w3
      assume "move_checkpoint env s1 node path (sm_tick w1) = (None, w3)" and p: "prefix (sm_log w3) (sm_log w2)"
      then have "succeeded env P (sm_log w1) (sm_log w3)" using ev by simp
      then show ?thesis by (rule succeeded_mono) (use lg p r in \<open>auto\<close>)
    qed (use m1 w1(2) in simp)
    have "sd_sessions (sm_file w2) = dset sid s' (sd_sessions (sm_file w))" using a(3) w1(3) by (simp add: dset_dset)
    moreover have "map_of s ''current_node'' = Some (PStr n)" using n session_ok_same_place [OF s1(1)] by simp
    ultimately show ?thesis using a(2,4) sc [of "is_copy_to node"] sc [of is_restore]
        move_succeeds [of env s1 node path "sm_tick w1"] by (intro exI [of _ s']) (auto simp: r)
  qed
qed

theorem transfer_moves_when_completed_witness:
  "\<exists>r w' s'. transfer_session demo_sm_env ''s1'' ''node-b'' demo_sm = (r, w')
     \<and> sd_sessions (sm_file w') = dset ''s1'' s' (sd_sessions (sm_file demo_sm))"
proof -
  obtain r w' where "transfer_session demo_sm_env ''s1'' ''node-b'' demo_sm = (r, w')" by (metis surj_pair)
  with transfer_moves_when_completed [OF demo_sm_inv demo_sm_known this] show ?thesis by blast
qed

definition is_save :: "sm_call \<Rightarrow> bool" where
  "is_save c = (case c of SaveState vm p \<Rightarrow> True | _ \<Rightarrow> False)"

lemma reuse_once:
  assumes inv: "sm_inv w" and s: "map_of (sd_sessions (sm_file w)) sid = Some s"
    and c: "pget s ''last_checkpoint'' = PDict c" "pget c ''status'' = PStr ''ready''"
  obtains t w' s' log where "transfer_session env sid node w = (Inr t, w')" "map_of (sd_sessions (sm_file w')) sid = Some s'"
    "pget s' ''last_checkpoint'' = PDict c" "sm_log w' = sm_log w @ log" "\<forall>x \<in> set log. \<not> is_save x" "sm_inv w'"
proof (rule prepare_ready [OF inv s c, of env node])
  fix path w1 start
  assume tr: "transfer_session env sid node w = attempt_transfer env sid node start path s w1"
    and w1: "sd_inv (sm_file w1)" "sm_mem w1 = sm_file w1" "sd_sessions (sm_file w1) = sd_sessions (sm_file w)"
    and lg: "\<exists>log. sm_log w1 = sm_log w @ log \<and> set log \<subseteq> {Audit k a | k a. True}"
  have "session_ok sid s" using inv s by (auto simp: sm_inv_def sd_inv_def dest: map_of_SomeD)
  then obtain n where n: "map_of s ''current_node'' = Some (PStr n)" by (auto simp: session_ok_def)
  have m1: "map_of (sd_sessions (sm_file w1)) sid = Some s" by (simp add: w1(3) s)
  obtain l1 where l1: "sm_log w1 = sm_log w @ l1" "\<forall>x \<in> set l1. \<not> is_save x" using lg by (force simp: is_save_def)
  show ?thesis
  proof (rule attempt_effect [OF w1(1,2) m1 n, of env node start path])
    fix t s' w2
    assume a: "attempt_transfer env sid node start path s w1 = (Inr t, w2)" "sm_inv w2"
      "sd_sessions (sm_file w2) = dset sid s' (sd_sessions (sm_file w1))"
      "\<forall>k. k \<notin> {''current_node'', ''transfers''} \<longrightarrow> map_of s' k = map_of s k"
      and "\<exists>log. sm_log w2 = sm_log w1 @ log \<and> (\<forall>c \<in> set log. is_move c \<or> (\<exists>k a. c = Audit k a))"
    then obtain l2 where l2: "sm_log w2 = sm_log w1 @ l2" "\<forall>x \<in> set l2. \<not> is_save x"
      by (fastforce simp: is_save_def is_move_def split: sm_call.splits)
    show ?thesis
    proof (rule that)
      show "transfer_session env sid node w = (Inr t, w2)" by (simp add: tr a(1))
      show "map_of (sd_sessions (sm_file w2)) sid = Some s'" by (simp add: a(3))
      show "pget s' ''last_checkpoint'' = PDict c" using a(4) c(1) by (simp add: pget_def)
      show "sm_log w2 = sm_log w @ (l1 @ l2)" by (simp add: l1 l2)
    qed (use l1 l2 a(2) in auto)
  qed
qed

text \<open>the checkpoint of the first handover serves for all later ones. Once a session has a ready
  checkpoint, any number of transfers in a row never save the VM's state again: the checkpoint on
  record stays the same, so every later target restores the state of that first checkpoint and loses
  what the user did since.\<close>

lemma handover_reuses_checkpoint:
  assumes "sm_inv w" and "map_of (sd_sessions (sm_file w)) sid = Some s"
    and "pget s ''last_checkpoint'' = PDict c" and "pget c ''status'' = PStr ''ready''"
  shows "\<exists>s' log. map_of (sd_sessions (sm_file (run (sm_exec env) w (map (SmTransfer sid) nodes)))) sid = Some s'
     \<and> pget s' ''last_checkpoint'' = PDict c
     \<and> sm_log (run (sm_exec env) w (map (SmTransfer sid) nodes)) = sm_log w @ log \<and> (\<forall>x \<in> set log. \<not> is_save x)"
  using assms(1-3)
proof (induction nodes arbitrary: w s)
  case (Cons node nodes)
  show ?case
  proof (rule reuse_once [OF Cons.prems assms(4), of env node])
    fix t w' s' log
    assume w': "transfer_session env sid node w = (Inr t, w')" "map_of (sd_sessions (sm_file w')) sid = Some s'"
      "pget s' ''last_checkpoint'' = PDict c" "sm_log w' = sm_log w @ log" "\<forall>x \<in> set log. \<not> is_save x" "sm_inv w'"
    show ?thesis using Cons.IH [OF w'(6,2,3)] w'(1,4,5) by (auto simp: ball_Un)
  qed
qed simp

lemma handover_reuses_checkpoint_witness:
  "\<exists>log. sm_log (run (sm_exec demo_sm_env) demo_sm [SmTransfer ''s1'' ''node-b'', SmTransfer ''s1'' ''node-a'']) = sm_log demo_sm @ log
     \<and> (\<forall>x \<in> set log. \<not> is_save x)"
  using handover_reuses_checkpoint [OF demo_sm_inv demo_sm_known demo_sm_ready, of demo_sm_env "[''node-b'', ''node-a'']"] by auto

text \<open>as the control plane wires the service, without callables to save, copy and restore a VM, every
  handover of a known session is reported as completed and the session is listed on the target node,
  although no call on a VM was made at all.\<close>

lemma unwired_handover_completes:
  assumes inv: "sm_inv w" and s: "map_of (sd_sessions (sm_file w)) sid = Some s"
    and "\<not> se_has_save env" and "\<not> se_has_copy env" and "\<not> se_has_restore env"
  shows "\<exists>t w'. transfer_session env sid node w = (Inr t, w') \<and> st_status t = ''completed''
     \<and> get_current_node sid w' = Inr node \<and> (\<forall>c \<in> set (drop (length (sm_log w)) (sm_log w')). \<exists>k a. c = Audit k a)"
proof (rule prepare_effect [OF inv s, of env node])
  fix s1 path w1 start
  assume tr: "transfer_session env sid node w = attempt_transfer env sid node start path s1 w1"
    and w1: "sd_inv (sm_file w1)" "sm_mem w1 = sm_file w1" "sd_sessions (sm_file w1) = dset sid s1 (sd_sessions (sm_file w))"
    and s1: "session_ok sid s1"
    and "\<exists>log. sm_log w1 = sm_log w @ log \<and> (\<not> se_has_save env \<longrightarrow> set log \<subseteq> {Audit k a | k a. True})"
  then obtain l1 where l1: "sm_log w1 = sm_log w @ l1" "set l1 \<subseteq> {Audit k a | k a. True}" using assms(3) by blast
  from s1 obtain n where n: "map_of s1 ''current_node'' = Some (PStr n)" by (auto simp: session_ok_def)
  have m1: "map_of (sd_sessions (sm_file w1)) sid = Some s1" by (simp add: w1(3))
  show ?thesis
  proof (rule attempt_effect [OF w1(1,2) m1 n, of env node start path])
    fix t s' w2
    assume a: "attempt_transfer env sid node start path s1 w1 = (Inr t, w2)" "sm_inv w2"
      "sd_sessions (sm_file w2) = dset sid s' (sd_sessions (sm_file w1))" "session_ok sid s'"
      "map_of s' ''current_node'' = Some (PStr (if st_status t = ''completed'' then node else n))"
      and c: "\<not> se_has_copy env \<Longrightarrow> \<not> se_has_restore env
       \<Longrightarrow> st_status t = ''completed'' \<and> (\<exists>log. sm_log w2 = sm_log w1 @ log \<and> set log \<subseteq> {Audit k a | k a. True})"
    from c [OF assms(4,5)] obtain l2 where l2: "st_status t = ''completed''" "sm_log w2 = sm_log w1 @ l2"
      "set l2 \<subseteq> {Audit k a | k a. True}" by blast
    have "live_session w2 sid = Some s'"
      using a(2,3) session_ok_nonempty [OF a(4)] by (simp add: sm_inv_def live_session_def mem_session_def)
    then have "get_current_node sid w2 = Inr node" using a(5) l2(1) by (simp add: get_current_node_def pget_or_def)
    then show ?thesis using tr a(1) l1 l2 by auto
  qed
qed (use assms(3) in simp)

lemma unwired_handover_completes_witness:
  "\<exists>t w'. transfer_session (demo_sm_env\<lparr>se_has_save := False, se_has_copy := False, se_has_restore := False\<rparr>) ''s1'' ''node-b'' demo_sm
      = (Inr t, w') \<and> st_status t = ''completed'' \<and> get_current_node ''s1'' w' = Inr ''node-b''"
  using unwired_handover_completes [OF demo_sm_inv demo_sm_known,
    of "demo_sm_env\<lparr>se_has_save := False, se_has_copy := False, se_has_restore := False\<rparr>" "''node-b''"] by auto

subsection \<open>The report\<close>

lemma filter_r_total: "\<forall>x \<in> set xs. p x = Inr (q x) \<Longrightarrow> filter_r p xs = Inr (filter q xs)"
  by (induction xs) auto

definition event_key :: "dict \<Rightarrow> string" where
  "event_key e = str_or (por (pget e ''started_at'') (pget e ''completed_at''))"

text \<open>The handover report without the slow-handover filter never raises, lists exactly the recorded
  events that match the session, user and status asked for (blank ones match all), each as often as it
  was recorded, newest first by the time it started.\<close>

lemma handover_report_exact:
  "\<exists>es. fst (list_handover_events env sid user status False w) = Inr es
     \<and> mset es = mset (filter (\<lambda>e. event_matches sid user e \<and>
           (strip status = [] \<or> lower (stget e ''status'') = lower (strip status))) (sd_events (sm_file w)))
     \<and> sorted_wrt (\<lambda>x y. event_key y \<le> event_key x) es"
proof -
  define q where "q = (\<lambda>e. event_matches sid user e \<and> (strip status = [] \<or> lower (stget e ''status'') = lower (strip status)))"
  have "lower s = [] \<longleftrightarrow> s = []" for s by (simp add: lower_def)
  then have "\<forall>e \<in> set (sd_events (sm_file w)). event_wanted env sid user status False e = Inr (q e)"
    by (simp add: event_wanted_def q_def)
  from filter_r_total [OF this] show ?thesis
    using sorted_sort_key_desc [of event_key "filter q (sd_events (sm_file w))"]
    by (simp add: list_handover_events_def Let_def q_def event_key_def [abs_def])
qed

end
