(* ===== verification/IpAddress.thy ===== *)
theory IpAddress
  imports PyText "HOL-Library.Word" "HOL-Library.Code_Target_Numeral"
begin

text \<open>
  The part of Python's \<open>ipaddress\<close> module the services use: \<open>ip_address\<close>, \<open>ip_network\<close> with
  \<open>strict=False\<close>, and membership. An IPv4 address is a \<open>32 word\<close>, an IPv6 address a \<open>128 word\<close>; a
  scope is checked and dropped, since membership does not look at it.
\<close>

unbundle bit_operations_syntax

datatype ip = V4 "32 word" | V6 "128 word"

datatype network = N4 "32 word" "32 word" | N6 "128 word" "128 word"

subsection \<open>IPv4\<close>

definition octet :: "string \<Rightarrow> nat option" where
  "octet s = (if s \<noteq> [] \<and> list_all is_digit s \<and> length s \<le> 3 \<and> (s = ''0'' \<or> hd s \<noteq> CHR ''0'') \<and> digits_val s \<le> 255
     then Some (digits_val s) else None)"

definition ipv4_of :: "string \<Rightarrow> 32 word option" where
  "ipv4_of s = (case map octet (split_char (CHR ''.'') s) of
     [Some a, Some b, Some c, Some d] \<Rightarrow> Some (word_of_nat (((a * 256 + b) * 256 + c) * 256 + d))
   | _ \<Rightarrow> None)"

text \<open>The mask of a prefix length: that many ones, then zeros.\<close>

definition mask4 :: "nat \<Rightarrow> 32 word" where
  "mask4 p = NOT (mask (32 - p))"

definition prefix_number :: "nat \<Rightarrow> string \<Rightarrow> nat option" where
  "prefix_number most s = (if s \<noteq> [] \<and> list_all is_digit s \<and> digits_val s \<le> most then Some (digits_val s) else None)"

text \<open>A netmask or a host mask written as an address, as its prefix length.\<close>

definition prefix_of_mask :: "32 word \<Rightarrow> nat option" where
  "prefix_of_mask w = List.find (\<lambda>p. mask4 p = w) [0..<33]"

definition prefix4 :: "string \<Rightarrow> nat option" where
  "prefix4 s = (case prefix_number 32 s of Some p \<Rightarrow> Some p
     | None \<Rightarrow> (case ipv4_of s of None \<Rightarrow> None
         | Some w \<Rightarrow> (case prefix_of_mask w of Some p \<Rightarrow> Some p | None \<Rightarrow> prefix_of_mask (NOT w))))"

subsection \<open>IPv6\<close>

definition hex_digit_val :: "char \<Rightarrow> nat option" where
  "hex_digit_val c = (let n = (of_char c :: nat) in
     if 48 \<le> n \<and> n \<le> 57 then Some (n - 48) else if 97 \<le> n \<and> n \<le> 102 then Some (n - 87)
     else if 65 \<le> n \<and> n \<le> 70 then Some (n - 55) else None)"

fun hextet_val :: "nat \<Rightarrow> string \<Rightarrow> nat option" where
  "hextet_val acc [] = Some acc"
| "hextet_val acc (c # s) = (case hex_digit_val c of None \<Rightarrow> None | Some d \<Rightarrow> hextet_val (acc * 16 + d) s)"

definition hextet :: "string \<Rightarrow> nat option" where
  "hextet s = (if s \<noteq> [] \<and> length s \<le> 4 then hextet_val 0 s else None)"

fun all_some :: "'a option list \<Rightarrow> 'a list option" where
  "all_some [] = Some []"
| "all_some (None # xs) = None"
| "all_some (Some x # xs) = map_option (Cons x) (all_some xs)"

definition groups_val :: "nat list \<Rightarrow> 128 word" where
  "groups_val gs = word_of_nat (foldl (\<lambda>a g. a * 65536 + g) 0 gs)"

text \<open>The split of the groups at the one empty group inside, with the empty end groups of a leading or
  trailing double colon removed.\<close>

definition inner_gaps :: "string list \<Rightarrow> nat list" where
  "inner_gaps parts = filter (\<lambda>i. parts ! i = []) [1..<length parts - 1]"

definition ipv6_groups :: "string list \<Rightarrow> nat list option" where
  "ipv6_groups parts =
    (case inner_gaps parts of
       [] \<Rightarrow> if length parts = 8 then all_some (map hextet parts) else None
     | [k] \<Rightarrow> let hi = take k parts; lo = drop (Suc k) parts;
           hi' = (if hd parts = [] then tl hi else hi); lo' = (if last parts = [] then butlast lo else lo)
         in if (hd parts = [] \<and> hi' \<noteq> []) \<or> (last parts = [] \<and> lo' \<noteq> []) \<or> 8 \<le> length hi' + length lo' then None
            else (case (all_some (map hextet hi'), all_some (map hextet lo')) of
                (Some hs, Some ls) \<Rightarrow> Some (hs @ replicate (8 - (length hi' + length lo')) 0 @ ls)
              | _ \<Rightarrow> None)
     | _ \<Rightarrow> None)"

text \<open>Hexadecimal text of a group, as the module writes the two groups of an embedded IPv4 address.\<close>

fun hex_str :: "nat \<Rightarrow> string" where
  "hex_str n = (let d = (\<lambda>k. if k < 10 then char_of (48 + k) else char_of (87 + k)) in
     if n < 16 then [d n] else hex_str (n div 16) @ [d (n mod 16)])"

declare hex_str.simps [simp del]

definition with_ipv4_tail :: "string list \<Rightarrow> string list option" where
  "with_ipv4_tail parts = (if CHR ''.'' \<notin> set (last parts) then Some parts
     else (case ipv4_of (last parts) of None \<Rightarrow> None
       | Some w \<Rightarrow> Some (butlast parts @ [hex_str (unat w div 65536), hex_str (unat w mod 65536)])))"

definition drop_scope :: "string \<Rightarrow> string option" where
  "drop_scope s = (if CHR ''%'' \<notin> set s then Some s
     else let scope = tl (dropWhile (\<lambda>c. c \<noteq> CHR ''%'') s) in
       if scope = [] \<or> CHR ''%'' \<in> set scope then None else Some (takeWhile (\<lambda>c. c \<noteq> CHR ''%'') s))"

definition ipv6_of :: "string \<Rightarrow> 128 word option" where
  "ipv6_of s = (case drop_scope s of None \<Rightarrow> None | Some t \<Rightarrow>
     let parts = split_char (CHR '':'') t in
     if t = [] \<or> length parts < 3 then None
     else (case with_ipv4_tail parts of None \<Rightarrow> None
       | Some ps \<Rightarrow> if length ps > 9 then None else map_option groups_val (ipv6_groups ps)))"

definition mask6 :: "nat \<Rightarrow> 128 word" where
  "mask6 p = NOT (mask (128 - p))"

subsection \<open>Addresses and networks\<close>

definition ip_address :: "string \<Rightarrow> ip option" where
  "ip_address s = (if CHR ''/'' \<in> set s then None
     else case ipv4_of s of Some w \<Rightarrow> Some (V4 w) | None \<Rightarrow> map_option V6 (ipv6_of s))"

definition network4 :: "string \<Rightarrow> string option \<Rightarrow> network option" where
  "network4 addr m = (case (ipv4_of addr, (case m of None \<Rightarrow> Some 32 | Some s \<Rightarrow> prefix4 s)) of
     (Some a, Some p) \<Rightarrow> Some (N4 (a AND mask4 p) (mask4 p)) | _ \<Rightarrow> None)"

definition network6 :: "string \<Rightarrow> string option \<Rightarrow> network option" where
  "network6 addr m = (case (ipv6_of addr, (case m of None \<Rightarrow> Some 128 | Some s \<Rightarrow> prefix_number 128 s)) of
     (Some a, Some p) \<Rightarrow> Some (N6 (a AND mask6 p) (mask6 p)) | _ \<Rightarrow> None)"

definition ip_network :: "string \<Rightarrow> network option" where
  "ip_network s = (case split_char (CHR ''/'') s of
      [addr] \<Rightarrow> (case network4 addr None of Some n \<Rightarrow> Some n | None \<Rightarrow> network6 addr None)
    | [addr, m] \<Rightarrow> (case network4 addr (Some m) of Some n \<Rightarrow> Some n | None \<Rightarrow> network6 addr (Some m))
    | _ \<Rightarrow> None)"

fun in_network :: "ip \<Rightarrow> network \<Rightarrow> bool" where
  "in_network (V4 a) (N4 n m) = (a AND m = n)"
| "in_network (V6 a) (N6 n m) = (a AND m = n)"
| "in_network _ _ = False"

end
