(* ===== verification/SessionGeo.thy ===== *)
theory SessionGeo
  imports SessionProps IpAddress
begin

text \<open>
  The geographic handover of \<open>session_manager.py\<close>: the first site of the session's routing table whose
  networks contain the client decides the target node, and the session is transferred there when it is
  somewhere else. Above: the lemma that an applied handover leaves the session on the decided node.
\<close>

definition cidr_matches :: "ip \<Rightarrow> py \<Rightarrow> bool" where
  "cidr_matches ip cidr = (case ip_network (strip (py_str cidr)) of None \<Rightarrow> False | Some n \<Rightarrow> in_network ip n)"

definition site_matches :: "ip \<Rightarrow> dict \<Rightarrow> bool" where
  "site_matches ip site = list_ex (cidr_matches ip) (list_of (pget site ''cidrs''))"

text \<open>The loop over the sites: the matched name and target so far; it stops at the first name that is not blank.\<close>

fun scan_sites :: "ip \<Rightarrow> dict \<Rightarrow> string \<times> string \<Rightarrow> string \<times> string" where
  "scan_sites ip [] acc = acc"
| "scan_sites ip ((name, raw) # rest) acc =
    (if \<not> is_dict raw then scan_sites ip rest acc
     else let acc' = (if site_matches ip (dict_of raw) then (strip name, stget (dict_of raw) ''target_node'') else acc)
       in if fst acc' \<noteq> [] then acc' else scan_sites ip rest acc')"

record geo_decision =
  gd_session_id :: string
  gd_matched_site :: string
  gd_target_node :: string
  gd_current_node :: string
  gd_should_handover :: bool

definition evaluate_geo_handover :: "string \<Rightarrow> string \<Rightarrow> sm \<Rightarrow> geo_decision result \<times> sm" where
  "evaluate_geo_handover sid client_ip w = (case get_session sid w of
      (None, w1) \<Rightarrow> (Inl (session_not_found sid), w1)
    | (Some s, w1) \<Rightarrow>
        let geo = dict_of (pget s ''session_geo_routing''); current = sget s ''current_node'' in
        if geo = [] \<or> \<not> truthy (pget geo ''enabled'')
        then (Inr \<lparr>gd_session_id = sid, gd_matched_site = [], gd_target_node = [], gd_current_node = current,
                   gd_should_handover = False\<rparr>, w1)
        else (case ip_address (strip client_ip) of
            None \<Rightarrow> (Inl (ValueError (repr_str (strip client_ip) @ '' does not appear to be an IPv4 or IPv6 address'')), w1)
          | Some ip \<Rightarrow> let (site, target) = scan_sites ip (dict_of (pget geo ''sites'')) ([], []) in
              (Inr \<lparr>gd_session_id = sid, gd_matched_site = site, gd_target_node = target, gd_current_node = current,
                    gd_should_handover = (site \<noteq> [] \<and> target \<noteq> [] \<and> current \<noteq> [] \<and> current \<noteq> target)\<rparr>, w1)))"

text \<open>The answer of \<open>apply_geo_handover\<close>: the ok flag, the decision, and the transfer if one was made.\<close>

definition apply_geo_handover ::
  "sm_env \<Rightarrow> string \<Rightarrow> string \<Rightarrow> sm \<Rightarrow> (bool \<times> geo_decision \<times> session_transfer option) result \<times> sm" where
  "apply_geo_handover env sid client_ip w = (case evaluate_geo_handover sid client_ip w of
      (Inl e, w1) \<Rightarrow> (Inl e, w1)
    | (Inr g, w1) \<Rightarrow> if \<not> gd_should_handover g then (Inr (False, g, None), w1)
        else (case transfer_session env sid (gd_target_node g) w1 of
            (Inl e, w2) \<Rightarrow> (Inl e, w2)
          | (Inr t, w2) \<Rightarrow> (Inr (st_status t = ''completed'', g, Some t), w2)))"

subsection \<open>The decision\<close>

text \<open>A site that was matched is one of the table, and no site before it with a name matches.\<close>

lemma scan_sites_first:
  assumes "scan_sites ip sites acc = (site, target)" and "site \<noteq> []" and "fst acc = []"
  shows "\<exists>before name d rest. sites = before @ (name, PDict d) # rest \<and> strip name = site \<and> stget d ''target_node'' = target
     \<and> site_matches ip d
     \<and> (\<forall>(name', raw) \<in> set before. is_dict raw \<and> site_matches ip (dict_of raw) \<longrightarrow> strip name' = [])"
  using assms
proof (induction ip sites acc rule: scan_sites.induct)
  case (2 ip name raw rest acc)
  show ?case
  proof (cases "is_dict raw \<and> site_matches ip (dict_of raw) \<and> strip name \<noteq> []")
    case True
    then obtain d where "raw = PDict d" by (cases raw) auto
    with True 2(3) show ?thesis
      by (intro exI [of _ "[]"] exI [of _ name] exI [of _ d] exI [of _ rest]) (auto simp: Let_def)
  next
    case False
    have "scan_sites ip rest (if is_dict raw \<and> site_matches ip (dict_of raw) then (strip name, stget (dict_of raw) ''target_node'') else acc)
        = (site, target)"
      using 2(3,5) False by (auto simp: Let_def split: if_splits)
    then obtain before name' d rest' where *: "rest = before @ (name', PDict d) # rest'" "strip name' = site"
      "stget d ''target_node'' = target" "site_matches ip d"
      "\<forall>(name', raw) \<in> set before. is_dict raw \<and> site_matches ip (dict_of raw) \<longrightarrow> strip name' = []"
      using 2(1) [OF _ _ 2(4)] 2(2) [OF _ _ _ _ 2(4)] 2(5) False by (cases "is_dict raw") (auto split: if_splits)
    show ?thesis
      by (rule exI [of _ "(name, raw) # before"], rule exI [of _ name'], rule exI [of _ d], rule exI [of _ rest'])
        (use * False in auto)
  qed
qed simp

lemma geo_decided:
  assumes "evaluate_geo_handover sid client_ip w = (Inr g, w1)" and "gd_should_handover g"
  shows "\<exists>s ip name d. map_of (sd_sessions (sm_file w)) sid = Some s \<and> ip_address (strip client_ip) = Some ip
     \<and> (name, PDict d) \<in> set (dict_of (pget (dict_of (pget s ''session_geo_routing'')) ''sites''))
     \<and> site_matches ip d \<and> stget d ''target_node'' = gd_target_node g \<and> gd_target_node g \<noteq> sget s ''current_node''"
    and "w1 = sm_refresh w"
proof -
  show w1: "w1 = sm_refresh w"
    using assms(1) by (auto simp: evaluate_geo_handover_def get_session_def Let_def split: option.splits prod.splits if_splits)
  obtain s where s: "map_of (sd_sessions (sm_file w)) sid = Some s"
    using assms(1) by (auto simp: evaluate_geo_handover_def get_session_def mem_session_def split: option.splits)
  let ?geo = "dict_of (pget s ''session_geo_routing'')"
  have on: "\<not> (?geo = [] \<or> \<not> truthy (pget ?geo ''enabled''))"
    using assms s by (auto simp: evaluate_geo_handover_def get_session_def mem_session_def Let_def split: if_splits)
  then obtain ip where ip: "ip_address (strip client_ip) = Some ip"
    using assms s by (cases "ip_address (strip client_ip)") (auto simp: evaluate_geo_handover_def get_session_def mem_session_def Let_def)
  obtain site target where sc: "scan_sites ip (dict_of (pget ?geo ''sites'')) ([], []) = (site, target)" by fastforce
  then have g: "gd_matched_site g = site" "gd_target_node g = target" "site \<noteq> []" "target \<noteq> sget s ''current_node''"
    using assms s on ip by (auto simp: evaluate_geo_handover_def get_session_def mem_session_def Let_def)
  obtain before name d rest where "dict_of (pget ?geo ''sites'') = before @ (name, PDict d) # rest"
    "stget d ''target_node'' = target" "site_matches ip d"
    using scan_sites_first [OF sc g(3)] by auto
  then have "(name, PDict d) \<in> set (dict_of (pget ?geo ''sites''))" "stget d ''target_node'' = gd_target_node g" "site_matches ip d"
    by (simp_all add: g)
  with s ip g show "\<exists>s ip name d. map_of (sd_sessions (sm_file w)) sid = Some s \<and> ip_address (strip client_ip) = Some ip
     \<and> (name, PDict d) \<in> set (dict_of (pget (dict_of (pget s ''session_geo_routing'')) ''sites''))
     \<and> site_matches ip d \<and> stget d ''target_node'' = gd_target_node g \<and> gd_target_node g \<noteq> sget s ''current_node''"
    by auto
qed

text \<open>a geographic handover that reports success has moved the session to the right place: the session was
  on another node, the client's address lies in a network of a site of the session's routing table, and
  the node the session is on afterwards is the target of that site.\<close>

lemma geo_handover_lands:
  assumes inv: "sm_inv w" and run: "apply_geo_handover env sid client_ip w = (Inr (True, g, t), w')"
  shows "get_current_node sid w' = Inr (gd_target_node g) \<and>
    (\<exists>s ip name d. map_of (sd_sessions (sm_file w)) sid = Some s \<and> ip_address (strip client_ip) = Some ip
     \<and> (name, PDict d) \<in> set (dict_of (pget (dict_of (pget s ''session_geo_routing'')) ''sites''))
     \<and> site_matches ip d \<and> stget d ''target_node'' = gd_target_node g \<and> gd_target_node g \<noteq> sget s ''current_node'')"
proof -
  obtain w1 x where ev: "evaluate_geo_handover sid client_ip w = (Inr g, w1)" "gd_should_handover g"
    and tr: "transfer_session env sid (gd_target_node g) w1 = (Inr x, w')" "st_status x = ''completed''"
    using run by (auto simp: apply_geo_handover_def split: prod.splits sum.splits if_splits)
  note D = geo_decided [OF ev]
  from D(1) obtain s where s: "map_of (sd_sessions (sm_file w1)) sid = Some s" by (auto simp: D(2))
  have "sm_inv w1" using inv by (simp add: D(2) sm_inv_refresh)
  then have "get_current_node sid w' = Inr (gd_target_node g)"
    using transfer_place [OF _ s tr] by blast
  with D(1) show ?thesis by blast
qed

end
