(* ===== verification/Json.thy ===== *)
theory Json
  imports PyValue
begin

text \<open>
  The part of Python's \<open>json\<close> module the services use: \<open>json.dumps\<close> with compact separators and
  \<open>ensure_ascii\<close>, and \<open>json.loads\<close>. Characters are code points below 256; an escape of a larger one is
  outside the model and is rejected. The parser runs on fuel; the length of the text is enough.
\<close>

subsection \<open>Writing\<close>

definition json_escape :: "char \<Rightarrow> string" where
  "json_escape c = (let n = (of_char c :: nat) in
     if c = CHR 0x22 then [CHR 0x5C, CHR 0x22] else if c = CHR 0x5C then [CHR 0x5C, CHR 0x5C]
     else if n = 10 then [CHR 0x5C, CHR ''n''] else if n = 13 then [CHR 0x5C, CHR ''r'']
     else if n = 9 then [CHR 0x5C, CHR ''t''] else if n = 12 then [CHR 0x5C, CHR ''f'']
     else if n = 8 then [CHR 0x5C, CHR ''b'']
     else if 32 \<le> n \<and> n \<le> 126 then [c]
     else [CHR 0x5C, CHR ''u'', CHR ''0'', CHR ''0'', hex_digit (n div 16), hex_digit (n mod 16)])"

definition json_string :: "string \<Rightarrow> string" where
  "json_string s = [CHR 0x22] @ concat (map json_escape s) @ [CHR 0x22]"

fun json_dumps :: "py \<Rightarrow> string" where
  "json_dumps PNone = ''null''"
| "json_dumps (PBool b) = (if b then ''true'' else ''false'')"
| "json_dumps (PInt i) = int_str i"
| "json_dumps (PFloat r) = float_str r"
| "json_dumps (PStr s) = json_string s"
| "json_dumps (PList xs) = ''['' @ join_with '','' (map json_dumps xs) @ '']''"
| "json_dumps (PDict d) = ''{'' @ join_with '','' (map (\<lambda>(k, v). json_string k @ '':'' @ json_dumps v) d) @ ''}''"

subsection \<open>Reading\<close>

definition skip_ws :: "string \<Rightarrow> string" where
  "skip_ws = dropWhile (\<lambda>c. c \<in> {CHR '' '', CHR 0x09, CHR 0x0A, CHR 0x0D})"

definition hex_val :: "char \<Rightarrow> nat option" where
  "hex_val c = (let n = (of_char c :: nat) in
     if 48 \<le> n \<and> n \<le> 57 then Some (n - 48) else if 97 \<le> n \<and> n \<le> 102 then Some (n - 87)
     else if 65 \<le> n \<and> n \<le> 70 then Some (n - 55) else None)"

definition hex4 :: "char \<Rightarrow> char \<Rightarrow> char \<Rightarrow> char \<Rightarrow> nat option" where
  "hex4 a b c d = (case (hex_val a, hex_val b, hex_val c, hex_val d) of
     (Some w, Some x, Some y, Some z) \<Rightarrow> Some (((w * 16 + x) * 16 + y) * 16 + z) | _ \<Rightarrow> None)"

definition unescape :: "char \<Rightarrow> char option" where
  "unescape c = (if c \<in> {CHR 0x22, CHR 0x5C, CHR ''/''} then Some c else if c = CHR ''n'' then Some (CHR 0x0A)
     else if c = CHR ''r'' then Some (CHR 0x0D) else if c = CHR ''t'' then Some (CHR 0x09)
     else if c = CHR ''b'' then Some (CHR 0x08) else if c = CHR ''f'' then Some (CHR 0x0C) else None)"

text \<open>The rest of a string literal after its opening quote, and what follows it.\<close>

fun json_chars :: "string \<Rightarrow> (string \<times> string) option" where
  "json_chars [] = None"
| "json_chars (c # t) =
    (if c = CHR 0x22 then Some ([], t)
     else if c = CHR 0x5C then
       (case t of [] \<Rightarrow> None
        | e # u \<Rightarrow> if e = CHR ''u'' then
            (case u of h1 # h2 # h3 # h4 # v \<Rightarrow>
               (case hex4 h1 h2 h3 h4 of None \<Rightarrow> None
                | Some n \<Rightarrow> if n < 256 then map_option (apfst (Cons (char_of n))) (json_chars v) else None)
             | _ \<Rightarrow> None)
          else (case unescape e of None \<Rightarrow> None | Some x \<Rightarrow> map_option (apfst (Cons x)) (json_chars u)))
     else if (of_char c :: nat) < 32 then None
     else map_option (apfst (Cons c)) (json_chars t))"

definition exponent_of :: "string \<Rightarrow> (int \<times> string) option" where
  "exponent_of s = (case s of [] \<Rightarrow> None
     | c # t \<Rightarrow> if c \<noteq> CHR ''e'' \<and> c \<noteq> CHR ''E'' then None else
        let neg = (t \<noteq> [] \<and> hd t = CHR ''-'');
            u = (if t \<noteq> [] \<and> (hd t = CHR ''-'' \<or> hd t = CHR ''+'') then tl t else t);
            ds = takeWhile is_digit u
        in if ds = [] then None else Some ((if neg then - int (digits_val ds) else int (digits_val ds)), dropWhile is_digit u))"

definition fraction_of :: "string \<Rightarrow> (string \<times> string) option" where
  "fraction_of s = (case s of [] \<Rightarrow> None
     | c # t \<Rightarrow> if c = CHR ''.'' \<and> takeWhile is_digit t \<noteq> [] then Some (takeWhile is_digit t, dropWhile is_digit t) else None)"

definition pow10 :: "int \<Rightarrow> rat" where
  "pow10 e = (if 0 \<le> e then 10 ^ nat e else 1 / 10 ^ nat (- e))"

definition json_number :: "string \<Rightarrow> (py \<times> string) option" where
  "json_number s = (let neg = (s \<noteq> [] \<and> hd s = CHR ''-''); t = (if neg then tl s else s); ds = takeWhile is_digit t in
     if ds = [] then None else
     let ip = (if hd ds = CHR ''0'' then [CHR ''0''] else ds); r = drop (length ip) t; n = int (digits_val ip);
         (fr, r1) = (case fraction_of r of None \<Rightarrow> ([], r) | Some p \<Rightarrow> p)
     in (case exponent_of r1 of
           None \<Rightarrow> if fr = [] then Some (PInt (if neg then - n else n), r1)
             else (let x = of_int n + of_nat (digits_val fr) / 10 ^ length fr in Some (PFloat (if neg then - x else x), r1))
         | Some (e, r2) \<Rightarrow> let x = (of_int n + of_nat (digits_val fr) / 10 ^ length fr) * pow10 e
             in Some (PFloat (if neg then - x else x), r2)))"

fun json_value :: "nat \<Rightarrow> string \<Rightarrow> (py \<times> string) option"
  and json_elements :: "nat \<Rightarrow> string \<Rightarrow> (py list \<times> string) option"
  and json_members :: "nat \<Rightarrow> string \<Rightarrow> (dict \<times> string) option" where
  "json_value 0 s = None"
| "json_value (Suc n) s =
    (if starts_with s [CHR 0x22] then map_option (apfst PStr) (json_chars (tl s))
     else if starts_with s ''{'' then
       (let u = skip_ws (tl s) in if starts_with u ''}'' then Some (PDict [], tl u)
        else map_option (apfst (\<lambda>ps. PDict (fold (\<lambda>(k, v). dset k v) ps []))) (json_members n u))
     else if starts_with s ''['' then
       (let u = skip_ws (tl s) in if starts_with u '']'' then Some (PList [], tl u)
        else map_option (apfst PList) (json_elements n u))
     else if starts_with s ''null'' then Some (PNone, drop 4 s)
     else if starts_with s ''true'' then Some (PBool True, drop 4 s)
     else if starts_with s ''false'' then Some (PBool False, drop 5 s)
     else json_number s)"
| "json_elements 0 s = None"
| "json_elements (Suc n) s = (case json_value n s of None \<Rightarrow> None
     | Some (v, r) \<Rightarrow> let u = skip_ws r in
        if starts_with u '']'' then Some ([v], tl u)
        else if starts_with u '','' then map_option (apfst (Cons v)) (json_elements n (skip_ws (tl u)))
        else None)"
| "json_members 0 s = None"
| "json_members (Suc n) s = (if \<not> starts_with s [CHR 0x22] then None else
     (case json_chars (tl s) of None \<Rightarrow> None
      | Some (k, r) \<Rightarrow> let u = skip_ws r in
        if \<not> starts_with u '':'' then None else
        (case json_value n (skip_ws (tl u)) of None \<Rightarrow> None
         | Some (v, r') \<Rightarrow> let u' = skip_ws r' in
            if starts_with u' ''}'' then Some ([(k, v)], tl u')
            else if starts_with u' '','' then map_option (apfst (Cons (k, v))) (json_members n (skip_ws (tl u')))
            else None)))"

text \<open>\<open>json.loads\<close>: one value, with blanks around it.\<close>

definition json_loads :: "string \<Rightarrow> py option" where
  "json_loads s = (case json_value (Suc (length s)) (skip_ws s) of None \<Rightarrow> None
     | Some (v, r) \<Rightarrow> if skip_ws r = [] then Some v else None)"

subsection \<open>Round trip\<close>

text \<open>The values without floats whose dictionaries have each key once.\<close>

fun plain :: "py \<Rightarrow> bool" where
  "plain (PFloat r) = False"
| "plain (PList xs) = (\<forall>v \<in> set xs. plain v)"
| "plain (PDict d) = (distinct (map fst d) \<and> (\<forall>p \<in> set d. plain (snd p)))"
| "plain _ = True"

lemma hex_val_digit: "n < 16 \<Longrightarrow> hex_val (hex_digit n) = Some n"
  by (auto simp: hex_val_def hex_digit_def Let_def)

lemma hex_digit_zero: "hex_val (CHR ''0'') = Some 0"
  by (simp add: hex_val_def)

lemma char_lt: "(of_char c :: nat) < 256"
  by (rule nat_of_char_less_256)

lemma control_chars: "char_of (10::nat) = CHR 0x0A" "char_of (13::nat) = CHR 0x0D" "char_of (9::nat) = CHR 0x09"
  "char_of (12::nat) = CHR 0x0C" "char_of (8::nat) = CHR 0x08"
  by code_simp+

lemma json_chars_escape: "json_chars (json_escape c @ t) = map_option (apfst (Cons c)) (json_chars t)"
proof -
  let ?n = "of_char c :: nat"
  have code: "c = char_of k" if "?n = k" for k using that by (metis char_of_char)
  consider "c = CHR 0x22" | "c = CHR 0x5C" | "?n = 10" | "?n = 13" | "?n = 9" | "?n = 12" | "?n = 8"
    | "32 \<le> ?n" "?n \<le> 126" "c \<noteq> CHR 0x22" "c \<noteq> CHR 0x5C"
    | "?n \<notin> {8, 9, 10, 12, 13}" "\<not> (32 \<le> ?n \<and> ?n \<le> 126)" "c \<noteq> CHR 0x22" "c \<noteq> CHR 0x5C" by blast
  then show ?thesis
  proof cases
    case 9
    have "hex4 (CHR ''0'') (CHR ''0'') (hex_digit (?n div 16)) (hex_digit (?n mod 16)) = Some ?n"
      using char_lt [of c] by (simp add: hex4_def hex_digit_zero hex_val_digit div_less_iff_less_mult mult.commute)
    then show ?thesis using 9 char_lt [of c] by (simp add: json_escape_def Let_def)
  qed (auto dest!: code simp: json_escape_def unescape_def control_chars Let_def)
qed

lemma json_chars_string: "json_chars (concat (map json_escape s) @ CHR 0x22 # r) = Some (s, r)"
  by (induction s) (simp_all add: json_chars_escape)

lemma nat_str_lead: "0 < n \<Longrightarrow> hd (nat_str n) \<noteq> CHR ''0''"
proof (induction n rule: nat_str.induct)
  case (1 n)
  show ?case
  proof (cases "n < 10")
    case True
    then have "of_char (digit_char n) = (48 + n :: nat)" by (rule of_digit_char)
    with 1(2) have "digit_char n \<noteq> CHR ''0''" by (auto dest: arg_cong [of _ _ "of_char :: char \<Rightarrow> nat"])
    with True show ?thesis by (simp add: nat_str.simps)
  next
    case False
    then have "hd (nat_str (n div 10)) \<noteq> CHR ''0''" by (intro 1(1)) auto
    with False show ?thesis by (subst nat_str.simps) simp
  qed
qed

text \<open>What may follow a number inside a text: the end, a comma or a closing bracket.\<close>

definition ends_value :: "string \<Rightarrow> bool" where
  "ends_value r = (r = [] \<or> hd r \<in> {CHR '','', CHR '']'', CHR ''}''})"

lemma ends_value_simps [simp]: "ends_value []" "ends_value (CHR '','' # r)" "ends_value (CHR '']'' # r)" "ends_value (CHR ''}'' # r)"
  by (simp_all add: ends_value_def)

lemma ends_value_number:
  assumes "ends_value r"
  shows "takeWhile is_digit r = []" "fraction_of r = None" "exponent_of r = None"
  using assms by (cases r; auto simp: ends_value_def fraction_of_def exponent_of_def is_digit_def)+

lemma nat_str_zero: "nat_str 0 = ''0''"
  by code_simp

lemma json_number_nat:
  assumes "ends_value r"
  shows "json_number (nat_str n @ r) = Some (PInt (int n), r)" "json_number (CHR ''-'' # nat_str n @ r) = Some (PInt (- int n), r)"
proof -
  have tw: "takeWhile is_digit (nat_str n @ r) = nat_str n"
    using nat_str_digits [of _ n] ends_value_number(1) [OF assms] by (simp add: takeWhile_append)
  have hd0: "hd (nat_str n @ r) \<noteq> CHR ''-''"
    using nat_str_digits [of "hd (nat_str n)" n] by (auto simp: hd_append)
  have d0: "digits_val ''0'' = 0" by code_simp
  show "json_number (nat_str n @ r) = Some (PInt (int n), r)"
    using tw hd0 ends_value_number [OF assms] nat_str_lead [of n]
    by (cases "n = 0") (simp_all add: json_number_def Let_def nat_str_zero d0)
  show "json_number (CHR ''-'' # nat_str n @ r) = Some (PInt (- int n), r)"
    using tw ends_value_number [OF assms] nat_str_lead [of n]
    by (cases "n = 0") (simp_all add: json_number_def Let_def nat_str_zero d0)
qed

lemma json_number_int: "ends_value r \<Longrightarrow> json_number (int_str i @ r) = Some (PInt i, r)"
  using json_number_nat [of r "nat i"] json_number_nat [of r "nat (- i)"] by (simp add: int_str_def)

text \<open>No value starts with a blank or a closing bracket.\<close>

definition opens_value :: "string \<Rightarrow> bool" where
  "opens_value s = (s \<noteq> [] \<and> hd s \<notin> {CHR '' '', CHR 0x09, CHR 0x0A, CHR 0x0D, CHR '']'', CHR ''}''})"

lemma int_str_hd: "hd (int_str i) = CHR ''-'' \<or> is_digit (hd (int_str i))"
  using nat_str_digits [OF hd_in_set [OF nat_str_nonempty]] by (auto simp: int_str_def)

lemma digit_other:
  "is_digit c \<Longrightarrow> c \<notin> {CHR '' '', CHR 0x09, CHR 0x0A, CHR 0x0D, CHR '']'', CHR ''}'', CHR ''['', CHR ''{'', CHR 0x22,
     CHR ''n'', CHR ''t'', CHR ''f''}"
  by (auto simp: is_digit_def)

lemma opens_value_dumps: "plain v \<Longrightarrow> opens_value (json_dumps v)"
proof (cases v)
  case (PInt i)
  then show ?thesis using int_str_hd [of i] digit_other [of "hd (int_str i)"] by (auto simp: opens_value_def)
qed (simp_all add: opens_value_def json_string_def)

lemma opens_value_append [simp]: "opens_value s \<Longrightarrow> opens_value (s @ r)"
  by (auto simp: opens_value_def)

lemma skip_ws_opens [simp]: "opens_value s \<Longrightarrow> skip_ws s = s"
  by (cases s) (auto simp: opens_value_def skip_ws_def)

lemma opens_value_closing: "opens_value s \<Longrightarrow> \<not> starts_with s '']'' \<and> \<not> starts_with s ''}''"
  by (cases s) (auto simp: opens_value_def)

lemma skip_ws_punct [simp]: "skip_ws (CHR '','' # r) = CHR '','' # r" "skip_ws (CHR '']'' # r) = CHR '']'' # r"
  "skip_ws (CHR ''}'' # r) = CHR ''}'' # r" "skip_ws (CHR '':'' # r) = CHR '':'' # r" "skip_ws [] = []"
  by (simp_all add: skip_ws_def)

text \<open>The fuel a value needs.\<close>

fun weight :: "py \<Rightarrow> nat" where
  "weight (PList xs) = 1 + sum_list (map (\<lambda>v. 1 + weight v) xs)"
| "weight (PDict d) = 1 + sum_list (map (\<lambda>p. 1 + weight (snd p)) d)"
| "weight _ = 1"

lemma json_value_number:
  "is_digit (hd s) \<or> hd s = CHR ''-'' \<Longrightarrow> s \<noteq> [] \<Longrightarrow> json_value (Suc n) s = json_number s"
proof -
  assume a: "is_digit (hd s) \<or> hd s = CHR ''-''" and "s \<noteq> []"
  then obtain c t where s: "s = c # t" by (cases s) auto
  with a have "c \<noteq> CHR ''[''" "c \<noteq> CHR ''{''" "c \<noteq> CHR 0x22" "c \<noteq> CHR ''n''" "c \<noteq> CHR ''t''" "c \<noteq> CHR ''f''"
    using digit_other [of c] by (cases "c = CHR ''-''"; simp add: s)+
  then show ?thesis unfolding s json_value.simps(2) starts_with_simps by (simp only: simp_thms if_False)
qed

lemma fold_dset_fresh: "distinct (map fst (acc @ ps)) \<Longrightarrow> fold (\<lambda>(k, v). dset k v) ps acc = acc @ ps"
proof (induction ps arbitrary: acc)
  case (Cons p ps)
  then have "dset (fst p) (snd p) acc = acc @ [p]" by (subst dset_absent) (auto simp: has_key_iff)
  with Cons show ?case by (cases p) auto
qed simp

lemma json_value_string: "json_value (Suc n) (json_string s @ r) = Some (PStr s, r)"
  by (simp add: json_string_def json_chars_string)

lemma members_string:
  "json_members (Suc n) (json_string k @ CHR '':'' # u) = (case json_value n (skip_ws u) of None \<Rightarrow> None
     | Some (v, r') \<Rightarrow> let u' = skip_ws r' in
        if starts_with u' ''}'' then Some ([(k, v)], tl u')
        else if starts_with u' '','' then map_option (apfst (Cons (k, v))) (json_members n (skip_ws (tl u')))
        else None)"
  by (simp add: json_string_def json_chars_string)

lemma opens_value_string [simp]: "opens_value (json_string s @ r)" "opens_value (json_string s)"
  by (simp_all add: opens_value_def json_string_def)

lemma elements_dumps:
  assumes "\<And>v n r. v \<in> set xs \<Longrightarrow> weight v \<le> n \<Longrightarrow> ends_value r \<Longrightarrow> json_value n (json_dumps v @ r) = Some (v, r)"
    and "\<And>v. v \<in> set xs \<Longrightarrow> plain v" and "xs \<noteq> []" and "sum_list (map (\<lambda>v. 1 + weight v) xs) \<le> n"
  shows "json_elements n (join_with '','' (map json_dumps xs) @ CHR '']'' # r) = Some (xs, r)"
  using assms
proof (induction xs arbitrary: n)
  case (Cons v xs)
  from Cons.prems(4) obtain m where n: "n = Suc m" by (cases n) auto
  show ?case
  proof (cases xs)
    case Nil
    with Cons.prems n show ?thesis by simp
  next
    case (Cons w ys)
    have "json_elements m (join_with '','' (map json_dumps xs) @ CHR '']'' # r) = Some (xs, r)"
      by (rule Cons.IH) (use Cons.prems n Cons in auto)
    moreover have "opens_value (join_with '','' (map json_dumps xs) @ CHR '']'' # r)"
      using opens_value_dumps [of w] Cons.prems(2) Cons by (cases ys) auto
    ultimately show ?thesis using Cons.prems n Cons by simp
  qed
qed simp

lemma members_dumps:
  assumes "\<And>p n r. p \<in> set d \<Longrightarrow> weight (snd p) \<le> n \<Longrightarrow> ends_value r \<Longrightarrow> json_value n (json_dumps (snd p) @ r) = Some (snd p, r)"
    and "\<And>p. p \<in> set d \<Longrightarrow> plain (snd p)" and "d \<noteq> []" and "sum_list (map (\<lambda>p. 1 + weight (snd p)) d) \<le> n"
  shows "json_members n (join_with '','' (map (\<lambda>(k, v). json_string k @ '':'' @ json_dumps v) d) @ CHR ''}'' # r) = Some (d, r)"
  using assms
proof (induction d arbitrary: n)
  case (Cons p d)
  from Cons.prems(4) obtain m where n: "n = Suc m" by (cases n) auto
  obtain k v where p: "p = (k, v)" by (cases p)
  have v: "opens_value (json_dumps v)" using opens_value_dumps Cons.prems(2) p by force
  have one: "json_value m (json_dumps v @ r') = Some (v, r')" if "ends_value r'" for r'
    using Cons.prems(1) [of p m r'] Cons.prems(4) n p that by simp
  show ?case
  proof (cases d)
    case Nil
    with v one n p show ?thesis by (simp add: members_string del: json_members.simps)
  next
    case (Cons q e)
    have "json_members m (join_with '','' (map (\<lambda>(k, v). json_string k @ '':'' @ json_dumps v) d) @ CHR ''}'' # r) = Some (d, r)"
      by (rule Cons.IH) (use Cons.prems n Cons in auto)
    moreover have "opens_value (join_with '','' (map (\<lambda>(k, v). json_string k @ '':'' @ json_dumps v) d) @ CHR ''}'' # r)"
      using Cons by (cases e) (auto simp: case_prod_unfold)
    ultimately show ?thesis using v one n p Cons by (simp add: members_string del: json_members.simps)
  qed
qed simp

lemma json_value_dumps: "plain v \<Longrightarrow> weight v \<le> n \<Longrightarrow> ends_value r \<Longrightarrow> json_value n (json_dumps v @ r) = Some (v, r)"
proof (induction v arbitrary: n r)
  case (PInt i)
  then obtain m where "n = Suc m" by (cases n) auto
  moreover have "is_digit (hd (int_str i @ r)) \<or> hd (int_str i @ r) = CHR ''-''" using int_str_hd [of i] by (auto simp: hd_append)
  ultimately show ?case using json_value_number [of "int_str i @ r"] json_number_int [OF PInt.prems(3), of i] by simp
next
  case (PStr s)
  then obtain m where "n = Suc m" by (cases n) auto
  then show ?case by (simp add: json_value_string del: json_value.simps)
next
  case (PList xs)
  then obtain m where n: "n = Suc m" by (cases n) auto
  show ?case
  proof (cases "xs = []")
    case False
    let ?t = "join_with '','' (map json_dumps xs) @ CHR '']'' # r"
    have "json_elements m ?t = Some (xs, r)"
      by (rule elements_dumps) (use PList False n in \<open>auto simp del: json_value.simps\<close>)
    moreover have "opens_value ?t"
      using PList.prems(1) False opens_value_dumps [of "hd xs"] by (cases xs; cases "tl xs") (auto simp: append_assoc [symmetric] simp del: append_assoc)
    ultimately show ?thesis using n opens_value_closing [of ?t] by simp
  qed (simp add: n)
next
  case (PDict d)
  then obtain m where n: "n = Suc m" by (cases n) auto
  show ?case
  proof (cases "d = []")
    case False
    let ?t = "join_with '','' (map (\<lambda>(k, v). json_string k @ '':'' @ json_dumps v) d) @ CHR ''}'' # r"
    have "json_members m ?t = Some (d, r)"
      by (rule members_dumps) (use PDict False n in \<open>auto simp del: json_value.simps\<close>)
    moreover have "opens_value ?t"
      using False by (cases d; cases "tl d") (auto simp: case_prod_unfold)
    ultimately show ?thesis using n opens_value_closing [of ?t] PDict.prems(1) fold_dset_fresh [of "[]" d] by simp
  qed (simp add: n)
next
  case PNone
  then obtain m where "n = Suc m" by (cases n) auto
  then show ?case by simp
next
  case (PBool b)
  then obtain m where "n = Suc m" by (cases n) auto
  then show ?case by simp
qed simp

lemma length_join: "length (join_with [c] xs) = sum_list (map length xs) + (length xs - 1)"
  by (induction "[c]" xs rule: join_with.induct) auto

lemma weight_length: "plain v \<Longrightarrow> weight v \<le> length (json_dumps v)"
proof (induction v)
  case (PInt i)
  then show ?case by (cases "int_str i") (auto dest: int_str_nonempty [THEN notE])
next
  case (PList xs)
  then have "\<forall>v \<in> set xs. weight v \<le> length (json_dumps v)" by auto
  then have "sum_list (map (\<lambda>v. 1 + weight v) xs) \<le> length xs + sum_list (map (length \<circ> json_dumps) xs)"
    by (induction xs) auto
  then show ?case by (cases xs) (simp_all add: length_join)
next
  case (PDict d)
  then have "\<forall>p \<in> set d. weight (snd p) \<le> length (json_dumps (snd p))" by (auto simp: snds.intros)
  then have "sum_list (map (\<lambda>p. 1 + weight (snd p)) d)
      \<le> length d + sum_list (map (length \<circ> (\<lambda>(k, v). json_string k @ '':'' @ json_dumps v)) d)"
    by (induction d) (auto simp: case_prod_unfold)
  then show ?case by (cases d) (simp_all add: length_join)
qed (simp_all add: json_string_def)

text \<open>Reading what was written gives the value back.\<close>

lemma json_loads_dumps: "plain v \<Longrightarrow> json_loads (json_dumps v) = Some v"
  using json_value_dumps [of v "Suc (length (json_dumps v))" "[]"] weight_length [of v] opens_value_dumps [of v]
  by (simp add: json_loads_def le_SucI del: json_value.simps)

text \<open>The text is ASCII.\<close>

definition ascii :: "string \<Rightarrow> bool" where
  "ascii s = list_all (\<lambda>c. (of_char c :: nat) < 128) s"

lemma ascii_append [simp]: "ascii (s @ t) \<longleftrightarrow> ascii s \<and> ascii t" "ascii []" "ascii (c # s) \<longleftrightarrow> (of_char c :: nat) < 128 \<and> ascii s"
  by (simp_all add: ascii_def)

lemma ascii_join: "ascii sep \<Longrightarrow> \<forall>s \<in> set ss. ascii s \<Longrightarrow> ascii (join_with sep ss)"
  by (induction sep ss rule: join_with.induct) auto

lemma ascii_hex: "n < 16 \<Longrightarrow> (of_char (hex_digit n) :: nat) < 128"
  by (simp add: hex_digit_def)

lemma ascii_escape: "ascii (json_escape c)"
  using char_lt [of c] by (simp add: json_escape_def Let_def ascii_hex div_less_iff_less_mult)

lemma ascii_string: "ascii (json_string s)"
proof -
  have "ascii (concat (map json_escape s))" by (induction s) (auto simp: ascii_escape)
  then show ?thesis by (simp add: json_string_def)
qed

lemma ascii_digits: "list_all is_digit s \<Longrightarrow> ascii s"
  by (induction s) (auto simp: is_digit_def Let_def)

lemma ascii_int_str: "ascii (int_str i)"
  using ascii_digits [of "nat_str n" for n] nat_str_digits by (auto simp: int_str_def list_all_iff)

lemma ascii_dumps: "plain v \<Longrightarrow> ascii (json_dumps v)"
proof (induction v)
  case (PDict d)
  then have "ascii (json_dumps v)" if "(k, v) \<in> set d" for k v using that by (fastforce simp: snds.intros)
  then show ?case by (auto intro!: ascii_join simp: ascii_string)
next
  case (PList xs)
  then show ?case by (auto intro!: ascii_join)
qed (auto simp: ascii_string ascii_int_str)

end
