(* ===== verification/Bytes.thy ===== *)
theory Bytes
  imports Json
begin

text \<open>
  Byte strings, as lists of characters: UTF-8, hexadecimal text, big-endian numbers and the Base32 of
  Python's \<open>base64\<close> module, each with the round trip the services rely on.
\<close>

subsection \<open>UTF-8\<close>

definition utf8_encode :: "string \<Rightarrow> string" where
  "utf8_encode s = concat (map (\<lambda>c. let n = (of_char c :: nat) in
     if n < 128 then [c] else [char_of (192 + n div 64), char_of (128 + n mod 64)]) s)"

text \<open>Decoding, for code points below 256; longer sequences are outside the model.\<close>

fun utf8_decode :: "string \<Rightarrow> string option" where
  "utf8_decode [] = Some []"
| "utf8_decode (c # s) = (let n = (of_char c :: nat) in
     if n < 128 then map_option (Cons c) (utf8_decode s)
     else (case s of [] \<Rightarrow> None | e # t \<Rightarrow> let m = (of_char e :: nat) in
        if (n = 194 \<or> n = 195) \<and> 128 \<le> m \<and> m < 192
        then map_option (Cons (char_of ((n - 192) * 64 + (m - 128)))) (utf8_decode t) else None))"

lemma utf8_ascii: "ascii s \<Longrightarrow> utf8_encode s = s"
  by (induction s) (auto simp: utf8_encode_def Let_def)

lemma utf8_decode_ascii: "ascii s \<Longrightarrow> utf8_decode s = Some s"
  by (induction s) (auto simp: Let_def)

definition rstrip_char :: "char \<Rightarrow> string \<Rightarrow> string" where
  "rstrip_char c s = rev (dropWhile (\<lambda>x. x = c) (rev s))"

lemma rstrip_char_absent: "c \<notin> set s \<Longrightarrow> rstrip_char c (s @ replicate k c) = s"
proof -
  assume c: "c \<notin> set s"
  have "dropWhile (\<lambda>x. x = c) (replicate k c @ rev s) = dropWhile (\<lambda>x. x = c) (rev s)" by (induction k) auto
  also have "\<dots> = rev s" using c by (simp add: dropWhile_eq_self_iff) (metis hd_in_set set_rev rev_is_Nil_conv)
  finally show ?thesis by (simp add: rstrip_char_def)
qed

subsection \<open>Hexadecimal text\<close>

text \<open>\<open>raw.hex()\<close> and \<open>bytes.fromhex(text)\<close>, which skips ASCII blanks between the bytes.\<close>

definition bytes_hex :: "string \<Rightarrow> string" where
  "bytes_hex raw = concat (map (\<lambda>c. let n = (of_char c :: nat) in [hex_digit (n div 16), hex_digit (n mod 16)]) raw)"

definition hex_blank :: "char \<Rightarrow> bool" where
  "hex_blank c = (let n = (of_char c :: nat) in n = 32 \<or> (9 \<le> n \<and> n \<le> 13))"

fun bytes_fromhex :: "string \<Rightarrow> string option" where
  "bytes_fromhex [] = Some []"
| "bytes_fromhex [a] = (if hex_blank a then Some [] else None)"
| "bytes_fromhex (a # b # s) = (if hex_blank a then bytes_fromhex (b # s)
     else (case (hex_val a, hex_val b) of
        (Some x, Some y) \<Rightarrow> map_option (Cons (char_of (x * 16 + y))) (bytes_fromhex s) | _ \<Rightarrow> None))"

lemma hex_digit_code: "n < 16 \<Longrightarrow> of_char (hex_digit n) = (if n < 10 then 48 + n else 87 + n)"
  by (simp add: hex_digit_def)

lemma hex_digit_not_blank: "n < 16 \<Longrightarrow> \<not> hex_blank (hex_digit n)"
  by (simp add: hex_blank_def hex_digit_code)

lemma char_high: "(of_char c :: nat) div 16 < 16"
  using char_lt [of c] by (simp add: div_less_iff_less_mult)

lemma fromhex_hex [simp]: "bytes_fromhex (bytes_hex raw) = Some raw"
proof (induction raw)
  case Nil
  show ?case by (simp add: bytes_hex_def)
next
  case (Cons c raw)
  have q: "(of_char c :: nat) div 16 < 16" by (rule char_high)
  have "bytes_hex (c # raw) = hex_digit (of_char c div 16) # hex_digit (of_char c mod 16) # bytes_hex raw"
    by (simp add: bytes_hex_def Let_def)
  then show ?case using Cons q by (simp add: hex_digit_not_blank hex_val_digit)
qed

lemma hex_no_dollar: "CHR ''$'' \<notin> set (bytes_hex raw)"
proof (induction raw)
  case Nil
  show ?case by (simp add: bytes_hex_def)
next
  case (Cons c raw)
  have ne: "hex_digit n \<noteq> CHR ''$''" if "n < 16" for n
  proof
    assume "hex_digit n = CHR ''$''"
    then have "of_char (hex_digit n) = (36::nat)" by simp
    then show False using hex_digit_code [OF that] by (simp split: if_splits)
  qed
  have "bytes_hex (c # raw) = hex_digit (of_char c div 16) # hex_digit (of_char c mod 16) # bytes_hex raw"
    by (simp add: bytes_hex_def Let_def)
  then show ?case using Cons.IH ne [OF char_high [of c]] ne [of "of_char c mod 16"] by simp
qed

subsection \<open>Numbers in a base\<close>

text \<open>\<open>k\<close> digits of a number, the most significant first, and the number digits stand for.\<close>

fun to_base :: "nat \<Rightarrow> nat \<Rightarrow> nat \<Rightarrow> nat list" where
  "to_base B 0 n = []"
| "to_base B (Suc k) n = to_base B k (n div B) @ [n mod B]"

definition from_base :: "nat \<Rightarrow> nat list \<Rightarrow> nat" where
  "from_base B ds = foldl (\<lambda>a d. a * B + d) 0 ds"

lemma length_to_base [simp]: "length (to_base B k n) = k"
  by (induction k arbitrary: n) auto

lemma to_base_bound: "0 < B \<Longrightarrow> d \<in> set (to_base B k n) \<Longrightarrow> d < B"
  by (induction k arbitrary: n) auto

lemma from_base_snoc: "from_base B (ds @ [d]) = from_base B ds * B + d"
  by (simp add: from_base_def)

lemma from_base_lt: "\<forall>d \<in> set ds. d < B \<Longrightarrow> from_base B ds < B ^ length ds"
proof (induction ds rule: rev_induct)
  case Nil
  show ?case by (simp add: from_base_def)
next
  case (snoc d ds)
  then have "from_base B ds + 1 \<le> B ^ length ds" "d < B" by auto
  then have "(from_base B ds + 1) * B \<le> B ^ length ds * B" by (metis mult_le_mono1)
  then show ?case using \<open>d < B\<close> by (simp add: from_base_snoc mult.commute)
qed

lemma from_to_base: "0 < B \<Longrightarrow> n < B ^ k \<Longrightarrow> from_base B (to_base B k n) = n"
proof (induction k arbitrary: n)
  case 0
  then show ?case by (simp add: from_base_def)
next
  case (Suc k)
  then have "n div B < B ^ k" by (simp add: div_less_iff_less_mult mult.commute)
  then show ?case using Suc by (simp add: from_base_snoc)
qed

lemma to_from_base: "\<forall>d \<in> set ds. d < B \<Longrightarrow> to_base B (length ds) (from_base B ds) = ds"
  by (induction ds rule: rev_induct) (auto simp: from_base_snoc)

text \<open>\<open>n.to_bytes(k, "big")\<close> of a number that fits.\<close>

definition to_bytes :: "nat \<Rightarrow> nat \<Rightarrow> string" where
  "to_bytes k n = map char_of (to_base 256 k n)"

subsection \<open>Base32\<close>

definition b32_char :: "nat \<Rightarrow> char" where
  "b32_char n = (if n < 26 then char_of (65 + n) else char_of (24 + n))"

definition b32_val :: "char \<Rightarrow> nat option" where
  "b32_val c = (let n = (of_char c :: nat) in
     if 65 \<le> n \<and> n \<le> 90 then Some (n - 65) else if 50 \<le> n \<and> n \<le> 55 then Some (n - 24) else None)"

function chunks :: "nat \<Rightarrow> 'a list \<Rightarrow> 'a list list" where
  "chunks k xs = (if k = 0 \<or> xs = [] then [] else take k xs # chunks k (drop k xs))"
  by pat_completeness auto
termination by (relation "measure (\<lambda>(k, xs). length xs)") auto

declare chunks.simps [simp del]

text \<open>\<open>base64.b32encode\<close>: five bytes to eight digits; a last short group is filled with zeros and padded.\<close>

definition b32_pads :: "nat \<Rightarrow> nat" where
  "b32_pads leftover = (if leftover = 1 then 6 else if leftover = 2 then 4 else if leftover = 3 then 3
     else if leftover = 4 then 1 else 0)"

definition b32_group :: "string \<Rightarrow> string" where
  "b32_group q = map b32_char (to_base 32 8 (from_base 256 (map of_char q)))"

definition b32encode :: "string \<Rightarrow> string" where
  "b32encode raw = (let leftover = length raw mod 5;
      filled = (if leftover = 0 then raw else raw @ replicate (5 - leftover) (char_of (0::nat)));
      body = concat (map b32_group (chunks 5 filled)); pads = b32_pads leftover
    in take (length body - pads) body @ replicate pads (CHR ''=''))"

text \<open>\<open>base64.b32decode(s, casefold=True)\<close>; \<open>None\<close> is \<open>binascii.Error\<close>.\<close>

fun b32_acc :: "nat \<Rightarrow> string \<Rightarrow> nat option" where
  "b32_acc a [] = Some a"
| "b32_acc a (c # s) = (case b32_val c of None \<Rightarrow> None | Some d \<Rightarrow> b32_acc (a * 32 + d) s)"

fun b32_accs :: "string list \<Rightarrow> nat list option" where
  "b32_accs [] = Some []"
| "b32_accs (q # qs) = (case b32_acc 0 q of None \<Rightarrow> None | Some a \<Rightarrow> map_option (Cons a) (b32_accs qs))"

definition b32decode :: "string \<Rightarrow> string option" where
  "b32decode s = (if length s mod 8 \<noteq> 0 \<or> \<not> ascii s then None
     else let u = upper s; t = rstrip_char (CHR ''='') u; pads = length u - length t in
     (case b32_accs (chunks 8 t) of None \<Rightarrow> None
      | Some accs \<Rightarrow>
         if pads \<notin> {0, 1, 3, 4, 6} then None
         else let decoded = concat (map (to_bytes 5) accs) in
           if pads = 0 \<or> decoded = [] then Some decoded
           else Some (take (length decoded - 5) decoded
                  @ take ((43 - 5 * pads) div 8) (to_bytes 5 (last accs * 32 ^ pads)))))"

lemma b32_code: "n < 32 \<Longrightarrow> of_char (b32_char n) = (if n < 26 then 65 + n else 24 + n)"
  by (simp add: b32_char_def)

lemma b32_val_char: "n < 32 \<Longrightarrow> b32_val (b32_char n) = Some n"
  by (simp add: b32_val_def b32_code)

lemma b32_char_plain:
  assumes "n < 32"
  shows "b32_char n \<noteq> CHR ''=''" and "upper_char (b32_char n) = b32_char n" and "(of_char (b32_char n) :: nat) < 128"
    and "\<not> is_space (b32_char n)"
proof -
  have code: "of_char (b32_char n) = (if n < 26 then 65 + n else 24 + n)" by (rule b32_code [OF assms])
  show "b32_char n \<noteq> CHR ''=''"
  proof
    assume "b32_char n = CHR ''=''"
    then have "of_char (b32_char n) = (61::nat)" by simp
    then show False using code assms by (simp split: if_splits)
  qed
qed (use b32_code [OF assms] assms in \<open>auto simp: upper_char_def is_space_def Let_def\<close>)

lemma b32_acc_digits: "\<forall>d \<in> set ds. d < 32 \<Longrightarrow> b32_acc a (map b32_char ds) = Some (foldl (\<lambda>a d. a * 32 + d) a ds)"
  by (induction ds arbitrary: a) (auto simp: b32_val_char)

lemma from_bytes_lt: "from_base 256 (map of_char q) < 256 ^ length q"
  using from_base_lt [of "map of_char q" 256] char_lt by simp

lemma b32_acc_group: "length q = 5 \<Longrightarrow> b32_acc 0 (b32_group q) = Some (from_base 256 (map of_char q))"
proof -
  assume q: "length q = 5"
  let ?n = "from_base 256 (map of_char q)"
  have "?n < 256 ^ 5" using from_bytes_lt [of q] q by simp
  then have n: "?n < 32 ^ 8" by simp
  have "\<forall>d \<in> set (to_base 32 8 ?n). d < 32" using to_base_bound by auto
  then have "b32_acc 0 (map b32_char (to_base 32 8 ?n)) = Some (from_base 32 (to_base 32 8 ?n))"
    using b32_acc_digits [of _ 0] by (simp add: from_base_def)
  then show ?thesis using from_to_base [OF _ n] by (simp add: b32_group_def)
qed

lemma to_bytes_group: "length q = 5 \<Longrightarrow> to_bytes 5 (from_base 256 (map of_char q)) = q"
proof -
  assume q: "length q = 5"
  have "\<forall>d \<in> set (map of_char q). d < (256::nat)" using char_lt by simp
  from to_from_base [OF this] show ?thesis using q by (simp add: to_bytes_def)
qed

lemma length_b32_group [simp]: "length (b32_group q) = 8"
  by (simp add: b32_group_def)

lemma b32_group_chars: "c \<in> set (b32_group q) \<Longrightarrow> \<exists>n < 32. c = b32_char n"
  using to_base_bound [of 32 _ 8 "from_base 256 (map of_char q)"] by (auto simp: b32_group_def)

definition fives :: "string list \<Rightarrow> bool" where
  "fives qs = list_all (\<lambda>q. length q = 5) qs"

lemma chunks_fives: "length raw mod 5 = 0 \<Longrightarrow> fives (chunks 5 raw) \<and> concat (chunks 5 raw) = raw"
proof (induction "5::nat" raw rule: chunks.induct)
  case (1 xs)
  show ?case
  proof (cases "xs = []")
    case True
    then show ?thesis by (simp add: chunks.simps [of 5 "[]"] fives_def)
  next
    case False
    with 1(2) have l: "5 \<le> length xs" by (metis length_0_conv mod_less not_le)
    then have "length (drop 5 xs) mod 5 = 0" using 1(2) by (simp add: mod_if)
    with 1(1) False have "fives (chunks 5 (drop 5 xs)) \<and> concat (chunks 5 (drop 5 xs)) = drop 5 xs" by simp
    then show ?thesis using False l chunks.simps [of 5 xs] by (simp add: fives_def)
  qed
qed

lemma chunks_groups: "chunks 8 (concat (map b32_group qs)) = map b32_group qs"
proof (induction qs)
  case Nil
  show ?case by (simp add: chunks.simps)
next
  case (Cons q qs)
  have "b32_group q \<noteq> []" by (metis length_b32_group list.size(3) zero_neq_numeral)
  then show ?case using Cons by (subst chunks.simps) simp
qed

lemma accs_groups: "fives qs \<Longrightarrow> b32_accs (map b32_group qs) = Some (map (\<lambda>q. from_base 256 (map of_char q)) qs)"
  by (induction qs) (auto simp: fives_def b32_acc_group)

lemma bytes_groups: "fives qs \<Longrightarrow> concat (map (\<lambda>q. to_bytes 5 (from_base 256 (map of_char q))) qs) = concat qs"
  by (induction qs) (auto simp: fives_def to_bytes_group)

lemma b32_body_chars: "c \<in> set (concat (map b32_group qs)) \<Longrightarrow> \<exists>n < 32. c = b32_char n"
  using b32_group_chars by auto

lemma length_groups: "length (concat (map b32_group qs)) = 8 * length qs"
  by (induction qs) auto

text \<open>The encoding of a multiple of five bytes has no padding and decodes to the bytes.\<close>

lemma b32encode_fives:
  assumes "length raw mod 5 = 0"
  shows "b32encode raw = concat (map b32_group (chunks 5 raw))"
  using assms by (simp add: b32encode_def b32_pads_def)

lemma b32decode_encode:
  assumes raw: "length raw mod 5 = 0"
  shows "b32decode (b32encode raw) = Some raw"
proof -
  define body where "body = concat (map b32_group (chunks 5 raw))"
  have chars: "\<exists>n < 32. c = b32_char n" if "c \<in> set body" for c using that b32_body_chars unfolding body_def by blast
  have up: "upper body = body" using chars b32_char_plain(2) unfolding upper_def by (metis map_idI)
  have asc: "ascii body" using chars b32_char_plain(3) unfolding ascii_def list_all_iff by metis
  have "CHR ''='' \<notin> set body" using chars b32_char_plain(1) by metis
  then have strip: "rstrip_char (CHR ''='') body = body" using rstrip_char_absent [of _ body 0] by simp
  have len: "length body mod 8 = 0" by (simp add: body_def length_groups)
  have f: "fives (chunks 5 raw)" and c: "concat (chunks 5 raw) = raw" using chunks_fives [OF raw] by auto
  have accs: "b32_accs (chunks 8 body) = Some (map (\<lambda>q. from_base 256 (map of_char q)) (chunks 5 raw))"
    unfolding body_def chunks_groups by (rule accs_groups [OF f])
  have "b32decode body = Some (concat (map (\<lambda>q. to_bytes 5 (from_base 256 (map of_char q))) (chunks 5 raw)))"
    using len asc by (simp add: b32decode_def up strip accs comp_def)
  then show ?thesis using bytes_groups [OF f] c b32encode_fives [OF raw] by (simp add: body_def)
qed

end
