(* ===== verification/Base64.thy ===== *)
theory Base64
  imports PyText
begin

text \<open>
  The URL-safe Base64 of Python's \<open>base64\<close> and \<open>binascii\<close>, on byte strings as lists of characters.
  The decoder is the lenient one: it skips every character outside the alphabet, accepts both
  spellings of the last two digits, stops at a complete padding and ignores the unused low bits of
  the last digit, so many texts decode to the same bytes.
\<close>

definition b64_char :: "nat \<Rightarrow> char" where
  "b64_char n = (if n < 26 then char_of (65 + n) else if n < 52 then char_of (71 + n)
     else if n < 62 then char_of (n - 4) else if n = 62 then CHR ''-'' else CHR ''_'')"

definition b64_val :: "char \<Rightarrow> nat option" where
  "b64_val c = (let n = (of_char c :: nat) in
     if 65 \<le> n \<and> n \<le> 90 then Some (n - 65) else if 97 \<le> n \<and> n \<le> 122 then Some (n - 71)
     else if 48 \<le> n \<and> n \<le> 57 then Some (n + 4)
     else if c = CHR ''-'' \<or> c = CHR ''+'' then Some 62 else if c = CHR ''_'' \<or> c = CHR ''/'' then Some 63 else None)"

text \<open>\<open>urlsafe_b64encode\<close>: three bytes to four digits, the rest padded.\<close>

fun b64_body :: "nat list \<Rightarrow> string" where
  "b64_body [] = []"
| "b64_body [a] = [b64_char (a div 4), b64_char (a mod 4 * 16)]"
| "b64_body [a, b] = [b64_char (a div 4), b64_char (a mod 4 * 16 + b div 16), b64_char (b mod 16 * 4)]"
| "b64_body (a # b # c # r) = b64_char (a div 4) # b64_char (a mod 4 * 16 + b div 16)
     # b64_char (b mod 16 * 4 + c div 64) # b64_char (c mod 64) # b64_body r"

definition b64_padding :: "nat \<Rightarrow> string" where
  "b64_padding n = replicate ((4 - n mod 4) mod 4) (CHR ''='')"

definition urlsafe_b64encode :: "string \<Rightarrow> string" where
  "urlsafe_b64encode raw = (let body = b64_body (map of_char raw) in body @ b64_padding (length body))"

text \<open>
  \<open>binascii.a2b_base64\<close>: the number of digits read of the current group, the bits left over from the
  last digit, and the padding characters seen.
\<close>

fun a2b :: "nat \<Rightarrow> nat \<Rightarrow> nat \<Rightarrow> string \<Rightarrow> string option" where
  "a2b q left pads [] = (if q = 0 then Some [] else None)"
| "a2b q left pads (c # s) =
    (if c = CHR ''='' then
       (if 2 \<le> q \<and> 4 \<le> q + (pads + 1) then Some [] else a2b q left (if 2 \<le> q then pads + 1 else pads) s)
     else (case b64_val c of None \<Rightarrow> a2b q left pads s
       | Some x \<Rightarrow>
           if q = 0 then a2b 1 x 0 s
           else if q = 1 then map_option (Cons (char_of (left * 4 + x div 16))) (a2b 2 (x mod 16) 0 s)
           else if q = 2 then map_option (Cons (char_of (left * 16 + x div 4))) (a2b 3 (x mod 4) 0 s)
           else map_option (Cons (char_of (left * 64 + x))) (a2b 0 0 0 s)))"

definition urlsafe_b64decode :: "string \<Rightarrow> string option" where
  "urlsafe_b64decode s = a2b 0 0 0 s"

subsection \<open>Round trip\<close>

lemma b64_val_char: "n < 64 \<Longrightarrow> b64_val (b64_char n) = Some n"
  by (auto simp: b64_val_def b64_char_def Let_def)

lemma b64_char_pad: "n < 64 \<Longrightarrow> b64_char n \<noteq> CHR ''=''"
  using b64_val_char [of n] by (auto simp: b64_val_def)

lemma a2b_digit:
  "n < 64 \<Longrightarrow> a2b 0 l p (b64_char n # s) = a2b 1 n 0 s"
  "n < 64 \<Longrightarrow> a2b (Suc 0) l p (b64_char n # s) = map_option (Cons (char_of (l * 4 + n div 16))) (a2b 2 (n mod 16) 0 s)"
  "n < 64 \<Longrightarrow> a2b 2 l p (b64_char n # s) = map_option (Cons (char_of (l * 16 + n div 4))) (a2b 3 (n mod 4) 0 s)"
  "n < 64 \<Longrightarrow> a2b 3 l p (b64_char n # s) = map_option (Cons (char_of (l * 64 + n))) (a2b 0 0 0 s)"
  by (simp_all add: b64_val_char b64_char_pad)

lemma regroup:
  fixes a b c :: nat
  assumes "a < 256" "b < 256" "c < 256"
  shows "a div 4 < 64" "a mod 4 * 16 + b div 16 < 64" "b mod 16 * 4 + c div 64 < 64" "c mod 64 < 64"
    and "(a mod 4 * 16 + b div 16) div 16 = a mod 4" "(a mod 4 * 16 + b div 16) mod 16 = b div 16"
    and "(b mod 16 * 4 + c div 64) div 4 = b mod 16" "(b mod 16 * 4 + c div 64) mod 4 = c div 64"
proof -
  have a: "a div 4 < 64" "a mod 4 < 4" and b: "b div 16 < 16" "b mod 16 < 16" and c: "c div 64 < 4"
    using assms by (auto simp: div_less_iff_less_mult)
  show "a div 4 < 64" by (rule a)
  show "a mod 4 * 16 + b div 16 < 64" "b mod 16 * 4 + c div 64 < 64" "c mod 64 < 64" using a b c by auto
  show "(a mod 4 * 16 + b div 16) div 16 = a mod 4" "(a mod 4 * 16 + b div 16) mod 16 = b div 16"
    "(b mod 16 * 4 + c div 64) div 4 = b mod 16" "(b mod 16 * 4 + c div 64) mod 4 = c div 64"
    using b c by (simp_all add: div_mult_self3 mod_mult_self3)
qed

lemma a2b_two: "m < 64 \<Longrightarrow> n < 64 \<Longrightarrow>
    a2b 0 l p (b64_char m # b64_char n # s) = map_option (Cons (char_of (m * 4 + n div 16))) (a2b 2 (n mod 16) 0 s)"
  using a2b_digit(1) [of m l p "b64_char n # s"] a2b_digit(2) [of n m 0 s] by (simp del: a2b.simps)

lemma a2b_body:
  "\<forall>x \<in> set xs. x < 256 \<Longrightarrow> a2b 0 0 0 (b64_body xs @ b64_padding (length (b64_body xs))) = Some (map char_of xs)"
proof (induction xs rule: b64_body.induct)
  case (2 a)
  then have a: "a < 256" by simp
  have R: "a div 4 < 64" "a mod 4 * 16 < 64" "a mod 4 * 16 div 16 = a mod 4" "a mod 4 * 16 mod 16 = 0"
    using a by (auto simp: div_less_iff_less_mult)
  show ?case
    by (simp add: b64_padding_def numeral_2_eq_2 R a2b_two [OF R(1,2)] del: a2b.simps)
      (simp add: numeral_2_eq_2)
next
  case (3 a b)
  then have a: "a < 256" "b < 256" by simp_all
  note Q = regroup [OF a, of 0]
  have R: "a div 4 < 64" "a mod 4 * 16 + b div 16 < 64" "b mod 16 * 4 < 64" "(a mod 4 * 16 + b div 16) div 16 = a mod 4"
    "(a mod 4 * 16 + b div 16) mod 16 = b div 16" "b mod 16 * 4 div 4 = b mod 16" "b mod 16 * 4 mod 4 = 0"
    using Q by simp_all
  show ?case
    by (simp add: b64_padding_def R a2b_two [OF R(1,2)] a2b_digit(3) [OF R(3)] del: a2b.simps)
      (use a in \<open>simp add: div_less_iff_less_mult\<close>)
next
  case (4 a b c r)
  then have a: "a < 256" "b < 256" "c < 256" by simp_all
  note R = regroup [OF a]
  have "a2b 0 0 0 (b64_body r @ b64_padding (length (b64_body r))) = Some (map char_of r)" using 4 by simp
  moreover have "b64_padding (length (b64_body (a # b # c # r))) = b64_padding (length (b64_body r))"
    by (simp add: b64_padding_def)
  ultimately show ?case
    by (simp add: R a2b_two [OF R(1,2)] a2b_digit(3) [OF R(3)] a2b_digit(4) [OF R(4)] del: a2b.simps)
      (use a in \<open>simp add: div_less_iff_less_mult\<close>)
qed (simp add: b64_padding_def)

end
