(* ===== verification/Pairing.thy ===== *)
theory Pairing
  imports Bytes Base64 PyTime
begin

text \<open>
  \<open>beagle-host/services/pairing_service.py\<close>: signed pairing tokens a client may use once. HMAC-SHA256 and
  SHA-256 are arguments of the model: what is proved holds of any functions in their place. The clock
  is the text \<open>utcnow\<close> returns, given to each call in the order in which it is read.
\<close>

subsection \<open>Text and bytes\<close>

definition b64url_encode :: "string \<Rightarrow> string" where
  "b64url_encode raw = rstrip_char (CHR ''='') (urlsafe_b64encode raw)"

definition b64url_decode :: "string \<Rightarrow> string option" where
  "b64url_decode value = (let text = strip value in
     if text = [] \<or> \<not> ascii text then None else urlsafe_b64decode (text @ b64_padding (length text)))"

text \<open>\<open>_parse_timestamp\<close>: \<open>fromisoformat\<close> with a final \<open>Z\<close> read as UTC, a naive time taken as UTC.\<close>

definition pairing_parse :: "string \<Rightarrow> instant result" where
  "pairing_parse value = (let text = strip value in
     if text = [] then Inl (ValueError ''missing timestamp'') else
     let iso = (if ends_with text ''Z'' then butlast text @ ''+00:00'' else text) in
     (case fromisoformat iso of None \<Rightarrow> Inl (ValueError (''Invalid isoformat string: '' @ repr_str iso))
      | Some (local, None) \<Rightarrow> Inr local
      | Some (local, Some off) \<Rightarrow> check_instant (local - off)))"

subsection \<open>The service\<close>

record pairing_env =
  pe_secret :: string
  pe_ttl :: int
  pe_hmac :: "string \<Rightarrow> string \<Rightarrow> string"
  pe_sha256_hex :: "string \<Rightarrow> string"

text \<open>The constructor, given the two hash functions.\<close>

definition pairing_service ::
  "(string \<Rightarrow> string \<Rightarrow> string) \<Rightarrow> (string \<Rightarrow> string) \<Rightarrow> string \<Rightarrow> int \<Rightarrow> pairing_env result" where
  "pairing_service hmac sha signing_secret ttl = (let secret = utf8_encode signing_secret in
     if secret = [] then Inl (ValueError ''pairing signing secret is required'')
     else Inr \<lparr>pe_secret = secret, pe_ttl = max 15 ttl, pe_hmac = hmac, pe_sha256_hex = sha\<rparr>)"

definition token_hash :: "pairing_env \<Rightarrow> string \<Rightarrow> string" where
  "token_hash env token = pe_sha256_hex env (utf8_encode token)"

definition token_header :: py where
  "token_header = PDict [(''alg'', PStr ''HS256''), (''typ'', PStr ''beagle.pairing.v1'')]"

definition signing_input :: "string \<Rightarrow> string \<Rightarrow> string" where
  "signing_input header_part payload_part = header_part @ ''.'' @ payload_part"

definition token_body :: "pairing_env \<Rightarrow> instant \<Rightarrow> instant \<Rightarrow> dict \<Rightarrow> dict" where
  "token_body env now expires payload = set_default ''expires_at'' (PStr (isoformat_utc expires))
     (set_default ''issued_at'' (PStr (isoformat_utc now)) payload)"

definition issue_token :: "pairing_env \<Rightarrow> string \<Rightarrow> dict \<Rightarrow> string result" where
  "issue_token env utcnow payload =
     rbind (pairing_parse utcnow) (\<lambda>now.
     rbind (check_instant (now + pe_ttl env * 1000000)) (\<lambda>expires.
     let header_part = b64url_encode (utf8_encode (json_dumps token_header));
         payload_part = b64url_encode (utf8_encode (json_dumps (PDict (token_body env now expires payload))));
         signature = pe_hmac env (pe_secret env) (signing_input header_part payload_part)
     in Inr (header_part @ ''.'' @ payload_part @ ''.'' @ b64url_encode signature)))"

text \<open>\<open>json.loads(_b64url_decode(part).decode("utf-8"))\<close>; every exception of it is \<open>None\<close>.\<close>

definition json_part :: "string \<Rightarrow> py option" where
  "json_part part = Option.bind (Option.bind (b64url_decode part) utf8_decode) json_loads"

definition header_ok :: "py \<Rightarrow> bool" where
  "header_ok h = (is_dict h \<and> sget (dict_of h) ''typ'' = ''beagle.pairing.v1'')"

definition unexpired :: "string \<Rightarrow> string \<Rightarrow> bool" where
  "unexpired expires utcnow = (case pairing_parse expires of Inl e \<Rightarrow> False
     | Inr t \<Rightarrow> (case pairing_parse utcnow of Inl e \<Rightarrow> False | Inr now \<Rightarrow> now < t))"

definition validate_token :: "pairing_env \<Rightarrow> string \<Rightarrow> string \<Rightarrow> dict option" where
  "validate_token env utcnow token = (case split_char (CHR ''.'') (strip token) of
      [header_part, payload_part, signature_part] \<Rightarrow>
        if \<not> ascii (signing_input header_part payload_part) then None
        else if b64url_decode signature_part \<noteq> Some (pe_hmac env (pe_secret env) (signing_input header_part payload_part)) then None
        else (case json_part header_part of None \<Rightarrow> None
          | Some header \<Rightarrow> if \<not> header_ok header then None
              else (case json_part payload_part of
                  Some (PDict payload) \<Rightarrow> if unexpired (sget payload ''expires_at'') utcnow then Some payload else None
                | _ \<Rightarrow> None))
    | _ \<Rightarrow> None)"

text \<open>The hashes of the tokens consumed, each with the expiry text of its token.\<close>

type_synonym consumed = "string table"

definition stale :: "instant \<Rightarrow> string \<Rightarrow> bool" where
  "stale now expires = (case pairing_parse expires of Inl e \<Rightarrow> True | Inr t \<Rightarrow> t \<le> now)"

definition purge_consumed :: "instant \<Rightarrow> consumed \<Rightarrow> consumed" where
  "purge_consumed now used = filter (\<lambda>(digest, expires). \<not> stale now expires) used"

definition consume_token ::
  "pairing_env \<Rightarrow> string \<Rightarrow> string \<Rightarrow> string \<Rightarrow> consumed \<Rightarrow> dict option result \<times> consumed" where
  "consume_token env utcnow1 utcnow2 token used = (case validate_token env utcnow1 token of None \<Rightarrow> (Inr None, used)
     | Some payload \<Rightarrow> let expires = stget payload ''expires_at'' in
        if expires = [] then (Inr None, used)
        else let digest = token_hash env token in
        (case pairing_parse utcnow2 of Inl e \<Rightarrow> (Inl e, used)
         | Inr now \<Rightarrow> let used' = purge_consumed now used in
            if has_key used' digest then (Inr None, used') else (Inr (Some payload), dset digest expires used')))"

end
