(* ===== verification/PairingProps.thy ===== *)
theory PairingProps
  imports Pairing "HOL-Library.Sublist"
begin

text \<open>
  Properties of the pairing tokens: an issued token is accepted and carries its payload, the same text
  is consumed once, and a padded copy of it is accepted again.
\<close>

subsection \<open>The parts of a token\<close>

lemma b64_chars: "c \<in> set (b64_body xs) \<Longrightarrow> \<forall>x \<in> set xs. x < 256 \<Longrightarrow> \<exists>n < 64. c = b64_char n"
proof (induction xs rule: b64_body.induct)
  case (2 a)
  have "a div 4 < 64" "a mod 4 * 16 < 64" using 2 by auto
  moreover have "c = b64_char (a div 4) \<or> c = b64_char (a mod 4 * 16)" using 2 by simp
  ultimately show ?case by blast
next
  case (3 a b)
  have "a div 4 < 64" "a mod 4 * 16 + b div 16 < 64" "b mod 16 * 4 < 64" using regroup [of a b 0] 3(2) by simp_all
  moreover have "c = b64_char (a div 4) \<or> c = b64_char (a mod 4 * 16 + b div 16) \<or> c = b64_char (b mod 16 * 4)" using 3 by simp
  ultimately show ?case by blast
next
  case (4 a b c' r)
  have l: "a < 256" "b < 256" "c' < 256" using 4(3) by simp_all
  have "a div 4 < 64" "a mod 4 * 16 + b div 16 < 64" "b mod 16 * 4 + c' div 64 < 64" "c' mod 64 < 64" by (rule regroup [OF l])+
  moreover have "c = b64_char (a div 4) \<or> c = b64_char (a mod 4 * 16 + b div 16) \<or> c = b64_char (b mod 16 * 4 + c' div 64)
      \<or> c = b64_char (c' mod 64) \<or> c \<in> set (b64_body r)" using 4(2) by simp
  ultimately show ?case using 4(1,3) by (metis list.set_intros(2))
qed simp

lemma b64_char_plain:
  assumes "n < 64"
  shows "b64_char n \<noteq> CHR ''.''" "\<not> is_space (b64_char n)" "(of_char (b64_char n) :: nat) < 128"
proof -
  have v: "b64_val (b64_char n) = Some n" using assms by (rule b64_val_char)
  show "b64_char n \<noteq> CHR ''.''" using v by (auto simp: b64_val_def)
  show "\<not> is_space (b64_char n)" "(of_char (b64_char n) :: nat) < 128"
    using v assms by (auto simp: b64_val_def is_space_def Let_def split: if_splits)
qed

lemma bytes_of: "\<forall>x \<in> set (map (of_char :: char \<Rightarrow> nat) raw). x < 256"
  by simp

lemma encode_body: "b64url_encode raw = b64_body (map of_char raw)"
proof -
  have "CHR ''='' \<notin> set (b64_body (map of_char raw))"
    using b64_chars [OF _ bytes_of, of _ raw] b64_char_pad by metis
  then show ?thesis by (simp add: b64url_encode_def urlsafe_b64encode_def b64_padding_def rstrip_char_absent Let_def)
qed

lemma encode_plain:
  assumes "c \<in> set (b64url_encode raw)"
  shows "c \<noteq> CHR ''.''" "\<not> is_space c" "(of_char c :: nat) < 128"
  using assms b64_chars [OF _ bytes_of, of c raw] b64_char_plain by (auto simp: encode_body)

lemma ascii_encode: "ascii (b64url_encode raw)"
  using encode_plain(3) by (auto simp: ascii_def list_all_iff)

lemma decode_encode: "raw \<noteq> [] \<Longrightarrow> b64url_decode (b64url_encode raw) = Some raw"
proof -
  assume "raw \<noteq> []"
  then have ne: "b64url_encode raw \<noteq> []"
    by (cases "map (of_char :: char \<Rightarrow> nat) raw" rule: b64_body.cases) (auto simp: encode_body)
  have "strip (b64url_encode raw) = b64url_encode raw" using encode_plain(2) by (intro strip_no_space) auto
  moreover have "a2b 0 0 0 (b64url_encode raw @ b64_padding (length (b64url_encode raw))) = Some raw"
    using a2b_body [OF bytes_of, of raw] by (simp add: encode_body comp_def)
  ultimately show ?thesis using ne by (simp add: b64url_decode_def Let_def ascii_encode urlsafe_b64decode_def)
qed

lemma json_part_dumps: "plain v \<Longrightarrow> json_part (b64url_encode (utf8_encode (json_dumps v))) = Some v"
proof -
  assume v: "plain v"
  have "json_dumps v \<noteq> []" using opens_value_dumps [OF v] by (auto simp: opens_value_def)
  then show ?thesis
    using ascii_dumps [OF v] v by (simp add: json_part_def utf8_ascii decode_encode utf8_decode_ascii json_loads_dumps)
qed

lemma split_token:
  assumes "CHR ''.'' \<notin> set a" "CHR ''.'' \<notin> set b" "CHR ''.'' \<notin> set c"
  shows "split_char (CHR ''.'') (a @ ''.'' @ b @ ''.'' @ c) = [a, b, c]"
  using assms split_join [of "[a, b, c]" "CHR ''.''"] by simp

text \<open>A token put together from its parts is read back into them.\<close>

lemma validate_parts:
  assumes h: "h = b64url_encode x" and p: "p = b64url_encode y" and sig: "sig = pe_hmac env (pe_secret env) (signing_input h p)"
    and "sig \<noteq> []"
  shows "validate_token env now (h @ ''.'' @ p @ ''.'' @ b64url_encode sig)
    = (case json_part h of None \<Rightarrow> None | Some header \<Rightarrow> if \<not> header_ok header then None
         else (case json_part p of Some (PDict payload) \<Rightarrow> if unexpired (sget payload ''expires_at'') now then Some payload else None
           | _ \<Rightarrow> None))"
proof -
  let ?t = "h @ ''.'' @ p @ ''.'' @ b64url_encode sig"
  have "\<not> is_space c" if "c \<in> set ?t" for c
    using that encode_plain(2) unfolding h p by (auto simp: is_space_def)
  then have "strip ?t = ?t" by (intro strip_no_space) auto
  moreover have "split_char (CHR ''.'') ?t = [h, p, b64url_encode sig]"
    by (rule split_token) (use encode_plain(1) in \<open>auto simp: h p\<close>)
  moreover have "ascii (signing_input h p)" by (simp add: signing_input_def h p ascii_encode)
  moreover have "b64url_decode (b64url_encode sig) = Some sig" using assms(4) by (rule decode_encode)
  ultimately show ?thesis by (simp add: validate_token_def sig)
qed

lemma plain_header: "plain token_header"
  by (simp add: token_header_def)

lemma header_accepted: "header_ok token_header"
  by (simp add: header_ok_def token_header_def)

text \<open>The token of a body, and its acceptance.\<close>

definition sealed :: "pairing_env \<Rightarrow> dict \<Rightarrow> string" where
  "sealed env body = (let h = b64url_encode (utf8_encode (json_dumps token_header));
       p = b64url_encode (utf8_encode (json_dumps (PDict body)))
     in h @ ''.'' @ p @ ''.'' @ b64url_encode (pe_hmac env (pe_secret env) (signing_input h p)))"

lemma sealed_valid:
  assumes "\<And>k m. length (pe_hmac env k m) = 32" and "plain (PDict body)" and "unexpired (sget body ''expires_at'') now"
  shows "validate_token env now (sealed env body) = Some body"
proof -
  define h where "h = b64url_encode (utf8_encode (json_dumps token_header))"
  define p where "p = b64url_encode (utf8_encode (json_dumps (PDict body)))"
  define sig where "sig = pe_hmac env (pe_secret env) (signing_input h p)"
  have "length sig = 32" using assms(1) by (simp add: sig_def)
  then have ne: "sig \<noteq> []" by auto
  have "json_part h = Some token_header" "json_part p = Some (PDict body)"
    using json_part_dumps [OF plain_header] json_part_dumps [OF assms(2)] by (simp_all add: h_def p_def)
  then show ?thesis
    using validate_parts [OF h_def p_def sig_def ne, of now] assms(3)
    unfolding sealed_def Let_def h_def [symmetric] p_def [symmetric] sig_def [symmetric] by (simp add: header_accepted)
qed

text \<open>The clock of the services gives whole seconds; an instant a clock can show in four digits.\<close>

definition clock_instant :: "instant \<Rightarrow> bool" where
  "clock_instant t = (ymdhms 1000 1 1 0 0 0 0 \<le> t \<and> t < MAX_INSTANT \<and> t mod 1000000 = 0)"

lemma clock_instant_nonneg: "clock_instant t \<Longrightarrow> 0 \<le> t"
proof -
  assume "clock_instant t"
  moreover have "0 \<le> ymdhms 1000 1 1 0 0 0 0" by (simp add: ymdhms_def)
  ultimately show ?thesis by (simp add: clock_instant_def)
qed

lemma pairing_parse_iso: "clock_instant t \<Longrightarrow> pairing_parse (isoformat_utc t) = Inr t"
  using parse_isoformat [of t] clock_instant_nonneg [of t]
  by (simp add: clock_instant_def pairing_parse_def Let_def check_instant_def instant_ok_def)

subsection \<open>Properties\<close>

text \<open>C37: a token that was issued is accepted until it expires, and gives back its payload: whatever values
  without floats the payload holds, \<open>validate_token\<close> of the issued text returns the payload with the two
  times added, as long as the clock is before the issue time plus the time to live. The signature may
  be any function that returns 32 bytes.\<close>

theorem issued_token_valid:
  assumes hmac: "\<And>k m. length (pe_hmac env k m) = 32"
    and body: "plain (PDict payload)" "\<not> has_key payload ''issued_at''" "\<not> has_key payload ''expires_at''"
    and now: "pairing_parse utcnow = Inr t" "clock_instant t" "clock_instant (t + pe_ttl env * 1000000)"
    and later: "pairing_parse utcnow' = Inr t'" "t' < t + pe_ttl env * 1000000"
  shows "\<exists>token. issue_token env utcnow payload = Inr token \<and>
     validate_token env utcnow' token = Some (payload @ [(''issued_at'', PStr (isoformat_utc t)),
       (''expires_at'', PStr (isoformat_utc (t + pe_ttl env * 1000000)))])"
proof -
  let ?e = "t + pe_ttl env * 1000000"
  let ?b = "payload @ [(''issued_at'', PStr (isoformat_utc t)), (''expires_at'', PStr (isoformat_utc ?e))]"
  have b: "token_body env t ?e payload = ?b"
    using body(2,3) by (simp add: token_body_def set_default_def dset_absent has_key_iff)
  have pl: "plain (PDict ?b)" using body by (auto simp: has_key_iff)
  have ok: "check_instant ?e = Inr ?e"
    using now(3) clock_instant_nonneg [OF now(3)] by (simp add: check_instant_def instant_ok_def clock_instant_def)
  have "issue_token env utcnow payload = Inr (sealed env ?b)"
    by (simp add: issue_token_def now(1) ok b sealed_def Let_def)
  moreover have "sget ?b ''expires_at'' = isoformat_utc ?e"
    using body(3) by (simp add: sget_def pget_def has_key_def map_add_def split: option.split)
  moreover have "unexpired (isoformat_utc ?e) utcnow'"
    using later pairing_parse_iso [OF now(3)] by (simp add: unexpired_def)
  ultimately show ?thesis using sealed_valid [OF hmac pl, of utcnow'] by simp
qed

definition demo_pairing :: pairing_env where
  "demo_pairing = \<lparr>pe_secret = ''secret'', pe_ttl = 60, pe_hmac = (\<lambda>k m. replicate 32 (CHR ''x'')), pe_sha256_hex = (\<lambda>s. s)\<rparr>"

definition demo_now :: instant where "demo_now = ymdhms 2026 1 1 0 0 0 0"

lemma demo_times: "pairing_parse ''2026-01-01T00:00:00Z'' = Inr demo_now" "clock_instant demo_now" "clock_instant (demo_now + 60 * 1000000)"
  by code_simp+

lemma demo_pairing_hmac: "length (pe_hmac demo_pairing k m) = 32"
  by (simp add: demo_pairing_def)

theorem issued_token_valid_witness:
  "\<exists>token. issue_token demo_pairing ''2026-01-01T00:00:00Z'' [(''vmid'', PInt 101)] = Inr token \<and>
     validate_token demo_pairing ''2026-01-01T00:00:00Z'' token = Some [(''vmid'', PInt 101), (''issued_at'', PStr (isoformat_utc demo_now)),
       (''expires_at'', PStr (isoformat_utc (demo_now + pe_ttl demo_pairing * 1000000)))]"
  using issued_token_valid [of demo_pairing "[(''vmid'', PInt 101)]" "''2026-01-01T00:00:00Z''" demo_now "''2026-01-01T00:00:00Z''" demo_now]
  by (simp add: demo_pairing_hmac demo_times has_key_def) (simp add: demo_pairing_def demo_times(3) [simplified])

subsection \<open>Consuming\<close>

definition consume_step :: "pairing_env \<Rightarrow> consumed \<Rightarrow> string \<times> string \<times> string \<Rightarrow> consumed" where
  "consume_step env used c = (case c of (n1, n2, token) \<Rightarrow> snd (consume_token env n1 n2 token used))"

lemma mem_dset: "(k, v) \<in> set d \<Longrightarrow> k \<noteq> k' \<Longrightarrow> (k, v) \<in> set (dset k' u d)"
  by (induction d) auto

lemma mem_has_key: "(k, v) \<in> set d \<Longrightarrow> has_key d k"
  by (force simp: has_key_iff)

lemma mem_purge: "(k, v) \<in> set used \<Longrightarrow> \<not> stale now v \<Longrightarrow> (k, v) \<in> set (purge_consumed now used)"
  by (simp add: purge_consumed_def)

lemma consume_keeps:
  assumes "(digest, expires) \<in> set used" and "pairing_parse expires = Inr te"
    and "\<forall>now. pairing_parse n2 = Inr now \<longrightarrow> now < te"
  shows "(digest, expires) \<in> set (consume_step env used (n1, n2, token))"
proof -
  have p: "(digest, expires) \<in> set (purge_consumed now used)" if "pairing_parse n2 = Inr now" for now
    using assms that by (intro mem_purge) (auto simp: stale_def)
  show ?thesis
  proof (cases "has_key (purge_consumed (projr (pairing_parse n2)) used) (token_hash env token)")
    case True
    then show ?thesis using assms(1) p
      by (auto simp: consume_step_def consume_token_def Let_def split: option.split sum.split)
  next
    case False
    then have "digest \<noteq> token_hash env token" if "pairing_parse n2 = Inr now" for now
      using p [OF that] that mem_has_key by fastforce
    then show ?thesis using assms(1) p
      by (auto simp: consume_step_def consume_token_def Let_def intro!: mem_dset split: option.split sum.split)
  qed
qed

lemma consume_keeps_run:
  assumes "pairing_parse expires = Inr te"
    and "\<forall>c \<in> set cs. \<forall>now. pairing_parse (fst (snd c)) = Inr now \<longrightarrow> now < te"
    and "(digest, expires) \<in> set used"
  shows "(digest, expires) \<in> set (run (consume_step env) used cs)"
  using assms(2,3)
proof (induction cs arbitrary: used)
  case (Cons c cs)
  obtain n1 n2 t where c: "c = (n1, n2, t)" by (cases c) auto
  have "(digest, expires) \<in> set (consume_step env used c)"
    unfolding c by (rule consume_keeps) (use Cons.prems assms(1) c in auto)
  then show ?case using Cons by simp
qed simp

lemma consume_success:
  assumes "consume_token env n1 n2 token used = (Inr (Some payload), used')"
  obtains te now where "validate_token env n1 token = Some payload" "pairing_parse (stget payload ''expires_at'') = Inr te"
    "pairing_parse n2 = Inr now" "used' = dset (token_hash env token) (stget payload ''expires_at'') (purge_consumed now used)"
proof -
  from assms have v: "validate_token env n1 token = Some payload"
    by (auto simp: consume_token_def Let_def split: option.splits if_splits sum.splits)
  then have "unexpired (sget payload ''expires_at'') n1"
    by (auto simp: validate_token_def split: list.splits if_splits option.splits py.splits)
  then obtain te where "pairing_parse (sget payload ''expires_at'') = Inr te" by (auto simp: unexpired_def split: sum.splits)
  then have "pairing_parse (stget payload ''expires_at'') = Inr te" by (simp add: pairing_parse_def stget_def)
  with v show ?thesis using assms that
    by (auto simp: consume_token_def Let_def split: if_splits sum.splits)
qed

text \<open>A token to try the theorems on, and its first use.\<close>

definition demo_body :: dict where "demo_body = [(''expires_at'', PStr ''2026-01-01T00:01:00Z'')]"

definition demo_end :: instant where "demo_end = ymdhms 2026 1 1 0 1 0 0"

lemma demo_expiry: "pairing_parse ''2026-01-01T00:01:00Z'' = Inr demo_end" "demo_now < demo_end"
  "strip ''2026-01-01T00:01:00Z'' = ''2026-01-01T00:01:00Z''"
  by code_simp+

lemma demo_consumed:
  "consume_token demo_pairing ''2026-01-01T00:00:00Z'' ''2026-01-01T00:00:00Z'' (sealed demo_pairing demo_body) []
     = (Inr (Some demo_body), [(token_hash demo_pairing (sealed demo_pairing demo_body), ''2026-01-01T00:01:00Z'')])"
proof -
  have "unexpired (sget demo_body ''expires_at'') ''2026-01-01T00:00:00Z''"
    by (simp add: demo_body_def unexpired_def demo_expiry demo_times)
  moreover have "plain (PDict demo_body)" by (simp add: demo_body_def)
  ultimately have "validate_token demo_pairing ''2026-01-01T00:00:00Z'' (sealed demo_pairing demo_body) = Some demo_body"
    by (intro sealed_valid demo_pairing_hmac)
  moreover have "stget demo_body ''expires_at'' = ''2026-01-01T00:01:00Z''" by (simp add: demo_body_def stget_def demo_expiry)
  ultimately show ?thesis
    by (simp add: consume_token_def demo_times purge_consumed_def has_key_def Let_def)
qed

text \<open>C38: a token is consumed once. After a successful \<open>consume_token\<close>, and whatever other tokens were presented
  since, presenting the same text again is refused, as long as the clock readings taken under the lock
  are before the expiry of the token; \<open>consumed_again_at_expiry\<close> is what happens otherwise.\<close>

theorem consumed_token_refused:
  assumes first: "consume_token env a1 a2 token used = (Inr (Some payload), used1)"
    and te: "pairing_parse (stget payload ''expires_at'') = Inr te"
    and between: "\<forall>c \<in> set cs. \<forall>now. pairing_parse (fst (snd c)) = Inr now \<longrightarrow> now < te"
    and again: "pairing_parse n2 = Inr now" "now < te"
  shows "fst (consume_token env n1 n2 token (run (consume_step env) used1 cs)) = Inr None"
proof -
  obtain b where u1: "used1 = dset (token_hash env token) (stget payload ''expires_at'') (purge_consumed b used)"
    using consume_success [OF first] by metis
  have "(token_hash env token, stget payload ''expires_at'') \<in> set used1"
    unfolding u1 by (rule map_of_SomeD) simp
  then have "(token_hash env token, stget payload ''expires_at'') \<in> set (run (consume_step env) used1 cs)"
    by (rule consume_keeps_run [OF te between])
  then have "has_key (purge_consumed now (run (consume_step env) used1 cs)) (token_hash env token)"
    using te again(2) by (intro mem_has_key mem_purge) (auto simp: stale_def)
  then show ?thesis using again(1) by (simp add: consume_token_def Let_def split: option.split)
qed

theorem consumed_token_refused_witness:
  "fst (consume_token demo_pairing ''2026-01-01T00:00:00Z'' ''2026-01-01T00:00:00Z'' (sealed demo_pairing demo_body)
     [(token_hash demo_pairing (sealed demo_pairing demo_body), ''2026-01-01T00:01:00Z'')]) = Inr None"
  using consumed_token_refused [OF demo_consumed _ _ demo_times(1) demo_expiry(2), of "[]"]
  by (simp add: demo_body_def stget_def demo_expiry(1,3))

text \<open>The condition on the readings matters: the clock is read for the validation and once more for the purge, and when
  the token expires between the two, its mark is purged and the same text is accepted a second time.\<close>

lemma consumed_again_at_expiry:
  "fst (consume_token demo_pairing ''2026-01-01T00:00:59Z'' ''2026-01-01T00:01:00Z'' (sealed demo_pairing demo_body)
     [(token_hash demo_pairing (sealed demo_pairing demo_body), ''2026-01-01T00:01:00Z'')]) = Inr (Some demo_body)"
proof -
  have before: "(case pairing_parse ''2026-01-01T00:00:59Z'' of Inr now \<Rightarrow> now < demo_end | Inl e \<Rightarrow> False)" by code_simp
  have "unexpired (sget demo_body ''expires_at'') ''2026-01-01T00:00:59Z''"
    using before by (auto simp: demo_body_def unexpired_def demo_expiry split: sum.splits)
  moreover have "plain (PDict demo_body)" by (simp add: demo_body_def)
  ultimately have "validate_token demo_pairing ''2026-01-01T00:00:59Z'' (sealed demo_pairing demo_body) = Some demo_body"
    by (intro sealed_valid demo_pairing_hmac)
  moreover have "stget demo_body ''expires_at'' = ''2026-01-01T00:01:00Z''" by (simp add: demo_body_def stget_def demo_expiry)
  ultimately show ?thesis
    by (simp add: consume_token_def demo_expiry(1) purge_consumed_def stale_def has_key_def Let_def)
qed

text \<open>A consumed token is also accepted again with a blank behind it. The signature is checked on the stripped
  text while the hash that marks it as used is taken of the text as it came, so the padded copy passes
  the check and, its hash being another one, is consumed a second time.\<close>

lemma padded_token_replayed:
  assumes first: "consume_token env n1 n2 token used = (Inr (Some payload), used1)"
    and hash: "token_hash env (token @ '' '') \<noteq> token_hash env token"
    and fresh: "\<not> has_key used (token_hash env (token @ '' ''))"
  shows "fst (consume_token env n1 n2 (token @ '' '') used1) = Inr (Some payload)"
proof -
  obtain te b where v: "validate_token env n1 token = Some payload" and te: "pairing_parse (stget payload ''expires_at'') = Inr te"
    and b: "pairing_parse n2 = Inr b"
    and u1: "used1 = dset (token_hash env token) (stget payload ''expires_at'') (purge_consumed b used)"
    by (rule consume_success [OF first])
  have "strip (token @ '' '') = strip ('' '' @ token @ '' '')"
    by (simp add: strip_def lstrip_blank is_space_def)
  then have "validate_token env n1 (token @ '' '') = Some payload"
    using v by (simp only: validate_token_def strip_blanks)
  moreover have "stget payload ''expires_at'' \<noteq> []" using te by (auto simp: pairing_parse_def)
  moreover have "\<not> has_key (purge_consumed b used1) (token_hash env (token @ '' ''))"
  proof
    assume "has_key (purge_consumed b used1) (token_hash env (token @ '' ''))"
    then have "has_key used1 (token_hash env (token @ '' ''))" by (auto simp: has_key_iff purge_consumed_def)
    then have "has_key (purge_consumed b used) (token_hash env (token @ '' ''))" using hash by (simp add: u1)
    then show False using fresh by (auto simp: has_key_iff purge_consumed_def)
  qed
  ultimately show ?thesis by (simp add: consume_token_def b Let_def)
qed

lemma padded_token_replayed_witness:
  "fst (consume_token demo_pairing ''2026-01-01T00:00:00Z'' ''2026-01-01T00:00:00Z'' (sealed demo_pairing demo_body @ '' '')
     [(token_hash demo_pairing (sealed demo_pairing demo_body), ''2026-01-01T00:01:00Z'')]) = Inr (Some demo_body)"
proof (rule padded_token_replayed [OF demo_consumed])
  have "length (utf8_encode (s @ '' '')) \<noteq> length (utf8_encode s)" for s by (simp add: utf8_encode_def)
  then show "token_hash demo_pairing (sealed demo_pairing demo_body @ '' '') \<noteq> token_hash demo_pairing (sealed demo_pairing demo_body)"
    by (auto simp: token_hash_def demo_pairing_def dest: arg_cong [of _ _ length])
qed (simp add: has_key_def)

end
