(* ===== verification/AuthCrypto.thy ===== *)
theory AuthCrypto
  imports Bytes PyTime
begin

text \<open>
  The credentials of \<open>beagle-host/services/auth_session.py\<close>: salted password hashes and time-based
  one-time codes. PBKDF2 and HMAC-SHA1 are arguments of the model, as are the random bytes.
\<close>

record auth_env =
  ae_access_ttl :: int
  ae_refresh_ttl :: int
  ae_idle_timeout :: int
  ae_absolute_timeout :: int
  ae_max_sessions :: int
  ae_pbkdf2 :: "string \<Rightarrow> string \<Rightarrow> int \<Rightarrow> string result"
  ae_hmac_sha1 :: "string \<Rightarrow> string \<Rightarrow> string"

text \<open>The limits the constructor puts on the configured numbers.\<close>

definition auth_service :: "(string \<Rightarrow> string \<Rightarrow> int \<Rightarrow> string result) \<Rightarrow> (string \<Rightarrow> string \<Rightarrow> string)
    \<Rightarrow> int \<Rightarrow> int \<Rightarrow> int \<Rightarrow> int \<Rightarrow> int \<Rightarrow> auth_env" where
  "auth_service pbkdf2 hmac access refresh idle absolute sessions =
     (let access_ttl = max 60 access; refresh_ttl = max access_ttl refresh
      in \<lparr>ae_access_ttl = access_ttl, ae_refresh_ttl = refresh_ttl, ae_idle_timeout = max 60 idle,
          ae_absolute_timeout = max refresh_ttl absolute, ae_max_sessions = max 0 sessions,
          ae_pbkdf2 = pbkdf2, ae_hmac_sha1 = hmac\<rparr>)"

subsection \<open>Passwords\<close>

definition hash_password :: "auth_env \<Rightarrow> string \<Rightarrow> int \<Rightarrow> string \<Rightarrow> string result" where
  "hash_password env salt iterations password =
     rbind (ae_pbkdf2 env (utf8_encode password) salt iterations) (\<lambda>digest.
       Inr (''pbkdf2_sha256$'' @ int_str iterations @ ''$'' @ bytes_hex salt @ ''$'' @ bytes_hex digest))"

text \<open>The exceptions of the three conversions are caught, those of the hash function are not.\<close>

definition verify_password :: "auth_env \<Rightarrow> string \<Rightarrow> string \<Rightarrow> bool result" where
  "verify_password env password password_hash = (case split_char (CHR ''$'') password_hash of
      [scheme, iters, salt_hex, digest_hex] \<Rightarrow>
        if scheme \<noteq> ''pbkdf2_sha256'' then Inr False
        else (case (parse_int iters, bytes_fromhex salt_hex, bytes_fromhex digest_hex) of
          (Some iterations, Some salt, Some expected) \<Rightarrow>
             rbind (ae_pbkdf2 env (utf8_encode password) salt iterations) (\<lambda>candidate. Inr (candidate = expected))
        | _ \<Rightarrow> Inr False)
    | _ \<Rightarrow> Inr False)"

subsection \<open>One-time codes\<close>

definition generate_totp_secret :: "string \<Rightarrow> string" where
  "generate_totp_secret raw = rstrip_char (CHR ''='') (b32encode raw)"

definition b32_padded :: "string \<Rightarrow> string" where
  "b32_padded secret = secret @ replicate ((8 - length secret mod 8) mod 8) (CHR ''='')"

definition index_byte :: "string \<Rightarrow> nat \<Rightarrow> nat result" where
  "index_byte d i = (if i < length d then Inr (of_char (d ! i)) else Inl (IndexError ''index out of range''))"

text \<open>\<open>_totp_at\<close> with its six digits.\<close>

definition totp_at :: "auth_env \<Rightarrow> string \<Rightarrow> int \<Rightarrow> string result" where
  "totp_at env secret counter = (case b32decode (b32_padded secret) of
      None \<Rightarrow> Inl (ValueError ''Non-base32 digit found'')
    | Some key \<Rightarrow>
       if counter < 0 \<or> 2 ^ 64 \<le> counter then Inl (OverflowError ''int too big to convert'')
       else let digest = ae_hmac_sha1 env key (to_bytes 8 (nat counter)) in
         if digest = [] then Inl (IndexError ''index out of range'')
         else let offset = of_char (last digest) mod 16 in
           rbind (index_byte digest offset) (\<lambda>b0. rbind (index_byte digest (offset + 1)) (\<lambda>b1.
           rbind (index_byte digest (offset + 2)) (\<lambda>b2. rbind (index_byte digest (offset + 3)) (\<lambda>b3.
             let binary = (b0 mod 128) * 16777216 + b1 * 65536 + b2 * 256 + b3
             in Inr (pad_to 6 (binary mod 1000000)))))))"

text \<open>\<open>str.isdigit\<close> also holds of the superscript digits.\<close>

definition py_isdigit :: "string \<Rightarrow> bool" where
  "py_isdigit s = (s \<noteq> [] \<and> list_all (\<lambda>c. is_digit c \<or> (of_char c :: nat) \<in> {178, 179, 185}) s)"

definition drop_blanks :: "string \<Rightarrow> string" where
  "drop_blanks s = filter (\<lambda>c. \<not> is_space c) s"

fun totp_scan :: "auth_env \<Rightarrow> string \<Rightarrow> string \<Rightarrow> int \<Rightarrow> int list \<Rightarrow> bool result" where
  "totp_scan env secret code step [] = Inr False"
| "totp_scan env secret code step (off # offs) =
     rbind (totp_at env secret (step + off)) (\<lambda>otp. if otp = code then Inr True else totp_scan env secret code step offs)"

definition verify_totp_code :: "auth_env \<Rightarrow> int \<Rightarrow> int \<Rightarrow> string \<Rightarrow> string \<Rightarrow> bool result" where
  "verify_totp_code env now drift secret code =
     (let normalized_secret = upper (strip secret); normalized_code = drop_blanks code in
      if normalized_secret = [] \<or> \<not> py_isdigit normalized_code \<or> length normalized_code \<noteq> 6 then Inr False
      else totp_scan env normalized_secret normalized_code (now div 30) [- \<bar>drift\<bar> .. \<bar>drift\<bar>])"

subsection \<open>Round trips\<close>

lemma int_str_no_dollar: "CHR ''$'' \<notin> set (int_str i)"
proof -
  have "CHR ''$'' \<notin> set (nat_str n)" for n using nat_str_digits [of "CHR ''$''" n] by (auto simp: is_digit_def)
  then show ?thesis by (simp add: int_str_def)
qed

lemma split_sep: "c \<notin> set s \<Longrightarrow> split_char c (s @ c # t) = s # split_char c t"
  by (induction s) auto

lemma split_hash:
  "split_char (CHR ''$'') (''pbkdf2_sha256$'' @ int_str n @ ''$'' @ bytes_hex a @ ''$'' @ bytes_hex b)
     = [''pbkdf2_sha256'', int_str n, bytes_hex a, bytes_hex b]"
proof -
  have "split_char (CHR ''$'') (''pbkdf2_sha256$'' @ t) = ''pbkdf2_sha256'' # split_char (CHR ''$'') t" for t by simp
  then show ?thesis
    using int_str_no_dollar [of n] hex_no_dollar [of a] hex_no_dollar [of b]
    by (simp add: split_sep split_char_no_sep)
qed

text \<open>Verifying against a stored hash compares the digests of the two passwords under the stored salt.\<close>

lemma verify_hash:
  assumes "hash_password env salt n p = Inr h"
  shows "verify_password env p' h = rbind (ae_pbkdf2 env (utf8_encode p') salt n) (\<lambda>c.
           Inr (ae_pbkdf2 env (utf8_encode p) salt n = Inr c))"
proof -
  obtain d where d: "ae_pbkdf2 env (utf8_encode p) salt n = Inr d"
    and h: "h = ''pbkdf2_sha256$'' @ int_str n @ ''$'' @ bytes_hex salt @ ''$'' @ bytes_hex d"
    using assms unfolding hash_password_def by (auto simp: rbind_eq_Inr)
  show ?thesis
    unfolding verify_password_def h split_hash using d
    by (cases "ae_pbkdf2 env (utf8_encode p') salt n") auto
qed

lemma totp_scan_finds:
  assumes "off \<in> set offs" and "\<forall>o' \<in> set offs. \<exists>otp. totp_at env secret (step + o') = Inr otp"
    and "totp_at env secret (step + off) = Inr code"
  shows "totp_scan env secret code step offs = Inr True"
  using assms by (induction offs) auto

lemma totp_scan_sound:
  "totp_scan env secret code step offs = Inr True \<Longrightarrow> \<exists>off \<in> set offs. totp_at env secret (step + off) = Inr code"
  by (induction offs) (auto simp: rbind_eq_Inr split: if_splits)

lemma length_b32: "length raw mod 5 = 0 \<Longrightarrow> length (b32encode raw) mod 8 = 0"
  by (simp add: b32encode_fives length_groups)

lemma b32encode_chars: "length raw mod 5 = 0 \<Longrightarrow> c \<in> set (b32encode raw) \<Longrightarrow> \<exists>n < 32. c = b32_char n"
  by (simp add: b32encode_fives) (use b32_group_chars in blast)

text \<open>The stored secret of twenty random bytes is its own normal form and decodes to those bytes.\<close>

lemma generated_secret:
  assumes raw: "length raw mod 5 = 0"
  shows "upper (strip (generate_totp_secret raw)) = generate_totp_secret raw"
    and "b32decode (b32_padded (generate_totp_secret raw)) = Some raw"
    and "raw \<noteq> [] \<Longrightarrow> generate_totp_secret raw \<noteq> []"
proof -
  let ?s = "b32encode raw"
  have chars: "\<exists>n < 32. c = b32_char n" if "c \<in> set ?s" for c using b32encode_chars [OF raw that] .
  have "CHR ''='' \<notin> set ?s" using chars b32_char_plain(1) by metis
  then have g: "generate_totp_secret raw = ?s"
    using rstrip_char_absent [of _ ?s 0] by (simp add: generate_totp_secret_def)
  have "strip ?s = ?s" using chars b32_char_plain(4) by (intro strip_no_space) metis
  moreover have "upper ?s = ?s" using chars b32_char_plain(2) unfolding upper_def by (metis map_idI)
  ultimately show "upper (strip (generate_totp_secret raw)) = generate_totp_secret raw" by (simp add: g)
  show "b32decode (b32_padded (generate_totp_secret raw)) = Some raw"
    using b32decode_encode [OF raw] length_b32 [OF raw] by (simp add: g b32_padded_def)
  show "generate_totp_secret raw \<noteq> []" if "raw \<noteq> []"
  proof
    assume "generate_totp_secret raw = []"
    then have "b32decode [] = Some raw" using b32decode_encode [OF raw] g by simp
    then show False using that by (simp add: b32decode_def upper_def rstrip_char_def chunks.simps)
  qed
qed

end
