(* ===== verification/AuthUsers.thy ===== *)
theory AuthUsers
  imports AuthCrypto Regex
begin

text \<open>
  \<open>beagle-host/services/auth_session.py\<close>, the accounts: the documents of users and roles, their
  normalisation, and the operations on them. The state is the content of the four JSON files of the
  service, \<open>None\<close> for a file that is missing or no JSON.
\<close>

record auth =
  au_users :: "py option"
  au_roles :: "py option"
  au_sessions :: "py option"
  au_onboarding :: "py option"

text \<open>Sequencing of calls that may raise and may have written a file before.\<close>

definition abind :: "'a result \<times> auth \<Rightarrow> ('a \<Rightarrow> auth \<Rightarrow> 'b result \<times> auth) \<Rightarrow> 'b result \<times> auth" where
  "abind p f = (case p of (Inl e, s) \<Rightarrow> (Inl e, s) | (Inr x, s) \<Rightarrow> f x s)"

subsection \<open>Documents that hold a list\<close>

text \<open>\<open>_load_users_doc\<close> and \<open>_load_sessions_doc\<close>: a document of another shape counts as empty.\<close>

definition load_list_doc :: "string \<Rightarrow> py option \<Rightarrow> dict" where
  "load_list_doc k content = (case content of
      Some (PDict d) \<Rightarrow> if is_list (pget d k) then d else dset k (PList []) d
    | _ \<Rightarrow> [(k, PList [])])"

definition entries :: "string \<Rightarrow> dict \<Rightarrow> py list" where
  "entries k doc = list_of (pget doc k)"

definition with_entries :: "string \<Rightarrow> py list \<Rightarrow> dict \<Rightarrow> py option" where
  "with_entries k xs doc = Some (PDict (dset k (PList xs) doc))"

definition load_users_doc :: "auth \<Rightarrow> dict" where
  "load_users_doc s = load_list_doc ''users'' (au_users s)"

definition load_sessions_doc :: "auth \<Rightarrow> dict" where
  "load_sessions_doc s = load_list_doc ''sessions'' (au_sessions s)"

text \<open>The loops over such a list skip what is no dictionary.\<close>

definition sat :: "(dict \<Rightarrow> bool) \<Rightarrow> py \<Rightarrow> bool" where
  "sat P item = (is_dict item \<and> P (dict_of item))"

definition find_entry :: "(dict \<Rightarrow> bool) \<Rightarrow> py list \<Rightarrow> dict option" where
  "find_entry P items = map_option dict_of (List.find (sat P) items)"

fun update_first :: "(dict \<Rightarrow> bool) \<Rightarrow> (dict \<Rightarrow> dict) \<Rightarrow> py list \<Rightarrow> py list" where
  "update_first P f [] = []"
| "update_first P f (x # xs) = (if sat P x then PDict (f (dict_of x)) # xs else x # update_first P f xs)"

definition update_all :: "(dict \<Rightarrow> bool) \<Rightarrow> (dict \<Rightarrow> dict) \<Rightarrow> py list \<Rightarrow> py list" where
  "update_all P f xs = map (\<lambda>x. if sat P x then PDict (f (dict_of x)) else x) xs"

text \<open>Iteration over a value: lists, the characters of a text, the keys of a dictionary.\<close>

fun py_iter :: "py \<Rightarrow> py list result" where
  "py_iter (PList xs) = Inr xs"
| "py_iter (PStr s) = Inr (map (\<lambda>c. PStr [c]) s)"
| "py_iter (PDict d) = Inr (map (\<lambda>(k, v). PStr k) d)"
| "py_iter _ = Inl (TypeError ''object is not iterable'')"

definition str_default :: "string \<Rightarrow> py \<Rightarrow> string" where
  "str_default t v = py_str (por v (PStr t))"

definition opt_str :: "string option \<Rightarrow> py" where
  "opt_str x = (case x of None \<Rightarrow> PNone | Some t \<Rightarrow> PStr t)"

text \<open>\<open>str(t).strip() or None\<close>.\<close>

definition nonblank :: "string \<Rightarrow> string option" where
  "nonblank t = (let u = strip t in if u = [] then None else Some u)"

subsection \<open>Roles\<close>

definition role_entry :: "string \<Rightarrow> string list \<Rightarrow> dict" where
  "role_entry name perms = [(''name'', PStr name), (''permissions'', PList (map PStr perms))]"

definition default_roles :: "dict list" where
  "default_roles = [
     role_entry ''viewer'' [],
     role_entry ''kiosk_operator'' [''vm:read'', ''vm:power'', ''kiosk:operate''],
     role_entry ''ops'' [''vm:mutate'', ''actions:bulk'', ''provisioning:write''],
     role_entry ''admin'' [''vm:mutate'', ''actions:bulk'', ''provisioning:write'', ''policy:write'', ''auth:read'',
       ''auth:write'', ''settings:read'', ''settings:write'', ''session:download_recording'', ''session:manage_recording''],
     role_entry ''superadmin'' [''*'']]"

definition BUILT_IN_ROLE_NAMES :: "string list" where
  "BUILT_IN_ROLE_NAMES = [''viewer'', ''kiosk_operator'', ''ops'', ''admin'', ''superadmin'']"

definition role_char :: "char \<Rightarrow> bool" where
  "role_char c = (is_alnum c \<or> c \<in> {CHR ''.'', CHR ''_'', CHR '':'', CHR ''-''})"

definition validate_role_name :: "string \<Rightarrow> string result" where
  "validate_role_name name = (let v = lower (strip name) in
     if v = [] then Inl (ValueError ''role name is required'')
     else if \<not> full_match (between 1 64 role_char) v then Inl (ValueError ''invalid role name'')
     else Inr v)"

definition entry_name :: "dict \<Rightarrow> string" where
  "entry_name d = lower (stget d ''name'')"

text \<open>\<open>sorted(set(xs))\<close>.\<close>

definition sorted_set :: "string list \<Rightarrow> string list" where
  "sorted_set xs = sort (remdups xs)"

definition clean_texts :: "py list \<Rightarrow> string list" where
  "clean_texts vs = filter (\<lambda>t. t \<noteq> []) (map (\<lambda>v. strip (py_str v)) vs)"

definition entry_permissions :: "dict \<Rightarrow> string list result" where
  "entry_permissions d = rbind (py_iter (por (pget d ''permissions'') (PList []))) (\<lambda>vs. Inr (clean_texts vs))"

fun normalize_roles :: "py list \<Rightarrow> dict list result" where
  "normalize_roles [] = Inr []"
| "normalize_roles (x # xs) = (if \<not> is_dict x \<or> entry_name (dict_of x) = [] then normalize_roles xs
     else rbind (entry_permissions (dict_of x)) (\<lambda>perms. rbind (normalize_roles xs) (\<lambda>rs.
            Inr (role_entry (entry_name (dict_of x)) (sorted_set perms) # rs))))"

definition persisted_role :: "dict \<Rightarrow> py result" where
  "persisted_role d = rbind (py_iter (por (pget d ''permissions'') (PList []))) (\<lambda>vs.
     Inr (PDict [(''name'', PStr (sget d ''name'')), (''permissions'', PList vs)]))"

definition persisted_roles :: "dict \<Rightarrow> py list result" where
  "persisted_roles d = rbind (py_iter (pget_or d ''roles'' (PList []))) (\<lambda>items.
     rmap (\<lambda>x. persisted_role (dict_of x)) (filter is_dict items))"

definition backfill_roles :: "dict list \<Rightarrow> dict list" where
  "backfill_roles rs = rs @ map (\<lambda>b. role_entry (entry_name b) (sorted_set (clean_texts (list_of (pget b ''permissions'')))))
     (filter (\<lambda>b. entry_name b \<notin> set (map entry_name rs)) default_roles)"

text \<open>
  \<open>_load_roles_doc\<close>: the normalised document, written back when it differs from the file. The built-in
  roles that the file does not have are added.
\<close>

definition roles_payload :: "dict \<Rightarrow> dict result" where
  "roles_payload payload =
     (let d = (if is_list (pget payload ''roles'') then payload else dset ''roles'' (PList (map PDict default_roles)) payload) in
      rbind (normalize_roles (entries ''roles'' d)) (\<lambda>rs. let all = backfill_roles rs in
        Inr (dset ''roles'' (PList (map PDict (if all = [] then default_roles else all))) d)))"

definition load_roles_doc :: "auth \<Rightarrow> dict result \<times> auth" where
  "load_roles_doc s =
     (case (case au_roles s of None \<Rightarrow> PDict [(''roles'', PList (map PDict default_roles))] | Some v \<Rightarrow> v) of
        PDict d \<Rightarrow> (case persisted_roles d of Inl e \<Rightarrow> (Inl e, s)
          | Inr old \<Rightarrow> (case roles_payload d of Inl e \<Rightarrow> (Inl e, s)
              | Inr payload \<Rightarrow> (Inr payload, if PDict [(''roles'', PList old)] \<noteq> PDict payload
                    then s\<lparr>au_roles := Some (PDict payload)\<rparr> else s)))
      | _ \<Rightarrow> (case roles_payload [(''roles'', PList (map PDict default_roles))] of Inl e \<Rightarrow> (Inl e, s)
              | Inr payload \<Rightarrow> (Inr payload, s\<lparr>au_roles := Some (PDict payload)\<rparr>)))"

record role_view =
  rv_name :: string
  rv_permissions :: "string list"
  rv_built_in :: bool

fun role_views :: "py list \<Rightarrow> role_view list result" where
  "role_views [] = Inr []"
| "role_views (x # xs) = (if \<not> is_dict x \<or> entry_name (dict_of x) = [] then role_views xs
     else rbind (entry_permissions (dict_of x)) (\<lambda>perms. rbind (role_views xs) (\<lambda>rs.
            let name = entry_name (dict_of x) in
            Inr (\<lparr>rv_name = name, rv_permissions = sorted_set perms, rv_built_in = name \<in> set BUILT_IN_ROLE_NAMES\<rparr> # rs))))"

definition list_roles :: "auth \<Rightarrow> role_view list result \<times> auth" where
  "list_roles s = abind (load_roles_doc s) (\<lambda>doc s'. (rbind (role_views (entries ''roles'' doc)) (\<lambda>rs. Inr (sort_key rv_name rs)), s'))"

definition role_exists :: "string \<Rightarrow> auth \<Rightarrow> bool result \<times> auth" where
  "role_exists role_name s = (let role = lower (strip role_name) in
     if role = [] then (Inr False, s)
     else abind (list_roles s) (\<lambda>rs s'. (Inr (role \<in> rv_name ` set rs), s')))"

definition role_permissions :: "string \<Rightarrow> auth \<Rightarrow> string list result \<times> auth" where
  "role_permissions role s = (let role_name = lower (strip role) in
     if role_name = [] then (Inr [], s)
     else abind (list_roles s) (\<lambda>rs s'. (Inr (case List.find (\<lambda>r. rv_name r = role_name) rs of
         None \<Rightarrow> [] | Some r \<Rightarrow> filter (\<lambda>t. t \<noteq> []) (map strip (rv_permissions r))), s')))"

definition save_role :: "string \<Rightarrow> string list \<Rightarrow> auth \<Rightarrow> (string \<times> string list) result \<times> auth" where
  "save_role name permissions s = (case validate_role_name name of Inl e \<Rightarrow> (Inl e, s)
     | Inr role_name \<Rightarrow>
        if role_name \<in> set BUILT_IN_ROLE_NAMES then (Inl (ValueError ''built-in role is protected''), s)
        else let perms = sorted_set (filter (\<lambda>t. t \<noteq> []) (map strip permissions)) in
        abind (load_roles_doc s) (\<lambda>doc s'.
          let roles = entries ''roles'' doc; same = (\<lambda>d. entry_name d = role_name);
              roles' = (case find_entry same roles of
                  None \<Rightarrow> roles @ [PDict (role_entry role_name perms)]
                | Some d \<Rightarrow> update_first same (dset ''permissions'' (PList (map PStr perms))) roles)
          in (Inr (role_name, perms), s'\<lparr>au_roles := with_entries ''roles'' roles' doc\<rparr>)))"

definition delete_role :: "string \<Rightarrow> auth \<Rightarrow> bool result \<times> auth" where
  "delete_role name s = (let role_name = lower (strip name) in
     if role_name = [] \<or> role_name \<in> set BUILT_IN_ROLE_NAMES then (Inr False, s)
     else abind (load_roles_doc s) (\<lambda>doc s'.
       let roles = entries ''roles'' doc; roles' = filter (\<lambda>x. \<not> sat (\<lambda>d. entry_name d = role_name) x) roles
       in if length roles' = length roles then (Inr False, s')
          else let users_doc = load_users_doc s';
                   users = update_all (\<lambda>d. lower (stget d ''role'') = role_name) (dset ''role'' (PStr ''viewer'')) (entries ''users'' users_doc)
               in (Inr True, s'\<lparr>au_roles := with_entries ''roles'' roles' doc, au_users := with_entries ''users'' users users_doc\<rparr>)))"

subsection \<open>Geographic routing of a user's sessions\<close>

definition geo_site :: "py \<Rightarrow> dict option" where
  "geo_site raw_site = (case raw_site of
      PDict d \<Rightarrow> let target_node = stget d ''target_node''; cidrs = clean_texts (list_of (pget d ''cidrs'')) in
        if target_node = [] \<or> cidrs = [] then None
        else Some [(''target_node'', PStr target_node), (''cidrs'', PList (map PStr cidrs))]
    | _ \<Rightarrow> None)"

fun geo_sites :: "dict \<Rightarrow> dict \<Rightarrow> dict" where
  "geo_sites acc [] = acc"
| "geo_sites acc ((raw_name, raw_site) # r) = (let site_name = strip raw_name in
     geo_sites (if site_name = [] then acc
                else case geo_site raw_site of None \<Rightarrow> acc | Some site \<Rightarrow> dset site_name (PDict site) acc) r)"

definition normalize_session_geo_routing :: "py \<Rightarrow> dict" where
  "normalize_session_geo_routing v = (case v of
      PDict d \<Rightarrow> let enabled = truthy (pget d ''enabled''); sites = geo_sites [] (dict_of (pget d ''sites'')) in
        if \<not> enabled \<and> sites = [] then [] else [(''enabled'', PBool enabled), (''sites'', PDict sites)]
    | _ \<Rightarrow> [])"

subsection \<open>Users\<close>

definition user_char :: "char \<Rightarrow> bool" where
  "user_char c = (is_alnum c \<or> c \<in> {CHR ''.'', CHR ''_'', CHR ''-''})"

definition username_ok :: "string \<Rightarrow> bool" where
  "username_ok v = full_match (between 1 64 user_char) v"

definition validate_username :: "string \<Rightarrow> string result" where
  "validate_username username = (let v = strip username in
     if v = [] then Inl (ValueError ''username is required'')
     else if \<not> username_ok v then Inl (ValueError ''invalid username'')
     else Inr v)"

text \<open>The password checks of the operations that set one.\<close>

definition MIN_PASSWORD_LENGTH :: nat where "MIN_PASSWORD_LENGTH = 8"

definition check_password :: "string \<Rightarrow> string result" where
  "check_password passwd =
     (if passwd = [] then Inl (ValueError ''password is required'')
      else if length passwd < MIN_PASSWORD_LENGTH
      then Inl (ValueError (''password must be at least '' @ nat_str MIN_PASSWORD_LENGTH @ '' characters''))
      else Inr passwd)"

text \<open>User names are compared without regard to case.\<close>

definition user_key :: "dict \<Rightarrow> string" where
  "user_key d = lower (stget d ''username'')"

definition same_user :: "string \<Rightarrow> dict \<Rightarrow> bool" where
  "same_user name d = (user_key d = lower name)"

definition user_list :: "auth \<Rightarrow> py list" where
  "user_list s = entries ''users'' (load_users_doc s)"

definition write_users :: "py list \<Rightarrow> auth \<Rightarrow> auth" where
  "write_users xs s = s\<lparr>au_users := with_entries ''users'' xs (load_users_doc s)\<rparr>"

definition find_user :: "string \<Rightarrow> auth \<Rightarrow> dict option" where
  "find_user username s = (let name = strip username in
     if name = [] then None else find_entry (same_user name) (user_list s))"

definition enabled_user :: "dict \<Rightarrow> bool" where
  "enabled_user d = truthy (pget_or d ''enabled'' (PBool True))"

definition user_role :: "dict \<Rightarrow> string" where
  "user_role d = sor (strip (str_default ''viewer'' (pget d ''role''))) ''viewer''"

definition user_auth_source :: "dict \<Rightarrow> string" where
  "user_auth_source d = sor (lower (strip (str_default ''local'' (pget d ''auth_source'')))) ''local''"

definition user_tenant :: "dict \<Rightarrow> string option" where
  "user_tenant d = (let tid = pget d ''tenant_id'' in if truthy tid then nonblank (py_str tid) else None)"

definition totp_active :: "dict \<Rightarrow> bool" where
  "totp_active d = (truthy (pget_or d ''totp_enabled'' (PBool False)) \<and> truthy (pget d ''totp_secret''))"

definition bootstrap_only :: "dict \<Rightarrow> bool" where
  "bootstrap_only d = truthy (pget_or d ''bootstrap_only'' (PBool False))"

definition ensure_bootstrap_admin :: "auth_env \<Rightarrow> int \<Rightarrow> string \<Rightarrow> string \<Rightarrow> string \<Rightarrow> auth \<Rightarrow> unit result \<times> auth" where
  "ensure_bootstrap_admin env now salt username password s = abind (load_roles_doc s) (\<lambda>_ s'.
     let user_name = strip username in
     if user_name = [] \<or> password = [] then (Inr (), s')
     else if find_entry (same_user user_name) (user_list s') \<noteq> None then (Inr (), s')
     else case hash_password env salt 390000 password of Inl e \<Rightarrow> (Inl e, s')
       | Inr h \<Rightarrow> (Inr (), write_users (user_list s' @ [PDict [(''username'', PStr user_name), (''role'', PStr ''superadmin''),
            (''password_hash'', PStr h), (''created_at'', PInt now), (''enabled'', PBool True), (''bootstrap_only'', PBool True)]]) s'))"

record user_view =
  uv_username :: string
  uv_role :: string
  uv_enabled :: bool
  uv_created_at :: int
  uv_bootstrap_only :: bool
  uv_tenant_id :: "string option"
  uv_session_geo_routing :: dict
  uv_auth_source :: string
  uv_totp_enabled :: bool

definition user_view_of :: "dict \<Rightarrow> user_view result" where
  "user_view_of d = rbind (int_or0 (pget d ''created_at'')) (\<lambda>created.
     Inr \<lparr>uv_username = stget d ''username'', uv_role = user_role d, uv_enabled = enabled_user d, uv_created_at = created,
          uv_bootstrap_only = bootstrap_only d, uv_tenant_id = user_tenant d,
          uv_session_geo_routing = normalize_session_geo_routing (pget d ''session_geo_routing''),
          uv_auth_source = user_auth_source d, uv_totp_enabled = totp_active d\<rparr>)"

definition list_users :: "string option \<Rightarrow> auth \<Rightarrow> user_view list result" where
  "list_users requester_tenant_id s =
     rbind (rmap (\<lambda>x. user_view_of (dict_of x))
       (filter (sat (\<lambda>d. requester_tenant_id = None \<or> user_tenant d = requester_tenant_id)) (user_list s)))
     (\<lambda>vs. Inr (sort_key (\<lambda>v. lower (uv_username v)) vs))"

definition get_user_tenant_id :: "string \<Rightarrow> auth \<Rightarrow> string option" where
  "get_user_tenant_id username s = (case find_user username s of None \<Rightarrow> None | Some d \<Rightarrow> user_tenant d)"

definition get_user_session_geo_routing :: "string \<Rightarrow> auth \<Rightarrow> dict option" where
  "get_user_session_geo_routing username s = (case find_user username s of None \<Rightarrow> None
     | Some d \<Rightarrow> let geo = normalize_session_geo_routing (pget d ''session_geo_routing'') in if geo = [] then None else Some geo)"

text \<open>\<open>list_tenants\<close>; an entry that is no dictionary has no \<open>get\<close>.\<close>

definition list_tenants :: "auth \<Rightarrow> string list result" where
  "list_tenants s = (if list_all is_dict (user_list s)
     then Inr (sorted_set (filter (\<lambda>t. t \<noteq> []) (map (\<lambda>x. stget (dict_of x) ''tenant_id'') (user_list s))))
     else Inl (AttributeError ''object has no attribute get''))"

text \<open>The checks of \<open>create_user\<close>, which may write the document of roles.\<close>

definition checked_role :: "string \<Rightarrow> auth \<Rightarrow> string result \<times> auth" where
  "checked_role role s = (case validate_role_name (sor role ''viewer'') of Inl e \<Rightarrow> (Inl e, s)
     | Inr role_name \<Rightarrow> abind (role_exists role_name s) (\<lambda>ok s'.
         if ok then (Inr role_name, s') else (Inl (ValueError ''unknown role''), s')))"

definition new_user_entry :: "string \<Rightarrow> string \<Rightarrow> string \<Rightarrow> int \<Rightarrow> bool \<Rightarrow> string option \<Rightarrow> dict \<Rightarrow> dict" where
  "new_user_entry user_name role_name h now enabled tid geo =
     [(''username'', PStr user_name), (''role'', PStr role_name), (''password_hash'', PStr h), (''created_at'', PInt now),
      (''enabled'', PBool enabled), (''auth_source'', PStr ''local'')]
     @ (case tid of None \<Rightarrow> [] | Some t \<Rightarrow> [(''tenant_id'', PStr t)])
     @ (if geo = [] then [] else [(''session_geo_routing'', PDict geo)])"

definition create_user :: "auth_env \<Rightarrow> int \<Rightarrow> string \<Rightarrow> string \<Rightarrow> string \<Rightarrow> string \<Rightarrow> bool \<Rightarrow> string option \<Rightarrow> py \<Rightarrow> auth
    \<Rightarrow> user_view result \<times> auth" where
  "create_user env now salt username password role enabled tenant_id geo_routing s =
     (case validate_username username of Inl e \<Rightarrow> (Inl e, s)
      | Inr user_name \<Rightarrow> (case check_password password of Inl e \<Rightarrow> (Inl e, s)
      | Inr passwd \<Rightarrow> abind (checked_role role s) (\<lambda>role_name s'.
          if find_entry (same_user user_name) (user_list s') \<noteq> None then (Inl (ValueError ''user already exists''), s')
          else case hash_password env salt 390000 passwd of Inl e \<Rightarrow> (Inl e, s')
            | Inr h \<Rightarrow> let tid = Option.bind tenant_id nonblank; geo = normalize_session_geo_routing geo_routing in
               (Inr \<lparr>uv_username = user_name, uv_role = role_name, uv_enabled = enabled, uv_created_at = now,
                     uv_bootstrap_only = False, uv_tenant_id = tid, uv_session_geo_routing = geo,
                     uv_auth_source = ''local'', uv_totp_enabled = False\<rparr>,
                write_users (user_list s' @ [PDict (new_user_entry user_name role_name h now enabled tid geo)]) s'))))"

text \<open>
  The optional arguments of \<open>update_user\<close>: \<open>None\<close> leaves the field alone, for the tenant and the routing
  that is the ellipsis of the source.
\<close>

record user_change =
  uc_role :: "string option"
  uc_enabled :: "bool option"
  uc_password :: "string option"
  uc_tenant_id :: "string option option"
  uc_geo :: "py option"

definition change_role :: "string option \<Rightarrow> dict \<Rightarrow> auth \<Rightarrow> dict result \<times> auth" where
  "change_role role target s = (case role of None \<Rightarrow> (Inr target, s)
     | Some r \<Rightarrow> abind (checked_role r s) (\<lambda>role_name s'. (Inr (dset ''role'' (PStr role_name) target), s')))"

definition change_password :: "auth_env \<Rightarrow> string \<Rightarrow> string option \<Rightarrow> dict \<Rightarrow> dict result" where
  "change_password env salt password target = (case password of None \<Rightarrow> Inr target
     | Some p \<Rightarrow> rbind (check_password p) (\<lambda>passwd. rbind (hash_password env salt 390000 passwd) (\<lambda>h.
         Inr (dset ''password_hash'' (PStr h) target))))"

definition change_enabled :: "bool option \<Rightarrow> dict \<Rightarrow> dict" where
  "change_enabled enabled target = (case enabled of None \<Rightarrow> target | Some b \<Rightarrow> dset ''enabled'' (PBool b) target)"

definition change_tenant :: "string option option \<Rightarrow> dict \<Rightarrow> dict" where
  "change_tenant tenant_id target = (case tenant_id of None \<Rightarrow> target
     | Some t \<Rightarrow> (case Option.bind t nonblank of None \<Rightarrow> ddel ''tenant_id'' target | Some tid \<Rightarrow> dset ''tenant_id'' (PStr tid) target))"

definition change_geo :: "py option \<Rightarrow> dict \<Rightarrow> dict" where
  "change_geo geo_routing target = (case geo_routing of None \<Rightarrow> target
     | Some v \<Rightarrow> let geo = normalize_session_geo_routing v in
         if geo \<noteq> [] then dset ''session_geo_routing'' (PDict geo) target else ddel ''session_geo_routing'' target)"

definition update_user :: "auth_env \<Rightarrow> string \<Rightarrow> string \<Rightarrow> user_change \<Rightarrow> auth \<Rightarrow> user_view result \<times> auth" where
  "update_user env salt username ch s =
     (case validate_username username of Inl e \<Rightarrow> (Inl e, s)
      | Inr user_name \<Rightarrow> (case find_entry (same_user user_name) (user_list s) of
          None \<Rightarrow> (Inl (ValueError ''user not found''), s)
        | Some target \<Rightarrow> abind (change_role (uc_role ch) target s) (\<lambda>t1 s'.
            case change_password env salt (uc_password ch) (change_enabled (uc_enabled ch) t1) of Inl e \<Rightarrow> (Inl e, s')
            | Inr t2 \<Rightarrow> let t3 = ddel ''bootstrap_only'' (change_geo (uc_geo ch) (change_tenant (uc_tenant_id ch) t2))
                in (user_view_of t3, write_users (update_first (same_user user_name) (\<lambda>_. t3) (user_list s')) s'))))"

definition delete_user :: "string \<Rightarrow> auth \<Rightarrow> bool \<times> auth" where
  "delete_user username s = (let user_name = strip username in
     if user_name = [] then (False, s)
     else let users = user_list s; users' = filter (\<lambda>x. \<not> sat (same_user user_name) x) users
       in if length users' = length users then (False, s) else (True, write_users users' s))"

text \<open>\<open>_persist_user_record\<close>.\<close>

definition persist_user_record :: "dict \<Rightarrow> auth \<Rightarrow> auth" where
  "persist_user_record target s = (let users = user_list s; same = (\<lambda>d. user_key d = user_key target) in
     write_users (if find_entry same users \<noteq> None then update_first same (\<lambda>_. target) users else users @ [PDict target]) s)"

definition enroll_totp :: "string \<Rightarrow> string \<Rightarrow> auth \<Rightarrow> (string \<times> string) result \<times> auth" where
  "enroll_totp random_bytes username s = (case find_user username s of
      None \<Rightarrow> (Inl (ValueError ''user not found''), s)
    | Some user \<Rightarrow> let secret = generate_totp_secret random_bytes;
          user' = dset ''totp_enabled'' (PBool True) (dset ''totp_secret'' (PStr secret) user)
        in (Inr (strip (str_default username (pget user ''username'')), secret), persist_user_record user' s))"

definition disable_totp :: "string \<Rightarrow> auth \<Rightarrow> bool \<times> auth" where
  "disable_totp username s = (case find_user username s of
      None \<Rightarrow> (False, s)
    | Some user \<Rightarrow> (True, persist_user_record (dset ''totp_enabled'' (PBool False) (ddel ''totp_secret'' user)) s))"

end
