(* ===== verification/AuthSession.thy ===== *)
theory AuthSession
  imports AuthUsers
begin

text \<open>
  \<open>beagle-host/services/auth_session.py\<close>, the sessions: login, refresh, resolution and revocation of
  tokens, and the onboarding of the first administrator. A session is an entry of the list in
  \<open>sessions.json\<close>; entries are only appended and changed in place. Clock readings, fresh tokens and the
  answers of the LDAP server are arguments. Every call that raises does so before it writes the sessions.
\<close>

subsection \<open>Sessions\<close>

definition session_list :: "auth \<Rightarrow> py list" where
  "session_list s = entries ''sessions'' (load_sessions_doc s)"

definition write_sessions :: "py list \<Rightarrow> auth \<Rightarrow> auth" where
  "write_sessions xs s = s\<lparr>au_sessions := with_entries ''sessions'' xs (load_sessions_doc s)\<rparr>"

definition revoked :: "dict \<Rightarrow> bool" where
  "revoked d = truthy (pget d ''revoked'')"

definition mark_revoked :: "dict \<Rightarrow> dict" where
  "mark_revoked d = dset ''revoked'' (PBool True) d"

definition session_expired :: "auth_env \<Rightarrow> int \<Rightarrow> bool \<Rightarrow> dict \<Rightarrow> bool result" where
  "session_expired env now include_access_expiry d =
     (if revoked d then Inr True
      else rbind (int_or0 (pget d ''access_expires_at'')) (\<lambda>access_at.
           rbind (int_or0 (pget d ''refresh_expires_at'')) (\<lambda>refresh_at.
           rbind (int_or0 (pget d ''absolute_expires_at'')) (\<lambda>absolute_at.
           rbind (int_or0 (por (pget d ''last_seen_at'') (pget d ''created_at''))) (\<lambda>last_seen.
             Inr ((include_access_expiry \<and> access_at \<noteq> 0 \<and> access_at < now)
               \<or> (refresh_at \<noteq> 0 \<and> refresh_at < now) \<or> (absolute_at \<noteq> 0 \<and> absolute_at < now)
               \<or> ae_idle_timeout env < now - last_seen))))))"

text \<open>
  \<open>_enforce_session_limit\<close>: expired sessions of the user are revoked, then the least recently seen
  until there is room for one more. \<open>limit_scan\<close> is the loop: the list with the expired ones revoked
  and the positions of the active ones.
\<close>

fun limit_scan :: "auth_env \<Rightarrow> int \<Rightarrow> string \<Rightarrow> nat \<Rightarrow> py list \<Rightarrow> (py list \<times> nat list) result" where
  "limit_scan env now name i [] = Inr ([], [])"
| "limit_scan env now name i (x # xs) =
     (if \<not> sat (same_user name) x then rbind (limit_scan env now name (Suc i) xs) (\<lambda>(ys, act). Inr (x # ys, act))
      else rbind (session_expired env now False (dict_of x)) (\<lambda>expired.
        rbind (limit_scan env now name (Suc i) xs) (\<lambda>(ys, act).
          Inr (if expired then (PDict (mark_revoked (dict_of x)) # ys, act) else (x # ys, i # act)))))"

definition age_key :: "dict \<Rightarrow> (int \<times> int) result" where
  "age_key d = rbind (int_or0 (por (pget d ''last_seen_at'') (pget d ''created_at''))) (\<lambda>seen.
     rbind (int_or0 (pget d ''created_at'')) (\<lambda>created. Inr (seen, created)))"

definition revoke_at :: "py list \<Rightarrow> nat \<Rightarrow> py list" where
  "revoke_at xs i = xs[i := PDict (mark_revoked (dict_of (xs ! i)))]"

definition enforce_session_limit :: "auth_env \<Rightarrow> int \<Rightarrow> string \<Rightarrow> py list \<Rightarrow> py list result" where
  "enforce_session_limit env now username xs = (let limit = nat (ae_max_sessions env); name = strip username in
     if limit = 0 \<or> name = [] then Inr xs
     else rbind (limit_scan env now name 0 xs) (\<lambda>(ys, active).
       if length active < limit then Inr ys
       else rbind (rmap (\<lambda>i. age_key (dict_of (ys ! i))) active) (\<lambda>ages.
         let oldest_first = map snd (sort_key fst (zip ages active))
         in Inr (foldl revoke_at ys (take (Suc (length active) - limit) oldest_first)))))"

record session_grant =
  sg_access_token :: string
  sg_refresh_token :: string
  sg_expires_in :: int
  sg_username :: string
  sg_role :: string
  sg_tenant_id :: "string option"
  sg_totp_enabled :: bool

record issue_args =
  ia_username :: string
  ia_role :: string
  ia_tenant_id :: "string option"
  ia_totp_enabled :: bool
  ia_remote_addr :: string
  ia_user_agent :: string
  ia_now :: int
  ia_access_token :: string
  ia_refresh_token :: string
  ia_session_id :: string

definition session_entry :: "auth_env \<Rightarrow> issue_args \<Rightarrow> dict" where
  "session_entry env a = [
     (''id'', PStr (ia_session_id a)),
     (''username'', PStr (ia_username a)),
     (''role'', PStr (ia_role a)),
     (''tenant_id'', opt_str (ia_tenant_id a)),
     (''access_token'', PStr (ia_access_token a)),
     (''refresh_token'', PStr (ia_refresh_token a)),
     (''created_at'', PInt (ia_now a)),
     (''last_seen_at'', PInt (ia_now a)),
     (''access_expires_at'', PInt (ia_now a + ae_access_ttl env)),
     (''refresh_expires_at'', PInt (ia_now a + ae_refresh_ttl env)),
     (''absolute_expires_at'', PInt (ia_now a + ae_absolute_timeout env)),
     (''remote_addr'', PStr (ia_remote_addr a)),
     (''user_agent'', PStr (ia_user_agent a)),
     (''revoked'', PBool False)]"

definition issue_session :: "auth_env \<Rightarrow> issue_args \<Rightarrow> auth \<Rightarrow> session_grant result \<times> auth" where
  "issue_session env a s = (case enforce_session_limit env (ia_now a) (ia_username a) (session_list s) of Inl e \<Rightarrow> (Inl e, s)
     | Inr xs \<Rightarrow> (Inr \<lparr>sg_access_token = ia_access_token a, sg_refresh_token = ia_refresh_token a,
          sg_expires_in = ae_access_ttl env, sg_username = ia_username a, sg_role = ia_role a,
          sg_tenant_id = ia_tenant_id a, sg_totp_enabled = ia_totp_enabled a\<rparr>,
        write_sessions (xs @ [PDict (session_entry env a)]) s))"

subsection \<open>Login\<close>

type_synonym ldap = "(string \<Rightarrow> string \<Rightarrow> py) option"

definition ldap_role :: "dict \<Rightarrow> string" where
  "ldap_role payload = sor (lower (strip (str_default ''viewer'' (pget payload ''role'')))) ''viewer''"

definition ldap_user :: "int \<Rightarrow> string \<Rightarrow> dict \<Rightarrow> dict" where
  "ldap_user now username payload =
     [(''username'', PStr (strip (str_default username (pget payload ''username'')))), (''role'', PStr (ldap_role payload)),
      (''created_at'', PInt now), (''enabled'', PBool True), (''auth_source'', PStr ''ldap'')]
     @ (let t = pget payload ''tenant_id'' in
        if t \<noteq> PNone \<and> strip (py_str t) \<noteq> [] then [(''tenant_id'', PStr (strip (py_str t)))] else [])"

definition provision_ldap_shadow_user ::
  "ldap \<Rightarrow> int \<Rightarrow> string \<Rightarrow> string \<Rightarrow> dict option \<Rightarrow> auth \<Rightarrow> dict option \<times> auth" where
  "provision_ldap_shadow_user ldap now username password existing_user s = (case ldap of None \<Rightarrow> (None, s)
     | Some authenticate \<Rightarrow> (case authenticate (strip username) password of
         PDict payload \<Rightarrow>
           (case (case existing_user of Some d \<Rightarrow> Some d | None \<Rightarrow> find_user username s) of
              None \<Rightarrow> let user = ldap_user now username payload in (Some user, persist_user_record user s)
            | Some d \<Rightarrow> let d1 = dset ''auth_source'' (PStr ''ldap'') d;
                user = (if truthy (pget d1 ''role'') then d1 else dset ''role'' (PStr (ldap_role payload)) d1)
                in (Some user, persist_user_record user s))
       | _ \<Rightarrow> (None, s)))"

record login_args =
  la_username :: string
  la_password :: string
  la_totp_code :: string
  la_remote_addr :: string
  la_user_agent :: string
  la_ldap :: "(nat \<Rightarrow> string \<Rightarrow> string \<Rightarrow> py) option"
  la_now_user :: int
  la_now_totp :: int
  la_now :: int
  la_access_token :: string
  la_refresh_token :: string
  la_session_id :: string

text \<open>The \<open>n\<close>-th answer of the LDAP server during a login.\<close>

definition ldap_call :: "nat \<Rightarrow> login_args \<Rightarrow> ldap" where
  "ldap_call n a = map_option (\<lambda>f. f n) (la_ldap a)"

definition login_tenant :: "dict \<Rightarrow> string option" where
  "login_tenant d = (if pget d ''tenant_id'' = PNone then None else nonblank (py_str (pget d ''tenant_id'')))"

definition needs_totp :: "dict \<Rightarrow> bool" where
  "needs_totp d = (truthy (pget_or d ''totp_enabled'' (PBool False)) \<and> stget d ''totp_secret'' \<noteq> [])"

text \<open>The password check of a login: by the LDAP server or against the stored hash.\<close>

definition password_step :: "auth_env \<Rightarrow> login_args \<Rightarrow> dict \<Rightarrow> auth \<Rightarrow> bool result \<times> auth" where
  "password_step env a user s =
     (if user_auth_source user = ''ldap'' then
        (let (shadow, s') = provision_ldap_shadow_user (ldap_call 1 a) (la_now_user a) (strip (la_username a)) (la_password a) (Some user) s
         in (Inr (shadow \<noteq> None), s'))
      else (verify_password env (la_password a) (sget user ''password_hash''), s))"

definition totp_step :: "auth_env \<Rightarrow> login_args \<Rightarrow> dict \<Rightarrow> unit result" where
  "totp_step env a user =
     (if needs_totp user
      then rbind (verify_totp_code env (la_now_totp a) 1 (sget user ''totp_secret'') (drop_blanks (la_totp_code a)))
             (\<lambda>ok. if ok then Inr () else Inl (PermissionError ''invalid one-time code''))
      else Inr ())"

text \<open>
  The entry a login with LDAP hands on: \<open>_provision_ldap_shadow_user\<close> changes the dictionary it is given.
\<close>

definition login_user_after :: "login_args \<Rightarrow> dict \<Rightarrow> auth \<Rightarrow> dict" where
  "login_user_after a user s =
     (if user_auth_source user = ''ldap'' then
        (case fst (provision_ldap_shadow_user (ldap_call 1 a) (la_now_user a) (strip (la_username a)) (la_password a) (Some user) s) of
           Some d \<Rightarrow> d | None \<Rightarrow> user)
      else user)"

definition login_issue :: "login_args \<Rightarrow> dict \<Rightarrow> issue_args" where
  "login_issue a user = \<lparr>ia_username = stget user ''username'', ia_role = user_role user, ia_tenant_id = login_tenant user,
     ia_totp_enabled = totp_active user, ia_remote_addr = la_remote_addr a, ia_user_agent = la_user_agent a, ia_now = la_now a,
     ia_access_token = la_access_token a, ia_refresh_token = la_refresh_token a, ia_session_id = la_session_id a\<rparr>"

definition login_user :: "login_args \<Rightarrow> auth \<Rightarrow> dict option \<times> auth" where
  "login_user a s = (case find_user (strip (la_username a)) s of Some d \<Rightarrow> (Some d, s)
     | None \<Rightarrow> provision_ldap_shadow_user (ldap_call 0 a) (la_now_user a) (strip (la_username a)) (la_password a) None s)"

definition login :: "auth_env \<Rightarrow> login_args \<Rightarrow> auth \<Rightarrow> session_grant option result \<times> auth" where
  "login env a s =
     (if \<not> username_ok (strip (la_username a)) then (Inr None, s)
      else case login_user a s of (None, s1) \<Rightarrow> (Inr None, s1)
      | (Some user, s1) \<Rightarrow>
         if \<not> enabled_user user then (Inr None, s1)
         else abind (password_step env a user s1) (\<lambda>ok s2.
           if \<not> ok then (Inr None, s2)
           else case totp_step env a (login_user_after a user s1) of Inl e \<Rightarrow> (Inl e, s2)
             | Inr _ \<Rightarrow> abind (issue_session env (login_issue a (login_user_after a user s1)) s2) (\<lambda>g s3. (Inr (Some g), s3))))"

subsection \<open>Refresh, resolve and revoke\<close>

definition live_with :: "string \<Rightarrow> string \<Rightarrow> dict \<Rightarrow> bool" where
  "live_with field token d = (\<not> revoked d \<and> sget d field = token)"

definition touched :: "auth_env \<Rightarrow> int \<Rightarrow> dict \<Rightarrow> dict" where
  "touched env now d = dset ''access_expires_at'' (PInt (now + ae_access_ttl env)) (dset ''last_seen_at'' (PInt now) d)"

text \<open>The first session with the token that is not revoked decides.\<close>

definition refresh :: "auth_env \<Rightarrow> int \<Rightarrow> string \<Rightarrow> string \<Rightarrow> auth \<Rightarrow> session_grant option result \<times> auth" where
  "refresh env now new_access refresh_token s = (let token = strip refresh_token; hit = live_with ''refresh_token'' token in
     if token = [] then (Inr None, s)
     else case find_entry hit (session_list s) of None \<Rightarrow> (Inr None, s)
     | Some d \<Rightarrow> (case session_expired env now False d of Inl e \<Rightarrow> (Inl e, s)
        | Inr expired \<Rightarrow> let dead = write_sessions (update_first hit mark_revoked (session_list s)) s in
            if expired then (Inr None, dead)
            else let username = stget d ''username'' in
            (case find_user username s of None \<Rightarrow> (Inr None, dead)
             | Some user \<Rightarrow> if \<not> enabled_user user then (Inr None, dead)
                else (Inr (Some \<lparr>sg_access_token = new_access, sg_refresh_token = sor (sget d ''refresh_token'') token,
                        sg_expires_in = ae_access_ttl env, sg_username = username,
                        sg_role = sor (strip (py_str (por (pget user ''role'') (por (pget d ''role'') (PStr ''viewer''))))) ''viewer'',
                        sg_tenant_id = None, sg_totp_enabled = totp_active user\<rparr>),
                      write_sessions (update_first hit (\<lambda>d. touched env now (dset ''access_token'' (PStr new_access) d)) (session_list s)) s))))"

record identity =
  id_username :: string
  id_role :: string
  id_session_id :: string
  id_tenant_id :: "string option"

text \<open>
  The loop of \<open>resolve_access_token\<close>: matching sessions that are expired are revoked on the way, the
  first that is not is extended and ends it. The result has the session found and whether any was revoked.
\<close>

fun resolve_scan :: "auth_env \<Rightarrow> int \<Rightarrow> string \<Rightarrow> py list \<Rightarrow> (dict option \<times> bool \<times> py list) result" where
  "resolve_scan env now token [] = Inr (None, False, [])"
| "resolve_scan env now token (x # xs) =
     (if \<not> sat (live_with ''access_token'' token) x
      then rbind (resolve_scan env now token xs) (\<lambda>(hit, dirty, ys). Inr (hit, dirty, x # ys))
      else rbind (session_expired env now True (dict_of x)) (\<lambda>expired.
        if expired
        then rbind (resolve_scan env now token xs) (\<lambda>(hit, dirty, ys). Inr (hit, True, PDict (mark_revoked (dict_of x)) # ys))
        else Inr (Some (touched env now (dict_of x)), False, PDict (touched env now (dict_of x)) # xs)))"

definition session_role :: "dict \<Rightarrow> string" where
  "session_role d = sor (strip (str_default ''viewer'' (pget d ''role''))) ''viewer''"

definition resolve_access_token :: "auth_env \<Rightarrow> int \<Rightarrow> string \<Rightarrow> auth \<Rightarrow> identity option result \<times> auth" where
  "resolve_access_token env now access_token s = (let token = strip access_token in
     if token = [] then (Inr None, s)
     else case resolve_scan env now token (session_list s) of Inl e \<Rightarrow> (Inl e, s)
     | Inr (hit, dirty, ys) \<Rightarrow>
        (case hit of
           Some d \<Rightarrow> (Inr (Some \<lparr>id_username = stget d ''username'', id_role = session_role d, id_session_id = stget d ''id'',
                          id_tenant_id = get_user_tenant_id (stget d ''username'') s\<rparr>), write_sessions ys s)
         | None \<Rightarrow> (Inr None, if dirty then write_sessions ys s else s)))"

definition revoke :: "string \<Rightarrow> string \<Rightarrow> auth \<Rightarrow> bool \<times> auth" where
  "revoke access_token refresh_token s = (let acc = strip access_token; ref = strip refresh_token;
      hit = (\<lambda>d. \<not> revoked d \<and> ((acc \<noteq> [] \<and> sget d ''access_token'' = acc) \<or> (ref \<noteq> [] \<and> sget d ''refresh_token'' = ref))) in
     if acc = [] \<and> ref = [] then (False, s)
     else if find_entry hit (session_list s) = None then (False, s)
     else (True, write_sessions (update_all hit mark_revoked (session_list s)) s))"

definition revoke_user_sessions :: "string \<Rightarrow> auth \<Rightarrow> nat \<times> auth" where
  "revoke_user_sessions username s = (let name = strip username; hit = (\<lambda>d. \<not> revoked d \<and> same_user name d);
      n = length (filter (sat hit) (session_list s)) in
     if name = [] then (0, s)
     else if n = 0 then (0, s)
     else (n, write_sessions (update_all hit mark_revoked (session_list s)) s))"

definition revoke_session_by_jti :: "string \<Rightarrow> auth \<Rightarrow> bool \<times> auth" where
  "revoke_session_by_jti jti s = (let j = strip jti; hit = live_with ''jti'' j in
     if j = [] then (False, s)
     else if find_entry hit (session_list s) = None then (False, s)
     else (True, write_sessions (update_first hit mark_revoked (session_list s)) s))"

record session_listing =
  sl_jti :: py
  sl_username :: py
  sl_tenant_id :: py
  sl_role :: py
  sl_created_at :: py
  sl_expires_at :: py
  sl_ip :: py

definition session_listing_of :: "dict \<Rightarrow> session_listing" where
  "session_listing_of d = \<lparr>sl_jti = pget_or d ''jti'' (PStr []), sl_username = pget_or d ''username'' (PStr []),
     sl_tenant_id = por (pget d ''tenant_id'') PNone, sl_role = pget_or d ''role'' (PStr []),
     sl_created_at = pget_or d ''iat'' (PInt 0), sl_expires_at = pget_or d ''refresh_exp'' (pget_or d ''exp'' (PInt 0)),
     sl_ip = por (pget d ''ip'') PNone\<rparr>"

fun active_scan :: "auth_env \<Rightarrow> int \<Rightarrow> string option \<Rightarrow> string option \<Rightarrow> py list \<Rightarrow> session_listing list result" where
  "active_scan env now username tenant_id [] = Inr []"
| "active_scan env now username tenant_id (x # xs) =
     (if \<not> sat (\<lambda>d. \<not> revoked d) x then active_scan env now username tenant_id xs
      else rbind (session_expired env now False (dict_of x)) (\<lambda>expired.
        rbind (active_scan env now username tenant_id xs) (\<lambda>rest.
          Inr (if expired \<or> (username \<noteq> None \<and> username \<noteq> Some [] \<and> \<not> same_user (strip (the username)) (dict_of x))
                 \<or> (tenant_id \<noteq> None \<and> tenant_id \<noteq> Some [] \<and> sget (dict_of x) ''tenant_id'' \<noteq> the tenant_id)
               then rest else session_listing_of (dict_of x) # rest))))"

definition auth_active_sessions :: "auth_env \<Rightarrow> int \<Rightarrow> string option \<Rightarrow> string option \<Rightarrow> auth \<Rightarrow> session_listing list result" where
  "auth_active_sessions env now username tenant_id s = active_scan env now username tenant_id (session_list s)"

subsection \<open>Onboarding\<close>

record onboarding =
  ob_doc :: dict
  ob_completed :: bool
  ob_completed_at :: int
  ob_completed_by :: string

definition empty_onboarding :: dict where
  "empty_onboarding = [(''completed'', PBool False), (''completed_at'', PInt 0), (''completed_by'', PStr [])]"

definition load_onboarding_doc :: "auth \<Rightarrow> onboarding result" where
  "load_onboarding_doc s = (let d = (case au_onboarding s of Some (PDict d) \<Rightarrow> d | _ \<Rightarrow> empty_onboarding) in
     rbind (int_or0 (pget d ''completed_at'')) (\<lambda>done_at.
       Inr \<lparr>ob_doc = d, ob_completed = truthy (pget_or d ''completed'' (PBool False)), ob_completed_at = done_at,
            ob_completed_by = stget d ''completed_by''\<rparr>))"

definition write_onboarding :: "onboarding \<Rightarrow> auth \<Rightarrow> auth" where
  "write_onboarding ob s = s\<lparr>au_onboarding := Some (PDict (dset ''completed_by'' (PStr (ob_completed_by ob))
     (dset ''completed_at'' (PInt (ob_completed_at ob)) (dset ''completed'' (PBool (ob_completed ob)) (ob_doc ob)))))\<rparr>"

record onboarding_view =
  ov_pending :: bool
  ov_completed_at :: int
  ov_completed_by :: string
  ov_user_count :: nat

text \<open>The enabled users, those with the bootstrap mark only and the others.\<close>

definition enabled_views :: "user_view list \<Rightarrow> user_view list" where
  "enabled_views vs = filter uv_enabled vs"

definition bootstrap_views :: "user_view list \<Rightarrow> user_view list" where
  "bootstrap_views vs = filter uv_bootstrap_only (enabled_views vs)"

definition real_views :: "user_view list \<Rightarrow> user_view list" where
  "real_views vs = filter (\<lambda>v. \<not> uv_bootstrap_only v) (enabled_views vs)"

text \<open>With bootstrap disabled, users that only have the mark are removed before the decision.\<close>

definition drop_bootstrap_users :: "bool \<Rightarrow> user_view list \<Rightarrow> auth \<Rightarrow> user_view list result \<times> auth" where
  "drop_bootstrap_users bootstrap_disabled vs s =
     (if bootstrap_disabled \<and> real_views vs = [] \<and> bootstrap_views vs \<noteq> []
      then let s' = (if list_ex (sat bootstrap_only) (user_list s)
                     then write_users (filter (\<lambda>x. is_dict x \<and> \<not> bootstrap_only (dict_of x)) (user_list s)) s else s)
           in (list_users None s', s')
      else (Inr vs, s))"

definition onboarding_decision ::
  "int \<Rightarrow> string \<Rightarrow> onboarding \<Rightarrow> user_view list \<Rightarrow> auth \<Rightarrow> onboarding_view \<times> auth" where
  "onboarding_decision now bootstrap ob vs s =
     (let reopened = (real_views vs = [] \<and> bootstrap_views vs \<noteq> [] \<and> ob_completed ob \<and> lower (ob_completed_by ob) = bootstrap);
          ob1 = (if reopened then ob\<lparr>ob_completed := False, ob_completed_at := 0, ob_completed_by := []\<rparr> else ob);
          s1 = (if reopened then write_onboarding ob1 s else s);
          completed = (if reopened then False else ob_completed ob \<or> real_views vs \<noteq> []);
          closing = (completed \<and> \<not> ob_completed ob1);
          ob2 = (if closing then ob1\<lparr>ob_completed := True, ob_completed_at := now,
                    ob_completed_by := uv_username (hd (real_views vs))\<rparr> else ob1);
          s2 = (if closing then write_onboarding ob2 s1 else s1)
      in (\<lparr>ov_pending = (\<not> completed), ov_completed_at = ob_completed_at ob2,
           ov_completed_by = strip (ob_completed_by ob2), ov_user_count = length vs\<rparr>, s2))"

definition onboarding_status :: "int \<Rightarrow> string \<Rightarrow> bool \<Rightarrow> auth \<Rightarrow> onboarding_view result \<times> auth" where
  "onboarding_status now bootstrap_username bootstrap_disabled s =
     (case load_onboarding_doc s of Inl e \<Rightarrow> (Inl e, s)
      | Inr ob \<Rightarrow> (case list_users None s of Inl e \<Rightarrow> (Inl e, s)
        | Inr vs \<Rightarrow> abind (drop_bootstrap_users bootstrap_disabled vs s) (\<lambda>vs' s1.
            let bootstrap = sor (lower (strip (sor bootstrap_username ''admin''))) ''admin'';
                (view, s2) = onboarding_decision now bootstrap ob vs' s1
            in (Inr view, s2))))"

definition complete_onboarding :: "auth_env \<Rightarrow> int \<Rightarrow> int \<Rightarrow> int \<Rightarrow> int \<Rightarrow> string \<Rightarrow> string \<Rightarrow> string \<Rightarrow> string \<Rightarrow> bool \<Rightarrow> auth
    \<Rightarrow> onboarding_view result \<times> auth" where
  "complete_onboarding env now1 now2 now3 now4 salt username password bootstrap_username bootstrap_disabled s =
     (case validate_username username of Inl e \<Rightarrow> (Inl e, s)
      | Inr user_name \<Rightarrow> (case check_password password of Inl e \<Rightarrow> (Inl e, s)
      | Inr passwd \<Rightarrow> abind (onboarding_status now1 bootstrap_username bootstrap_disabled s) (\<lambda>status s1.
          if \<not> ov_pending status then (Inl (ValueError ''onboarding already completed''), s1)
          else abind (if find_user user_name s1 = None
                      then create_user env now2 salt user_name passwd ''superadmin'' True None PNone s1
                      else update_user env salt user_name \<lparr>uc_role = Some ''superadmin'', uc_enabled = Some True,
                             uc_password = Some passwd, uc_tenant_id = None, uc_geo = None\<rparr> s1) (\<lambda>_ s2.
            case load_onboarding_doc s2 of Inl e \<Rightarrow> (Inl e, s2)
            | Inr ob \<Rightarrow> onboarding_status now4 bootstrap_username bootstrap_disabled
                (write_onboarding (ob\<lparr>ob_completed := True, ob_completed_at := now3, ob_completed_by := user_name\<rparr>) s2)))))"

end
