(* ===== verification/RequestGuard.thy ===== *)
theory RequestGuard
  imports PyValue
begin

text \<open>
  The two limits of \<open>beagle-host/services/request_handler_mixin.py\<close>: the guard that slows down password
  guessing, and the rate limit of the API. Both are tables in memory under one lock, keyed by client address
  (the guard also by user name). Clock readings are rationals and arguments of the calls.
\<close>

record guard_config =
  gc_backoff_max :: int
  gc_lockout_threshold :: int
  gc_lockout_seconds :: int
  gc_rate_window :: int
  gc_rate_max :: int

record guard_entry =
  ge_failures :: rat
  ge_locked_until :: rat
  ge_next_allowed :: rat

type_synonym guard = "guard_entry table"

definition login_guard_key :: "string \<Rightarrow> string \<Rightarrow> string" where
  "login_guard_key client_addr username = client_addr @ ''::'' @ lower (strip username)"

text \<open>Whether a login may be tried now, and the seconds to wait if not.\<close>

definition check_login_guard :: "rat \<Rightarrow> string \<Rightarrow> guard \<Rightarrow> bool \<times> int" where
  "check_login_guard now key g = (case map_of g key of None \<Rightarrow> (True, 0)
     | Some e \<Rightarrow> if now < ge_locked_until e then (False, trunc (max 1 (ge_locked_until e - now)))
         else if now < ge_next_allowed e then (False, trunc (max 1 (ge_next_allowed e - now)))
         else (True, 0))"

definition record_login_success :: "string \<Rightarrow> guard \<Rightarrow> guard" where
  "record_login_success key g = ddel key g"

definition failure_count :: "string \<Rightarrow> guard \<Rightarrow> int" where
  "failure_count key g = (case map_of g key of None \<Rightarrow> 0 | Some e \<Rightarrow> trunc (ge_failures e))"

definition record_login_failure :: "guard_config \<Rightarrow> rat \<Rightarrow> string \<Rightarrow> guard \<Rightarrow> guard" where
  "record_login_failure cfg now key g =
     (let state = (case map_of g key of Some e \<Rightarrow> e | None \<Rightarrow> \<lparr>ge_failures = 0, ge_locked_until = 0, ge_next_allowed = 0\<rparr>);
          failures = trunc (ge_failures state) + 1;
          backoff_seconds = min (2 ^ nat (max 0 (failures - 1))) (gc_backoff_max cfg);
          locked = (if max 1 (gc_lockout_threshold cfg) \<le> failures
                    then now + of_int (max 1 (gc_lockout_seconds cfg)) else ge_locked_until state)
      in dset key \<lparr>ge_failures = of_int failures, ge_locked_until = locked, ge_next_allowed = now + of_int backoff_seconds\<rparr> g)"

text \<open>The rate limit: the times of the requests admitted for each client within the window.\<close>

type_synonym rates = "rat list table"

definition rate_limit_key :: "string \<Rightarrow> string" where
  "rate_limit_key client_addr = sor client_addr ''unknown''"

definition rate_window :: "guard_config \<Rightarrow> rat" where
  "rate_window cfg = of_int (max 1 (gc_rate_window cfg))"

definition rate_entries :: "string \<Rightarrow> rates \<Rightarrow> rat list" where
  "rate_entries key r = (case map_of r key of None \<Rightarrow> [] | Some ts \<Rightarrow> ts)"

definition enforce_api_rate_limit :: "guard_config \<Rightarrow> rat \<Rightarrow> string \<Rightarrow> string \<Rightarrow> rates \<Rightarrow> bool \<times> rates" where
  "enforce_api_rate_limit cfg now key path r =
     (if \<not> starts_with path ''/api/'' then (True, r)
      else let entries = filter (\<lambda>ts. now - ts \<le> rate_window cfg) (rate_entries key r) in
        if nat (max 1 (gc_rate_max cfg)) \<le> length entries then (False, dset key entries r)
        else (True, dset key (entries @ [now]) r))"

subsection \<open>The rate limit holds in every window\<close>

record api_request =
  rq_time :: rat
  rq_key :: string
  rq_path :: string

text \<open>The requests of a sequence that are admitted, in order.\<close>

fun admitted :: "guard_config \<Rightarrow> rates \<Rightarrow> api_request list \<Rightarrow> api_request list" where
  "admitted cfg r [] = []"
| "admitted cfg r (q # qs) = (case enforce_api_rate_limit cfg (rq_time q) (rq_key q) (rq_path q) r of
     (ok, r') \<Rightarrow> if ok then q # admitted cfg r' qs else admitted cfg r' qs)"

text \<open>The times in a list of requests that count against a client at a moment.\<close>

definition counted :: "guard_config \<Rightarrow> string \<Rightarrow> rat \<Rightarrow> api_request list \<Rightarrow> rat list" where
  "counted cfg key now qs = map rq_time (filter (\<lambda>q. rq_key q = key \<and> starts_with (rq_path q) ''/api/'' \<and> now - rq_time q \<le> rate_window cfg) qs)"

lemma counted_later:
  assumes "now \<le> later"
  shows "filter (\<lambda>ts. later - ts \<le> rate_window cfg) (counted cfg key now qs) = counted cfg key later qs"
  using assms by (induction qs) (auto simp: counted_def)

lemma counted_append [simp]: "counted cfg key now (ps @ qs) = counted cfg key now ps @ counted cfg key now qs"
  by (simp add: counted_def)

text \<open>
  The table agrees with the requests admitted so far: from some moment on that is not in the future the
  entries of every client are the times that count.
\<close>

definition rates_agree :: "guard_config \<Rightarrow> rat \<Rightarrow> rates \<Rightarrow> api_request list \<Rightarrow> bool" where
  "rates_agree cfg now r past = (\<forall>key. \<exists>t \<le> now. rate_entries key r = counted cfg key t past)"

lemma rate_entries_dset: "rate_entries k (dset k' v r) = (if k = k' then v else rate_entries k r)"
  by (simp add: rate_entries_def)

lemma admit_step:
  assumes agree: "rates_agree cfg now r past" and later: "now \<le> rq_time q"
    and step: "enforce_api_rate_limit cfg (rq_time q) (rq_key q) (rq_path q) r = (ok, r')"
  shows "rates_agree cfg (rq_time q) r' (if ok then past @ [q] else past)"
    and "ok \<Longrightarrow> starts_with (rq_path q) ''/api/'' \<Longrightarrow>
      length (counted cfg (rq_key q) (rq_time q) (past @ [q])) \<le> nat (max 1 (gc_rate_max cfg))"
proof -
  from agree obtain t where t: "t \<le> now" "rate_entries (rq_key q) r = counted cfg (rq_key q) t past" unfolding rates_agree_def by blast
  define es where "es = filter (\<lambda>ts. rq_time q - ts \<le> rate_window cfg) (rate_entries (rq_key q) r)"
  have es: "es = counted cfg (rq_key q) (rq_time q) past"
    unfolding es_def t(2) by (rule counted_later) (use t(1) later in simp)
  have win: "0 \<le> rate_window cfg" by (simp add: rate_window_def)
  have old: "\<exists>t \<le> rq_time q. rate_entries k r = counted cfg k t past" for k
    using agree later unfolding rates_agree_def by (meson order_trans)
  show "rates_agree cfg (rq_time q) r' (if ok then past @ [q] else past)"
  proof (cases "starts_with (rq_path q) ''/api/''")
    case False
    then have "ok" "r' = r" using step by (auto simp: enforce_api_rate_limit_def)
    moreover have "counted cfg k t (past @ [q]) = counted cfg k t past" for k t using False by (simp add: counted_def)
    ultimately show ?thesis using old unfolding rates_agree_def by simp
  next
    case api: True
    show ?thesis
    proof (cases "nat (max 1 (gc_rate_max cfg)) \<le> length es")
      case True
      then have "\<not> ok" "r' = dset (rq_key q) es r"
        using step api by (auto simp: enforce_api_rate_limit_def Let_def es_def [symmetric])
      then show ?thesis using old es unfolding rates_agree_def by (auto simp: rate_entries_dset)
    next
      case False
      then have r: "ok" "r' = dset (rq_key q) (es @ [rq_time q]) r"
        using step api by (auto simp: enforce_api_rate_limit_def Let_def es_def [symmetric])
      have own: "counted cfg (rq_key q) (rq_time q) (past @ [q]) = es @ [rq_time q]"
        using api win by (simp add: es counted_def)
      have "\<exists>t \<le> rq_time q. rate_entries k r' = counted cfg k t (past @ [q])" for k
      proof (cases "k = rq_key q")
        case True
        then show ?thesis using own by (auto simp: r(2) rate_entries_dset)
      next
        case False
        then have "counted cfg k t (past @ [q]) = counted cfg k t past" for t by (auto simp: counted_def)
        then show ?thesis using old [of k] False by (simp add: r(2) rate_entries_dset)
      qed
      then show ?thesis using r(1) unfolding rates_agree_def by simp
    qed
  qed
  assume ok: "ok" and api: "starts_with (rq_path q) ''/api/''"
  then have "length es < nat (max 1 (gc_rate_max cfg))"
    using step by (auto simp: enforce_api_rate_limit_def Let_def es_def [symmetric] split: if_splits)
  then show "length (counted cfg (rq_key q) (rq_time q) (past @ [q])) \<le> nat (max 1 (gc_rate_max cfg))"
    using api win by (simp add: es counted_def)
qed

definition in_order :: "rat \<Rightarrow> api_request list \<Rightarrow> bool" where
  "in_order now qs = (sorted (map rq_time qs) \<and> (\<forall>q \<in> set qs. now \<le> rq_time q))"

lemma in_order_Cons: "in_order now (q # qs) \<longleftrightarrow> now \<le> rq_time q \<and> in_order (rq_time q) qs"
  by (auto simp: in_order_def)

lemma admitted_bound:
  assumes "rates_agree cfg now r past" and "in_order now qs"
    and "admitted cfg r qs = xs @ q # ys" and "starts_with (rq_path q) ''/api/''"
  shows "length (counted cfg (rq_key q) (rq_time q) (past @ xs @ [q])) \<le> nat (max 1 (gc_rate_max cfg))"
  using assms
proof (induction qs arbitrary: now r past xs)
  case Nil
  then show ?case by simp
next
  case (Cons p qs)
  obtain ok r' where step: "enforce_api_rate_limit cfg (rq_time p) (rq_key p) (rq_path p) r = (ok, r')"
    by (cases "enforce_api_rate_limit cfg (rq_time p) (rq_key p) (rq_path p) r")
  have ord: "now \<le> rq_time p" "in_order (rq_time p) qs" using Cons.prems(2) by (auto simp: in_order_Cons)
  note st = admit_step [OF Cons.prems(1) ord(1) step]
  show ?case
  proof (cases ok)
    case False
    then show ?thesis using Cons.IH [of "rq_time p" r' past xs] st(1) ord(2) Cons.prems(3,4) step by simp
  next
    case True
    then have adm: "p # admitted cfg r' qs = xs @ q # ys" using Cons.prems(3) step by simp
    show ?thesis
    proof (cases xs)
      case Nil
      then show ?thesis using adm st(2) True Cons.prems(4) by simp
    next
      case (Cons x xs')
      then have "admitted cfg r' qs = xs' @ q # ys" "x = p" using adm by auto
      then show ?thesis using Cons.IH [of "rq_time p" r' "past @ [p]" xs'] st(1) ord(2) True Cons.prems(4) local.Cons by simp
    qed
  qed
qed

lemma rates_agree_empty: "rates_agree cfg now [] []"
  by (auto simp: rates_agree_def rate_entries_def counted_def)

text \<open>C11: The rate limit holds in every window: at the moment a request to the API is admitted, the requests of
  the same client admitted within the window before it are at most the configured number, this one
  included, for every sequence of requests in the order of the clock.\<close>

theorem rate_limit_every_window:
  assumes "sorted (map rq_time qs)" and "admitted cfg [] qs = xs @ q # ys" and "starts_with (rq_path q) ''/api/''"
  shows "length (filter (\<lambda>p. rq_key p = rq_key q \<and> starts_with (rq_path p) ''/api/'' \<and> rq_time q - rq_time p \<le> rate_window cfg) (xs @ [q]))
    \<le> nat (max 1 (gc_rate_max cfg))"
proof (cases qs)
  case Nil
  then show ?thesis using assms by simp
next
  case (Cons p ps)
  then have "in_order (rq_time p) qs" using assms(1) by (auto simp: in_order_def)
  from admitted_bound [OF rates_agree_empty this assms(2,3)] show ?thesis by (simp add: counted_def)
qed

definition demo_guard :: guard_config where
  "demo_guard = \<lparr>gc_backoff_max = 30, gc_lockout_threshold = 2, gc_lockout_seconds = 300, gc_rate_window = 60, gc_rate_max = 1\<rparr>"

definition demo_request :: "rat \<Rightarrow> api_request" where
  "demo_request t = \<lparr>rq_time = t, rq_key = ''10.0.0.7'', rq_path = ''/api/v1/vms''\<rparr>"

theorem rate_limit_every_window_witness:
  "length (filter (\<lambda>p. rq_key p = ''10.0.0.7'' \<and> starts_with (rq_path p) ''/api/'' \<and> 100 - rq_time p \<le> rate_window demo_guard)
     ([demo_request 1] @ [demo_request 100])) \<le> 1"
proof -
  have "admitted demo_guard [] [demo_request 1, demo_request 30, demo_request 100] = [demo_request 1] @ demo_request 100 # []"
    by (simp add: demo_guard_def demo_request_def enforce_api_rate_limit_def rate_entries_def rate_window_def Let_def)
  moreover have "sorted (map rq_time [demo_request 1, demo_request 30, demo_request 100])" by (simp add: demo_request_def)
  moreover have "starts_with (rq_path (demo_request 100)) ''/api/''" by (simp add: demo_request_def)
  ultimately show ?thesis using rate_limit_every_window by (fastforce simp: demo_request_def demo_guard_def)
qed

subsection \<open>The guard bounds the guesses\<close>

text \<open>
  Login attempts with wrong passwords for one key, each with the time of its check and the time at which
  its failure is recorded; the ones the guard admits.
\<close>

fun guesses :: "guard_config \<Rightarrow> string \<Rightarrow> guard \<Rightarrow> (rat \<times> rat) list \<Rightarrow> (rat \<times> rat) list" where
  "guesses cfg key g [] = []"
| "guesses cfg key g ((c, f) # as) = (if fst (check_login_guard c key g)
     then (c, f) # guesses cfg key (record_login_failure cfg f key g) as
     else guesses cfg key g as)"

definition lockout :: "guard_config \<Rightarrow> rat" where
  "lockout cfg = of_int (max 1 (gc_lockout_seconds cfg))"

definition locked_until :: "string \<Rightarrow> guard \<Rightarrow> rat" where
  "locked_until key g = (case map_of g key of None \<Rightarrow> 0 | Some e \<Rightarrow> ge_locked_until e)"

lemma check_locked: "fst (check_login_guard now key g) \<Longrightarrow> has_key g key \<Longrightarrow> locked_until key g \<le> now"
  by (auto simp: check_login_guard_def locked_until_def has_key_def split: option.splits if_splits)

lemma record_facts:
  "has_key (record_login_failure cfg f key g) key"
  "failure_count key (record_login_failure cfg f key g) = failure_count key g + 1"
  "max 1 (gc_lockout_threshold cfg) \<le> failure_count key g + 1 \<Longrightarrow> locked_until key (record_login_failure cfg f key g) = f + lockout cfg"
  by (auto simp: record_login_failure_def failure_count_def locked_until_def lockout_def Let_def split: option.splits)
     (auto simp: trunc_def)

lemma first_guess_after_lock: "guesses cfg key g as = a # rest \<Longrightarrow> has_key g key \<Longrightarrow> locked_until key g \<le> fst a"
  by (induction as) (auto split: if_splits simp: check_locked)

lemma guess_gap:
  assumes "Suc i < length (guesses cfg key g as)" and "max 1 (gc_lockout_threshold cfg) \<le> failure_count key g + int i + 1"
  shows "snd (guesses cfg key g as ! i) + lockout cfg \<le> fst (guesses cfg key g as ! Suc i)"
  using assms
proof (induction as arbitrary: g i)
  case Nil
  then show ?case by simp
next
  case (Cons a as)
  obtain c f where a: "a = (c, f)" by (cases a)
  let ?g = "record_login_failure cfg f key g"
  show ?case
  proof (cases "fst (check_login_guard c key g)")
    case False
    then show ?thesis using Cons by (simp add: a)
  next
    case True
    show ?thesis
    proof (cases i)
      case 0
      then obtain b rest where b: "guesses cfg key ?g as = b # rest" using Cons.prems(1) True a by (cases "guesses cfg key ?g as") auto
      have "locked_until key ?g \<le> fst b" by (rule first_guess_after_lock [OF b record_facts(1)])
      then show ?thesis using record_facts(3) [of cfg key g f] Cons.prems(2) 0 True a b by simp
    next
      case (Suc j)
      then show ?thesis using Cons.IH [of j ?g] Cons.prems True record_facts(2) [of key cfg f g] by (simp add: a)
    qed
  qed
qed

lemma guesses_in: "a \<in> set (guesses cfg key g as) \<Longrightarrow> a \<in> set as"
proof (induction as arbitrary: g)
  case (Cons b as)
  show ?case
  proof (cases b)
    case (Pair c f)
    show ?thesis
      using Cons.prems Cons.IH [of g] Cons.IH [of "record_login_failure cfg f key g"]
      by (cases "fst (check_login_guard c key g)") (auto simp: Pair)
  qed
qed simp

text \<open>Guessing is slow: an attacker who sends wrong passwords for one user from one address, one after the
  other, gets at most the threshold of tries and then one per lockout time. The try with number \<open>m\<close> after the
  threshold comes no earlier than \<open>m\<close> lockouts after the failure that reached it.\<close>

lemma guesses_bounded:
  assumes "\<forall>(c, f) \<in> set as. c \<le> f" and "n = nat (max 1 (gc_lockout_threshold cfg))" and "n - 1 + m < length (guesses cfg key [] as)"
  shows "snd (guesses cfg key [] as ! (n - 1)) + of_nat m * lockout cfg \<le> snd (guesses cfg key [] as ! (n - 1 + m))
    \<and> (0 < m \<longrightarrow> snd (guesses cfg key [] as ! (n - 1)) + of_nat m * lockout cfg \<le> fst (guesses cfg key [] as ! (n - 1 + m)))"
  using assms(3)
proof (induction m)
  case 0
  then show ?case by simp
next
  case (Suc m)
  let ?gs = "guesses cfg key [] as"
  have n: "int n = max 1 (gc_lockout_threshold cfg)" "1 \<le> n" using assms(2) by auto
  have le: "fst (?gs ! k) \<le> snd (?gs ! k)" if "k < length ?gs" for k
    using assms(1) guesses_in [OF nth_mem [OF that]] by fastforce
  have "max 1 (gc_lockout_threshold cfg) \<le> failure_count key [] + int (n - 1 + m) + 1"
    using n by (simp add: failure_count_def)
  from guess_gap [OF _ this] Suc.prems have gap: "snd (?gs ! (n - 1 + m)) + lockout cfg \<le> fst (?gs ! (n - 1 + Suc m))" by simp
  have ih: "snd (?gs ! (n - 1)) + of_nat m * lockout cfg \<le> snd (?gs ! (n - 1 + m))" using Suc by simp
  have fin: "snd (?gs ! (n - 1)) + of_nat (Suc m) * lockout cfg \<le> fst (?gs ! (n - 1 + Suc m))"
    using gap ih by (simp add: algebra_simps)
  moreover have "fst (?gs ! (n - 1 + Suc m)) \<le> snd (?gs ! (n - 1 + Suc m))" by (rule le) (use Suc.prems in simp)
  ultimately show ?case by (auto intro: order_trans)
qed

end
