(* ===== verification/AuthHttp.thy ===== *)
theory AuthHttp
  imports AuthSession RequestGuard Authz
begin

text \<open>
  The HTTP side of accounts: who a request comes from and the gate (\<open>request_handler_mixin.py\<close>), the
  routes of users and roles (\<open>auth_http_surface.py\<close>) with the dispatch in \<open>control_plane_handler.py\<close>. A
  response is its status, its JSON payload and what it does to the refresh cookie. Audit events are left out;
  the messages of the UTF-8 and JSON decoders are shortened.
\<close>

record http_env =
  he_auth :: auth_env
  he_guard :: guard_config
  he_localhost_noauth :: bool
  he_api_token :: string
  he_bootstrap_username :: string
  he_bootstrap_disabled :: bool
  he_scim_enabled :: bool
  he_public_url :: string

datatype cookie = NoCookie | SetRefresh string | ClearRefresh

record http_response =
  hs_status :: int
  hs_payload :: dict
  hs_cookie :: cookie

definition json_response :: "int \<Rightarrow> dict \<Rightarrow> http_response" where
  "json_response status payload = \<lparr>hs_status = status, hs_payload = payload, hs_cookie = NoCookie\<rparr>"

definition error_response :: "int \<Rightarrow> string \<Rightarrow> http_response" where
  "error_response status message = json_response status [(''ok'', PBool False), (''error'', PStr message)]"

text \<open>A request: the peer, the client address after forwarding, headers, path and the body on the wire.\<close>

record http_request =
  hq_peer :: string
  hq_client :: string
  hq_path :: string
  hq_authorization :: string
  hq_api_token :: string
  hq_cookie_header :: string
  hq_content_length :: string
  hq_user_agent :: string
  hq_body :: string

subsection \<open>Reading a request\<close>

definition read_json_body :: "http_request \<Rightarrow> dict result" where
  "read_json_body rq = rbind (py_int (PStr (sor (hq_content_length rq) ''0''))) (\<lambda>n.
     if n \<le> 0 \<or> 256 * 1024 < n then Inl (ValueError ''invalid content length'')
     else (case utf8_decode (take (nat n) (hq_body rq)) of None \<Rightarrow> Inl (ValueError ''invalid start byte'')
       | Some text \<Rightarrow> (case json_loads text of None \<Rightarrow> Inl (ValueError ''Expecting value'')
           | Some (PDict d) \<Rightarrow> Inr d | Some _ \<Rightarrow> Inl (ValueError ''invalid payload''))))"

definition has_body :: "http_request \<Rightarrow> bool result" where
  "has_body rq = rbind (py_int (PStr (sor (hq_content_length rq) ''0''))) (\<lambda>n. Inr (0 < n))"

definition bearer_of :: "string \<Rightarrow> string" where
  "bearer_of header = (if starts_with header ''Bearer '' then strip (drop 7 header) else [])"

definition extract_bearer_token :: "string \<Rightarrow> string" where
  "extract_bearer_token header = bearer_of (strip header)"

fun cookie_value :: "string list \<Rightarrow> string" where
  "cookie_value [] = []"
| "cookie_value (part # parts) = (let (name, v) = split_first (CHR ''='') (strip part)
     in if strip name = ''beagle_refresh_token'' then strip v else cookie_value parts)"

definition read_refresh_cookie :: "http_request \<Rightarrow> string" where
  "read_refresh_cookie rq = cookie_value (split_char (CHR '';'') (hq_cookie_header rq))"

definition sanitize_identifier :: "py \<Rightarrow> string \<Rightarrow> re \<Rightarrow> string result" where
  "sanitize_identifier raw label pattern = (let text = strip (str_or raw) in
     if text = [] then Inl (ValueError (label @ '' is required''))
     else if \<not> full_match pattern text then Inl (ValueError (''invalid '' @ label))
     else Inr text)"

text \<open>
  \<open>_validate_whitelist\<close>; the keys a caller gives are in the order in which the model looks for them, the
  source looks in the order of a set.
\<close>

definition validate_whitelist :: "dict \<Rightarrow> string list \<Rightarrow> string list \<Rightarrow> unit result" where
  "validate_whitelist payload required allowed =
     (case List.find (\<lambda>k. k \<notin> set required \<union> set allowed) (map fst payload) of
        Some k \<Rightarrow> Inl (ValueError (''unexpected field: '' @ k))
      | None \<Rightarrow> (case List.find (\<lambda>k. k \<notin> set (map fst payload)) required of
          Some k \<Rightarrow> Inl (ValueError (''missing required field: '' @ k)) | None \<Rightarrow> Inr ()))"

subsection \<open>The principal and the gate\<close>

record principal =
  pr_username :: string
  pr_role :: string
  pr_auth_type :: string
  pr_tenant_id :: "string option"

text \<open>\<open>secrets.compare_digest\<close> of texts takes ASCII only.\<close>

definition compare_digest :: "string \<Rightarrow> string \<Rightarrow> bool result" where
  "compare_digest a b = (if ascii a \<and> ascii b then Inr (a = b)
     else Inl (TypeError ''comparing strings with non-ASCII characters is not supported''))"

definition api_token_principal :: principal where
  "api_token_principal = \<lparr>pr_username = ''legacy-api-token'', pr_role = ''superadmin'', pr_auth_type = ''api_token'', pr_tenant_id = None\<rparr>"

definition token_matches :: "http_env \<Rightarrow> string \<Rightarrow> bool result" where
  "token_matches env token = (if token = [] \<or> he_api_token env = [] then Inr False else compare_digest token (he_api_token env))"

text \<open>
  \<open>_auth_principal\<close>. Later calls for the same request return the cached principal; when there is none the
  request has already been refused.
\<close>

definition auth_principal :: "http_env \<Rightarrow> int \<Rightarrow> http_request \<Rightarrow> auth \<Rightarrow> principal option result \<times> auth" where
  "auth_principal env now rq s =
     (if he_localhost_noauth env \<and> hq_peer rq \<in> {''127.0.0.1'', ''::1''}
      then (Inr (Some \<lparr>pr_username = ''localhost'', pr_role = ''superadmin'', pr_auth_type = ''localhost'', pr_tenant_id = None\<rparr>), s)
      else let bearer = bearer_of (hq_authorization rq) in
        abind (if bearer = [] then (Inr None, s) else resolve_access_token (he_auth env) now bearer s) (\<lambda>i s1.
          case i of
            Some ident \<Rightarrow> (Inr (Some \<lparr>pr_username = id_username ident, pr_role = id_role ident, pr_auth_type = ''session'',
                                 pr_tenant_id = id_tenant_id ident\<rparr>), s1)
          | None \<Rightarrow>
              (rbind (token_matches env bearer) (\<lambda>ok. if ok then Inr (Some api_token_principal)
                 else rbind (token_matches env (strip (hq_api_token rq))) (\<lambda>ok2. Inr (if ok2 then Some api_token_principal else None))), s1)))"

text \<open>\<open>_authorize_or_respond\<close> on the state: the permissions of the role come from the document of roles.\<close>

definition authorize :: "principal \<Rightarrow> string \<Rightarrow> string \<Rightarrow> auth \<Rightarrow> bool result \<times> auth" where
  "authorize pr meth path s = (case required_permission meth path of
      None \<Rightarrow> (Inr True, s)
    | Some p \<Rightarrow> let role = sor (lower (strip (sor (pr_role pr) ''viewer''))) ''viewer'' in
        abind (role_permissions role s) (\<lambda>perms s'. (Inr (is_allowed role (Some p) (set perms)), s')))"

definition forbidden :: "principal \<Rightarrow> string \<Rightarrow> string \<Rightarrow> http_response" where
  "forbidden pr meth path = json_response 403 [(''ok'', PBool False), (''error'', PStr ''forbidden''),
     (''permission'', opt_str (required_permission meth path)),
     (''role'', PStr (sor (lower (strip (sor (pr_role pr) ''viewer''))) ''viewer''))]"

subsection \<open>Routes of users and roles\<close>


definition user_json :: "user_view \<Rightarrow> dict" where
  "user_json v = [(''username'', PStr (uv_username v)), (''role'', PStr (uv_role v)), (''enabled'', PBool (uv_enabled v)),
     (''created_at'', PInt (uv_created_at v)), (''tenant_id'', opt_str (uv_tenant_id v)),
     (''session_geo_routing'', PDict (uv_session_geo_routing v)), (''auth_source'', PStr (uv_auth_source v)),
     (''totp_enabled'', PBool (uv_totp_enabled v))]"

definition role_json :: "string \<times> string list \<Rightarrow> dict" where
  "role_json r = [(''name'', PStr (fst r)), (''permissions'', PList (map PStr (snd r)))]"

text \<open>The name a route carries after a prefix.\<close>

definition path_name :: "(char \<Rightarrow> bool) \<Rightarrow> string \<Rightarrow> string \<Rightarrow> string" where
  "path_name allowed prefix path = takeWhile allowed (drop (length prefix) path)"

definition user_of_path :: "string \<Rightarrow> string" where
  "user_of_path path = path_name name_char ''/api/v1/auth/users/'' path"

definition role_of_path :: "string \<Rightarrow> string" where
  "role_of_path path = path_name device_char ''/api/v1/auth/roles/'' path"

definition payload_permissions :: "dict \<Rightarrow> string list" where
  "payload_permissions payload = clean_texts (list_of (pget payload ''permissions''))"

text \<open>The clock and the salt a request may use.\<close>

record draw =
  dr_now :: int
  dr_salt :: string
  dr_random :: string

text \<open>The tenant of a new user: the one asked for, or that of a requester who is bound to one.\<close>

definition requested_tenant :: "dict \<Rightarrow> string option \<Rightarrow> string option option" where
  "requested_tenant payload requester_tenant_id =
     (let t = pget payload ''tenant_id''; asked = (if truthy t then nonblank (py_str t) else None) in
      (case requester_tenant_id of None \<Rightarrow> Some asked
       | Some own \<Rightarrow> if asked \<noteq> None \<and> asked \<noteq> Some own then None else Some (Some own)))"

definition post_user :: "auth_env \<Rightarrow> draw \<Rightarrow> dict \<Rightarrow> string option \<Rightarrow> auth \<Rightarrow> http_response \<times> auth" where
  "post_user env dr payload requester_tenant_id s =
     (case sanitize_identifier (pget payload ''username'') ''username'' (between 1 64 user_char) of
        Inl e \<Rightarrow> (error_response 400 (exn_message e), s)
      | Inr username \<Rightarrow> (case requested_tenant payload requester_tenant_id of
          None \<Rightarrow> (error_response 403 ''cross-tenant user creation denied'', s)
        | Some tenant \<Rightarrow>
            (case create_user env (dr_now dr) (dr_salt dr) username (sget payload ''password'')
                (sor (lower (strip (str_default ''viewer'' (pget payload ''role'')))) ''viewer'')
                (truthy (pget_or payload ''enabled'' (PBool True))) tenant
                (if is_dict (pget payload ''session_geo_routing'') then pget payload ''session_geo_routing'' else PNone) s of
               (Inl e, s') \<Rightarrow> (error_response 400 (exn_message e), s')
             | (Inr v, s') \<Rightarrow> (json_response 201 [(''ok'', PBool True), (''user'', PDict (user_json v))], s'))))"

definition post_role :: "dict \<Rightarrow> auth \<Rightarrow> http_response \<times> auth" where
  "post_role payload s =
     (case sanitize_identifier (pget payload ''name'') ''role'' (between 1 64 role_char) of
        Inl e \<Rightarrow> (error_response 400 (exn_message e), s)
      | Inr name \<Rightarrow> (case save_role (lower name) (payload_permissions payload) s of
          (Inl e, s') \<Rightarrow> (error_response 400 (exn_message e), s')
        | (Inr r, s') \<Rightarrow> (json_response 201 [(''ok'', PBool True), (''role'', PDict (role_json r))], s')))"

definition failure_status :: "exn \<Rightarrow> int" where
  "failure_status e = (if exn_message e = ''user not found'' then 404 else 400)"

definition post_totp_enroll :: "draw \<Rightarrow> string \<Rightarrow> auth \<Rightarrow> http_response \<times> auth" where
  "post_totp_enroll dr username s = (case enroll_totp (dr_random dr) username s of
      (Inl e, s') \<Rightarrow> (error_response (failure_status e) (exn_message e), s')
    | (Inr (account, secret), s') \<Rightarrow> (json_response 201 [(''ok'', PBool True), (''totp'', PDict [(''username'', PStr account),
        (''secret'', PStr secret), (''totp_enabled'', PBool True)])], s'))"

definition post_totp_disable :: "string \<Rightarrow> auth \<Rightarrow> http_response \<times> auth" where
  "post_totp_disable username s = (case disable_totp username s of
      (False, s') \<Rightarrow> (error_response 404 ''user not found'', s')
    | (True, s') \<Rightarrow> (json_response 200 [(''ok'', PBool True), (''username'', PStr username), (''totp_enabled'', PBool False)], s'))"

definition auth_route_post :: "auth_env \<Rightarrow> draw \<Rightarrow> string \<Rightarrow> dict \<Rightarrow> string option \<Rightarrow> auth \<Rightarrow> http_response \<times> auth" where
  "auth_route_post env dr path payload requester_tenant_id s =
     (if path = ''/api/v1/auth/users'' then post_user env dr payload requester_tenant_id s
      else if path = ''/api/v1/auth/roles'' then post_role payload s
      else if auth_user_revoke_sessions_match path then
        (let (n, s') = revoke_user_sessions (user_of_path path) s
         in (json_response 200 [(''ok'', PBool True), (''username'', PStr (user_of_path path)), (''revoked_count'', PInt (int n))], s'))
      else if auth_user_totp_enroll_match path then post_totp_enroll dr (user_of_path path) s
      else if auth_user_totp_disable_match path then post_totp_disable (user_of_path path) s
      else (error_response 404 ''not found'', s))"

definition change_of_payload :: "dict \<Rightarrow> user_change" where
  "change_of_payload payload = \<lparr>
     uc_role = (if pget payload ''role'' \<noteq> PNone then Some (lower (strip (py_str (pget payload ''role'')))) else None),
     uc_enabled = (if has_key payload ''enabled'' then Some (truthy (pget payload ''enabled'')) else None),
     uc_password = (if pget payload ''password'' \<noteq> PNone then Some (sget payload ''password'') else None),
     uc_tenant_id = (if has_key payload ''tenant_id'' then Some (nonblank (py_str (pget payload ''tenant_id''))) else None),
     uc_geo = (if has_key payload ''session_geo_routing'' then Some (pget payload ''session_geo_routing'') else None)\<rparr>"

definition put_user :: "auth_env \<Rightarrow> draw \<Rightarrow> string \<Rightarrow> dict \<Rightarrow> string option \<Rightarrow> auth \<Rightarrow> http_response \<times> auth" where
  "put_user env dr username payload requester_tenant_id s =
     (if requester_tenant_id \<noteq> None \<and> get_user_tenant_id username s \<noteq> requester_tenant_id
      then (error_response 403 ''cross-tenant user mutation denied'', s)
      else (case update_user env (dr_salt dr) username (change_of_payload payload) s of
          (Inl e, s') \<Rightarrow> (error_response (failure_status e) (exn_message e), s')
        | (Inr v, s') \<Rightarrow> (json_response 200 [(''ok'', PBool True), (''user'', PDict (user_json v))], s')))"

definition auth_route_put :: "auth_env \<Rightarrow> draw \<Rightarrow> string \<Rightarrow> dict \<Rightarrow> string option \<Rightarrow> auth \<Rightarrow> http_response \<times> auth" where
  "auth_route_put env dr path payload requester_tenant_id s =
     (if auth_user_match path then put_user env dr (user_of_path path) payload requester_tenant_id s
      else if auth_role_match path then
        (case save_role (lower (strip (role_of_path path))) (payload_permissions payload) s of
          (Inl e, s') \<Rightarrow> (error_response 400 (exn_message e), s')
        | (Inr r, s') \<Rightarrow> (json_response 200 [(''ok'', PBool True), (''role'', PDict (role_json r))], s'))
      else (error_response 404 ''not found'', s))"

definition delete_user_route :: "string \<Rightarrow> string option \<Rightarrow> auth \<Rightarrow> http_response \<times> auth" where
  "delete_user_route username requester_tenant_id s =
     (if requester_tenant_id \<noteq> None \<and> get_user_tenant_id username s \<noteq> requester_tenant_id
      then (error_response 403 ''cross-tenant user deletion denied'', s)
      else (case delete_user username s of
          (False, s') \<Rightarrow> (error_response 404 ''user not found'', s')
        | (True, s') \<Rightarrow> (json_response 200 [(''ok'', PBool True), (''deleted'', PStr username)], s')))"

definition session_jti_match :: "string \<Rightarrow> bool" where
  "session_jti_match path = full_match (seqs [lit ''/api/v1/auth/sessions/'', between 8 128 token_char]) path"

definition auth_route_delete :: "string \<Rightarrow> string option \<Rightarrow> auth \<Rightarrow> http_response result \<times> auth" where
  "auth_route_delete path requester_tenant_id s =
     (if auth_user_match path then (let (r, s') = delete_user_route (user_of_path path) requester_tenant_id s in (Inr r, s'))
      else if auth_role_match path then
        abind (delete_role (role_of_path path) s) (\<lambda>deleted s'.
          (Inr (if deleted then json_response 200 [(''ok'', PBool True), (''deleted'', PStr (role_of_path path))]
                else error_response 404 ''role not found or protected''), s'))
      else if session_jti_match path then
        (let jti = path_name token_char ''/api/v1/auth/sessions/'' path in
         case revoke_session_by_jti jti s of
           (False, s') \<Rightarrow> (Inr (error_response 404 ''session not found or already revoked''), s')
         | (True, s') \<Rightarrow> (Inr (json_response 200 [(''ok'', PBool True), (''revoked_jti'', PStr jti)]), s'))
      else (Inr (error_response 404 ''not found''), s))"

definition listed_user_json :: "user_view \<Rightarrow> py" where
  "listed_user_json v = PDict [(''username'', PStr (uv_username v)), (''role'', PStr (uv_role v)), (''enabled'', PBool (uv_enabled v)),
     (''created_at'', PInt (uv_created_at v)), (''bootstrap_only'', PBool (uv_bootstrap_only v)),
     (''tenant_id'', opt_str (uv_tenant_id v)),
     (''session_geo_routing'', PDict (uv_session_geo_routing v)), (''auth_source'', PStr (uv_auth_source v)),
     (''totp_enabled'', PBool (uv_totp_enabled v))]"

definition listed_role_json :: "role_view \<Rightarrow> py" where
  "listed_role_json r = PDict [(''name'', PStr (rv_name r)), (''permissions'', PList (map PStr (rv_permissions r))),
     (''built_in'', PBool (rv_built_in r)), (''protected'', PBool (rv_built_in r))]"

definition listed_session_json :: "session_listing \<Rightarrow> py" where
  "listed_session_json l = PDict [(''jti'', sl_jti l), (''username'', sl_username l), (''tenant_id'', sl_tenant_id l), (''role'', sl_role l),
     (''created_at'', sl_created_at l), (''expires_at'', sl_expires_at l), (''ip'', sl_ip l)]"

definition listing :: "string \<Rightarrow> py list \<Rightarrow> http_response" where
  "listing key xs = json_response 200 [(''ok'', PBool True), (key, PList xs)]"

text \<open>The query is the dictionary of the first value of each parameter.\<close>

definition auth_route_get :: "auth_env \<Rightarrow> int \<Rightarrow> string \<Rightarrow> string option \<Rightarrow> string table \<Rightarrow> auth \<Rightarrow> http_response result \<times> auth" where
  "auth_route_get env now path requester_tenant_id query s =
     (let filt = (\<lambda>k. case map_of query k of None \<Rightarrow> None | Some v \<Rightarrow> nonblank v) in
      if path = ''/api/v1/auth/users'' then
        (rbind (list_users requester_tenant_id s) (\<lambda>vs. Inr (listing ''users'' (map listed_user_json vs))), s)
      else if path = ''/api/v1/auth/roles'' then
        abind (list_roles s) (\<lambda>rs s'. (Inr (listing ''roles'' (map listed_role_json rs)), s'))
      else if path = ''/api/v1/auth/sessions'' then
        (rbind (auth_active_sessions env now (filt ''username'') (filt ''tenant_id'') s) (\<lambda>ls.
           Inr (listing ''sessions'' (map listed_session_json ls))), s)
      else if path = ''/api/v1/auth/tenants'' then
        (rbind (list_tenants s) (\<lambda>ts. Inr (listing ''tenants'' (map PStr ts))), s)
      else (Inr (error_response 404 ''not found''), s))"

subsection \<open>The dispatch\<close>

text \<open>Requests for the surface pass authentication and the gate; then the body is read and the route runs.\<close>

definition guarded :: "http_env \<Rightarrow> int \<Rightarrow> string \<Rightarrow> http_request \<Rightarrow> auth
    \<Rightarrow> (principal \<Rightarrow> auth \<Rightarrow> http_response result \<times> auth) \<Rightarrow> http_response result \<times> auth" where
  "guarded env now meth rq s route = abind (auth_principal env now rq s) (\<lambda>p s1.
     case p of None \<Rightarrow> (Inr (error_response 401 ''unauthorized''), s1)
     | Some pr \<Rightarrow> abind (authorize pr meth (hq_path rq) s1) (\<lambda>ok s2.
         if \<not> ok then (Inr (forbidden pr meth (hq_path rq)), s2) else route pr s2))"

text \<open>The routes that read the body answer 400 when it is no JSON object.\<close>

definition with_body :: "http_request \<Rightarrow> auth \<Rightarrow> (dict \<Rightarrow> http_response \<times> auth) \<Rightarrow> http_response result \<times> auth" where
  "with_body rq s f = (case read_json_body rq of
      Inl e \<Rightarrow> (Inr (error_response 400 (''invalid payload: '' @ exn_message e)), s)
    | Inr d \<Rightarrow> (let (r, s') = f d in (Inr r, s')))"

definition serve_auth_post :: "http_env \<Rightarrow> draw \<Rightarrow> http_request \<Rightarrow> auth \<Rightarrow> http_response result \<times> auth" where
  "serve_auth_post env dr rq s = guarded env (dr_now dr) ''POST'' rq s (\<lambda>pr s'.
     if auth_user_revoke_sessions_match (hq_path rq)
     then (let (r, s'') = auth_route_post (he_auth env) dr (hq_path rq) [] (pr_tenant_id pr) s' in (Inr r, s''))
     else with_body rq s' (\<lambda>payload. auth_route_post (he_auth env) dr (hq_path rq) payload (pr_tenant_id pr) s'))"

definition serve_auth_put :: "http_env \<Rightarrow> draw \<Rightarrow> http_request \<Rightarrow> auth \<Rightarrow> http_response result \<times> auth" where
  "serve_auth_put env dr rq s = guarded env (dr_now dr) ''PUT'' rq s (\<lambda>pr s'.
     with_body rq s' (\<lambda>payload. auth_route_put (he_auth env) dr (hq_path rq) payload (pr_tenant_id pr) s'))"

definition serve_auth_delete :: "http_env \<Rightarrow> draw \<Rightarrow> http_request \<Rightarrow> auth \<Rightarrow> http_response result \<times> auth" where
  "serve_auth_delete env dr rq s = guarded env (dr_now dr) ''DELETE'' rq s (\<lambda>pr s'.
     auth_route_delete (hq_path rq) (pr_tenant_id pr) s')"

definition serve_auth_get :: "http_env \<Rightarrow> draw \<Rightarrow> string table \<Rightarrow> http_request \<Rightarrow> auth \<Rightarrow> http_response result \<times> auth" where
  "serve_auth_get env dr query rq s = guarded env (dr_now dr) ''GET'' rq s (\<lambda>pr s'.
     auth_route_get (he_auth env) (dr_now dr) (hq_path rq) (pr_tenant_id pr) query s')"

end
