(* ===== verification/AuthEntry.thy ===== *)
theory AuthEntry
  imports AuthHttp
begin

text \<open>
  The entry points that need no session: who am I, login with the guard against guessing, refresh, logout and
  onboarding (\<open>auth_session_http_surface.py\<close>). The identity providers (OIDC, SAML) are not modelled. An error
  that a handler does not catch is an \<open>Inl\<close>; audit events are left out.
\<close>

subsection \<open>Payloads\<close>

definition grant_json :: "bool \<Rightarrow> session_grant \<Rightarrow> dict" where
  "grant_json with_tenant g = [(''ok'', PBool True), (''access_token'', PStr (sg_access_token g)),
     (''refresh_token'', PStr (sg_refresh_token g)), (''token_type'', PStr ''Bearer''), (''expires_in'', PInt (sg_expires_in g)),
     (''user'', PDict ([(''username'', PStr (sg_username g)), (''role'', PStr (sg_role g))]
        @ (if with_tenant then [(''tenant_id'', opt_str (sg_tenant_id g))] else [])
        @ [(''totp_enabled'', PBool (sg_totp_enabled g))]))]"

definition granted_response :: "bool \<Rightarrow> session_grant \<Rightarrow> http_response" where
  "granted_response with_tenant g = (json_response 200 (grant_json with_tenant g))\<lparr>hs_cookie := SetRefresh (sg_refresh_token g)\<rparr>"

definition invalid_payload :: "exn \<Rightarrow> http_response" where
  "invalid_payload e = error_response 400 (''invalid payload: '' @ exn_message e)"

text \<open>The body with the fields allowed and the user name it has.\<close>

definition credentials_body :: "string list \<Rightarrow> string list \<Rightarrow> http_request \<Rightarrow> (string \<times> dict) result" where
  "credentials_body required allowed rq = rbind (read_json_body rq) (\<lambda>payload.
     rbind (validate_whitelist payload required allowed) (\<lambda>_.
       rbind (sanitize_identifier (pget payload ''username'') ''username'' (between 1 64 user_char)) (\<lambda>username.
         Inr (username, payload))))"

text \<open>The body of refresh and logout is optional; the outer error is that of the length header.\<close>

definition optional_body :: "http_request \<Rightarrow> dict result result" where
  "optional_body rq = rbind (has_body rq) (\<lambda>b. Inr (if \<not> b then Inr []
     else rbind (read_json_body rq) (\<lambda>payload. rbind (validate_whitelist payload [] [''refresh_token'']) (\<lambda>_. Inr payload))))"

subsection \<open>Login\<close>

text \<open>What a login draws from the outside: clock readings, the answers of the LDAP server, the new tokens.\<close>

record login_draw =
  ld_checked :: rat
  ld_recorded :: rat
  ld_ldap :: "(nat \<Rightarrow> string \<Rightarrow> string \<Rightarrow> py) option"
  ld_now_user :: int
  ld_now_totp :: int
  ld_now :: int
  ld_access_token :: string
  ld_refresh_token :: string
  ld_session_id :: string

definition login_call :: "login_draw \<Rightarrow> http_request \<Rightarrow> string \<Rightarrow> dict \<Rightarrow> login_args" where
  "login_call ld rq username payload = \<lparr>la_username = username, la_password = sget payload ''password'',
     la_totp_code = sget payload ''totp_code'', la_remote_addr = hq_client rq, la_user_agent = take 256 (hq_user_agent rq),
     la_ldap = ld_ldap ld, la_now_user = ld_now_user ld, la_now_totp = ld_now_totp ld, la_now = ld_now ld,
     la_access_token = ld_access_token ld, la_refresh_token = ld_refresh_token ld, la_session_id = ld_session_id ld\<rparr>"

definition blocked_response :: "int \<Rightarrow> http_response" where
  "blocked_response wait = json_response 429 [(''ok'', PBool False), (''error'', PStr ''login temporarily blocked''),
     (''code'', PStr ''rate_limited''), (''retry_after_seconds'', PInt (max 1 wait))]"

text \<open>The answer to a login the guard let through, and what it records.\<close>

definition login_outcome :: "http_env \<Rightarrow> login_draw \<Rightarrow> string \<Rightarrow> session_grant option result \<Rightarrow> guard \<Rightarrow> http_response result \<times> guard" where
  "login_outcome env ld key r g = (case r of
      Inl (PermissionError m) \<Rightarrow>
        (Inr (json_response 401 [(''ok'', PBool False), (''error'', PStr m), (''code'', PStr ''invalid_totp'')]),
         record_login_failure (he_guard env) (ld_recorded ld) key g)
    | Inl e \<Rightarrow> (Inl e, g)
    | Inr None \<Rightarrow> (Inr (error_response 401 ''invalid credentials''), record_login_failure (he_guard env) (ld_recorded ld) key g)
    | Inr (Some grant) \<Rightarrow> (Inr (granted_response True grant), record_login_success key g))"

definition handle_login :: "http_env \<Rightarrow> login_draw \<Rightarrow> http_request \<Rightarrow> guard \<Rightarrow> auth \<Rightarrow> http_response result \<times> guard \<times> auth" where
  "handle_login env ld rq g s = (case credentials_body [''username'', ''password''] [''totp_code''] rq of
      Inl e \<Rightarrow> (Inr (invalid_payload e), g, s)
    | Inr (username, payload) \<Rightarrow>
       if sget payload ''password'' = [] then (Inr (error_response 400 ''username and password are required''), g, s)
       else let key = login_guard_key (hq_client rq) username;
                (ok, wait) = check_login_guard (ld_checked ld) key g in
         if \<not> ok then (Inr (blocked_response wait), g, s)
         else let (r, s') = login (he_auth env) (login_call ld rq username payload) s;
                  (resp, g') = login_outcome env ld key r g
              in (resp, g', s'))"

subsection \<open>The others\<close>

definition handle_refresh :: "http_env \<Rightarrow> int \<Rightarrow> string \<Rightarrow> http_request \<Rightarrow> auth \<Rightarrow> http_response result \<times> auth" where
  "handle_refresh env now new_access rq s = (case optional_body rq of
      Inl e \<Rightarrow> (Inl e, s)
    | Inr (Inl e) \<Rightarrow> (Inr (invalid_payload e), s)
    | Inr (Inr payload) \<Rightarrow>
       let token = strip (py_str (por (pget payload ''refresh_token'') (PStr (read_refresh_cookie rq)))) in
       if token = [] then (Inr (error_response 400 ''refresh token missing''), s)
       else abind (refresh (he_auth env) now new_access token s) (\<lambda>r s'. (case r of
           None \<Rightarrow> (Inr ((error_response 401 ''invalid refresh token'')\<lparr>hs_cookie := ClearRefresh\<rparr>), s')
         | Some grant \<Rightarrow> (Inr (granted_response False grant), s'))))"

definition handle_logout :: "http_request \<Rightarrow> auth \<Rightarrow> http_response result \<times> auth" where
  "handle_logout rq s = (case optional_body rq of
      Inl e \<Rightarrow> (Inl e, s)
    | Inr (Inl e) \<Rightarrow> (Inr (invalid_payload e), s)
    | Inr (Inr payload) \<Rightarrow>
       let token = sor (stget payload ''refresh_token'') (read_refresh_cookie rq);
           (done, s') = revoke (extract_bearer_token (hq_authorization rq)) token s
       in (Inr ((json_response 200 [(''ok'', PBool True), (''revoked'', PBool done)])\<lparr>hs_cookie := ClearRefresh\<rparr>), s'))"

definition handle_me :: "http_env \<Rightarrow> int \<Rightarrow> http_request \<Rightarrow> auth \<Rightarrow> http_response result \<times> auth" where
  "handle_me env now rq s = abind (auth_principal env now rq s) (\<lambda>p s1. (case p of
      None \<Rightarrow> (Inr (error_response 401 ''unauthorized''), s1)
    | Some pr \<Rightarrow> let role = sor (pr_role pr) ''viewer'' in
        abind (role_permissions role s1) (\<lambda>perms s2.
          (Inr (json_response 200 [(''ok'', PBool True), (''server_url'', PStr (he_public_url env)),
             (''scim_enabled'', PBool (he_scim_enabled env)), (''scim_base_url'', PStr (he_public_url env)),
             (''user'', PDict [(''username'', PStr (pr_username pr)), (''role'', PStr role),
                (''auth_type'', PStr (sor (pr_auth_type pr) ''session'')), (''tenant_id'', opt_str (pr_tenant_id pr)),
                (''permissions'', PList (map PStr (sorted_set perms)))])]), s2))))"

definition handle_onboarding_status :: "http_env \<Rightarrow> int \<Rightarrow> auth \<Rightarrow> http_response result \<times> auth" where
  "handle_onboarding_status env now s =
     abind (onboarding_status now (he_bootstrap_username env) (he_bootstrap_disabled env) s) (\<lambda>v s'.
       (Inr (json_response 200 [(''ok'', PBool True), (''onboarding'',
          PDict [(''pending'', PBool (ov_pending v)), (''completed'', PBool (\<not> ov_pending v))])]), s'))"

record onboard_draw =
  od_now1 :: int
  od_now2 :: int
  od_now3 :: int
  od_now4 :: int
  od_salt :: string

definition onboarding_json :: "onboarding_view \<Rightarrow> dict" where
  "onboarding_json v = [(''pending'', PBool (ov_pending v)), (''completed'', PBool (\<not> ov_pending v)),
     (''completed_at'', PInt (ov_completed_at v)), (''completed_by'', PStr (ov_completed_by v)), (''user_count'', PInt (int (ov_user_count v)))]"

definition handle_onboarding_complete :: "http_env \<Rightarrow> onboard_draw \<Rightarrow> http_request \<Rightarrow> auth \<Rightarrow> http_response result \<times> auth" where
  "handle_onboarding_complete env od rq s =
     (case credentials_body [''username'', ''password'', ''password_confirm''] [] rq of
        Inl e \<Rightarrow> (Inr (invalid_payload e), s)
      | Inr (username, payload) \<Rightarrow>
          if sget payload ''password'' = [] then (Inr (error_response 400 ''username and password are required''), s)
          else if sget payload ''password'' \<noteq> sget payload ''password_confirm''
          then (Inr (error_response 400 ''password confirmation mismatch''), s)
          else (case complete_onboarding (he_auth env) (od_now1 od) (od_now2 od) (od_now3 od) (od_now4 od) (od_salt od) username
                  (sget payload ''password'') (he_bootstrap_username env) (he_bootstrap_disabled env) s of
              (Inl e, s') \<Rightarrow> (Inr (error_response (if exn_message e = ''onboarding already completed'' then 409 else 400) (exn_message e)), s')
            | (Inr v, s') \<Rightarrow> (Inr (json_response 200 [(''ok'', PBool True), (''onboarding'', PDict (onboarding_json v))]), s')))"

end
