(* ===== verification/AuthFrame.thy ===== *)
theory AuthFrame
  imports AuthSession
begin

text \<open>
  What each operation of the accounts and sessions leaves alone, and the shape of the session list: every
  entry the service writes is the image of a typed session, and each operation acts on the typed ones.
\<close>

named_theorems frame_simps "documents an operation does not touch"

subsection \<open>Documents left alone\<close>

lemma snd_abind: "snd (abind p f) = (case fst p of Inl e \<Rightarrow> snd p | Inr x \<Rightarrow> snd (f x (snd p)))"
  by (cases p) (auto simp: abind_def split: sum.splits)

lemma fst_abind: "fst (abind p f) = (case fst p of Inl e \<Rightarrow> Inl e | Inr x \<Rightarrow> fst (f x (snd p)))"
  by (cases p) (auto simp: abind_def split: sum.splits)

lemma abind_Inr: "abind p f = (Inr y, s') \<longleftrightarrow> (\<exists>x s1. p = (Inr x, s1) \<and> f x s1 = (Inr y, s'))"
  by (cases p) (auto simp: abind_def split: sum.splits)

lemma write_users_frame [simp]:
  "au_roles (write_users xs s) = au_roles s" "au_sessions (write_users xs s) = au_sessions s"
  "au_onboarding (write_users xs s) = au_onboarding s"
  by (simp_all add: write_users_def)

lemma write_sessions_frame [simp]:
  "au_roles (write_sessions xs s) = au_roles s" "au_users (write_sessions xs s) = au_users s"
  "au_onboarding (write_sessions xs s) = au_onboarding s"
  by (simp_all add: write_sessions_def)

lemma write_onboarding_frame [simp]:
  "au_roles (write_onboarding ob s) = au_roles s" "au_users (write_onboarding ob s) = au_users s"
  "au_sessions (write_onboarding ob s) = au_sessions s"
  by (simp_all add: write_onboarding_def)

lemma load_write [simp]: "load_list_doc k (with_entries k xs doc) = dset k (PList xs) doc"
  by (simp add: load_list_doc_def with_entries_def)

lemma entries_dset [simp]: "entries k (dset k (PList xs) doc) = xs"
  by (simp add: entries_def)

lemma user_list_write [simp]: "user_list (write_users xs s) = xs"
  by (simp add: user_list_def write_users_def load_users_doc_def)

lemma session_list_write [simp]: "session_list (write_sessions xs s) = xs"
  by (simp add: session_list_def write_sessions_def load_sessions_doc_def)

lemma session_list_cong: "au_sessions s = au_sessions t \<Longrightarrow> session_list s = session_list t"
  by (simp add: session_list_def load_sessions_doc_def)

lemma user_list_cong: "au_users s = au_users t \<Longrightarrow> user_list s = user_list t"
  by (simp add: user_list_def load_users_doc_def)

lemma load_roles_frame [frame_simps]:
  "au_users (snd (load_roles_doc s)) = au_users s" "au_sessions (snd (load_roles_doc s)) = au_sessions s"
  "au_onboarding (snd (load_roles_doc s)) = au_onboarding s"
  by (auto simp: load_roles_doc_def Let_def split: option.splits py.splits sum.splits)

lemma list_roles_frame [frame_simps]:
  "au_users (snd (list_roles s)) = au_users s" "au_sessions (snd (list_roles s)) = au_sessions s"
  "au_onboarding (snd (list_roles s)) = au_onboarding s"
  by (auto simp: list_roles_def snd_abind frame_simps split: sum.splits)

lemma role_exists_frame [frame_simps]:
  "au_users (snd (role_exists r s)) = au_users s" "au_sessions (snd (role_exists r s)) = au_sessions s"
  "au_onboarding (snd (role_exists r s)) = au_onboarding s"
  by (auto simp: role_exists_def snd_abind Let_def frame_simps split: sum.splits)

lemma role_permissions_frame [frame_simps]:
  "au_users (snd (role_permissions r s)) = au_users s" "au_sessions (snd (role_permissions r s)) = au_sessions s"
  "au_onboarding (snd (role_permissions r s)) = au_onboarding s"
  by (auto simp: role_permissions_def snd_abind Let_def frame_simps split: sum.splits)

lemma save_role_frame [frame_simps]:
  "au_users (snd (save_role n p s)) = au_users s" "au_sessions (snd (save_role n p s)) = au_sessions s"
  "au_onboarding (snd (save_role n p s)) = au_onboarding s"
  by (auto simp: save_role_def snd_abind Let_def frame_simps split: sum.splits)

lemma delete_role_frame [frame_simps]:
  "au_sessions (snd (delete_role n s)) = au_sessions s" "au_onboarding (snd (delete_role n s)) = au_onboarding s"
  by (auto simp: delete_role_def snd_abind Let_def frame_simps split: sum.splits)

lemma checked_role_frame [frame_simps]:
  "au_users (snd (checked_role r s)) = au_users s" "au_sessions (snd (checked_role r s)) = au_sessions s"
  "au_onboarding (snd (checked_role r s)) = au_onboarding s"
  by (auto simp: checked_role_def snd_abind frame_simps split: sum.splits)

lemma change_role_frame [frame_simps]:
  "au_users (snd (change_role r d s)) = au_users s" "au_sessions (snd (change_role r d s)) = au_sessions s"
  "au_onboarding (snd (change_role r d s)) = au_onboarding s"
  by (auto simp: change_role_def snd_abind frame_simps split: sum.splits option.splits)

lemma bootstrap_frame [frame_simps]:
  "au_sessions (snd (ensure_bootstrap_admin env n sa u p s)) = au_sessions s"
  "au_onboarding (snd (ensure_bootstrap_admin env n sa u p s)) = au_onboarding s"
  by (auto simp: ensure_bootstrap_admin_def snd_abind Let_def frame_simps split: sum.splits)

lemma create_user_frame [frame_simps]:
  "au_sessions (snd (create_user env n sa u p r b t g s)) = au_sessions s"
  "au_onboarding (snd (create_user env n sa u p r b t g s)) = au_onboarding s"
  by (auto simp: create_user_def snd_abind Let_def frame_simps split: sum.splits)

lemma update_user_frame [frame_simps]:
  "au_sessions (snd (update_user env sa u ch s)) = au_sessions s"
  "au_onboarding (snd (update_user env sa u ch s)) = au_onboarding s"
  by (auto simp: update_user_def snd_abind Let_def frame_simps split: sum.splits option.splits)

lemma delete_user_frame [frame_simps]:
  "au_roles (snd (delete_user u s)) = au_roles s"
  "au_sessions (snd (delete_user u s)) = au_sessions s" "au_onboarding (snd (delete_user u s)) = au_onboarding s"
  by (simp_all add: delete_user_def Let_def)

lemma persist_frame [simp]:
  "au_roles (persist_user_record d s) = au_roles s" "au_sessions (persist_user_record d s) = au_sessions s"
  "au_onboarding (persist_user_record d s) = au_onboarding s"
  by (simp_all add: persist_user_record_def Let_def)

lemma totp_ops_frame [frame_simps]:
  "au_roles (snd (enroll_totp b u s)) = au_roles s"
  "au_sessions (snd (enroll_totp b u s)) = au_sessions s" "au_onboarding (snd (enroll_totp b u s)) = au_onboarding s"
  "au_roles (snd (disable_totp u s)) = au_roles s"
  "au_sessions (snd (disable_totp u s)) = au_sessions s" "au_onboarding (snd (disable_totp u s)) = au_onboarding s"
  by (auto simp: enroll_totp_def disable_totp_def Let_def split: option.splits)

lemma provision_frame [frame_simps]:
  "au_roles (snd (provision_ldap_shadow_user l n u p d s)) = au_roles s"
  "au_sessions (snd (provision_ldap_shadow_user l n u p d s)) = au_sessions s"
  "au_onboarding (snd (provision_ldap_shadow_user l n u p d s)) = au_onboarding s"
  by (auto simp: provision_ldap_shadow_user_def Let_def split: option.splits py.splits)

lemma login_user_frame [frame_simps]:
  "au_roles (snd (login_user a s)) = au_roles s" "au_sessions (snd (login_user a s)) = au_sessions s"
  "au_onboarding (snd (login_user a s)) = au_onboarding s"
  by (auto simp: login_user_def frame_simps split: option.splits)

lemma password_step_frame [frame_simps]:
  "au_roles (snd (password_step env a d s)) = au_roles s" "au_sessions (snd (password_step env a d s)) = au_sessions s"
  "au_onboarding (snd (password_step env a d s)) = au_onboarding s"
  by (auto simp: password_step_def case_prod_unfold Let_def frame_simps)

lemma drop_bootstrap_frame [frame_simps]:
  "au_roles (snd (drop_bootstrap_users b vs s)) = au_roles s"
  "au_sessions (snd (drop_bootstrap_users b vs s)) = au_sessions s"
  "au_onboarding (snd (drop_bootstrap_users b vs s)) = au_onboarding s"
  by (auto simp: drop_bootstrap_users_def Let_def)

lemma decision_frame [frame_simps]:
  "au_roles (snd (onboarding_decision n b ob vs s)) = au_roles s" "au_users (snd (onboarding_decision n b ob vs s)) = au_users s"
  "au_sessions (snd (onboarding_decision n b ob vs s)) = au_sessions s"
  by (simp_all add: onboarding_decision_def Let_def)

lemma onboarding_status_frame [frame_simps]:
  "au_roles (snd (onboarding_status n b d s)) = au_roles s" "au_sessions (snd (onboarding_status n b d s)) = au_sessions s"
  by (auto simp: onboarding_status_def snd_abind Let_def case_prod_unfold frame_simps split: sum.splits)

lemma complete_onboarding_frame [frame_simps]:
  "au_sessions (snd (complete_onboarding env n1 n2 n3 n4 sa u p b d s)) = au_sessions s"
  by (auto simp: complete_onboarding_def snd_abind Let_def frame_simps split: sum.splits)

lemma session_ops_frame [frame_simps]:
  "au_users (snd (issue_session env ia s)) = au_users s" "au_roles (snd (issue_session env ia s)) = au_roles s"
  "au_users (snd (refresh env n t r s)) = au_users s" "au_roles (snd (refresh env n t r s)) = au_roles s"
  "au_users (snd (resolve_access_token env n t s)) = au_users s" "au_roles (snd (resolve_access_token env n t s)) = au_roles s"
  "au_users (snd (revoke t r s)) = au_users s" "au_roles (snd (revoke t r s)) = au_roles s"
  "au_users (snd (revoke_user_sessions u s)) = au_users s" "au_roles (snd (revoke_user_sessions u s)) = au_roles s"
  "au_users (snd (revoke_session_by_jti t s)) = au_users s" "au_roles (snd (revoke_session_by_jti t s)) = au_roles s"
  by (auto simp: issue_session_def refresh_def resolve_access_token_def revoke_def revoke_user_sessions_def
      revoke_session_by_jti_def Let_def split: sum.splits option.splits prod.splits)

lemma login_frame [frame_simps]: "au_roles (snd (login env a s)) = au_roles s"
proof -
  obtain u s1 where lu: "login_user a s = (u, s1)" by (cases "login_user a s")
  then have "au_roles s1 = au_roles s" using login_user_frame(1) [of a s] by simp
  then show ?thesis
    by (auto simp: login_def lu snd_abind frame_simps split: option.splits sum.splits)
qed

end
