(* ===== verification/AuthShape.thy ===== *)
theory AuthShape
  imports AuthFrame
begin

text \<open>
  The typed view of the session list. A session is what it was issued with, the time it was last used,
  its current access token and whether it is revoked; the entry in the file is a function of these.
\<close>

record session =
  ss_args :: issue_args
  ss_last_seen :: int
  ss_access :: string
  ss_revoked :: bool

definition session_dict :: "auth_env \<Rightarrow> session \<Rightarrow> dict" where
  "session_dict env x = (let a = ss_args x in [
     (''id'', PStr (ia_session_id a)),
     (''username'', PStr (ia_username a)),
     (''role'', PStr (ia_role a)),
     (''tenant_id'', opt_str (ia_tenant_id a)),
     (''access_token'', PStr (ss_access x)),
     (''refresh_token'', PStr (ia_refresh_token a)),
     (''created_at'', PInt (ia_now a)),
     (''last_seen_at'', PInt (ss_last_seen x)),
     (''access_expires_at'', PInt (ss_last_seen x + ae_access_ttl env)),
     (''refresh_expires_at'', PInt (ia_now a + ae_refresh_ttl env)),
     (''absolute_expires_at'', PInt (ia_now a + ae_absolute_timeout env)),
     (''remote_addr'', PStr (ia_remote_addr a)),
     (''user_agent'', PStr (ia_user_agent a)),
     (''revoked'', PBool (ss_revoked x))])"

definition encoded :: "auth_env \<Rightarrow> session list \<Rightarrow> py list" where
  "encoded env ss = map (\<lambda>x. PDict (session_dict env x)) ss"

definition fresh_session :: "issue_args \<Rightarrow> session" where
  "fresh_session a = \<lparr>ss_args = a, ss_last_seen = ia_now a, ss_access = ia_access_token a, ss_revoked = False\<rparr>"

definition kill :: "session \<Rightarrow> session" where
  "kill x = x\<lparr>ss_revoked := True\<rparr>"

definition touch :: "int \<Rightarrow> session \<Rightarrow> session" where
  "touch now x = x\<lparr>ss_last_seen := now\<rparr>"

text \<open>The user a session belongs to, in the form in which names are compared.\<close>

definition owner :: "session \<Rightarrow> string" where
  "owner x = lower (strip (ia_username (ss_args x)))"

definition past_limits :: "auth_env \<Rightarrow> int \<Rightarrow> session \<Rightarrow> bool" where
  "past_limits env now x = (let a = ss_args x; seen = (if ss_last_seen x = 0 then ia_now a else ss_last_seen x) in
     (ia_now a + ae_refresh_ttl env \<noteq> 0 \<and> ia_now a + ae_refresh_ttl env < now)
     \<or> (ia_now a + ae_absolute_timeout env \<noteq> 0 \<and> ia_now a + ae_absolute_timeout env < now)
     \<or> ae_idle_timeout env < now - seen)"

definition past_access :: "auth_env \<Rightarrow> int \<Rightarrow> session \<Rightarrow> bool" where
  "past_access env now x = (ss_last_seen x + ae_access_ttl env \<noteq> 0 \<and> ss_last_seen x + ae_access_ttl env < now)"

subsection \<open>Fields of an entry\<close>

lemma session_fields [simp]:
  "pget (session_dict env x) ''revoked'' = PBool (ss_revoked x)"
  "sget (session_dict env x) ''access_token'' = ss_access x"
  "sget (session_dict env x) ''refresh_token'' = ia_refresh_token (ss_args x)"
  "sget (session_dict env x) ''jti'' = []"
  "pget_or (session_dict env x) ''jti'' e = e"
  "pget_or (session_dict env x) ''iat'' e = e"
  "pget_or (session_dict env x) ''refresh_exp'' e = e"
  "pget_or (session_dict env x) ''exp'' e = e"
  "pget (session_dict env x) ''ip'' = PNone"
  "pget (session_dict env x) ''role'' = PStr (ia_role (ss_args x))"
  "stget (session_dict env x) ''username'' = strip (ia_username (ss_args x))"
  "stget (session_dict env x) ''id'' = strip (ia_session_id (ss_args x))"
  by (simp_all add: session_dict_def Let_def stget_def)

lemma session_times [simp]:
  "pget (session_dict env x) ''created_at'' = PInt (ia_now (ss_args x))"
  "pget (session_dict env x) ''last_seen_at'' = PInt (ss_last_seen x)"
  "pget (session_dict env x) ''access_expires_at'' = PInt (ss_last_seen x + ae_access_ttl env)"
  "pget (session_dict env x) ''refresh_expires_at'' = PInt (ia_now (ss_args x) + ae_refresh_ttl env)"
  "pget (session_dict env x) ''absolute_expires_at'' = PInt (ia_now (ss_args x) + ae_absolute_timeout env)"
  by (simp_all add: session_dict_def Let_def)

lemma revoked_dict [simp]: "revoked (session_dict env x) = ss_revoked x"
  by (simp add: revoked_def)

lemma user_dict [simp]: "user_key (session_dict env x) = owner x" "same_user n (session_dict env x) \<longleftrightarrow> owner x = lower n"
  by (simp_all add: user_key_def owner_def same_user_def)

lemma live_dict [simp]:
  "live_with ''access_token'' t (session_dict env x) \<longleftrightarrow> \<not> ss_revoked x \<and> ss_access x = t"
  "live_with ''refresh_token'' t (session_dict env x) \<longleftrightarrow> \<not> ss_revoked x \<and> ia_refresh_token (ss_args x) = t"
  "live_with ''jti'' t (session_dict env x) \<longleftrightarrow> \<not> ss_revoked x \<and> t = []"
  by (auto simp: live_with_def)

lemma session_entry_dict: "session_entry env a = session_dict env (fresh_session a)"
  by (simp add: session_entry_def session_dict_def fresh_session_def)

lemma mark_revoked_dict [simp]: "mark_revoked (session_dict env x) = session_dict env (kill x)"
  by (simp add: mark_revoked_def session_dict_def kill_def Let_def)

lemma touched_dict [simp]:
  "touched env now (session_dict env x) = session_dict env (touch now x)"
  "touched env now (dset ''access_token'' (PStr t) (session_dict env x)) = session_dict env (touch now (x\<lparr>ss_access := t\<rparr>))"
  by (simp_all add: touched_def session_dict_def touch_def Let_def)

lemma expired_dict [simp]:
  "session_expired env now inc (session_dict env x) = Inr (ss_revoked x \<or> (inc \<and> past_access env now x) \<or> past_limits env now x)"
  by (auto simp: session_expired_def past_access_def past_limits_def Let_def)

lemma age_dict [simp]: "age_key (session_dict env x) =
    Inr (if ss_last_seen x = 0 then ia_now (ss_args x) else ss_last_seen x, ia_now (ss_args x))"
  by (simp add: age_key_def)

lemma encoded_simps [simp]:
  "encoded env [] = []" "encoded env (x # xs) = PDict (session_dict env x) # encoded env xs"
  "encoded env (xs @ ys) = encoded env xs @ encoded env ys" "length (encoded env xs) = length xs"
  "i < length xs \<Longrightarrow> encoded env xs ! i = PDict (session_dict env (xs ! i))"
  "i < length xs \<Longrightarrow> (encoded env xs)[i := PDict (session_dict env y)] = encoded env (xs[i := y])"
  by (simp_all add: encoded_def map_update)

lemma sat_dict [simp]: "sat P (PDict d) = P d"
  by (simp add: sat_def)

lemma encoded_find: "find_entry P (encoded env ss) = map_option (session_dict env) (List.find (\<lambda>x. P (session_dict env x)) ss)"
  by (induction ss) (auto simp: find_entry_def)

text \<open>The first entry that satisfies a condition is replaced, or all of them.\<close>

fun replace_first :: "('a \<Rightarrow> bool) \<Rightarrow> ('a \<Rightarrow> 'a) \<Rightarrow> 'a list \<Rightarrow> 'a list" where
  "replace_first P f [] = []"
| "replace_first P f (x # xs) = (if P x then f x # xs else x # replace_first P f xs)"

definition replace_all :: "('a \<Rightarrow> bool) \<Rightarrow> ('a \<Rightarrow> 'a) \<Rightarrow> 'a list \<Rightarrow> 'a list" where
  "replace_all P f xs = map (\<lambda>x. if P x then f x else x) xs"

lemma encoded_update_first:
  assumes "\<And>x. f (session_dict env x) = session_dict env (g x)"
  shows "update_first P f (encoded env ss) = encoded env (replace_first (\<lambda>x. P (session_dict env x)) g ss)"
  by (induction ss) (auto simp: assms)

lemma encoded_update_all:
  assumes "\<And>x. f (session_dict env x) = session_dict env (g x)"
  shows "update_all P f (encoded env ss) = encoded env (replace_all (\<lambda>x. P (session_dict env x)) g ss)"
  by (induction ss) (auto simp: assms update_all_def replace_all_def encoded_def)

subsection \<open>How sessions evolve\<close>

text \<open>What operations may do to a session: use it, give it an access token of \<open>T\<close> or revoke it.\<close>

definition evolves :: "string set \<Rightarrow> session \<Rightarrow> session \<Rightarrow> bool" where
  "evolves T x y = (ss_args y = ss_args x \<and> (ss_revoked x \<longrightarrow> y = x) \<and> (ss_access y = ss_access x \<or> ss_access y \<in> T))"

lemma evolves_refl [simp, intro]: "evolves T x x"
  by (simp add: evolves_def)

lemma evolves_trans: "evolves T x y \<Longrightarrow> evolves T y z \<Longrightarrow> evolves T x z"
  by (auto simp: evolves_def)

lemma evolves_kill [simp, intro]: "evolves T x (kill x)"
  by (simp add: evolves_def kill_def)

lemma evolves_owner: "evolves T x y \<Longrightarrow> owner y = owner x"
  by (simp add: evolves_def owner_def)

abbreviation all_evolve :: "string set \<Rightarrow> session list \<Rightarrow> session list \<Rightarrow> bool" where
  "all_evolve T \<equiv> list_all2 (evolves T)"

lemma all_evolve_refl [simp, intro]: "all_evolve T xs xs"
  by (simp add: list_all2_refl)

lemma all_evolve_trans: "all_evolve T xs ys \<Longrightarrow> all_evolve T ys zs \<Longrightarrow> all_evolve T xs zs"
  by (rule list_all2_trans [OF evolves_trans])

lemma all_evolve_args: "all_evolve T xs ys \<Longrightarrow> map ss_args ys = map ss_args xs"
  by (induction rule: list_all2_induct) (auto simp: evolves_def)

lemma replace_first_evolves: "(\<And>x. P x \<Longrightarrow> evolves T x (g x)) \<Longrightarrow> all_evolve T xs (replace_first P g xs)"
  by (induction xs) (auto simp: list_all2_refl)

lemma replace_all_evolves: "(\<And>x. P x \<Longrightarrow> evolves T x (g x)) \<Longrightarrow> all_evolve T xs (replace_all P g xs)"
  by (induction xs) (auto simp: replace_all_def)

lemma evolves_touch: "\<not> ss_revoked x \<Longrightarrow> evolves T x (touch now x)" "\<not> ss_revoked x \<Longrightarrow> t \<in> T \<Longrightarrow> evolves T x (touch now (x\<lparr>ss_access := t\<rparr>))"
  by (simp_all add: evolves_def touch_def)

text \<open>The live sessions of a user.\<close>

definition live_of :: "string \<Rightarrow> session list \<Rightarrow> session list" where
  "live_of u ss = filter (\<lambda>x. \<not> ss_revoked x \<and> owner x = u) ss"

lemma live_of_evolve: "all_evolve T xs ys \<Longrightarrow> length (live_of u ys) \<le> length (live_of u xs)"
proof (induction rule: list_all2_induct)
  case Nil
  show ?case by (simp add: live_of_def)
next
  case (Cons x xs y ys)
  then show ?case using evolves_owner [of T x y] by (auto simp: live_of_def evolves_def)
qed

lemma live_of_append [simp]: "live_of u (xs @ ys) = live_of u xs @ live_of u ys"
  by (simp add: live_of_def)

subsection \<open>The session limit\<close>

text \<open>The typed result of the loop of \<open>_enforce_session_limit\<close>.\<close>

definition sweep :: "auth_env \<Rightarrow> int \<Rightarrow> string \<Rightarrow> session list \<Rightarrow> session list" where
  "sweep env now u ss = replace_all (\<lambda>x. owner x = u \<and> (ss_revoked x \<or> past_limits env now x)) kill ss"

fun live_positions :: "string \<Rightarrow> nat \<Rightarrow> session list \<Rightarrow> nat list" where
  "live_positions u i [] = []"
| "live_positions u i (x # xs) = (if owner x = u \<and> \<not> ss_revoked x then i # live_positions u (Suc i) xs else live_positions u (Suc i) xs)"

lemma limit_scan_encoded:
  "limit_scan env now name i (encoded env ss) =
     Inr (encoded env (sweep env now (lower name) ss), live_positions (lower name) i (sweep env now (lower name) ss))"
  by (induction ss arbitrary: i) (auto simp: sweep_def replace_all_def kill_def owner_def)

lemma live_positions_shift: "live_positions u (Suc i) ss = map Suc (live_positions u i ss)"
  by (induction ss arbitrary: i) auto

lemma live_positions_set: "set (live_positions u 0 ss) = {i. i < length ss \<and> owner (ss ! i) = u \<and> \<not> ss_revoked (ss ! i)}"
proof (induction ss)
  case (Cons x xs)
  have "set (live_positions u (Suc 0) xs) = Suc ` {i. i < length xs \<and> owner (xs ! i) = u \<and> \<not> ss_revoked (xs ! i)}"
    by (simp add: live_positions_shift Cons)
  then have "j \<in> set (live_positions u 0 (x # xs)) \<longleftrightarrow>
      j < length (x # xs) \<and> owner ((x # xs) ! j) = u \<and> \<not> ss_revoked ((x # xs) ! j)" for j
    by (cases j) auto
  then show ?case by blast
qed simp

lemma live_positions_distinct: "distinct (live_positions u 0 ss)"
proof (induction ss)
  case (Cons x xs)
  then show ?case by (auto simp: live_positions_shift distinct_map)
qed simp

lemma length_live_positions: "length (live_positions u i ss) = length (live_of u ss)"
  by (induction ss arbitrary: i) (auto simp: live_of_def)

lemma sweep_evolves: "all_evolve T ss (sweep env now u ss)"
  unfolding sweep_def by (rule replace_all_evolves) simp

text \<open>Revoking positions of live sessions of a user takes them out of the live ones one by one.\<close>

lemma kill_at:
  assumes i: "i < length ss" and u: "owner (ss ! i) = u" and l: "\<not> ss_revoked (ss ! i)"
  shows "length (live_of u (ss[i := kill (ss ! i)])) = length (live_of u ss) - 1"
    and "all_evolve T ss (ss[i := kill (ss ! i)])"
proof -
  have s: "ss = take i ss @ ss ! i # drop (Suc i) ss" by (rule id_take_nth_drop [OF i])
  have t: "ss[i := kill (ss ! i)] = take i ss @ kill (ss ! i) # drop (Suc i) ss" by (rule upd_conv_take_nth_drop [OF i])
  have "live_of u ss = live_of u (take i ss) @ ss ! i # live_of u (drop (Suc i) ss)"
    by (subst s) (simp add: live_of_def u l)
  moreover have "live_of u (ss[i := kill (ss ! i)]) = live_of u (take i ss) @ live_of u (drop (Suc i) ss)"
    unfolding t by (simp add: live_of_def kill_def)
  ultimately show "length (live_of u (ss[i := kill (ss ! i)])) = length (live_of u ss) - 1" by simp
  show "all_evolve T ss (ss[i := kill (ss ! i)])"
    using i by (simp add: list_all2_conv_all_nth nth_list_update)
qed

lemma revoke_positions:
  assumes "distinct is" and "\<forall>i \<in> set is. i < length ss \<and> owner (ss ! i) = u \<and> \<not> ss_revoked (ss ! i)"
  shows "\<exists>ss'. foldl revoke_at (encoded env ss) is = encoded env ss' \<and> all_evolve T ss ss'
     \<and> length (live_of u ss') = length (live_of u ss) - length is"
  using assms
proof (induction "is" arbitrary: ss)
  case Nil
  then show ?case by auto
next
  case (Cons i rest)
  let ?ss = "ss[i := kill (ss ! i)]"
  have i: "i < length ss" "owner (ss ! i) = u" "\<not> ss_revoked (ss ! i)" using Cons.prems by auto
  have "\<forall>j \<in> set rest. j < length ?ss \<and> owner (?ss ! j) = u \<and> \<not> ss_revoked (?ss ! j)"
    using Cons.prems by (auto simp: nth_list_update)
  from Cons.IH [OF _ this] Cons.prems obtain ss' where ss': "foldl revoke_at (encoded env ?ss) rest = encoded env ss'"
    "all_evolve T ?ss ss'" "length (live_of u ss') = length (live_of u ?ss) - length rest" by auto
  have "revoke_at (encoded env ss) i = encoded env ?ss" using i by (simp add: revoke_at_def)
  then show ?case
    using ss' kill_at [OF i] by (intro exI [of _ ss']) (auto intro: all_evolve_trans)
qed

lemma enforce_limit_encoded:
  assumes "0 < ae_max_sessions env" and "strip u \<noteq> []"
  shows "\<exists>ss'. enforce_session_limit env now u (encoded env ss) = Inr (encoded env ss') \<and> all_evolve T ss ss'
     \<and> length (live_of (lower (strip u)) ss') < nat (ae_max_sessions env)"
proof -
  define limit where "limit = nat (ae_max_sessions env)"
  define name where "name = lower (strip u)"
  define sw where "sw = sweep env now name ss"
  define act where "act = live_positions name 0 sw"
  have limit: "0 < limit" using assms(1) by (simp add: limit_def)
  have scan: "limit_scan env now (strip u) 0 (encoded env ss) = Inr (encoded env sw, act)"
    by (simp add: limit_scan_encoded sw_def act_def name_def)
  have len: "length act = length (live_of name sw)" by (simp add: act_def length_live_positions)
  have act: "i \<in> set act \<longleftrightarrow> i < length sw \<and> owner (sw ! i) = name \<and> \<not> ss_revoked (sw ! i)" for i
    by (simp add: act_def live_positions_set)
  show ?thesis
  proof (cases "length act < limit")
    case True
    then show ?thesis
      using scan assms limit len sweep_evolves [of T ss env now name]
      by (auto simp: enforce_session_limit_def Let_def limit_def name_def sw_def)
  next
    case False
    define age where "age = (\<lambda>i. let x = sw ! i in (if ss_last_seen x = 0 then ia_now (ss_args x) else ss_last_seen x, ia_now (ss_args x)))"
    have ages: "rmap (\<lambda>i. age_key (dict_of (encoded env sw ! i))) act = Inr (map age act)"
      unfolding rmap_Inr_iff by (auto simp: list_all2_conv_all_nth age_def Let_def act [THEN iffD1, OF nth_mem])
    define order where "order = map snd (sort_key fst (zip (map age act) act))"
    have "mset order = mset (map snd (zip (map age act) act))"
      unfolding order_def by (metis mset_map mset_sort)
    then have order: "mset order = mset act" by (simp only: map_snd_zip length_map)
    then have set_order: "set order = set act" and len_order: "length order = length act"
      by (metis set_mset_mset, metis size_mset)
    have dist: "distinct order" using order live_positions_distinct [of name sw] unfolding act_def
      by (metis mset_eq_imp_distinct_iff)
    define gone where "gone = take (Suc (length act) - limit) order"
    have "\<forall>i \<in> set gone. i < length sw \<and> owner (sw ! i) = name \<and> \<not> ss_revoked (sw ! i)"
      using act set_order by (auto simp: gone_def dest: in_set_takeD)
    from revoke_positions [OF _ this, of env] dist obtain ss' where
      ss': "foldl revoke_at (encoded env sw) gone = encoded env ss'" "all_evolve T sw ss'"
        "length (live_of name ss') = length (live_of name sw) - length gone" by (auto simp: gone_def)
    have "length gone = Suc (length act) - limit" using len_order limit by (simp add: gone_def)
    then have "length (live_of name ss') < limit" using ss'(3) len limit False by simp
    moreover have "enforce_session_limit env now u (encoded env ss) = Inr (encoded env ss')"
      using scan assms(2) limit False ages ss'(1)
      by (simp add: enforce_session_limit_def Let_def limit_def [symmetric] order_def [symmetric] gone_def)
    moreover have "all_evolve T ss ss'"
      using sweep_evolves [of T ss env now name] ss'(2) all_evolve_trans unfolding sw_def by blast
    ultimately show ?thesis by (auto simp: limit_def name_def)
  qed
qed

lemma enforce_encoded:
  "\<exists>ss'. enforce_session_limit env now u (encoded env ss) = Inr (encoded env ss') \<and> all_evolve T ss ss'"
proof (cases "nat (ae_max_sessions env) = 0 \<or> strip u = []")
  case True
  then show ?thesis by (auto simp: enforce_session_limit_def Let_def)
next
  case False
  then show ?thesis using enforce_limit_encoded [of env u now ss T] by auto
qed

end
