(* ===== verification/AuthMachine.thy ===== *)
theory AuthMachine
  imports AuthShape
begin

text \<open>
  The service as a machine over its operations. The contracts \<open>machine\<close> and \<open>monotone_machine\<close> are
  interpreted here: the session list stays an image of typed sessions within the limit per user, and
  sessions only evolve: none is lost, none comes back once revoked, new ones come from logins.
\<close>

datatype auth_op =
    ABootstrap int string string string
  | ACreateUser int string string string string bool "string option" py
  | AUpdateUser string string user_change
  | ADeleteUser string
  | ASaveRole string "string list"
  | ADeleteRole string
  | AListRoles
  | ARolePermissions string
  | AEnrollTotp string string
  | ADisableTotp string
  | ALogin login_args
  | ARefresh int string string
  | AResolve int string
  | ARevoke string string
  | ARevokeUser string
  | ARevokeJti string
  | AOnboardingStatus int string bool
  | ACompleteOnboarding int int int int string string string string bool

fun auth_step :: "auth_env \<Rightarrow> auth \<Rightarrow> auth_op \<Rightarrow> auth" where
  "auth_step env s (ABootstrap now salt u p) = snd (ensure_bootstrap_admin env now salt u p s)"
| "auth_step env s (ACreateUser now salt u p r b t g) = snd (create_user env now salt u p r b t g s)"
| "auth_step env s (AUpdateUser salt u ch) = snd (update_user env salt u ch s)"
| "auth_step env s (ADeleteUser u) = snd (delete_user u s)"
| "auth_step env s (ASaveRole n ps) = snd (save_role n ps s)"
| "auth_step env s (ADeleteRole n) = snd (delete_role n s)"
| "auth_step env s AListRoles = snd (list_roles s)"
| "auth_step env s (ARolePermissions r) = snd (role_permissions r s)"
| "auth_step env s (AEnrollTotp rnd u) = snd (enroll_totp rnd u s)"
| "auth_step env s (ADisableTotp u) = snd (disable_totp u s)"
| "auth_step env s (ALogin a) = snd (login env a s)"
| "auth_step env s (ARefresh now t r) = snd (refresh env now t r s)"
| "auth_step env s (AResolve now t) = snd (resolve_access_token env now t s)"
| "auth_step env s (ARevoke t r) = snd (revoke t r s)"
| "auth_step env s (ARevokeUser u) = snd (revoke_user_sessions u s)"
| "auth_step env s (ARevokeJti j) = snd (revoke_session_by_jti j s)"
| "auth_step env s (AOnboardingStatus now b d) = snd (onboarding_status now b d s)"
| "auth_step env s (ACompleteOnboarding n1 n2 n3 n4 salt u p b d) = snd (complete_onboarding env n1 n2 n3 n4 salt u p b d s)"

subsection \<open>Logins\<close>

text \<open>The user entry a login is about, once the LDAP server has had its say.\<close>

definition login_subject :: "login_args \<Rightarrow> auth \<Rightarrow> dict" where
  "login_subject a s = (case login_user a s of (Some user, s1) \<Rightarrow> login_user_after a user s1 | (None, s1) \<Rightarrow> [])"

definition granted :: "auth_env \<Rightarrow> auth \<Rightarrow> auth_op \<Rightarrow> issue_args list" where
  "granted env s c = (case c of
      ALogin a \<Rightarrow> (case fst (login env a s) of Inr (Some g) \<Rightarrow> [login_issue a (login_subject a s)] | _ \<Rightarrow> [])
    | _ \<Rightarrow> [])"

fun grants :: "auth_env \<Rightarrow> auth \<Rightarrow> auth_op list \<Rightarrow> issue_args list" where
  "grants env s [] = []"
| "grants env s (c # cs) = granted env s c @ grants env (auth_step env s c) cs"

lemma grants_mem: "ia \<in> set (grants env s cs) \<Longrightarrow>
    \<exists>pre c post. cs = pre @ c # post \<and> ia \<in> set (granted env (run (auth_step env) s pre) c)"
proof (induction cs arbitrary: s)
  case (Cons c cs)
  show ?case
  proof (cases "ia \<in> set (granted env s c)")
    case True
    then show ?thesis by (intro exI [of _ "[]"] exI [of _ c] exI [of _ cs]) simp
  next
    case False
    with Cons.prems have "ia \<in> set (grants env (auth_step env s c) cs)" by simp
    from Cons.IH [OF this] obtain pre d post where p: "cs = pre @ d # post"
      "ia \<in> set (granted env (run (auth_step env) (auth_step env s c) pre) d)" by blast
    then show ?thesis by (intro exI [of _ "c # pre"] exI [of _ d] exI [of _ post]) simp
  qed
qed simp

lemma login_success:
  assumes "fst (login env a s) = Inr (Some g)"
  obtains user s1 s2 where "username_ok (strip (la_username a))" "login_user a s = (Some user, s1)" "enabled_user user"
    "password_step env a user s1 = (Inr True, s2)" "totp_step env a (login_subject a s) = Inr ()"
    "issue_session env (login_issue a (login_subject a s)) s2 = (Inr g, snd (login env a s))"
proof -
  have ok: "username_ok (strip (la_username a))" using assms by (auto simp: login_def split: if_splits)
  obtain u s1 where lu: "login_user a s = (u, s1)" by (cases "login_user a s")
  with assms ok obtain user where u: "u = Some user" and en: "enabled_user user"
    by (auto simp: login_def split: option.splits if_splits)
  have sub: "login_subject a s = login_user_after a user s1" by (simp add: login_subject_def lu u)
  have l: "login env a s = abind (password_step env a user s1) (\<lambda>ok s2.
           if \<not> ok then (Inr None, s2)
           else case totp_step env a (login_subject a s) of Inl e \<Rightarrow> (Inl e, s2)
             | Inr _ \<Rightarrow> abind (issue_session env (login_issue a (login_subject a s)) s2) (\<lambda>g s3. (Inr (Some g), s3)))"
    unfolding login_def lu u sub using ok en by simp
  have "login env a s = (Inr (Some g), snd (login env a s))" using assms by (metis prod.collapse)
  then obtain s2 where pw: "password_step env a user s1 = (Inr True, s2)"
    and tot: "totp_step env a (login_subject a s) = Inr ()"
    and iss: "issue_session env (login_issue a (login_subject a s)) s2 = (Inr g, snd (login env a s))"
    unfolding l abind_Inr by (auto split: if_splits sum.splits simp: abind_Inr)
  show thesis by (rule that [OF ok _ en pw tot iss]) (simp add: lu u)
qed

lemma issue_frame: "fst (issue_session env ia s) = Inl e \<Longrightarrow> snd (issue_session env ia s) = s"
  by (auto simp: issue_session_def split: sum.splits)

lemma login_failure:
  assumes "\<And>g. fst (login env a s) \<noteq> Inr (Some g)"
  shows "au_sessions (snd (login env a s)) = au_sessions s"
proof -
  obtain u s1 where lu: "login_user a s = (u, s1)" by (cases "login_user a s")
  then have s1: "au_sessions s1 = au_sessions s" using login_user_frame(2) [of a s] by simp
  show ?thesis
  proof (cases "\<not> username_ok (strip (la_username a)) \<or> u = None \<or> \<not> enabled_user (the u)")
    case True
    then show ?thesis using s1 by (auto simp: login_def lu split: option.splits)
  next
    case False
    then obtain user where u: "u = Some user" by auto
    obtain r s2 where pw: "password_step env a user s1 = (r, s2)" by (cases "password_step env a user s1")
    then have s2: "au_sessions s2 = au_sessions s" using password_step_frame(2) [of env a user s1] s1 by simp
    let ?sub = "login_user_after a user s1"
    let ?iss = "issue_session env (login_issue a ?sub) s2"
    have l: "login env a s = abind (r, s2) (\<lambda>ok s2. if \<not> ok then (Inr None, s2)
        else case totp_step env a ?sub of Inl e \<Rightarrow> (Inl e, s2)
          | Inr _ \<Rightarrow> abind (issue_session env (login_issue a ?sub) s2) (\<lambda>g s3. (Inr (Some g), s3)))"
      unfolding login_def lu u using False pw u by simp
    show ?thesis
    proof (cases "r = Inr True \<and> (\<exists>x. totp_step env a ?sub = Inr x)")
      case True
      then have l': "login env a s = abind ?iss (\<lambda>g s3. (Inr (Some g), s3))" unfolding l by (auto simp: abind_def)
      obtain q s3 where iss: "?iss = (q, s3)" by (cases ?iss)
      show ?thesis
      proof (cases q)
        case (Inl e)
        then have "s3 = s2" using issue_frame [of env "login_issue a ?sub" s2 e] iss by simp
        then show ?thesis unfolding l' iss using Inl s2 by (simp add: abind_def)
      next
        case (Inr g)
        then show ?thesis using assms [of g] unfolding l' iss by (simp add: abind_def)
      qed
    next
      case False
      then show ?thesis unfolding l using s2 by (auto simp: abind_def split: sum.splits)
    qed
  qed
qed

lemma granted_login: "granted env s c = [ia] \<Longrightarrow>
    \<exists>a g. c = ALogin a \<and> fst (login env a s) = Inr (Some g) \<and> ia = login_issue a (login_subject a s)"
  by (cases c) (auto simp: granted_def split: sum.splits option.splits)

lemma granted_length: "length (granted env s c) \<le> 1"
  by (cases c) (auto simp: granted_def split: sum.splits option.splits)

lemma granted_mem: "ia \<in> set (granted env s c) \<Longrightarrow> granted env s c = [ia]"
  using granted_length [of env s c] by (cases "granted env s c") auto

text \<open>The access tokens an operation may put into a session that exists: a refresh has a new one.\<close>

definition new_tokens :: "auth_op \<Rightarrow> string set" where
  "new_tokens c = (case c of ARefresh now t r \<Rightarrow> {t} | _ \<Rightarrow> {})"

subsection \<open>What each session operation does to the typed sessions\<close>

lemma refresh_evolves:
  assumes "session_list s = encoded env ss" and "t \<in> T"
  shows "\<exists>ss'. session_list (snd (refresh env now t r s)) = encoded env ss' \<and> all_evolve T ss ss'"
proof -
  let ?hit = "live_with ''refresh_token'' (strip r)"
  have k: "update_first ?hit mark_revoked (encoded env ss) = encoded env (replace_first (\<lambda>x. ?hit (session_dict env x)) kill ss)"
    by (rule encoded_update_first) simp
  have t: "update_first ?hit (\<lambda>d. touched env now (dset ''access_token'' (PStr t) d)) (encoded env ss)
      = encoded env (replace_first (\<lambda>x. ?hit (session_dict env x)) (\<lambda>x. touch now (x\<lparr>ss_access := t\<rparr>)) ss)"
    by (rule encoded_update_first) simp
  have ek: "all_evolve T ss (replace_first (\<lambda>x. ?hit (session_dict env x)) kill ss)" by (rule replace_first_evolves) simp
  have et: "all_evolve T ss (replace_first (\<lambda>x. ?hit (session_dict env x)) (\<lambda>x. touch now (x\<lparr>ss_access := t\<rparr>)) ss)"
    by (rule replace_first_evolves) (simp add: evolves_touch assms(2))
  have "session_list (snd (refresh env now t r s)) \<in> {encoded env ss,
      update_first ?hit mark_revoked (encoded env ss),
      update_first ?hit (\<lambda>d. touched env now (dset ''access_token'' (PStr t) d)) (encoded env ss)}"
    by (simp add: refresh_def Let_def assms(1) split: option.splits sum.splits)
  then show ?thesis unfolding k t using ek et by auto
qed

lemma resolve_scan_encoded:
  "\<exists>hit dirty ys. resolve_scan env now token (encoded env ss) = Inr (map_option (session_dict env) hit, dirty, encoded env ys)
     \<and> all_evolve T ss ys
     \<and> (\<forall>y. hit = Some y \<longrightarrow> (\<exists>x \<in> set ss. y = touch now x \<and> \<not> ss_revoked x \<and> ss_access x = token
           \<and> \<not> past_access env now x \<and> \<not> past_limits env now x))
     \<and> (hit = None \<longrightarrow> (\<forall>x \<in> set ss. \<not> ss_revoked x \<longrightarrow> ss_access x = token \<longrightarrow> past_access env now x \<or> past_limits env now x))"
proof (induction ss)
  case Nil
  then show ?case by (intro exI [of _ None] exI [of _ False] exI [of _ "[]"]) simp
next
  case (Cons x ss)
  then obtain hit dirty ys where ih: "resolve_scan env now token (encoded env ss) = Inr (map_option (session_dict env) hit, dirty, encoded env ys)"
    "all_evolve T ss ys"
    "\<forall>y. hit = Some y \<longrightarrow> (\<exists>x \<in> set ss. y = touch now x \<and> \<not> ss_revoked x \<and> ss_access x = token
           \<and> \<not> past_access env now x \<and> \<not> past_limits env now x)"
    "hit = None \<longrightarrow> (\<forall>x \<in> set ss. \<not> ss_revoked x \<longrightarrow> ss_access x = token \<longrightarrow> past_access env now x \<or> past_limits env now x)" by blast
  show ?case
  proof (cases "\<not> ss_revoked x \<and> ss_access x = token")
    case False
    then show ?thesis
      using ih by (intro exI [of _ hit] exI [of _ dirty] exI [of _ "x # ys"]) auto
  next
    case True
    show ?thesis
    proof (cases "past_access env now x \<or> past_limits env now x")
      case exp: True
      then show ?thesis
        using True ih by (intro exI [of _ hit] exI [of _ True] exI [of _ "kill x # ys"]) auto
    next
      case exp: False
      then show ?thesis
        using True
        by (intro exI [of _ "Some (touch now x)"] exI [of _ False] exI [of _ "touch now x # ss"])
           (auto simp: evolves_touch)
    qed
  qed
qed

lemma resolve_evolves:
  assumes "session_list s = encoded env ss"
  shows "\<exists>ss'. session_list (snd (resolve_access_token env now t s)) = encoded env ss' \<and> all_evolve T ss ss'"
proof -
  from resolve_scan_encoded [of env now "strip t" ss T] obtain hit dirty ys where
    r: "resolve_scan env now (strip t) (encoded env ss) = Inr (map_option (session_dict env) hit, dirty, encoded env ys)"
    and e: "all_evolve T ss ys" by blast
  show ?thesis
    using e assms by (cases hit) (auto simp: resolve_access_token_def Let_def r)
qed

text \<open>An identity comes from a live session with the token, within every limit.\<close>

lemma resolve_identity:
  assumes "session_list s = encoded env ss" and "fst (resolve_access_token env now t s) = Inr (Some i)"
  shows "\<exists>x \<in> set ss. \<not> ss_revoked x \<and> ss_access x = strip t \<and> \<not> past_access env now x \<and> \<not> past_limits env now x
    \<and> i = \<lparr>id_username = strip (ia_username (ss_args x)), id_role = sor (strip (sor (ia_role (ss_args x)) ''viewer'')) ''viewer'',
           id_session_id = strip (ia_session_id (ss_args x)), id_tenant_id = get_user_tenant_id (strip (ia_username (ss_args x))) s\<rparr>"
proof -
  from resolve_scan_encoded [of env now "strip t" ss T] obtain hit dirty ys where
    r: "resolve_scan env now (strip t) (encoded env ss) = Inr (map_option (session_dict env) hit, dirty, encoded env ys)"
    and h: "\<forall>y. hit = Some y \<longrightarrow> (\<exists>x \<in> set ss. y = touch now x \<and> \<not> ss_revoked x \<and> ss_access x = strip t
           \<and> \<not> past_access env now x \<and> \<not> past_limits env now x)" by blast
  obtain y where y: "hit = Some y"
    using assms r by (cases hit) (auto simp: resolve_access_token_def Let_def split: if_splits)
  with h obtain x where x: "x \<in> set ss" "y = touch now x" "\<not> ss_revoked x" "ss_access x = strip t"
    "\<not> past_access env now x" "\<not> past_limits env now x" by blast
  have "i = \<lparr>id_username = strip (ia_username (ss_args x)), id_role = sor (strip (sor (ia_role (ss_args x)) ''viewer'')) ''viewer'',
           id_session_id = strip (ia_session_id (ss_args x)), id_tenant_id = get_user_tenant_id (strip (ia_username (ss_args x))) s\<rparr>"
    using assms r y x(2)
    by (auto simp: resolve_access_token_def Let_def session_role_def str_default_def sor_def touch_def split: if_splits)
  with x show ?thesis by blast
qed

lemma kill_all_evolves: "\<exists>ss'. update_all P mark_revoked (encoded env ss) = encoded env ss' \<and> all_evolve T ss ss'"
  using encoded_update_all [of mark_revoked env kill P ss] replace_all_evolves [of "\<lambda>x. P (session_dict env x)" T kill ss] by auto

lemma kill_first_evolves: "\<exists>ss'. update_first P mark_revoked (encoded env ss) = encoded env ss' \<and> all_evolve T ss ss'"
  using encoded_update_first [of mark_revoked env kill P ss] replace_first_evolves [of "\<lambda>x. P (session_dict env x)" T kill ss] by auto

lemma revokes_evolve:
  assumes "session_list s = encoded env ss"
  shows "\<exists>ss'. session_list (snd (revoke t r s)) = encoded env ss' \<and> all_evolve T ss ss'"
    and "\<exists>ss'. session_list (snd (revoke_user_sessions u s)) = encoded env ss' \<and> all_evolve T ss ss'"
    and "\<exists>ss'. session_list (snd (revoke_session_by_jti j s)) = encoded env ss' \<and> all_evolve T ss ss'"
  using kill_all_evolves [of _ env ss T] kill_first_evolves [of _ env ss T]
  by (auto simp: revoke_def revoke_user_sessions_def revoke_session_by_jti_def Let_def assms)

text \<open>A successful login appends one session and leaves its user within the limit.\<close>

lemma issue_appends:
  assumes "session_list s = encoded env ss"
  shows "\<exists>ss'. session_list (snd (issue_session env ia s)) = encoded env (ss' @ [fresh_session ia]) \<and> all_evolve T ss ss'
    \<and> (0 < ae_max_sessions env \<longrightarrow> strip (ia_username ia) \<noteq> [] \<longrightarrow>
         length (live_of (lower (strip (ia_username ia))) ss') < nat (ae_max_sessions env))"
proof (cases "0 < ae_max_sessions env \<and> strip (ia_username ia) \<noteq> []")
  case True
  then have max: "0 < ae_max_sessions env" and u: "strip (ia_username ia) \<noteq> []" by auto
  from enforce_limit_encoded [OF max u, of "ia_now ia" ss T] obtain ss' where
    e: "enforce_session_limit env (ia_now ia) (ia_username ia) (encoded env ss) = Inr (encoded env ss')" "all_evolve T ss ss'"
      "length (live_of (lower (strip (ia_username ia))) ss') < nat (ae_max_sessions env)" by blast
  then show ?thesis
    by (intro exI [of _ ss']) (simp add: issue_session_def assms session_entry_dict)
next
  case False
  from enforce_encoded [of env "ia_now ia" "ia_username ia" ss T] obtain ss' where
    e: "enforce_session_limit env (ia_now ia) (ia_username ia) (encoded env ss) = Inr (encoded env ss')" "all_evolve T ss ss'" by blast
  with False show ?thesis
    by (intro exI [of _ ss']) (auto simp: issue_session_def assms session_entry_dict)
qed

lemma login_effect:
  assumes "session_list s = encoded env ss"
  shows "\<exists>ss'. session_list (snd (login env a s)) = encoded env (ss' @ map fresh_session (granted env s (ALogin a))) \<and> all_evolve T ss ss'
    \<and> (0 < ae_max_sessions env \<longrightarrow> (\<forall>ia \<in> set (granted env s (ALogin a)). strip (ia_username ia) \<noteq> [] \<longrightarrow>
         length (live_of (lower (strip (ia_username ia))) ss') < nat (ae_max_sessions env)))"
proof (cases "\<exists>g. fst (login env a s) = Inr (Some g)")
  case True
  then obtain g where g: "fst (login env a s) = Inr (Some g)" by blast
  from login_success [OF g] obtain user s1 s2 where
    l: "login_user a s = (Some user, s1)" "password_step env a user s1 = (Inr True, s2)"
      "issue_session env (login_issue a (login_subject a s)) s2 = (Inr g, snd (login env a s))" by metis
  have "au_sessions s2 = au_sessions s"
    using login_user_frame(2) [of a s] password_step_frame(2) [of env a user s1] l by simp
  then have s2: "session_list s2 = encoded env ss" using session_list_cong assms by metis
  have gr: "granted env s (ALogin a) = [login_issue a (login_subject a s)]" by (simp add: granted_def g)
  from issue_appends [OF s2, of "login_issue a (login_subject a s)" T] show ?thesis
    unfolding gr using l(3) by simp
next
  case False
  then have "au_sessions (snd (login env a s)) = au_sessions s" by (intro login_failure) auto
  then have "session_list (snd (login env a s)) = encoded env ss" using session_list_cong assms by metis
  moreover have "granted env s (ALogin a) = []" using False by (auto simp: granted_def split: sum.splits option.splits)
  ultimately show ?thesis by (intro exI [of _ ss]) simp
qed

lemma step_effect:
  assumes ss: "session_list s = encoded env ss" and T: "new_tokens c \<subseteq> T"
  shows "\<exists>ss'. session_list (auth_step env s c) = encoded env (ss' @ map fresh_session (granted env s c)) \<and> all_evolve T ss ss'
    \<and> (0 < ae_max_sessions env \<longrightarrow> (\<forall>ia \<in> set (granted env s c). strip (ia_username ia) \<noteq> [] \<longrightarrow>
         length (live_of (lower (strip (ia_username ia))) ss') < nat (ae_max_sessions env)))"
proof -
  have keep: ?thesis if "au_sessions (auth_step env s c) = au_sessions s" "granted env s c = []"
    using that session_list_cong [OF that(1)] ss by (intro exI [of _ ss]) simp
  have change: ?thesis if "\<exists>ss'. session_list (auth_step env s c) = encoded env ss' \<and> all_evolve T ss ss'" "granted env s c = []"
    using that by auto
  show ?thesis
  proof (cases c)
    case (ALogin a)
    then show ?thesis using login_effect [OF ss, where a = a and T = T] by simp
  next
    case (ARefresh now t r)
    then show ?thesis using refresh_evolves [OF ss, where t = t and T = T and now = now and r = r] T by (intro change) (auto simp: granted_def new_tokens_def)
  next
    case (AResolve now t)
    then show ?thesis using resolve_evolves [OF ss, where T = T and now = now and t = t] by (intro change) (auto simp: granted_def)
  next
    case (ARevoke t r)
    then show ?thesis using revokes_evolve(1) [OF ss, where T = T and t = t and r = r] by (intro change) (auto simp: granted_def)
  next
    case (ARevokeUser u)
    then show ?thesis using revokes_evolve(2) [OF ss, where T = T and u = u] by (intro change) (auto simp: granted_def)
  next
    case (ARevokeJti j)
    then show ?thesis using revokes_evolve(3) [OF ss, where T = T and j = j] by (intro change) (auto simp: granted_def)
  qed (rule keep; simp add: granted_def frame_simps)+
qed

subsection \<open>The contracts\<close>

definition auth_sessions_ok :: "auth_env \<Rightarrow> auth \<Rightarrow> bool" where
  "auth_sessions_ok env s = (\<exists>ss. session_list s = encoded env ss \<and>
     (0 < ae_max_sessions env \<longrightarrow> (\<forall>u. u \<noteq> [] \<longrightarrow> length (live_of u ss) \<le> nat (ae_max_sessions env))))"

lemma lower_eq_Nil [simp]: "lower s = [] \<longleftrightarrow> s = []"
  by (simp add: lower_def)

lemma auth_sessions_ok_step:
  assumes "auth_sessions_ok env s"
  shows "auth_sessions_ok env (auth_step env s c)"
proof -
  from assms obtain ss where ss: "session_list s = encoded env ss"
    and lim: "0 < ae_max_sessions env \<longrightarrow> (\<forall>u. u \<noteq> [] \<longrightarrow> length (live_of u ss) \<le> nat (ae_max_sessions env))"
    unfolding auth_sessions_ok_def by blast
  from step_effect [OF ss subset_UNIV, of c] obtain ss' where
    e: "session_list (auth_step env s c) = encoded env (ss' @ map fresh_session (granted env s c))" "all_evolve UNIV ss ss'"
      "0 < ae_max_sessions env \<longrightarrow> (\<forall>ia \<in> set (granted env s c). strip (ia_username ia) \<noteq> [] \<longrightarrow>
         length (live_of (lower (strip (ia_username ia))) ss') < nat (ae_max_sessions env))" by blast
  have "length (live_of u (ss' @ map fresh_session (granted env s c))) \<le> nat (ae_max_sessions env)"
    if max: "0 < ae_max_sessions env" and u: "u \<noteq> []" for u
  proof -
    have le: "length (live_of u ss') \<le> nat (ae_max_sessions env)"
      using live_of_evolve [OF e(2), of u] lim max u by (meson order_trans)
    show ?thesis
    proof (cases "granted env s c")
      case Nil
      then show ?thesis using le by (simp add: live_of_def)
    next
      case (Cons ia rest)
      then have g: "granted env s c = [ia]" using granted_mem [of ia env s c] by simp
      show ?thesis
      proof (cases "lower (strip (ia_username ia)) = u")
        case True
        then have "length (live_of u ss') < nat (ae_max_sessions env)" using e(3) max u g by auto
        then show ?thesis by (simp add: g live_of_def fresh_session_def)
      next
        case False
        then show ?thesis using le by (simp add: g live_of_def fresh_session_def owner_def)
      qed
    qed
  qed
  with e(1) show ?thesis unfolding auth_sessions_ok_def by blast
qed

interpretation auth: machine "auth_step env" "auth_sessions_ok env" for env
  by unfold_locales (rule auth_sessions_ok_step)

text \<open>Sessions of a later state are those of the earlier one, evolved, and new ones.\<close>

definition sessions_le :: "auth_env \<Rightarrow> auth \<Rightarrow> auth \<Rightarrow> bool" where
  "sessions_le env s t = (\<forall>ss. session_list s = encoded env ss \<longrightarrow>
     (\<exists>ss' new. session_list t = encoded env (ss' @ new) \<and> all_evolve UNIV ss ss'))"

lemma sessions_le_trans: "sessions_le env s t \<Longrightarrow> sessions_le env t u \<Longrightarrow> sessions_le env s u"
  unfolding sessions_le_def
proof (intro allI impI)
  fix ss
  assume 1: "\<forall>ss. session_list s = encoded env ss \<longrightarrow> (\<exists>ss' new. session_list t = encoded env (ss' @ new) \<and> all_evolve UNIV ss ss')"
    and 2: "\<forall>ss. session_list t = encoded env ss \<longrightarrow> (\<exists>ss' new. session_list u = encoded env (ss' @ new) \<and> all_evolve UNIV ss ss')"
    and 3: "session_list s = encoded env ss"
  from 1 3 obtain ss1 new1 where a: "session_list t = encoded env (ss1 @ new1)" "all_evolve UNIV ss ss1" by blast
  from 2 a(1) obtain ss2 new2 where b: "session_list u = encoded env (ss2 @ new2)" "all_evolve UNIV (ss1 @ new1) ss2" by blast
  obtain x y where xy: "ss2 = x @ y" "all_evolve UNIV ss1 x" using b(2) by (auto simp: list_all2_append1)
  have "session_list u = encoded env (x @ (y @ new2))" using b(1) xy by simp
  then show "\<exists>ss' new. session_list u = encoded env (ss' @ new) \<and> all_evolve UNIV ss ss'"
    using all_evolve_trans [OF a(2) xy(2)] by blast
qed

lemma sessions_le_step: "sessions_le env s (auth_step env s c)"
  unfolding sessions_le_def using step_effect [OF _ subset_UNIV] by blast

lemma sessions_le_refl: "sessions_le env s s"
  unfolding sessions_le_def by (metis all_evolve_refl append_Nil2)

interpretation auth_mono: monotone_machine "auth_step env" "sessions_le env" for env
  by unfold_locales (auto intro: sessions_le_refl sessions_le_step sessions_le_trans)

lemma evolved_tokens:
  "all_evolve T (map fresh_session gs) ys \<Longrightarrow> \<forall>z \<in> set ys. ss_access z = ia_access_token (ss_args z) \<or> ss_access z \<in> T"
  by (induction gs arbitrary: ys) (fastforce simp: list_all2_Cons1 evolves_def fresh_session_def)+

text \<open>The sessions of a run are the ones there were and one for every successful login.\<close>

lemma run_sessions:
  assumes "session_list s = encoded env ss" and "\<forall>c \<in> set cs. new_tokens c \<subseteq> T"
  shows "\<exists>ss' new. session_list (run (auth_step env) s cs) = encoded env (ss' @ new) \<and> all_evolve T ss ss'
    \<and> map ss_args new = grants env s cs
    \<and> (\<forall>y \<in> set new. ss_access y = ia_access_token (ss_args y) \<or> ss_access y \<in> T)"
  using assms
proof (induction cs arbitrary: s ss)
  case Nil
  then show ?case by (intro exI [of _ ss] exI [of _ "[]"]) simp
next
  case (Cons c cs)
  have T: "new_tokens c \<subseteq> T" "\<forall>c \<in> set cs. new_tokens c \<subseteq> T" using Cons.prems(2) by auto
  from step_effect [OF Cons.prems(1) T(1)] obtain ss1 where
    e: "session_list (auth_step env s c) = encoded env (ss1 @ map fresh_session (granted env s c))" "all_evolve T ss ss1" by blast
  from Cons.IH [OF e(1) T(2)] obtain ss2 new where
    r: "session_list (run (auth_step env) (auth_step env s c) cs) = encoded env (ss2 @ new)"
      "all_evolve T (ss1 @ map fresh_session (granted env s c)) ss2" "map ss_args new = grants env (auth_step env s c) cs"
      "\<forall>y \<in> set new. ss_access y = ia_access_token (ss_args y) \<or> ss_access y \<in> T" by blast
  obtain x y where xy: "ss2 = x @ y" "all_evolve T ss1 x" "all_evolve T (map fresh_session (granted env s c)) y"
    using r(2) by (auto simp: list_all2_append1)
  have "map ss_args y = granted env s c" using all_evolve_args [OF xy(3)] by (simp add: comp_def fresh_session_def)
  moreover have "\<forall>z \<in> set y. ss_access z = ia_access_token (ss_args z) \<or> ss_access z \<in> T"
    using xy(3) by (rule evolved_tokens)
  ultimately show ?case
    using r xy all_evolve_trans [OF e(2) xy(2)] by (intro exI [of _ x] exI [of _ "y @ new"]) auto
qed

end
