(* ===== verification/AuthSessionProps.thy ===== *)
theory AuthSessionProps
  imports AuthMachine "HOL-Library.Code_Target_Numeral"
begin

text \<open>
  Properties of logins, sessions and tokens, over every run of the service: who an identity belongs to,
  how long it lasts, how many there are, and what ends it.
\<close>

subsection \<open>A demonstration state\<close>

definition demo_auth_env :: auth_env where
  "demo_auth_env = auth_service (\<lambda>p salt n. Inr (salt @ p)) (\<lambda>k m. replicate 20 (CHR ''A'')) 3600 7200 1800 86400 1"

definition demo_nobody :: auth where
  "demo_nobody = \<lparr>au_users = None, au_roles = None, au_sessions = None, au_onboarding = None\<rparr>"

definition demo_login :: "int \<Rightarrow> string \<Rightarrow> login_args" where
  "demo_login now tok = \<lparr>la_username = ''Alice'', la_password = ''password1'', la_totp_code = [], la_remote_addr = [], la_user_agent = [],
     la_ldap = None, la_now_user = now, la_now_totp = now, la_now = now, la_access_token = CHR ''a'' # tok,
     la_refresh_token = CHR ''r'' # tok, la_session_id = CHR ''s'' # tok\<rparr>"

definition demo_alice :: auth_op where
  "demo_alice = ACreateUser 1000 ''salt'' ''alice'' ''password1'' ''viewer'' True (Some ''acme'') PNone"

definition demo_auth :: auth where
  "demo_auth = \<lparr>au_users = Some (PDict [(''users'', PList [PDict [(''username'', PStr ''alice''), (''role'', PStr ''viewer''),
       (''password_hash'', PStr ''pbkdf2_sha256$390000$73616c74$73616c7470617373776f726431''), (''created_at'', PInt 1000),
       (''enabled'', PBool True), (''auth_source'', PStr ''local''), (''tenant_id'', PStr ''acme'')]])]),
     au_roles = Some (PDict [(''roles'', PList [
       PDict [(''name'', PStr ''viewer''), (''permissions'', PList [])],
       PDict [(''name'', PStr ''kiosk_operator''), (''permissions'', PList [PStr ''kiosk:operate'', PStr ''vm:power'', PStr ''vm:read''])],
       PDict [(''name'', PStr ''ops''), (''permissions'', PList [PStr ''actions:bulk'', PStr ''provisioning:write'', PStr ''vm:mutate''])],
       PDict [(''name'', PStr ''admin''), (''permissions'', PList [PStr ''actions:bulk'', PStr ''auth:read'', PStr ''auth:write'',
         PStr ''policy:write'', PStr ''provisioning:write'', PStr ''session:download_recording'', PStr ''session:manage_recording'',
         PStr ''settings:read'', PStr ''settings:write'', PStr ''vm:mutate''])],
       PDict [(''name'', PStr ''superadmin''), (''permissions'', PList [PStr ''*''])]])]),
     au_sessions = Some (PDict [(''sessions'', PList [PDict [(''id'', PStr ''s1''), (''username'', PStr ''alice''), (''role'', PStr ''viewer''),
       (''tenant_id'', PStr ''acme''), (''access_token'', PStr ''a1''), (''refresh_token'', PStr ''r1''), (''created_at'', PInt 1000),
       (''last_seen_at'', PInt 1000), (''access_expires_at'', PInt 4600), (''refresh_expires_at'', PInt 8200),
       (''absolute_expires_at'', PInt 87400), (''remote_addr'', PStr []), (''user_agent'', PStr []), (''revoked'', PBool False)]])]),
     au_onboarding = None\<rparr>"

definition demo_history :: "auth_op list" where
  "demo_history = [demo_alice, ALogin (demo_login 1000 ''1'')]"

lemma demo_auth_run: "run (auth_step demo_auth_env) demo_nobody demo_history = demo_auth"
  by code_simp

lemma demo_nobody_sessions: "session_list demo_nobody = []"
  by code_simp

lemma demo_env_max: "ae_max_sessions demo_auth_env = 1"
  by (simp add: demo_auth_env_def auth_service_def Let_def)

subsection \<open>The numbers the constructor accepts\<close>

definition env_ok :: "auth_env \<Rightarrow> bool" where
  "env_ok env = (60 \<le> ae_access_ttl env \<and> ae_access_ttl env \<le> ae_refresh_ttl env \<and> 60 \<le> ae_idle_timeout env
     \<and> ae_refresh_ttl env \<le> ae_absolute_timeout env \<and> 0 \<le> ae_max_sessions env)"

lemma auth_service_ok: "env_ok (auth_service pbkdf2 hmac a r i ab m)"
  by (simp add: env_ok_def auth_service_def Let_def)

subsection \<open>The session limit\<close>

lemma auth_sessions_ok_empty: "session_list s = [] \<Longrightarrow> auth_sessions_ok env s"
  unfolding auth_sessions_ok_def by (intro exI [of _ "[]"]) (simp add: live_of_def)

lemma live_encoded:
  "filter (sat (\<lambda>d. \<not> revoked d \<and> same_user u d)) (encoded env ss) = encoded env (live_of (lower u) ss)"
  by (induction ss) (auto simp: live_of_def)

text \<open>C15: In every run that starts without sessions, no user has more sessions that are not revoked than the
  configured limit, however logins, refreshes, revocations and changes of users are interleaved.\<close>

theorem session_limit_kept:
  assumes "session_list s = []" and "0 < ae_max_sessions env" and "u \<noteq> []"
  shows "length (filter (sat (\<lambda>d. \<not> revoked d \<and> same_user u d)) (session_list (run (auth_step env) s cs)))
    \<le> nat (ae_max_sessions env)"
proof -
  have "auth_sessions_ok env (run (auth_step env) s cs)" by (rule auth.run_inv [OF auth_sessions_ok_empty [OF assms(1)]])
  then show ?thesis using assms(2,3) by (auto simp: auth_sessions_ok_def live_encoded)
qed

theorem session_limit_kept_witness:
  "length (filter (sat (\<lambda>d. \<not> revoked d \<and> same_user ''alice'' d)) (session_list (run (auth_step demo_auth_env) demo_nobody
     [demo_alice, ALogin (demo_login 1000 ''1''), ALogin (demo_login 1010 ''2'')]))) \<le> 1"
proof -
  have "0 < ae_max_sessions demo_auth_env" by (simp add: demo_env_max)
  from session_limit_kept [OF demo_nobody_sessions this, of "''alice''"] show ?thesis
    by (simp add: demo_env_max del: run.simps auth_step.simps)
qed

subsection \<open>Where identities come from\<close>

lemma subject_fields: "ia_username (login_issue a d) = stget d ''username''" "ia_role (login_issue a d) = user_role d"
  "ia_now (login_issue a d) = la_now a" "strip (stget d k) = stget d k"
  by (simp_all add: login_issue_def stget_def)

lemma sor_idem: "sor (strip (sor (sor (strip t) ''viewer'') ''viewer'')) ''viewer'' = sor (strip t) ''viewer''"
proof -
  have "strip ''viewer'' = ''viewer''" by code_simp
  then show ?thesis by (simp add: sor_def)
qed

lemma issue_grant:
  assumes "fst (login env a s) = Inr (Some g)"
  shows "sg_username g = stget (login_subject a s) ''username''" "sg_role g = user_role (login_subject a s)"
    "sg_access_token g = la_access_token a" "sg_refresh_token g = la_refresh_token a"
proof -
  from login_success [OF assms] obtain s2 where
    "issue_session env (login_issue a (login_subject a s)) s2 = (Inr g, snd (login env a s))" by metis
  then show "sg_username g = stget (login_subject a s) ''username''" "sg_role g = user_role (login_subject a s)"
    "sg_access_token g = la_access_token a" "sg_refresh_token g = la_refresh_token a"
    by (auto simp: issue_session_def login_issue_def split: sum.splits)
qed

lemma run_from_empty:
  assumes "session_list s = []"
  shows "\<exists>ss. session_list (run (auth_step env) s cs) = encoded env ss \<and> map ss_args ss = grants env s cs"
proof -
  have "session_list s = encoded env []" using assms by simp
  from run_sessions [OF this, of cs UNIV] obtain ss' new where
    "session_list (run (auth_step env) s cs) = encoded env (ss' @ new)" "all_evolve UNIV [] ss'" "map ss_args new = grants env s cs" by auto
  then show ?thesis by (intro exI [of _ new]) simp
qed

text \<open>C5: Every identity the service resolves an access token to was granted by a successful login of the
  same run: it has the user and the role of that login, and the clock is within the refresh time and the
  absolute time counted from the login, however often the session was refreshed or used since.\<close>

theorem resolved_identity_logged_in:
  assumes "session_list s = []" and "env_ok env"
    and "fst (resolve_access_token env now t (run (auth_step env) s cs)) = Inr (Some i)"
  shows "\<exists>pre a post g. cs = pre @ ALogin a # post \<and> fst (login env a (run (auth_step env) s pre)) = Inr (Some g)
    \<and> id_username i = sg_username g \<and> id_role i = sg_role g
    \<and> (0 < la_now a \<longrightarrow> now \<le> la_now a + ae_refresh_ttl env \<and> now \<le> la_now a + ae_absolute_timeout env)"
proof -
  from run_from_empty [OF assms(1)] obtain ss where
    ss: "session_list (run (auth_step env) s cs) = encoded env ss" "map ss_args ss = grants env s cs" by blast
  from resolve_identity [OF ss(1) assms(3)] obtain x where
    x: "x \<in> set ss" "\<not> past_limits env now x" "id_username i = strip (ia_username (ss_args x))"
      "id_role i = sor (strip (sor (ia_role (ss_args x)) ''viewer'')) ''viewer''" by auto
  have "ss_args x \<in> set (grants env s cs)" using x(1) ss(2) by (metis image_eqI list.set_map)
  from grants_mem [OF this] obtain pre c post where
    p: "cs = pre @ c # post" "ss_args x \<in> set (granted env (run (auth_step env) s pre) c)" by blast
  from granted_login [OF granted_mem [OF p(2)]] obtain a g where
    a: "c = ALogin a" "fst (login env a (run (auth_step env) s pre)) = Inr (Some g)"
      "ss_args x = login_issue a (login_subject a (run (auth_step env) s pre))" by blast
  have u: "id_username i = sg_username g" and r: "id_role i = sg_role g"
    using x(3,4) a(3) issue_grant [OF a(2)] sor_idem by (auto simp: subject_fields user_role_def)
  have "0 < la_now a \<longrightarrow> now \<le> la_now a + ae_refresh_ttl env \<and> now \<le> la_now a + ae_absolute_timeout env"
    using x(2) a(3) assms(2) by (auto simp: past_limits_def subject_fields Let_def env_ok_def)
  then show ?thesis using p(1) a(1,2) u r by blast
qed

theorem resolved_identity_logged_in_witness:
  "\<exists>pre a post g. demo_history = pre @ ALogin a # post
    \<and> fst (login demo_auth_env a (run (auth_step demo_auth_env) demo_nobody pre)) = Inr (Some g)
    \<and> ''alice'' = sg_username g \<and> ''viewer'' = sg_role g
    \<and> (0 < la_now a \<longrightarrow> 1100 \<le> la_now a + ae_refresh_ttl demo_auth_env \<and> 1100 \<le> la_now a + ae_absolute_timeout demo_auth_env)"
proof -
  have ok: "env_ok demo_auth_env" unfolding demo_auth_env_def by (rule auth_service_ok)
  have "fst (resolve_access_token demo_auth_env 1100 ''a1'' (run (auth_step demo_auth_env) demo_nobody demo_history))
      = Inr (Some \<lparr>id_username = ''alice'', id_role = ''viewer'', id_session_id = ''s1'', id_tenant_id = Some ''acme''\<rparr>)"
    unfolding demo_auth_run by code_simp
  from resolved_identity_logged_in [OF demo_nobody_sessions ok this] show ?thesis by simp
qed

subsection \<open>What a login takes\<close>

lemma login_user_found:
  assumes "login_user a s = (Some user, s1)"
  shows "find_user (strip (la_username a)) s = Some user \<and> s1 = s
    \<or> (\<exists>f payload. ldap_call 0 a = Some f \<and> f (strip (la_username a)) (la_password a) = PDict payload
         \<and> user = ldap_user (la_now_user a) (strip (la_username a)) payload)"
proof (cases "find_user (strip (la_username a)) s")
  case None
  then show ?thesis
    using assms by (auto simp: login_user_def provision_ldap_shadow_user_def Let_def split: option.splits py.splits)
qed (use assms in \<open>simp add: login_user_def\<close>)

lemma shadow_accepted:
  assumes "provision_ldap_shadow_user l n u p d s = (Some d', s')"
  shows "\<exists>f payload. l = Some f \<and> f (strip u) p = PDict payload"
  using assms by (auto simp: provision_ldap_shadow_user_def split: option.splits py.splits)

text \<open>C6: A login only succeeds for an enabled user, with the password that the LDAP server accepted during
  this login when the account is an LDAP account, or else one that verifies against the stored hash, and
  with a one-time code that verifies when the account has a second factor.\<close>

theorem login_requires_credentials:
  assumes "fst (login env a s) = Inr (Some g)"
  shows "\<exists>user s1. login_user a s = (Some user, s1) \<and> enabled_user user
    \<and> (if user_auth_source user = ''ldap''
       then \<exists>f payload. ldap_call 1 a = Some f \<and> f (strip (la_username a)) (la_password a) = PDict payload
       else find_user (strip (la_username a)) s = Some user
         \<and> verify_password env (la_password a) (sget user ''password_hash'') = Inr True
         \<and> sg_username g = stget user ''username'' \<and> sg_role g = user_role user)
    \<and> (needs_totp (login_subject a s) \<longrightarrow>
         verify_totp_code env (la_now_totp a) 1 (sget (login_subject a s) ''totp_secret'') (drop_blanks (la_totp_code a)) = Inr True)"
proof -
  from login_success [OF assms] obtain user s1 s2 where
    l: "login_user a s = (Some user, s1)" "enabled_user user" "password_step env a user s1 = (Inr True, s2)"
      "totp_step env a (login_subject a s) = Inr ()" by metis
  have totp: "needs_totp (login_subject a s) \<longrightarrow>
      verify_totp_code env (la_now_totp a) 1 (sget (login_subject a s) ''totp_secret'') (drop_blanks (la_totp_code a)) = Inr True"
    using l(4) by (auto simp: totp_step_def rbind_eq_Inr split: if_splits)
  have sub: "user_auth_source user \<noteq> ''ldap'' \<Longrightarrow> login_subject a s = user"
    by (simp add: login_subject_def l(1) login_user_after_def)
  have local_src: "user_auth_source (ldap_user n u payload) = ''ldap''" for n u payload
    by (simp add: user_auth_source_def ldap_user_def str_default_def) code_simp
  show ?thesis
  proof (cases "user_auth_source user = ''ldap''")
    case True
    obtain d' s' where pr: "provision_ldap_shadow_user (ldap_call 1 a) (la_now_user a) (strip (la_username a)) (la_password a) (Some user) s1 = (Some d', s')"
      using l(3) True by (auto simp: password_step_def Let_def split: prod.splits)
    from shadow_accepted [OF pr] True l(1,2) totp show ?thesis by auto
  next
    case False
    then have "find_user (strip (la_username a)) s = Some user" using login_user_found [OF l(1)] local_src by auto
    moreover have "verify_password env (la_password a) (sget user ''password_hash'') = Inr True"
      using l(3) False by (simp add: password_step_def)
    ultimately show ?thesis using False l(1,2) totp issue_grant(1,2) [OF assms] sub by auto
  qed
qed

theorem login_requires_credentials_witness:
  "\<exists>user s1. login_user (demo_login 1010 ''2'') demo_auth = (Some user, s1) \<and> enabled_user user"
proof -
  have "fst (login demo_auth_env (demo_login 1010 ''2'') demo_auth) = Inr (Some \<lparr>sg_access_token = ''a2'', sg_refresh_token = ''r2'',
      sg_expires_in = 3600, sg_username = ''alice'', sg_role = ''viewer'', sg_tenant_id = Some ''acme'', sg_totp_enabled = False\<rparr>)"
    by code_simp
  from login_requires_credentials [OF this] show ?thesis by blast
qed

end
