(* ===== verification/AuthSurvival.thy ===== *)
theory AuthSurvival
  imports AuthSessionProps
begin

text \<open>
  What leaves a session alone: an entry of the session list is still there, as it was, after every operation
  that is about other sessions and other users; the use of its own access token only moves its times.
\<close>

subsection \<open>Entries that an operation does not hit\<close>

lemma update_first_other: "x \<in> set xs \<Longrightarrow> \<not> sat P x \<Longrightarrow> x \<in> set (update_first P f xs)"
  by (induction xs) auto

lemma update_all_other: "x \<in> set xs \<Longrightarrow> \<not> sat P x \<Longrightarrow> x \<in> set (update_all P f xs)"
  by (force simp: update_all_def)

lemma limit_scan_other:
  "limit_scan env now n i xs = Inr (ys, act) \<Longrightarrow> length ys = length xs \<and> (\<forall>a \<in> set act. i \<le> a)
     \<and> (\<forall>k < length xs. \<not> sat (same_user n) (xs ! k) \<longrightarrow> ys ! k = xs ! k \<and> i + k \<notin> set act)"
proof (induction xs arbitrary: i ys act)
  case (Cons x xs)
  from Cons.prems obtain ys1 act1 where r: "limit_scan env now n (Suc i) xs = Inr (ys1, act1)"
    by (auto simp: rbind_eq_Inr split: if_splits)
  note ih = Cons.IH [OF r]
  have later: "i \<notin> set act1" using ih by fastforce
  show ?case
  proof (cases "sat (same_user n) x")
    case False
    then have "ys = x # ys1" "act = act1" using Cons.prems r by (auto simp: rbind_eq_Inr)
    then show ?thesis using ih later by (auto simp: nth_Cons split: nat.splits)
  next
    case True
    then obtain y where "ys = y # ys1" "set act \<subseteq> insert i (set act1)"
      using Cons.prems r by (auto simp: rbind_eq_Inr split: if_splits)
    moreover have "Suc (i + k) \<notin> set act" if "Suc (i + k) \<notin> set act1" "set act \<subseteq> insert i (set act1)" for k
      using that by auto
    ultimately show ?thesis using ih True by (fastforce simp: nth_Cons split: nat.splits)
  qed
qed simp

lemma revoke_at_other: "j \<notin> set is \<Longrightarrow> foldl revoke_at xs is ! j = xs ! j \<and> length (foldl revoke_at xs is) = length xs"
  by (induction "is" arbitrary: xs) (auto simp: revoke_at_def)

lemma enforce_other:
  assumes "enforce_session_limit env now u xs = Inr ys" and "x \<in> set xs" and "\<not> sat (same_user (strip u)) x"
  shows "x \<in> set ys"
proof -
  obtain j where j: "j < length xs" "x = xs ! j" using assms(2) by (metis in_set_conv_nth)
  show ?thesis
  proof (cases "nat (ae_max_sessions env) = 0 \<or> strip u = []")
    case True
    then show ?thesis using assms(1,2) by (simp add: enforce_session_limit_def Let_def)
  next
    case False
    obtain zs act where l: "limit_scan env now (strip u) 0 xs = Inr (zs, act)"
      using assms(1) False by (auto simp: enforce_session_limit_def Let_def rbind_eq_Inr)
    note sc = limit_scan_other [OF l]
    have z: "length zs = length xs" "zs ! j = x" "j \<notin> set act" using sc j assms(3) by auto
    have "ys = zs \<or> (\<exists>is. ys = foldl revoke_at zs is \<and> set is \<subseteq> set act)"
    proof (cases "length act < nat (ae_max_sessions env)")
      case True
      then show ?thesis using assms(1) False l by (simp add: enforce_session_limit_def Let_def)
    next
      case big: False
      then have "\<exists>ages :: (int \<times> int) list. ys = foldl revoke_at zs (take (Suc (length act) - nat (ae_max_sessions env)) (map snd (sort_key fst (zip ages act))))"
        using assms(1) False l by (auto simp: enforce_session_limit_def Let_def rbind_eq_Inr)
      then obtain ages :: "(int \<times> int) list" where ys: "ys = foldl revoke_at zs (take (Suc (length act) - nat (ae_max_sessions env)) (map snd (sort_key fst (zip ages act))))" ..
      have "set (map snd (sort_key fst (zip ages act))) \<subseteq> set act" by (auto dest: set_zip_rightD)
      then have "set (take (Suc (length act) - nat (ae_max_sessions env)) (map snd (sort_key fst (zip ages act)))) \<subseteq> set act"
        by (meson in_set_takeD subset_iff)
      then show ?thesis using ys by blast
    qed
    then show ?thesis
    proof
      assume "ys = zs"
      then show ?thesis using z j by (metis nth_mem)
    next
      assume "\<exists>is. ys = foldl revoke_at zs is \<and> set is \<subseteq> set act"
      then obtain is' where "ys = foldl revoke_at zs is'" "j \<notin> set is'" using z(3) by blast
      then show ?thesis using revoke_at_other [of j is' zs] z j by (metis nth_mem)
    qed
  qed
qed

lemma scan_other:
  assumes "resolve_scan env now tok xs = Inr (hit, dirty, ys)" and "PDict (session_dict env z) \<in> set xs" and "\<not> ss_revoked z"
    and "ss_access z = tok \<longrightarrow> \<not> past_access env now z \<and> \<not> past_limits env now z"
  shows "PDict (session_dict env z) \<in> set ys \<or> ss_access z = tok \<and> PDict (session_dict env (touch now z)) \<in> set ys"
  using assms
proof (induction env now tok xs arbitrary: hit dirty ys rule: resolve_scan.induct)
  case (2 env now tok x xs)
  show ?case
  proof (cases "sat (live_with ''access_token'' tok) x")
    case False
    then show ?thesis using "2.IH"(1) [OF False] "2.prems" by (auto simp: rbind_eq_Inr)
  next
    case True
    then obtain b where b: "session_expired env now True (dict_of x) = Inr b" using "2.prems"(1) by (auto simp: rbind_eq_Inr)
    show ?thesis
    proof (cases "x = PDict (session_dict env z)")
      case x: True
      then have "\<not> b" "ss_access z = tok" using b True "2.prems"(3,4) by auto
      then show ?thesis using True b x "2.prems"(1) by auto
    next
      case x: False
      then have m: "PDict (session_dict env z) \<in> set xs" using "2.prems"(2) by auto
      show ?thesis
      proof (cases b)
        case bt: True
        then obtain h d ys1 where r: "resolve_scan env now tok xs = Inr (h, d, ys1)" "ys = PDict (mark_revoked (dict_of x)) # ys1"
          using True b "2.prems"(1) by (auto simp: rbind_eq_Inr)
        from "2.IH"(2) [OF _ bt r(1) m "2.prems"(3,4)] True r(2) show ?thesis by auto
      next
        case bf: False
        then show ?thesis using True b m "2.prems"(1) by auto
      qed
    qed
  qed
qed simp

subsection \<open>Sessions that stay alive\<close>

text \<open>The session a login issued is in the list, with its first access token and not revoked; it may have been used since.\<close>

definition holds_session :: "auth_env \<Rightarrow> issue_args \<Rightarrow> auth \<Rightarrow> bool" where
  "holds_session env ia s = (\<exists>z. PDict (session_dict env z) \<in> set (session_list s) \<and> ss_args z = ia
     \<and> ss_access z = ia_access_token ia \<and> \<not> ss_revoked z \<and> ia_now ia \<le> ss_last_seen z)"

text \<open>The operations that leave the session alone: refreshes and logouts of other tokens, revocations of other users,
  any operation on accounts and roles; its own access token may be used until a time that is within the limits.\<close>

definition spares :: "issue_args \<Rightarrow> int \<Rightarrow> auth_op \<Rightarrow> bool" where
  "spares ia until c = (case c of
      ARefresh now t r \<Rightarrow> strip r \<noteq> ia_refresh_token ia \<and> t \<noteq> ia_access_token ia
    | AResolve now t \<Rightarrow> strip t = ia_access_token ia \<longrightarrow> ia_now ia \<le> now \<and> now \<le> until
    | ARevoke t r \<Rightarrow> strip t \<noteq> ia_access_token ia \<and> strip r \<noteq> ia_refresh_token ia
    | ARevokeUser u \<Rightarrow> lower (strip u) \<noteq> lower (strip (ia_username ia))
    | _ \<Rightarrow> True)"

lemma within_limits:
  assumes "env_ok env" and "0 < ia_now ia" and "ss_args z = ia" and "ia_now ia \<le> ss_last_seen z"
    and "now \<le> ia_now ia + min (ae_access_ttl env) (ae_idle_timeout env)"
  shows "\<not> past_access env now z" "\<not> past_limits env now z"
  using assms by (auto simp: past_access_def past_limits_def Let_def env_ok_def)

lemma holds_cong: "session_list t = session_list s \<Longrightarrow> holds_session env ia t = holds_session env ia s"
  by (simp add: holds_session_def)

lemma holds_login:
  assumes h: "holds_session env ia s" and g: "\<forall>i \<in> set (granted env s (ALogin a)). lower (strip (ia_username i)) \<noteq> lower (strip (ia_username ia))"
  shows "holds_session env ia (snd (login env a s))"
proof (cases "\<exists>g. fst (login env a s) = Inr (Some g)")
  case False
  then have "au_sessions (snd (login env a s)) = au_sessions s" by (intro login_failure) auto
  then show ?thesis using h holds_cong [OF session_list_cong] by metis
next
  case True
  then obtain g where g': "fst (login env a s) = Inr (Some g)" by blast
  from login_success [OF g'] obtain user s1 s2 where
    l: "login_user a s = (Some user, s1)" "password_step env a user s1 = (Inr True, s2)"
      "issue_session env (login_issue a (login_subject a s)) s2 = (Inr g, snd (login env a s))" by metis
  have "au_sessions s2 = au_sessions s"
    using login_user_frame(2) [of a s] password_step_frame(2) [of env a user s1] l by simp
  then have s2: "session_list s2 = session_list s" by (rule session_list_cong)
  have "granted env s (ALogin a) = [login_issue a (login_subject a s)]" by (simp add: granted_def g')
  then have other: "lower (strip (ia_username (login_issue a (login_subject a s)))) \<noteq> lower (strip (ia_username ia))" using g by simp
  obtain z where z: "PDict (session_dict env z) \<in> set (session_list s)" "ss_args z = ia"
     "ss_access z = ia_access_token ia" "\<not> ss_revoked z" "ia_now ia \<le> ss_last_seen z" using h by (auto simp: holds_session_def)
  have "\<not> sat (same_user (strip (ia_username (login_issue a (login_subject a s))))) (PDict (session_dict env z))"
    using other z(2) by (auto simp: owner_def)
  from l(3) obtain xs where xs: "enforce_session_limit env (ia_now (login_issue a (login_subject a s)))
        (ia_username (login_issue a (login_subject a s))) (session_list s) = Inr xs"
      and e: "snd (login env a s) = write_sessions (xs @ [PDict (session_entry env (login_issue a (login_subject a s)))]) s2"
    unfolding issue_session_def s2 by (auto split: sum.splits)
  have "PDict (session_dict env z) \<in> set xs" by (rule enforce_other [OF xs z(1)]) fact
  then have "PDict (session_dict env z) \<in> set (session_list (snd (login env a s)))" unfolding e by simp
  then show ?thesis using z(2-5) by (auto simp: holds_session_def)
qed

lemma holds_entry:
  assumes "holds_session env ia s"
    and "\<And>z. ss_args z = ia \<Longrightarrow> ss_access z = ia_access_token ia \<Longrightarrow> \<not> ss_revoked z \<Longrightarrow>
      PDict (session_dict env z) \<in> set (session_list s) \<Longrightarrow> PDict (session_dict env z) \<in> set (session_list t)"
  shows "holds_session env ia t"
  using assms by (auto simp: holds_session_def)

lemma holds_refresh:
  assumes "holds_session env ia s" and "strip r \<noteq> ia_refresh_token ia"
  shows "holds_session env ia (snd (refresh env now t r s))"
proof (rule holds_entry [OF assms(1)])
  fix z assume z: "ss_args z = ia" "PDict (session_dict env z) \<in> set (session_list s)"
  then have "\<not> sat (live_with ''refresh_token'' (strip r)) (PDict (session_dict env z))" using assms(2) by simp
  then show "PDict (session_dict env z) \<in> set (session_list (snd (refresh env now t r s)))"
    using update_first_other [OF z(2)] z(2) by (auto simp: refresh_def Let_def split: option.split sum.split)
qed

lemma holds_resolve:
  assumes "holds_session env ia s" and env: "env_ok env" "0 < ia_now ia"
    and u: "strip t = ia_access_token ia \<longrightarrow> ia_now ia \<le> now \<and> now \<le> ia_now ia + min (ae_access_ttl env) (ae_idle_timeout env)"
  shows "holds_session env ia (snd (resolve_access_token env now t s))"
proof (cases "strip t = [] \<or> (\<forall>r. resolve_scan env now (strip t) (session_list s) \<noteq> Inr r)")
  case True
  then have "snd (resolve_access_token env now t s) = s"
    by (auto simp: resolve_access_token_def Let_def split: sum.splits)
  then show ?thesis using assms(1) by simp
next
  case False
  then obtain hit dirty ys where r: "resolve_scan env now (strip t) (session_list s) = Inr (hit, dirty, ys)" by (metis prod.exhaust)
  obtain z where z: "PDict (session_dict env z) \<in> set (session_list s)" "ss_args z = ia"
     "ss_access z = ia_access_token ia" "\<not> ss_revoked z" "ia_now ia \<le> ss_last_seen z" using assms(1) by (auto simp: holds_session_def)
  have "ss_access z = strip t \<longrightarrow> \<not> past_access env now z \<and> \<not> past_limits env now z"
    using u z(3) within_limits [OF env z(2,5), of now] by auto
  from scan_other [OF r z(1,4) this] have
    m: "PDict (session_dict env z) \<in> set ys \<or> ss_access z = strip t \<and> PDict (session_dict env (touch now z)) \<in> set ys" .
  have "holds_session env ia (write_sessions ys s)"
    using m z(2-5) u by (auto simp: holds_session_def touch_def intro: exI [of _ z] exI [of _ "touch now z"])
  then show ?thesis using assms(1) False
    by (auto simp: resolve_access_token_def Let_def r split: option.split)
qed

lemma holds_revoke:
  assumes "holds_session env ia s" and "strip t \<noteq> ia_access_token ia" "strip r \<noteq> ia_refresh_token ia"
  shows "holds_session env ia (snd (revoke t r s))"
proof (rule holds_entry [OF assms(1)])
  fix z assume z: "ss_args z = ia" "ss_access z = ia_access_token ia" "PDict (session_dict env z) \<in> set (session_list s)"
  then show "PDict (session_dict env z) \<in> set (session_list (snd (revoke t r s)))"
    using assms(2,3) by (auto simp: revoke_def Let_def intro!: update_all_other)
qed

lemma holds_revoke_user:
  assumes "holds_session env ia s" and "lower (strip u) \<noteq> lower (strip (ia_username ia))"
  shows "holds_session env ia (snd (revoke_user_sessions u s))"
proof (rule holds_entry [OF assms(1)])
  fix z assume z: "ss_args z = ia" "PDict (session_dict env z) \<in> set (session_list s)"
  then show "PDict (session_dict env z) \<in> set (session_list (snd (revoke_user_sessions u s)))"
    using assms(2) by (auto simp: revoke_user_sessions_def Let_def owner_def intro!: update_all_other)
qed

lemma holds_revoke_jti:
  assumes "holds_session env ia s"
  shows "holds_session env ia (snd (revoke_session_by_jti j s))"
proof (rule holds_entry [OF assms])
  fix z assume z: "PDict (session_dict env z) \<in> set (session_list s)"
  then show "PDict (session_dict env z) \<in> set (session_list (snd (revoke_session_by_jti j s)))"
    by (auto simp: revoke_session_by_jti_def Let_def intro!: update_first_other)
qed

lemma holds_step:
  assumes "holds_session env ia s" and env: "env_ok env" "0 < ia_now ia"
    and c: "spares ia until c" and until: "until \<le> ia_now ia + min (ae_access_ttl env) (ae_idle_timeout env)"
    and g: "\<forall>i \<in> set (granted env s c). lower (strip (ia_username i)) \<noteq> lower (strip (ia_username ia))"
  shows "holds_session env ia (auth_step env s c)"
proof -
  have keep: ?thesis if "au_sessions (auth_step env s c) = au_sessions s"
    using assms(1) holds_cong [OF session_list_cong [OF that]] by simp
  show ?thesis
  proof (cases c)
    case (ALogin a)
    then show ?thesis using holds_login [OF assms(1), of a] g by simp
  next
    case (ARefresh now t r)
    then show ?thesis using holds_refresh [OF assms(1), of r now t] c by (simp add: spares_def)
  next
    case (AResolve now t)
    have "holds_session env ia (snd (resolve_access_token env now t s))"
      by (rule holds_resolve [OF assms(1) env]) (use c until AResolve in \<open>auto simp: spares_def\<close>)
    then show ?thesis by (simp add: AResolve)
  next
    case (ARevoke t r)
    then show ?thesis using holds_revoke [OF assms(1), of t r] c by (simp add: spares_def)
  next
    case (ARevokeUser u)
    then show ?thesis using holds_revoke_user [OF assms(1), of u] c by (simp add: spares_def)
  next
    case (ARevokeJti j)
    then show ?thesis using holds_revoke_jti [OF assms(1), of j] by simp
  qed (rule keep; simp add: frame_simps)+
qed

lemma holds_run:
  assumes env: "env_ok env" "0 < ia_now ia" and until: "until \<le> ia_now ia + min (ae_access_ttl env) (ae_idle_timeout env)"
    and "holds_session env ia s" and "\<forall>c \<in> set cs. spares ia until c"
    and "\<forall>i \<in> set (grants env s cs). lower (strip (ia_username i)) \<noteq> lower (strip (ia_username ia))"
  shows "holds_session env ia (run (auth_step env) s cs)"
  using assms(4-6)
proof (induction cs arbitrary: s)
  case (Cons c cs)
  have "holds_session env ia (auth_step env s c)"
    by (rule holds_step [OF Cons.prems(1) env _ until]) (use Cons.prems in auto)
  then show ?case using Cons by simp
qed simp

lemma holds_resolves:
  assumes h: "holds_session env ia s" and ss: "session_list s = encoded env ss" and env: "env_ok env" "0 < ia_now ia"
    and t: "strip t = ia_access_token ia" "ia_access_token ia \<noteq> []" and now: "now \<le> ia_now ia + min (ae_access_ttl env) (ae_idle_timeout env)"
  shows "\<exists>i. fst (resolve_access_token env now t s) = Inr (Some i)"
proof -
  obtain z where z: "PDict (session_dict env z) \<in> set (session_list s)" "ss_args z = ia"
     "ss_access z = ia_access_token ia" "\<not> ss_revoked z" "ia_now ia \<le> ss_last_seen z" using h by (auto simp: holds_session_def)
  then obtain x where x: "x \<in> set ss" "session_dict env x = session_dict env z" using ss by (auto simp: encoded_def)
  have live: "\<not> ss_revoked x" "ss_access x = strip t"
    using arg_cong [OF x(2), of revoked] arg_cong [OF x(2), of "\<lambda>d. sget d ''access_token''"] z(3,4) t(1) by simp_all
  have "session_expired env now True (session_dict env x) = session_expired env now True (session_dict env z)" using x(2) by simp
  then have lim: "\<not> past_access env now x" "\<not> past_limits env now x"
    using within_limits [OF env z(2,5) now] z(4) by auto
  from resolve_scan_encoded [of env now "strip t" ss UNIV] obtain hit dirty ys where
    r: "resolve_scan env now (strip t) (encoded env ss) = Inr (map_option (session_dict env) hit, dirty, encoded env ys)"
    and hit: "hit = None \<longrightarrow> (\<forall>x \<in> set ss. \<not> ss_revoked x \<longrightarrow> ss_access x = strip t \<longrightarrow> past_access env now x \<or> past_limits env now x)" by blast
  from hit x live lim obtain y where "hit = Some y" by (cases hit) auto
  moreover have "strip t \<noteq> []" using t by simp
  ultimately show ?thesis by (simp add: resolve_access_token_def Let_def ss r)
qed

end
