(* ===== verification/AuthTokenProps.thy ===== *)
theory AuthTokenProps
  imports AuthSurvival
begin

text \<open>
  What ends a session and what does not: logout and revocation, the deletion or change of a user, the
  listing and revocation of single sessions, and the token of a fresh login.
\<close>

subsection \<open>Tokens of sessions that ended\<close>

lemma resolve_total: "session_list s = encoded env ss \<Longrightarrow> \<exists>r. fst (resolve_access_token env now t s) = Inr r"
  using resolve_scan_encoded [of env now "strip t" ss UNIV]
  by (auto simp: resolve_access_token_def Let_def split: option.splits)

lemma resolve_None:
  assumes "session_list s = encoded env ss" and "\<forall>x \<in> set ss. \<not> ss_revoked x \<longrightarrow> ss_access x \<noteq> strip t"
  shows "fst (resolve_access_token env now t s) = Inr None"
proof -
  obtain r where r: "fst (resolve_access_token env now t s) = Inr r" using resolve_total [OF assms(1)] by blast
  show ?thesis
  proof (cases r)
    case (Some i)
    with resolve_identity [OF assms(1), of now t i] r assms(2) show ?thesis by auto
  qed (simp add: r)
qed

lemma refresh_None:
  assumes "session_list s = encoded env ss" and "\<forall>x \<in> set ss. \<not> ss_revoked x \<longrightarrow> ia_refresh_token (ss_args x) \<noteq> strip r"
  shows "fst (refresh env now new r s) = Inr None"
proof -
  have "List.find (\<lambda>x. live_with ''refresh_token'' (strip r) (session_dict env x)) ss = None"
    using assms(2) by (auto simp: find_None_iff)
  then show ?thesis by (simp add: refresh_def Let_def assms(1) encoded_find)
qed

lemma evolved_live:
  assumes "all_evolve T ss ss'" and "y \<in> set ss'" and "\<not> ss_revoked y"
  shows "\<exists>x \<in> set ss. \<not> ss_revoked x \<and> ss_args y = ss_args x \<and> (ss_access y = ss_access x \<or> ss_access y \<in> T)"
proof -
  from assms(1,2) obtain x where "x \<in> set ss" "evolves T x y"
    by (metis in_set_conv_nth list_all2_conv_all_nth)
  then show ?thesis using assms(3) by (auto simp: evolves_def)
qed

lemma replace_all_kill: "x \<in> set (replace_all P kill ss) \<Longrightarrow> \<not> ss_revoked x \<Longrightarrow> x \<in> set ss \<and> \<not> P x"
  by (auto simp: replace_all_def kill_def split: if_splits)

text \<open>After a revocation by a condition no live session satisfies it.\<close>

lemma revoke_typed:
  assumes "session_list s = encoded env ss"
  shows "\<exists>ss'. session_list (snd (revoke t r s)) = encoded env ss' \<and> (\<forall>x \<in> set ss'. \<not> ss_revoked x \<longrightarrow>
     (strip t \<noteq> [] \<longrightarrow> ss_access x \<noteq> strip t) \<and> (strip r \<noteq> [] \<longrightarrow> ia_refresh_token (ss_args x) \<noteq> strip r))"
proof -
  let ?hit = "\<lambda>d. \<not> revoked d \<and> ((strip t \<noteq> [] \<and> sget d ''access_token'' = strip t) \<or> (strip r \<noteq> [] \<and> sget d ''refresh_token'' = strip r))"
  have k: "update_all ?hit mark_revoked (encoded env ss) = encoded env (replace_all (\<lambda>x. ?hit (session_dict env x)) kill ss)"
    by (rule encoded_update_all) simp
  show ?thesis
  proof (cases "(strip t = [] \<and> strip r = []) \<or> find_entry ?hit (encoded env ss) = None")
    case True
    then have "session_list (snd (revoke t r s)) = encoded env ss" by (auto simp: revoke_def Let_def assms)
    moreover have "\<forall>x \<in> set ss. \<not> ss_revoked x \<longrightarrow>
       (strip t \<noteq> [] \<longrightarrow> ss_access x \<noteq> strip t) \<and> (strip r \<noteq> [] \<longrightarrow> ia_refresh_token (ss_args x) \<noteq> strip r)"
      using True by (auto simp: encoded_find find_None_iff)
    ultimately show ?thesis by blast
  next
    case False
    then have "session_list (snd (revoke t r s)) = encoded env (replace_all (\<lambda>x. ?hit (session_dict env x)) kill ss)"
      by (auto simp: revoke_def Let_def assms k)
    then show ?thesis using replace_all_kill [of _ "\<lambda>x. ?hit (session_dict env x)" ss] by fastforce
  qed
qed

lemma revoke_user_typed:
  assumes "session_list s = encoded env ss" and u: "strip u \<noteq> []"
  shows "\<exists>ss'. session_list (snd (revoke_user_sessions u s)) = encoded env ss' \<and> (\<forall>x \<in> set ss'. \<not> ss_revoked x \<longrightarrow> owner x \<noteq> lower (strip u))"
proof -
  let ?hit = "\<lambda>d. \<not> revoked d \<and> same_user (strip u) d"
  have k: "update_all ?hit mark_revoked (encoded env ss) = encoded env (replace_all (\<lambda>x. ?hit (session_dict env x)) kill ss)"
    by (rule encoded_update_all) simp
  show ?thesis
  proof (cases "filter (sat ?hit) (encoded env ss) = []")
    case True
    then have "session_list (snd (revoke_user_sessions u s)) = encoded env ss" by (auto simp: revoke_user_sessions_def Let_def assms)
    moreover have "\<forall>x \<in> set ss. \<not> ss_revoked x \<longrightarrow> owner x \<noteq> lower (strip u)"
      using True by (auto simp: filter_empty_conv encoded_def)
    ultimately show ?thesis by blast
  next
    case False
    then have "session_list (snd (revoke_user_sessions u s)) = encoded env (replace_all (\<lambda>x. ?hit (session_dict env x)) kill ss)"
      using u by (simp add: revoke_user_sessions_def Let_def assms(1) k)
    then show ?thesis using replace_all_kill [of _ "\<lambda>x. ?hit (session_dict env x)" ss] by fastforce
  qed
qed

text \<open>C13: Logout is final. Once an access token and a refresh token are revoked, the access token resolves to
  nobody and the refresh token is refused in every later state, whatever happens in between, as long as
  the token generator does not produce the same token again.\<close>

theorem logout_is_final:
  assumes ok: "auth_sessions_ok env s" and t: "strip t \<noteq> []" and r: "strip r \<noteq> []"
    and ref: "\<forall>c \<in> set cs. strip t \<notin> new_tokens c"
    and gr: "\<forall>ia \<in> set (grants env (snd (revoke t r s)) cs). ia_access_token ia \<noteq> strip t \<and> ia_refresh_token ia \<noteq> strip r"
  shows "fst (resolve_access_token env now t (run (auth_step env) (snd (revoke t r s)) cs)) = Inr None
    \<and> fst (refresh env now new r (run (auth_step env) (snd (revoke t r s)) cs)) = Inr None"
proof -
  from ok obtain ss where "session_list s = encoded env ss" unfolding auth_sessions_ok_def by blast
  from revoke_typed [OF this, of t r] obtain ss1 where s1: "session_list (snd (revoke t r s)) = encoded env ss1"
    and dead: "\<forall>x \<in> set ss1. \<not> ss_revoked x \<longrightarrow> ss_access x \<noteq> strip t \<and> ia_refresh_token (ss_args x) \<noteq> strip r" using t r by blast
  define T where "T = \<Union> (new_tokens ` set cs)"
  have "\<forall>c \<in> set cs. new_tokens c \<subseteq> T" by (auto simp: T_def)
  from run_sessions [OF s1 this] obtain ss2 n where
    s2: "session_list (run (auth_step env) (snd (revoke t r s)) cs) = encoded env (ss2 @ n)" and e: "all_evolve T ss1 ss2"
    and n: "map ss_args n = grants env (snd (revoke t r s)) cs" "\<forall>y \<in> set n. ss_access y = ia_access_token (ss_args y) \<or> ss_access y \<in> T" by blast
  have tT: "strip t \<notin> T" using ref by (auto simp: T_def)
  have live: "ss_access y \<noteq> strip t \<and> ia_refresh_token (ss_args y) \<noteq> strip r" if y: "y \<in> set (ss2 @ n)" "\<not> ss_revoked y" for y
  proof (cases "y \<in> set ss2")
    case True
    from evolved_live [OF e True y(2)] dead tT show ?thesis by auto
  next
    case False
    with y have yn: "y \<in> set n" by simp
    then have "ss_args y \<in> set (grants env (snd (revoke t r s)) cs)" using n(1) by (metis image_eqI list.set_map)
    then show ?thesis using gr n(2) yn tT by auto
  qed
  show ?thesis using resolve_None [OF s2] refresh_None [OF s2] live by blast
qed

lemma demo_auth_ok: "auth_sessions_ok demo_auth_env demo_auth"
  unfolding demo_auth_run [symmetric] by (rule auth.run_inv [OF auth_sessions_ok_empty [OF demo_nobody_sessions]])

theorem logout_is_final_witness:
  "fst (resolve_access_token demo_auth_env 1100 ''a1'' (run (auth_step demo_auth_env) (snd (revoke ''a1'' ''r1'' demo_auth))
     [ALogin (demo_login 1050 ''2'')])) = Inr None"
proof -
  have "strip ''a1'' = ''a1''" "strip ''r1'' = ''r1''" by code_simp+
  then have tr: "strip ''a1'' \<noteq> []" "strip ''r1'' \<noteq> []" by simp_all
  have c: "\<forall>c \<in> set [ALogin (demo_login 1050 ''2'')]. strip ''a1'' \<notin> new_tokens c" by (simp add: new_tokens_def)
  have g: "\<forall>ia \<in> set (grants demo_auth_env (snd (revoke ''a1'' ''r1'' demo_auth)) [ALogin (demo_login 1050 ''2'')]).
      ia_access_token ia \<noteq> strip ''a1'' \<and> ia_refresh_token ia \<noteq> strip ''r1''"
    by code_simp
  show ?thesis using logout_is_final [OF demo_auth_ok tr c g, of 1100] by blast
qed

text \<open>C14: Revoking the sessions of a user locks the user out: no token resolves to that name, in any spelling,
  until a login for it succeeds.\<close>

theorem revoked_user_locked_out:
  assumes ok: "auth_sessions_ok env s" and u: "strip u \<noteq> []"
    and gr: "\<forall>ia \<in> set (grants env (snd (revoke_user_sessions u s)) cs). lower (strip (ia_username ia)) \<noteq> lower (strip u)"
    and i: "fst (resolve_access_token env now t (run (auth_step env) (snd (revoke_user_sessions u s)) cs)) = Inr (Some i)"
  shows "lower (id_username i) \<noteq> lower (strip u)"
proof -
  from ok obtain ss where "session_list s = encoded env ss" unfolding auth_sessions_ok_def by blast
  from revoke_user_typed [OF this u] obtain ss1 where s1: "session_list (snd (revoke_user_sessions u s)) = encoded env ss1"
    and dead: "\<forall>x \<in> set ss1. \<not> ss_revoked x \<longrightarrow> owner x \<noteq> lower (strip u)" by blast
  from run_sessions [OF s1, of cs UNIV] obtain ss2 n where
    s2: "session_list (run (auth_step env) (snd (revoke_user_sessions u s)) cs) = encoded env (ss2 @ n)" and e: "all_evolve UNIV ss1 ss2"
    and n: "map ss_args n = grants env (snd (revoke_user_sessions u s)) cs" by blast
  from resolve_identity [OF s2 i] have "\<exists>x. x \<in> set (ss2 @ n) \<and> \<not> ss_revoked x \<and> id_username i = strip (ia_username (ss_args x))"
    by (elim bexE conjE) (rule exI, intro conjI, assumption+, simp)
  then obtain x where
    x: "x \<in> set (ss2 @ n)" "\<not> ss_revoked x" "id_username i = strip (ia_username (ss_args x))" by blast
  have "owner x \<noteq> lower (strip u)"
  proof (cases "x \<in> set ss2")
    case True
    from evolved_live [OF e True x(2)] dead show ?thesis by (auto simp: owner_def)
  next
    case False
    with x(1) have "ss_args x \<in> set (grants env (snd (revoke_user_sessions u s)) cs)" using n by (metis Un_iff image_eqI list.set_map set_append)
    then show ?thesis using gr by (auto simp: owner_def)
  qed
  then show ?thesis using x(3) by (simp add: owner_def)
qed

theorem revoked_user_locked_out_witness:
  "lower ''bob'' \<noteq> lower (strip ''Alice'')"
proof -
  define cs where "cs = [ACreateUser 1040 ''salt'' ''bob'' ''password2'' ''ops'' True None PNone,
    ALogin (demo_login 1050 ''2'' \<lparr>la_username := ''bob'', la_password := ''password2''\<rparr>)]"
  have u: "strip ''Alice'' \<noteq> []" by code_simp
  have g: "\<forall>ia \<in> set (grants demo_auth_env (snd (revoke_user_sessions ''Alice'' demo_auth)) cs). lower (strip (ia_username ia)) \<noteq> lower (strip ''Alice'')"
    unfolding cs_def by code_simp
  have "fst (resolve_access_token demo_auth_env 1100 ''a2'' (run (auth_step demo_auth_env) (snd (revoke_user_sessions ''Alice'' demo_auth)) cs))
      = Inr (Some \<lparr>id_username = ''bob'', id_role = ''ops'', id_session_id = ''s2'', id_tenant_id = None\<rparr>)"
    unfolding cs_def by code_simp
  from revoked_user_locked_out [OF demo_auth_ok u g this] show ?thesis by simp
qed

subsection \<open>The token of a login\<close>

lemma resolve_live:
  assumes s: "session_list s = encoded env ss" and x: "x \<in> set ss" "\<not> ss_revoked x" "ss_access x = strip t" "strip t \<noteq> []"
    and lim: "\<not> past_access env now x" "\<not> past_limits env now x"
  shows "\<exists>i. fst (resolve_access_token env now t s) = Inr (Some i)"
proof -
  from resolve_scan_encoded [of env now "strip t" ss UNIV] obtain hit dirty ys where
    r: "resolve_scan env now (strip t) (encoded env ss) = Inr (map_option (session_dict env) hit, dirty, encoded env ys)"
    and h: "hit = None \<longrightarrow> (\<forall>x \<in> set ss. \<not> ss_revoked x \<longrightarrow> ss_access x = strip t \<longrightarrow> past_access env now x \<or> past_limits env now x)" by blast
  from h x lim obtain y where "hit = Some y" by (cases hit) auto
  then show ?thesis using x(4) by (simp add: resolve_access_token_def Let_def s r)
qed

text \<open>C16: A login takes effect and lasts: the access token it returns resolves to the user and the role of the login,
  whatever operations follow (logins, refreshes, logouts and revocations of other users and sessions, changes of
  accounts and roles, uses of the token itself), for as long as neither the access time nor the idle time
  after the login has passed. What may end it earlier is excluded: a further login of this user, the rotation or
  the revocation of its own tokens, the revocation of the user's sessions; and the token generator gives no
  token twice.\<close>

theorem login_token_resolves:
  assumes ok: "auth_sessions_ok env s" and env: "env_ok env" and g: "fst (login env a s) = Inr (Some g)"
    and t: "strip (la_access_token a) = la_access_token a" "la_access_token a \<noteq> []"
    and new: "\<forall>x \<in> set (session_list s). sget (dict_of x) ''access_token'' \<noteq> la_access_token a"
    and now: "0 < la_now a" "now \<le> la_now a + min (ae_access_ttl env) (ae_idle_timeout env)"
    and others: "\<forall>c \<in> set cs. spares (login_issue a (login_subject a s)) now c"
    and gr: "\<forall>ia \<in> set (grants env (snd (login env a s)) cs).
      lower (strip (ia_username ia)) \<noteq> lower (strip (sg_username g)) \<and> ia_access_token ia \<noteq> la_access_token a"
  shows "\<exists>i. fst (resolve_access_token env now (sg_access_token g) (run (auth_step env) (snd (login env a s)) cs)) = Inr (Some i)
    \<and> id_username i = sg_username g \<and> id_role i = sg_role g"
proof -
  let ?s = "run (auth_step env) (snd (login env a s)) cs"
  from ok obtain ss where ss: "session_list s = encoded env ss" unfolding auth_sessions_ok_def by blast
  define ia where "ia = login_issue a (login_subject a s)"
  have first: "granted env s (ALogin a) = [ia]" by (simp add: granted_def g ia_def)
  from login_effect [OF ss, of a "{}"] obtain ss' where
    s': "session_list (snd (login env a s)) = encoded env (ss' @ [fresh_session ia])" and e: "all_evolve {} ss ss'"
    unfolding first by auto
  have ia: "ia_now ia = la_now a" "ia_access_token ia = la_access_token a" by (simp_all add: ia_def login_issue_def)
  have name: "strip (ia_username ia) = strip (sg_username g)" using issue_grant(1) [OF g] by (simp add: ia_def subject_fields)
  have tok: "sg_access_token g = la_access_token a" by (rule issue_grant(3) [OF g])
  define T where "T = \<Union> (new_tokens ` set cs)"
  have tT: "la_access_token a \<notin> T" using others ia by (auto simp: T_def new_tokens_def spares_def ia_def [symmetric] split: auth_op.splits)
  have "\<forall>c \<in> set cs. new_tokens c \<subseteq> T" by (auto simp: T_def)
  from run_sessions [OF s' this] obtain ss2 n where
    s2: "session_list ?s = encoded env (ss2 @ n)" and e2: "all_evolve T (ss' @ [fresh_session ia]) ss2"
    and n: "map ss_args n = grants env (snd (login env a s)) cs" "\<forall>y \<in> set n. ss_access y = ia_access_token (ss_args y) \<or> ss_access y \<in> T" by blast
  have "holds_session env ia (snd (login env a s))"
    unfolding holds_session_def s' by (rule exI [of _ "fresh_session ia"]) (simp add: fresh_session_def)
  then have h: "holds_session env ia ?s"
    by (rule holds_run [OF env, rotated 2]) (use others gr now name ia in \<open>auto simp: ia_def\<close>)
  obtain i where i: "fst (resolve_access_token env now (sg_access_token g) ?s) = Inr (Some i)"
    using holds_resolves [OF h s2 env, of "sg_access_token g" now] now t tok ia by auto
  obtain x where x: "x \<in> set (ss2 @ n)" "\<not> ss_revoked x" "ss_access x = la_access_token a"
    "id_username i = strip (ia_username (ss_args x))" "id_role i = sor (strip (sor (ia_role (ss_args x)) ''viewer'')) ''viewer''"
    using resolve_identity [OF s2 i] t tok by fastforce
  have "x \<notin> set n"
  proof
    assume xn: "x \<in> set n"
    then have "ss_args x \<in> set (grants env (snd (login env a s)) cs)" using n(1) by (metis image_eqI list.set_map)
    then show False using gr n(2) xn x(3) tT by auto
  qed
  then obtain y where y: "y \<in> set (ss' @ [fresh_session ia])" "\<not> ss_revoked y" "ss_args x = ss_args y" "ss_access y = la_access_token a"
    using evolved_live [OF e2 _ x(2)] x(1,3) tT by fastforce
  have "y \<notin> set ss'"
  proof
    assume "y \<in> set ss'"
    from evolved_live [OF e this y(2)] y(4) obtain z where "z \<in> set ss" "ss_access z = la_access_token a" by auto
    then show False using new ss by (auto simp: encoded_def)
  qed
  then have "ss_args x = ia" using y(1,3) by (simp add: fresh_session_def)
  then have "id_username i = sg_username g \<and> id_role i = sg_role g"
    using x(4,5) issue_grant(1,2) [OF g] sor_idem by (simp add: ia_def subject_fields user_role_def)
  with i show ?thesis by blast
qed

text \<open>Alice logs in; another user is created and logs in, uses the new token and logs out again.\<close>

theorem login_token_resolves_witness:
  "\<exists>i. fst (resolve_access_token demo_auth_env 2000 ''a2'' (run (auth_step demo_auth_env)
      (snd (login demo_auth_env (demo_login 1010 ''2'') demo_auth))
      [ACreateUser 1040 ''salt'' ''bob'' ''password2'' ''ops'' True None PNone,
       ALogin (demo_login 1050 ''3'' \<lparr>la_username := ''bob'', la_password := ''password2''\<rparr>), AResolve 1060 ''a2'', ARevoke ''a3'' ''r3''])) = Inr (Some i)
    \<and> id_username i = ''alice'' \<and> id_role i = ''viewer''"
proof -
  let ?cs = "[ACreateUser 1040 ''salt'' ''bob'' ''password2'' ''ops'' True None PNone,
       ALogin (demo_login 1050 ''3'' \<lparr>la_username := ''bob'', la_password := ''password2''\<rparr>), AResolve 1060 ''a2'', ARevoke ''a3'' ''r3'']"
  have env: "env_ok demo_auth_env" unfolding demo_auth_env_def by (rule auth_service_ok)
  have g: "fst (login demo_auth_env (demo_login 1010 ''2'') demo_auth) = Inr (Some \<lparr>sg_access_token = ''a2'', sg_refresh_token = ''r2'',
      sg_expires_in = 3600, sg_username = ''alice'', sg_role = ''viewer'', sg_tenant_id = Some ''acme'', sg_totp_enabled = False\<rparr>)"
    by code_simp
  have t: "strip (la_access_token (demo_login 1010 ''2'')) = la_access_token (demo_login 1010 ''2'')"
    "la_access_token (demo_login 1010 ''2'') \<noteq> []" by code_simp+
  have new: "\<forall>x \<in> set (session_list demo_auth). sget (dict_of x) ''access_token'' \<noteq> la_access_token (demo_login 1010 ''2'')"
    by code_simp
  have now: "0 < la_now (demo_login 1010 ''2'')" "2000 \<le> la_now (demo_login 1010 ''2'') + min (ae_access_ttl demo_auth_env) (ae_idle_timeout demo_auth_env)"
    by code_simp+
  have sp: "\<forall>c \<in> set ?cs. spares (login_issue (demo_login 1010 ''2'') (login_subject (demo_login 1010 ''2'') demo_auth)) 2000 c" by code_simp
  have gr: "\<forall>ia \<in> set (grants demo_auth_env (snd (login demo_auth_env (demo_login 1010 ''2'') demo_auth)) ?cs).
      lower (strip (ia_username ia)) \<noteq> lower (strip (sg_username \<lparr>sg_access_token = ''a2'', sg_refresh_token = ''r2'',
      sg_expires_in = 3600, sg_username = ''alice'', sg_role = ''viewer'', sg_tenant_id = Some ''acme'', sg_totp_enabled = False\<rparr>))
      \<and> ia_access_token ia \<noteq> la_access_token (demo_login 1010 ''2'')" by code_simp
  from login_token_resolves [OF demo_auth_ok env g t new now sp gr] show ?thesis by simp
qed

subsection \<open>What does not end a session\<close>

lemma resolve_same_sessions:
  assumes "session_list s' = session_list s" and "fst (resolve_access_token env now t s) = Inr (Some i)"
  shows "fst (resolve_access_token env now t s') = Inr (Some (i\<lparr>id_tenant_id := get_user_tenant_id (id_username i) s'\<rparr>))"
  using assms by (auto simp: resolve_access_token_def Let_def split: sum.splits option.splits prod.splits if_splits)

lemma deleted_user_gone: "find_user u (snd (delete_user u s)) = None"
proof -
  have f: "find_entry P (filter (\<lambda>x. \<not> sat P x) xs) = None" for P xs by (auto simp: find_entry_def find_None_iff)
  show ?thesis
  proof (cases "length (filter (\<lambda>x. \<not> sat (same_user (strip u)) x) (user_list s)) = length (user_list s)")
    case True
    then have "filter (\<lambda>x. \<not> sat (same_user (strip u)) x) (user_list s) = user_list s" by (metis length_filter_less less_irrefl filter_True)
    then show ?thesis using True f [of "same_user (strip u)" "user_list s"] by (simp add: delete_user_def find_user_def Let_def)
  next
    case False
    then show ?thesis using f by (simp add: delete_user_def find_user_def Let_def)
  qed
qed

text \<open>Deleting a user does not end the user's sessions: an access token that resolved before resolves
  afterwards to the same user with the same role, and without a tenant, which is how an administrator of
  the whole platform looks. Changing a user, the role or a disabled account included, has no effect on
  what the token resolves to either, apart from the tenant.\<close>

lemma deleted_user_keeps_access:
  assumes "fst (resolve_access_token env now t s) = Inr (Some i)"
  shows "fst (resolve_access_token env now t (snd (delete_user (id_username i) s))) = Inr (Some (i\<lparr>id_tenant_id := None\<rparr>))
    \<and> (\<exists>tid. fst (resolve_access_token env now t (snd (update_user env salt u ch s))) = Inr (Some (i\<lparr>id_tenant_id := tid\<rparr>)))"
proof -
  have d: "session_list (snd (delete_user (id_username i) s)) = session_list s"
    by (rule session_list_cong) (simp add: frame_simps)
  have u: "session_list (snd (update_user env salt u ch s)) = session_list s"
    by (rule session_list_cong) (simp add: frame_simps)
  show ?thesis
    using resolve_same_sessions [OF d assms] resolve_same_sessions [OF u assms]
      deleted_user_gone [of "id_username i" s] by (auto simp: get_user_tenant_id_def)
qed

lemma active_scan_encoded:
  "\<exists>ls. active_scan env now u tid (encoded env ss) = Inr ls
     \<and> (\<forall>l \<in> set ls. sl_jti l = PStr [] \<and> sl_created_at l = PInt 0 \<and> sl_expires_at l = PInt 0 \<and> sl_ip l = PNone)"
proof (induction ss)
  case (Cons x ss)
  then obtain ls where ls: "active_scan env now u tid (encoded env ss) = Inr ls"
    "\<forall>l \<in> set ls. sl_jti l = PStr [] \<and> sl_created_at l = PInt 0 \<and> sl_expires_at l = PInt 0 \<and> sl_ip l = PNone" by blast
  have "session_listing_of (session_dict env x) \<in> {l. sl_jti l = PStr [] \<and> sl_created_at l = PInt 0 \<and> sl_expires_at l = PInt 0 \<and> sl_ip l = PNone}"
    by (simp add: session_listing_of_def)
  then show ?case using ls by auto
qed simp

text \<open>The sessions the service stores have none of the keys the administration of single sessions reads:
  every session is listed with an empty identifier, creation time, expiry and address, and revoking one by
  its identifier finds none.\<close>

lemma sessions_without_jti:
  assumes "session_list s = []"
  shows "revoke_session_by_jti j (run (auth_step env) s cs) = (False, run (auth_step env) s cs)
    \<and> (\<exists>ls. auth_active_sessions env now u tid (run (auth_step env) s cs) = Inr ls
         \<and> (\<forall>l \<in> set ls. sl_jti l = PStr [] \<and> sl_created_at l = PInt 0 \<and> sl_expires_at l = PInt 0 \<and> sl_ip l = PNone))"
proof -
  from run_from_empty [OF assms, of env cs] obtain ss where ss: "session_list (run (auth_step env) s cs) = encoded env ss" by blast
  have "strip j \<noteq> [] \<Longrightarrow> find_entry (live_with ''jti'' (strip j)) (encoded env ss) = None"
    by (auto simp: encoded_find find_None_iff)
  then have "revoke_session_by_jti j (run (auth_step env) s cs) = (False, run (auth_step env) s cs)"
    by (simp add: revoke_session_by_jti_def Let_def ss)
  then show ?thesis using active_scan_encoded [of env now u tid ss] by (simp add: auth_active_sessions_def ss)
qed

lemma sessions_without_jti_witness:
  "fst (revoke_session_by_jti ''s1'' demo_auth) = False"
  unfolding demo_auth_run [symmetric] using sessions_without_jti [OF demo_nobody_sessions] by (metis fst_conv)

end
