(* ===== verification/AuthRoles.thy ===== *)
theory AuthRoles
  imports AuthMachine "HOL-Library.Code_Target_Numeral"
begin

text \<open>
  The document of roles. From a missing file on, it is always in normal form: role names are distinct and
  lower case, permissions sorted and trimmed, and the built-in roles have their default permissions.
\<close>

subsection \<open>The normal form\<close>

definition role_doc :: "(string \<times> string list) list \<Rightarrow> dict" where
  "role_doc L = [(''roles'', PList (map (\<lambda>(n, ps). PDict (role_entry n ps)) L))]"

definition normal_role :: "string \<times> string list \<Rightarrow> bool" where
  "normal_role r = (fst r \<noteq> [] \<and> lower (strip (fst r)) = fst r \<and> sorted_set (snd r) = snd r
     \<and> list_all (\<lambda>p. p \<noteq> [] \<and> strip p = p) (snd r))"

text \<open>The default permissions of a built-in role, in the form they are stored.\<close>

definition default_permissions :: "dict \<Rightarrow> string list" where
  "default_permissions b = sorted_set (clean_texts (list_of (pget b ''permissions'')))"

definition roles_normal :: "(string \<times> string list) list \<Rightarrow> bool" where
  "roles_normal L = (list_all normal_role L \<and> wf_dict L
     \<and> list_all (\<lambda>b. map_of L (entry_name b) = Some (default_permissions b)) default_roles)"

definition roles_ok :: "auth \<Rightarrow> bool" where
  "roles_ok s = (au_roles s = None \<or> (\<exists>L. au_roles s = Some (PDict (role_doc L)) \<and> roles_normal L))"

definition default_table :: "(string \<times> string list) list" where
  "default_table = map (\<lambda>b. (entry_name b, default_permissions b)) default_roles"

lemma default_table_normal: "roles_normal default_table"
  by code_simp

lemma built_in_names: "list_all (\<lambda>b. entry_name b \<in> set BUILT_IN_ROLE_NAMES) default_roles"
  by code_simp

lemma sorted_set_idem [simp]: "sorted_set (sorted_set xs) = sorted_set xs"
proof -
  have "distinct (sort (remdups xs))" by simp
  then show ?thesis by (simp add: sorted_set_def distinct_remdups_id sorted_sort_id)
qed

lemma set_sorted_set [simp]: "set (sorted_set xs) = set xs"
  by (simp add: sorted_set_def)

subsection \<open>Loading a document in normal form\<close>

lemma role_entry_fields [simp]:
  "sget (role_entry n ps) ''name'' = n" "entry_name (role_entry n ps) = lower (strip n)"
  "pget (role_entry n ps) ''permissions'' = PList (map PStr ps)"
  by (simp_all add: role_entry_def entry_name_def stget_def)

lemma clean_trimmed: "list_all (\<lambda>p. p \<noteq> [] \<and> strip p = p) ps \<Longrightarrow> clean_texts (map PStr ps) = ps"
  by (induction ps) (auto simp: clean_texts_def)

lemma por_list: "por (PList xs) (PList []) = PList xs"
  by (simp add: por_def)

lemma entry_permissions_normal: "normal_role (n, ps) \<Longrightarrow> entry_permissions (role_entry n ps) = Inr ps"
  by (simp add: entry_permissions_def normal_role_def por_list clean_trimmed)

lemma normalize_normal:
  "list_all normal_role L \<Longrightarrow> normalize_roles (map (\<lambda>(n, ps). PDict (role_entry n ps)) L) = Inr (map (\<lambda>(n, ps). role_entry n ps) L)"
  by (induction L) (auto simp: entry_permissions_normal normal_role_def)

lemma views_normal:
  "list_all normal_role L \<Longrightarrow> role_views (map (\<lambda>(n, ps). PDict (role_entry n ps)) L) =
     Inr (map (\<lambda>(n, ps). \<lparr>rv_name = n, rv_permissions = ps, rv_built_in = n \<in> set BUILT_IN_ROLE_NAMES\<rparr>) L)"
  by (induction L) (auto simp: entry_permissions_normal normal_role_def Let_def)

lemma names_normal: "list_all normal_role L \<Longrightarrow> map entry_name (map (\<lambda>(n, ps). role_entry n ps) L) = map fst L"
  by (induction L) (auto simp: normal_role_def)

lemma persisted_normal: "persisted_roles (role_doc L) = Inr (map (\<lambda>(n, ps). PDict (role_entry n ps)) L)"
proof -
  have "persisted_role (role_entry n ps) = Inr (PDict (role_entry n ps))" for n ps
    by (simp add: persisted_role_def por_list) (simp add: role_entry_def)
  then have "rmap (\<lambda>x. persisted_role (dict_of x)) (map (\<lambda>(n, ps). PDict (role_entry n ps)) L) = Inr (map (\<lambda>(n, ps). PDict (role_entry n ps)) L)"
    by (induction L) auto
  moreover have "filter is_dict (map (\<lambda>(n, ps). PDict (role_entry n ps)) L) = map (\<lambda>(n, ps). PDict (role_entry n ps)) L"
    by (induction L) auto
  ultimately show ?thesis by (simp add: persisted_roles_def role_doc_def)
qed

lemma backfill_normal:
  assumes "roles_normal L"
  shows "backfill_roles (map (\<lambda>(n, ps). role_entry n ps) L) = map (\<lambda>(n, ps). role_entry n ps) L"
proof -
  have "entry_name b \<in> set (map fst L)" if "b \<in> set default_roles" for b
    using assms that by (auto simp: roles_normal_def list_all_iff image_iff dest!: bspec map_of_SomeD intro: bexI [rotated])
  then have "filter (\<lambda>b. entry_name b \<notin> set (map fst L)) default_roles = []" by (auto simp: filter_empty_conv)
  then show ?thesis using assms unfolding backfill_roles_def roles_normal_def by (simp add: names_normal del: map_map)
qed

lemma payload_normal:
  assumes "roles_normal L"
  shows "roles_payload (role_doc L) = Inr (role_doc L)"
proof -
  have "L \<noteq> []" using assms by (auto simp: roles_normal_def default_roles_def)
  moreover have "map PDict (map (\<lambda>(n, ps). role_entry n ps) L) = map (\<lambda>(n, ps). PDict (role_entry n ps)) L" by auto
  ultimately show ?thesis
    using backfill_normal [OF assms] normalize_normal [of L] assms
    by (simp add: roles_payload_def role_doc_def entries_def Let_def roles_normal_def del: map_map)
qed

lemma load_normal:
  assumes "au_roles s = Some (PDict (role_doc L))" and "roles_normal L"
  shows "load_roles_doc s = (Inr (role_doc L), s)"
  using assms by (simp add: load_roles_doc_def persisted_normal payload_normal role_doc_def [symmetric])

lemma load_missing:
  assumes "au_roles s = None"
  shows "load_roles_doc s = (Inr (role_doc default_table), s\<lparr>au_roles := Some (PDict (role_doc default_table))\<rparr>)"
proof -
  let ?d = "[(''roles'', PList (map PDict default_roles))]"
  have p: "persisted_roles ?d = Inr (map PDict default_roles)" by code_simp
  have q: "roles_payload ?d = Inr (role_doc default_table)" by code_simp
  have r: "PDict [(''roles'', PList (map PDict default_roles))] \<noteq> PDict (role_doc default_table)" by code_simp
  show ?thesis unfolding load_roles_doc_def assms using p q r by simp
qed

lemma load_ok:
  assumes "roles_ok s"
  shows "\<exists>L. roles_normal L \<and> load_roles_doc s = (Inr (role_doc L), s\<lparr>au_roles := Some (PDict (role_doc L))\<rparr>)"
proof (cases "au_roles s")
  case None
  then show ?thesis using load_missing default_table_normal by blast
next
  case (Some v)
  with assms obtain L where "au_roles s = Some (PDict (role_doc L))" "roles_normal L" by (auto simp: roles_ok_def)
  then show ?thesis using load_normal [of s L] by (intro exI [of _ L]) simp
qed

lemma list_roles_ok:
  assumes "roles_ok s"
  shows "\<exists>L. roles_normal L \<and> list_roles s = (Inr (sort_key rv_name (map (\<lambda>(n, ps).
     \<lparr>rv_name = n, rv_permissions = ps, rv_built_in = n \<in> set BUILT_IN_ROLE_NAMES\<rparr>) L)), s\<lparr>au_roles := Some (PDict (role_doc L))\<rparr>)"
proof -
  from load_ok [OF assms] obtain L where L: "roles_normal L" "load_roles_doc s = (Inr (role_doc L), s\<lparr>au_roles := Some (PDict (role_doc L))\<rparr>)" by blast
  have "role_views (entries ''roles'' (role_doc L)) =
     Inr (map (\<lambda>(n, ps). \<lparr>rv_name = n, rv_permissions = ps, rv_built_in = n \<in> set BUILT_IN_ROLE_NAMES\<rparr>) L)"
    using views_normal [of L] L(1) by (simp add: entries_def role_doc_def roles_normal_def)
  then show ?thesis using L by (intro exI [of _ L]) (simp add: list_roles_def abind_def)
qed

lemma find_member: "List.find P xs = Some x \<Longrightarrow> x \<in> set xs \<and> P x"
  by (auto simp: find_Some_iff)

lemma find_missing: "List.find P xs = None \<Longrightarrow> x \<in> set xs \<Longrightarrow> \<not> P x"
  by (simp add: find_None_iff)

text \<open>Looking a name up in the sorted list of distinct names.\<close>

lemma find_sorted_view:
  assumes "wf_dict L" and "map_of L n = Some ps"
  shows "List.find (\<lambda>r. rv_name r = n) (sort_key rv_name (map (\<lambda>(n, ps).
     \<lparr>rv_name = n, rv_permissions = ps, rv_built_in = n \<in> set BUILT_IN_ROLE_NAMES\<rparr>) L))
     = Some \<lparr>rv_name = n, rv_permissions = ps, rv_built_in = n \<in> set BUILT_IN_ROLE_NAMES\<rparr>"
    (is "List.find ?P ?xs = Some ?v")
proof -
  have v: "?v \<in> set ?xs" using map_of_SomeD [OF assms(2)] by force
  have u: "x = ?v" if "x \<in> set ?xs" "rv_name x = n" for x
    using that wf_dict_mem [OF assms(1)] assms(2) by auto
  show ?thesis
  proof (cases "List.find ?P ?xs")
    case None
    with find_missing [OF None v] show ?thesis by simp
  next
    case (Some x)
    have m: "x \<in> set ?xs \<and> rv_name x = n" by (rule find_member [OF Some])
    have "x = ?v" by (rule u [OF conjunct1 [OF m] conjunct2 [OF m]])
    then show ?thesis using Some by (simp only:)
  qed
qed

lemma role_permissions_normal:
  assumes "roles_ok s" and b: "b \<in> set default_roles"
  shows "fst (role_permissions (entry_name b) s) = Inr (default_permissions b)"
proof -
  have names: "list_all (\<lambda>b. lower (strip (entry_name b)) = entry_name b \<and> entry_name b \<noteq> []) default_roles" by code_simp
  have clean: "list_all (\<lambda>b. filter (\<lambda>t. t \<noteq> []) (map strip (default_permissions b)) = default_permissions b) default_roles" by code_simp
  from list_roles_ok [OF assms(1)] obtain L where L: "roles_normal L"
    "list_roles s = (Inr (sort_key rv_name (map (\<lambda>(n, ps).
     \<lparr>rv_name = n, rv_permissions = ps, rv_built_in = n \<in> set BUILT_IN_ROLE_NAMES\<rparr>) L)), s\<lparr>au_roles := Some (PDict (role_doc L))\<rparr>)" by blast
  have "wf_dict L" "map_of L (entry_name b) = Some (default_permissions b)" using L(1) b by (auto simp: roles_normal_def list_all_iff)
  from find_sorted_view [OF this] names clean b show ?thesis
    by (simp add: role_permissions_def Let_def L(2) abind_def list_all_iff)
qed

subsection \<open>Every operation keeps it\<close>

lemma roles_ok_cong: "au_roles s' = au_roles s \<Longrightarrow> roles_ok s' = roles_ok s"
  by (simp add: roles_ok_def)

lemma roles_ok_write [simp]:
  "roles_ok (write_users xs s) = roles_ok s" "roles_ok (persist_user_record d s) = roles_ok s"
  by (simp_all add: roles_ok_def)

lemma roles_ok_doc: "roles_normal L \<Longrightarrow> au_roles s = Some (PDict (role_doc L)) \<Longrightarrow> roles_ok s"
  by (auto simp: roles_ok_def)

lemma roles_ok_load: "roles_ok s \<Longrightarrow> roles_ok (snd (load_roles_doc s))"
  using load_ok [of s] by (auto intro: roles_ok_doc)

lemma roles_ok_list: "roles_ok s \<Longrightarrow> roles_ok (snd (list_roles s))"
  using roles_ok_load [of s] by (simp add: list_roles_def snd_abind split: sum.splits)

lemma roles_ok_exists: "roles_ok s \<Longrightarrow> roles_ok (snd (role_exists r s))"
  using roles_ok_list [of s] by (auto simp: role_exists_def snd_abind Let_def split: sum.splits)

lemma roles_ok_permissions: "roles_ok s \<Longrightarrow> roles_ok (snd (role_permissions r s))"
  using roles_ok_list [of s] by (auto simp: role_permissions_def snd_abind Let_def split: sum.splits)

lemma roles_ok_checked: "roles_ok s \<Longrightarrow> roles_ok (snd (checked_role r s))"
  using roles_ok_exists [of s] by (auto simp: checked_role_def snd_abind split: sum.splits)

lemma roles_ok_change: "roles_ok s \<Longrightarrow> roles_ok (snd (change_role r d s))"
  using roles_ok_checked [of s] by (auto simp: change_role_def snd_abind split: sum.splits option.splits)

lemma roles_ok_create: "roles_ok s \<Longrightarrow> roles_ok (snd (create_user env n sa u p r b t g s))"
  using roles_ok_checked [of s r] by (auto simp: create_user_def snd_abind Let_def split: sum.splits)

lemma roles_ok_update: "roles_ok s \<Longrightarrow> roles_ok (snd (update_user env sa u ch s))"
  using roles_ok_change [of s] by (auto simp: update_user_def snd_abind Let_def split: sum.splits option.splits)

lemma roles_ok_bootstrap: "roles_ok s \<Longrightarrow> roles_ok (snd (ensure_bootstrap_admin env n sa u p s))"
  using roles_ok_load [of s] by (auto simp: ensure_bootstrap_admin_def snd_abind Let_def split: sum.splits)

text \<open>A custom role replaces the one of its name or is appended; the built-in ones stay.\<close>

lemma entries_role_doc: "entries ''roles'' (role_doc L) = map (\<lambda>(n, ps). PDict (role_entry n ps)) L"
  by (simp add: entries_def role_doc_def)

lemma with_role_doc: "with_entries ''roles'' (map (\<lambda>(n, ps). PDict (role_entry n ps)) L') (role_doc L) = Some (PDict (role_doc L'))"
  by (simp add: with_entries_def role_doc_def)

lemma find_role: "list_all normal_role L \<Longrightarrow> find_entry (\<lambda>d. entry_name d = n) (map (\<lambda>(n, ps). PDict (role_entry n ps)) L) \<noteq> None \<longleftrightarrow> has_key L n"
  by (induction L) (auto simp: find_entry_def has_key_def normal_role_def)

lemma set_permissions: "dset ''permissions'' (PList (map PStr ps)) (role_entry n qs) = role_entry n ps"
  by (simp add: role_entry_def)

lemma update_role:
  "list_all normal_role L \<Longrightarrow> has_key L n \<Longrightarrow>
   update_first (\<lambda>d. entry_name d = n) (dset ''permissions'' (PList (map PStr ps))) (map (\<lambda>(n, ps). PDict (role_entry n ps)) L)
     = map (\<lambda>(n, ps). PDict (role_entry n ps)) (dset n ps L)"
proof (induction L)
  case (Cons a L)
  obtain m qs where a: "a = (m, qs)" by (cases a)
  have m: "lower (strip m) = m" using Cons.prems by (simp add: a normal_role_def)
  show ?case
  proof (cases "m = n")
    case True
    then show ?thesis using m by (simp add: a set_permissions)
  next
    case False
    then show ?thesis using m Cons by (simp add: a has_key_def)
  qed
qed (simp add: has_key_def)

lemma roles_normal_dset:
  assumes L: "roles_normal L" and r: "normal_role (n, ps)" and n: "n \<notin> set BUILT_IN_ROLE_NAMES"
  shows "roles_normal (dset n ps L)"
proof -
  have wf: "wf_dict L" using L by (simp add: roles_normal_def)
  have "list_all normal_role (dset n ps L)" using L r by (auto simp: roles_normal_def list_all_iff set_dset [OF wf])
  moreover have "list_all (\<lambda>b. map_of (dset n ps L) (entry_name b) = Some (default_permissions b)) default_roles"
    using L n built_in_names by (auto simp: roles_normal_def list_all_iff)
  ultimately show ?thesis using wf by (simp add: roles_normal_def)
qed

lemma roles_normal_ddel:
  assumes L: "roles_normal L" and n: "n \<notin> set BUILT_IN_ROLE_NAMES"
  shows "roles_normal (ddel n L)"
proof -
  have "list_all normal_role (ddel n L)" using L by (auto simp: roles_normal_def list_all_iff set_ddel)
  moreover have "list_all (\<lambda>b. map_of (ddel n L) (entry_name b) = Some (default_permissions b)) default_roles"
    using L n built_in_names by (auto simp: roles_normal_def list_all_iff)
  ultimately show ?thesis using L by (simp add: roles_normal_def)
qed

lemma role_char_not_space: "role_char c \<Longrightarrow> \<not> is_space c"
  by (auto simp: role_char_def is_alnum_def is_alpha_def is_digit_def is_space_def Let_def)

lemma valid_role_name:
  assumes "validate_role_name name = Inr n"
  shows "n = lower (strip name)" "n \<noteq> []" "lower (strip n) = n"
proof -
  show n: "n = lower (strip name)" and ne: "n \<noteq> []" using assms by (auto simp: validate_role_name_def Let_def split: if_splits)
  have "full_match (between 1 64 role_char) n" using assms by (auto simp: validate_role_name_def Let_def split: if_splits)
  then have "list_all role_char n" by (simp add: full_match_iff matches_between)
  then have "strip n = n" by (intro strip_no_space) (auto simp: list_all_iff role_char_not_space)
  then show "lower (strip n) = n" using n by simp
qed

lemma saved_permissions: "list_all (\<lambda>p. p \<noteq> [] \<and> strip p = p) (sorted_set (filter (\<lambda>t. t \<noteq> []) (map strip ps)))"
  by (auto simp: list_all_iff)

lemma roles_ok_save:
  assumes "roles_ok s"
  shows "roles_ok (snd (save_role name ps s))"
proof -
  from load_ok [OF assms] obtain L where L: "roles_normal L" "load_roles_doc s = (Inr (role_doc L), s\<lparr>au_roles := Some (PDict (role_doc L))\<rparr>)" by blast
  have norm: "list_all normal_role L" using L(1) by (simp add: roles_normal_def)
  show ?thesis
  proof (cases "validate_role_name name")
    case (Inl e)
    then show ?thesis using assms by (simp add: save_role_def)
  next
    case (Inr n)
    define qs where "qs = sorted_set (filter (\<lambda>t. t \<noteq> []) (map strip ps))"
    show ?thesis
    proof (cases "n \<in> set BUILT_IN_ROLE_NAMES")
      case True
      then show ?thesis using assms Inr by (simp add: save_role_def)
    next
      case False
      have r: "normal_role (n, qs)"
        using valid_role_name [OF Inr] saved_permissions [of ps] by (simp add: normal_role_def qs_def)
      have "au_roles (snd (save_role name ps s)) = Some (PDict (role_doc (dset n qs L)))"
      proof (cases "has_key L n")
        case True
        then obtain d where "find_entry (\<lambda>d. entry_name d = n) (map (\<lambda>(n, ps). PDict (role_entry n ps)) L) = Some d"
          using find_role [OF norm, of n] by auto
        then show ?thesis
          using Inr False L(2) update_role [OF norm True, of qs]
          by (simp add: save_role_def abind_def Let_def entries_role_doc qs_def [symmetric] with_role_doc)
      next
        case no: False
        then have "find_entry (\<lambda>d. entry_name d = n) (map (\<lambda>(n, ps). PDict (role_entry n ps)) L) = None"
          using find_role [OF norm, of n] by auto
        moreover have "map (\<lambda>(n, ps). PDict (role_entry n ps)) L @ [PDict (role_entry n qs)] = map (\<lambda>(n, ps). PDict (role_entry n ps)) (dset n qs L)"
          using dset_absent [OF no] by simp
        ultimately show ?thesis
          using Inr False L(2)
          by (simp add: save_role_def abind_def Let_def entries_role_doc qs_def [symmetric] with_role_doc)
      qed
      then show ?thesis by (rule roles_ok_doc [OF roles_normal_dset [OF L(1) r False]])
    qed
  qed
qed

lemma filter_roles: "list_all normal_role L \<Longrightarrow>
    filter (\<lambda>x. \<not> sat (\<lambda>d. entry_name d = n) x) (map (\<lambda>(n, ps). PDict (role_entry n ps)) L)
      = map (\<lambda>(n, ps). PDict (role_entry n ps)) (ddel n L)"
  by (induction L) (auto simp: normal_role_def AList.delete_eq)

lemma roles_ok_delete:
  assumes "roles_ok s"
  shows "roles_ok (snd (delete_role name s))"
proof -
  from load_ok [OF assms] obtain L where L: "roles_normal L" "load_roles_doc s = (Inr (role_doc L), s\<lparr>au_roles := Some (PDict (role_doc L))\<rparr>)" by blast
  define n where "n = lower (strip name)"
  have f: "filter (\<lambda>x. \<not> sat (\<lambda>d. entry_name d = n) x) (map (\<lambda>(n, ps). PDict (role_entry n ps)) L)
      = map (\<lambda>(n, ps). PDict (role_entry n ps)) (ddel n L)"
    using L(1) filter_roles by (simp add: roles_normal_def)
  show ?thesis
  proof (cases "n = [] \<or> n \<in> set BUILT_IN_ROLE_NAMES")
    case True
    then show ?thesis using assms by (auto simp: delete_role_def Let_def n_def)
  next
    case False
    then have "au_roles (snd (delete_role name s)) \<in> {Some (PDict (role_doc L)), Some (PDict (role_doc (ddel n L)))}"
      by (simp add: delete_role_def abind_def Let_def L(2) entries_role_doc n_def [symmetric] f with_role_doc)
    then show ?thesis using roles_ok_doc L(1) roles_normal_ddel [OF L(1)] False by blast
  qed
qed

lemma roles_ok_complete: "roles_ok s \<Longrightarrow> roles_ok (snd (complete_onboarding env n1 n2 n3 n4 sa u p b d s))"
proof -
  assume s: "roles_ok s"
  have st: "roles_ok (snd (onboarding_status n b d s)) = roles_ok s" for n b d s
    by (rule roles_ok_cong) (simp add: frame_simps)
  have wr: "roles_ok (write_onboarding ob s) = roles_ok s" for ob s by (rule roles_ok_cong) simp
  have s1: "roles_ok (snd (onboarding_status n1 b d s))" using s st by simp
  show ?thesis
    using s s1 roles_ok_create [OF s1] roles_ok_update [OF s1]
    by (auto simp: complete_onboarding_def snd_abind Let_def st wr split: sum.splits)
qed

lemma roles_ok_step: "roles_ok s \<Longrightarrow> roles_ok (auth_step env s c)"
proof -
  assume s: "roles_ok s"
  have keep: "roles_ok (auth_step env s c)" if "au_roles (auth_step env s c) = au_roles s"
    using roles_ok_cong [OF that] s by simp
  show ?thesis
  proof (cases c)
    case (ABootstrap n sa u p)
    then show ?thesis using roles_ok_bootstrap [OF s] by simp
  next
    case (ACreateUser n sa u p r b t g)
    then show ?thesis using roles_ok_create [OF s] by simp
  next
    case (AUpdateUser sa u ch)
    then show ?thesis using roles_ok_update [OF s] by simp
  next
    case (ASaveRole n ps)
    then show ?thesis using roles_ok_save [OF s] by simp
  next
    case (ADeleteRole n)
    then show ?thesis using roles_ok_delete [OF s] by simp
  next
    case AListRoles
    then show ?thesis using roles_ok_list [OF s] by simp
  next
    case (ARolePermissions r)
    then show ?thesis using roles_ok_permissions [OF s] by simp
  next
    case (ACompleteOnboarding n1 n2 n3 n4 sa u p b d)
    then show ?thesis using roles_ok_complete [OF s] by simp
  qed (rule keep; simp add: frame_simps)+
qed

interpretation auth_roles: machine "auth_step env" roles_ok for env
  by unfold_locales (rule roles_ok_step)

end
