(* ===== verification/AuthUserKeys.thy ===== *)
theory AuthUserKeys
  imports AuthRoles
begin

text \<open>
  User names are unique without regard to case: every operation of the service keeps the keys of the
  user entries distinct, the LDAP shadow accounts included.
\<close>

definition dicts :: "py list \<Rightarrow> dict list" where
  "dicts xs = map dict_of (filter is_dict xs)"

definition ukeys :: "py list \<Rightarrow> string list" where
  "ukeys xs = map user_key (dicts xs)"

definition users_ok :: "auth \<Rightarrow> bool" where
  "users_ok s = distinct (ukeys (user_list s))"

lemma ukeys_simps [simp]:
  "ukeys [] = []" "ukeys (x # xs) = (if is_dict x then user_key (dict_of x) # ukeys xs else ukeys xs)"
  "ukeys (xs @ ys) = ukeys xs @ ukeys ys"
  by (simp_all add: ukeys_def dicts_def)

lemma find_key: "find_entry (\<lambda>d. user_key d = k) xs = None \<longleftrightarrow> k \<notin> set (ukeys xs)"
  by (induction xs) (auto simp: find_entry_def sat_def)

lemma find_same: "find_entry (same_user n) xs = None \<longleftrightarrow> lower n \<notin> set (ukeys xs)"
proof -
  have "same_user n = (\<lambda>d. user_key d = lower n)" by (auto simp: same_user_def)
  then show ?thesis by (simp add: find_key)
qed

lemma find_entry_sat: "find_entry P xs = Some d \<Longrightarrow> P d \<and> PDict d \<in> set xs"
proof (induction xs)
  case (Cons x xs)
  then show ?case by (cases x) (auto simp: find_entry_def sat_def split: if_splits)
qed (simp add: find_entry_def)

lemma ukeys_update_first: "(\<And>d. P d \<Longrightarrow> user_key (f d) = user_key d) \<Longrightarrow> ukeys (update_first P f xs) = ukeys xs"
  by (induction xs) (auto simp: sat_def)

lemma ukeys_update_all: "(\<And>d. P d \<Longrightarrow> user_key (f d) = user_key d) \<Longrightarrow> ukeys (update_all P f xs) = ukeys xs"
  by (induction xs) (auto simp: sat_def update_all_def)

lemma ukeys_filter: "distinct (ukeys xs) \<Longrightarrow> distinct (ukeys (filter Q xs))"
proof (induction xs)
  case (Cons x xs)
  have "set (ukeys (filter Q xs)) \<subseteq> set (ukeys xs)" by (auto simp: ukeys_def dicts_def)
  then show ?case using Cons by (auto split: if_splits)
qed simp

lemma user_key_dset: "k \<noteq> ''username'' \<Longrightarrow> user_key (dset k v d) = user_key d"
  by (simp add: user_key_def stget_def)

lemma user_key_ddel: "k \<noteq> ''username'' \<Longrightarrow> user_key (ddel k d) = user_key d"
  by (simp add: user_key_def stget_def sget_def)

lemma user_key_first: "user_key ((''username'', PStr n) # d) = lower (strip n)"
  by (simp add: user_key_def stget_def)

lemma users_ok_cong: "au_users s' = au_users s \<Longrightarrow> users_ok s' = users_ok s"
  using user_list_cong [of s' s] by (simp add: users_ok_def)

lemma users_ok_write: "users_ok (write_users xs s) = distinct (ukeys xs)"
  by (simp add: users_ok_def)

lemma users_ok_persist: "users_ok s \<Longrightarrow> users_ok (persist_user_record d s)"
proof -
  assume s: "users_ok s"
  show ?thesis
  proof (cases "find_entry (\<lambda>e. user_key e = user_key d) (user_list s)")
    case None
    then show ?thesis using s find_key [of "user_key d" "user_list s"]
      by (simp add: persist_user_record_def Let_def users_ok_write) (simp add: users_ok_def)
  next
    case (Some e)
    then show ?thesis using s
      by (simp add: persist_user_record_def Let_def users_ok_write ukeys_update_first) (simp add: users_ok_def)
  qed
qed

lemma valid_username: "validate_username u = Inr n \<Longrightarrow> n = strip u \<and> strip n = n \<and> n \<noteq> []"
  by (auto simp: validate_username_def Let_def split: if_splits)

lemma users_ok_add:
  assumes "users_ok s" and "find_entry (same_user n) (user_list s) = None" and "strip n = n"
  shows "users_ok (write_users (user_list s @ [PDict ((''username'', PStr n) # d)]) s)"
  using assms by (simp add: users_ok_write find_same user_key_first) (simp add: users_ok_def)

lemma users_ok_create:
  assumes "users_ok s"
  shows "users_ok (snd (create_user env n sa u p r b t g s))"
proof (cases "validate_username u")
  case (Inl e)
  then show ?thesis using assms by (simp add: create_user_def)
next
  case (Inr un)
  show ?thesis
  proof (cases "check_password p")
    case (Inl e)
    then show ?thesis using assms Inr by (simp add: create_user_def)
  next
    case pw: (Inr passwd)
    obtain q s' where c: "checked_role r s = (q, s')" by (cases "checked_role r s")
    then have s': "users_ok s'" using checked_role_frame(1) [of r s] users_ok_cong [of s' s] assms by simp
    show ?thesis
      using s' users_ok_add [OF s', of un] valid_username [OF Inr]
      by (auto simp: create_user_def Inr pw c abind_def Let_def new_user_entry_def split: sum.splits)
  qed
qed

lemma change_keys: "user_key (change_enabled b d) = user_key d" "user_key (change_tenant t d) = user_key d"
  "user_key (change_geo g d) = user_key d"
  by (auto simp: change_enabled_def change_tenant_def change_geo_def Let_def user_key_dset user_key_ddel split: option.splits)

lemma change_password_key: "change_password env sa p d = Inr d' \<Longrightarrow> user_key d' = user_key d"
  by (auto simp: change_password_def rbind_eq_Inr user_key_dset split: option.splits)

lemma change_role_key: "change_role r d s = (Inr d', s') \<Longrightarrow> user_key d' = user_key d"
  by (auto simp: change_role_def abind_def user_key_dset split: option.splits sum.splits prod.splits)

lemma users_ok_update:
  assumes "users_ok s"
  shows "users_ok (snd (update_user env sa u ch s))"
proof (cases "validate_username u")
  case (Inl e)
  then show ?thesis using assms by (simp add: update_user_def)
next
  case (Inr un)
  show ?thesis
  proof (cases "find_entry (same_user un) (user_list s)")
    case None
    then show ?thesis using assms Inr by (simp add: update_user_def)
  next
    case (Some target)
    then have key: "user_key target = lower un" using find_entry_sat [OF Some] by (simp add: same_user_def)
    obtain q s' where c: "change_role (uc_role ch) target s = (q, s')" by (cases "change_role (uc_role ch) target s")
    then have s': "users_ok s'" using change_role_frame(1) [of "uc_role ch" target s] users_ok_cong [of s' s] assms by simp
    show ?thesis
    proof (cases q)
      case (Inl e)
      then show ?thesis using s' by (simp add: update_user_def Inr Some c abind_def)
    next
      case t1: (Inr t1)
      show ?thesis
      proof (cases "change_password env sa (uc_password ch) (change_enabled (uc_enabled ch) t1)")
        case (Inl e)
        then show ?thesis using s' by (simp add: update_user_def Inr Some c t1 abind_def)
      next
        case t2: (Inr t2)
        define t3 where "t3 = ddel ''bootstrap_only'' (change_geo (uc_geo ch) (change_tenant (uc_tenant_id ch) t2))"
        have "user_key t3 = lower un"
          using change_password_key [OF t2] change_role_key [of "uc_role ch" target s t1 s'] c t1 key
          by (simp add: t3_def user_key_ddel change_keys)
        then have "ukeys (update_first (same_user un) (\<lambda>_. t3) (user_list s')) = ukeys (user_list s')"
          by (intro ukeys_update_first) (simp add: same_user_def)
        then show ?thesis
          using s' by (simp add: update_user_def Inr Some c t1 abind_def t2 Let_def t3_def [symmetric] users_ok_write) (simp add: users_ok_def)
      qed
    qed
  qed
qed

lemma users_ok_bootstrap:
  assumes "users_ok s"
  shows "users_ok (snd (ensure_bootstrap_admin env n sa u p s))"
proof -
  obtain q s' where l: "load_roles_doc s = (q, s')" by (cases "load_roles_doc s")
  then have s': "users_ok s'" using load_roles_frame(1) [of s] users_ok_cong [of s' s] assms by simp
  show ?thesis
    using s' users_ok_add [OF s', of "strip u"]
    by (auto simp: ensure_bootstrap_admin_def l abind_def Let_def split: sum.splits)
qed

lemma users_ok_provision:
  "users_ok s \<Longrightarrow> users_ok (snd (provision_ldap_shadow_user l n u p d s))"
  by (auto simp: provision_ldap_shadow_user_def Let_def users_ok_persist split: option.splits py.splits)

lemma users_ok_login: "users_ok s \<Longrightarrow> users_ok (snd (login env a s))"
proof -
  assume s: "users_ok s"
  obtain u s1 where lu: "login_user a s = (u, s1)" by (cases "login_user a s")
  then have s1: "users_ok s1" using s users_ok_provision [OF s]
    by (auto simp: login_user_def split: option.splits) (metis snd_conv)
  have pw: "users_ok (snd (password_step env a user s1))" for user
    using s1 users_ok_provision [OF s1] by (auto simp: password_step_def case_prod_unfold Let_def)
  have iss: "users_ok (snd (issue_session env ia s')) = users_ok s'" for ia s'
    by (rule users_ok_cong) (simp add: frame_simps)
  show ?thesis
    using s s1 pw by (auto simp: login_def lu snd_abind iss split: option.splits sum.splits)
qed

lemma users_ok_totp: "users_ok s \<Longrightarrow> users_ok (snd (enroll_totp rnd u s))" "users_ok s \<Longrightarrow> users_ok (snd (disable_totp u s))"
  by (auto simp: enroll_totp_def disable_totp_def Let_def users_ok_persist split: option.splits)

lemma users_ok_delete: "users_ok s \<Longrightarrow> users_ok (snd (delete_user u s))"
  by (auto simp: delete_user_def Let_def users_ok_write ukeys_filter) (auto simp: users_ok_def ukeys_filter)

lemma users_ok_delete_role: "users_ok s \<Longrightarrow> users_ok (snd (delete_role n s))"
proof -
  assume s: "users_ok s"
  obtain q s' where l: "load_roles_doc s = (q, s')" by (cases "load_roles_doc s")
  then have s': "users_ok s'" using load_roles_frame(1) [of s] users_ok_cong [of s' s] s by simp
  have w: "users_ok (t\<lparr>au_roles := r, au_users := with_entries ''users'' xs (load_users_doc t)\<rparr>) = distinct (ukeys xs)" for t r xs
    by (simp add: users_ok_def user_list_def load_users_doc_def)
  have k: "distinct (ukeys (update_all P (dset ''role'' (PStr ''viewer'')) (entries ''users'' (load_users_doc s'))))" for P
    using s' by (subst ukeys_update_all) (auto simp: user_key_dset users_ok_def user_list_def)
  show ?thesis
    using s s' k by (auto simp: delete_role_def l abind_def Let_def w split: sum.splits)
qed

lemma users_ok_status: "users_ok s \<Longrightarrow> users_ok (snd (onboarding_status n b d s))"
proof -
  assume s: "users_ok s"
  have dr: "users_ok (snd (drop_bootstrap_users b' vs s))" for b' vs
    using s by (auto simp: drop_bootstrap_users_def Let_def users_ok_write ukeys_filter) (auto simp: users_ok_def ukeys_filter)
  have dec: "users_ok (snd (onboarding_decision n' b' ob vs s')) = users_ok s'" for n' b' ob vs s'
    by (rule users_ok_cong) (simp add: frame_simps)
  show ?thesis
    using s dr by (auto simp: onboarding_status_def snd_abind Let_def case_prod_unfold dec split: sum.splits)
qed

lemma users_ok_complete: "users_ok s \<Longrightarrow> users_ok (snd (complete_onboarding env n1 n2 n3 n4 sa u p b d s))"
proof -
  assume s: "users_ok s"
  have wr: "users_ok (write_onboarding ob s) = users_ok s" for ob s by (rule users_ok_cong) simp
  have s1: "users_ok (snd (onboarding_status n1 b d s))" by (rule users_ok_status [OF s])
  show ?thesis
    using s s1 users_ok_create [OF s1] users_ok_update [OF s1] users_ok_status wr
    by (auto simp: complete_onboarding_def snd_abind Let_def split: sum.splits)
qed

lemma users_ok_step: "users_ok s \<Longrightarrow> users_ok (auth_step env s c)"
proof -
  assume s: "users_ok s"
  have keep: "users_ok (auth_step env s c)" if "au_users (auth_step env s c) = au_users s"
    using users_ok_cong [OF that] s by simp
  show ?thesis
  proof (cases c)
    case (ALogin a)
    then show ?thesis using users_ok_login [OF s] by simp
  next
    case (ABootstrap n sa u p)
    then show ?thesis using users_ok_bootstrap [OF s] by simp
  next
    case (ACreateUser n sa u p r b t g)
    then show ?thesis using users_ok_create [OF s] by simp
  next
    case (AUpdateUser sa u ch)
    then show ?thesis using users_ok_update [OF s] by simp
  next
    case (ADeleteUser u)
    then show ?thesis using users_ok_delete [OF s] by simp
  next
    case (ADeleteRole n)
    then show ?thesis using users_ok_delete_role [OF s] by simp
  next
    case (AEnrollTotp rnd u)
    then show ?thesis using users_ok_totp(1) [OF s] by simp
  next
    case (ADisableTotp u)
    then show ?thesis using users_ok_totp(2) [OF s] by simp
  next
    case (AOnboardingStatus n b d)
    then show ?thesis using users_ok_status [OF s] by simp
  next
    case (ACompleteOnboarding n1 n2 n3 n4 sa u p b d)
    then show ?thesis using users_ok_complete [OF s] by simp
  qed (rule keep; simp add: frame_simps)+
qed

interpretation auth_users: machine "auth_step env" users_ok for env
  by unfold_locales (rule users_ok_step)

end
