(* ===== verification/AuthAccountProps.thy ===== *)
theory AuthAccountProps
  imports AuthTokenProps AuthUserKeys Authz
begin

text \<open>
  Properties of accounts, roles and credentials: unique names, protected roles and what they mean at the
  authorization gate, password hashes, one-time codes, and the onboarding of the first administrator.
\<close>

subsection \<open>Names\<close>

lemma users_ok_fresh: "au_users s = None \<Longrightarrow> users_ok s"
  by (simp add: users_ok_def user_list_def load_users_doc_def load_list_doc_def entries_def)

lemma view_key: "user_view_of d = Inr v \<Longrightarrow> lower (uv_username v) = user_key d"
  by (auto simp: user_view_of_def rbind_eq_Inr user_key_def)

lemma view_keys:
  "rmap (\<lambda>x. user_view_of (dict_of x)) xs = Inr vs \<Longrightarrow> map (\<lambda>v. lower (uv_username v)) vs = map (\<lambda>x. user_key (dict_of x)) xs"
  by (induction xs arbitrary: vs) (auto simp: rbind_eq_Inr view_key)

lemma filter_sat: "filter is_dict (filter (sat P) xs) = filter (sat P) xs"
  by (induction xs) (auto simp: sat_def)

text \<open>User names are unique without regard to case in every run that starts without users, shadow
  accounts of the LDAP server and the bootstrap administrator included.\<close>

lemma usernames_unique:
  assumes "au_users s = None" and "list_users tid (run (auth_step env) s cs) = Inr vs"
  shows "distinct (map (\<lambda>v. lower (uv_username v)) vs)"
proof -
  let ?t = "run (auth_step env) s cs"
  let ?P = "sat (\<lambda>d. tid = None \<or> user_tenant d = tid)"
  have ok: "users_ok ?t" by (rule auth_users.run_inv [OF users_ok_fresh [OF assms(1)]])
  from assms(2) obtain us where us: "rmap (\<lambda>x. user_view_of (dict_of x)) (filter ?P (user_list ?t)) = Inr us"
    and vs: "vs = sort_key (\<lambda>v. lower (uv_username v)) us" by (auto simp: list_users_def rbind_eq_Inr)
  have "distinct (ukeys (filter ?P (user_list ?t)))" using ok ukeys_filter by (simp add: users_ok_def)
  moreover have "filter is_dict (filter ?P (user_list ?t)) = filter ?P (user_list ?t)"
    using filter_sat [of _ "user_list ?t"] .
  ultimately have "distinct (map (\<lambda>v. lower (uv_username v)) us)"
    using view_keys [OF us] by (simp add: ukeys_def dicts_def comp_def)
  then show ?thesis unfolding vs by (metis distinct_map distinct_sort set_sort)
qed

subsection \<open>Roles and the gate\<close>

text \<open>The built-in roles keep their default permissions in every run that starts without a file of
  roles: no sequence of role changes, deletions and user operations grants or takes a permission.\<close>

lemma built_in_roles_fixed:
  assumes "au_roles s = None" and "b \<in> set default_roles"
  shows "fst (role_permissions (entry_name b) (run (auth_step env) s cs)) = Inr (default_permissions b)"
proof -
  have "roles_ok s" using assms(1) by (simp add: roles_ok_def)
  then have "roles_ok (run (auth_step env) s cs)" by (rule auth_roles.run_inv)
  then show ?thesis using assms(2) by (rule role_permissions_normal)
qed

text \<open>The table of permissions the gate asks for: \<open>role_permissions\<close> on the current state.\<close>

definition permissions_in :: "auth \<Rightarrow> string \<Rightarrow> string set" where
  "permissions_in s r = (case fst (role_permissions r s) of Inl e \<Rightarrow> {} | Inr ps \<Rightarrow> set ps)"

lemma entry_name_trim: "list_all (\<lambda>b. sor (lower (strip (sor (entry_name b) ''viewer''))) ''viewer'' = entry_name b) default_roles"
  by code_simp

lemma resolve_roles: "roles_ok (snd (resolve_access_token env now t s)) = roles_ok s"
  by (rule roles_ok_cong) (simp add: frame_simps)

text \<open>C12: From login to gate: in a run of a fresh installation, a request with an access token that resolves to a
  built-in role passes the gate exactly when the route needs no permission or the default permissions of
  that role, as they were installed, allow it, and a login of this run granted that role.\<close>

theorem session_passes_gate_by_role:
  assumes fresh: "au_roles s = None" "session_list s = []" and env: "env_ok env" and b: "b \<in> set default_roles"
    and i: "fst (resolve_access_token env now t (run (auth_step env) s cs)) = Inr (Some i)" and r: "id_role i = entry_name b"
  shows "authorize_or_respond (permissions_in (snd (resolve_access_token env now t (run (auth_step env) s cs)))) (Some (id_role i)) verb path
      = is_allowed (entry_name b) (required_permission verb path) (set (default_permissions b))
    \<and> (\<exists>ia \<in> set (grants env s cs). sor (strip (sor (ia_role ia) ''viewer'')) ''viewer'' = entry_name b)"
proof -
  let ?s' = "snd (resolve_access_token env now t (run (auth_step env) s cs))"
  have "roles_ok s" using fresh(1) by (simp add: roles_ok_def)
  then have "roles_ok ?s'" unfolding resolve_roles by (rule auth_roles.run_inv)
  from role_permissions_normal [OF this b] have p: "permissions_in ?s' (entry_name b) = set (default_permissions b)"
    by (simp add: permissions_in_def)
  have "sor (lower (strip (sor (entry_name b) ''viewer''))) ''viewer'' = entry_name b" using entry_name_trim b by (simp add: list_all_iff)
  then have gate: "authorize_or_respond (permissions_in ?s') (Some (id_role i)) verb path
      = is_allowed (entry_name b) (required_permission verb path) (set (default_permissions b))"
    unfolding r authorize_or_respond_def by (cases "required_permission verb path") (simp_all add: Let_def p is_allowed_def)
  from run_from_empty [OF fresh(2)] obtain ss where
    ss: "session_list (run (auth_step env) s cs) = encoded env ss" "map ss_args ss = grants env s cs" by blast
  from resolve_identity [OF ss(1) i] obtain x where x: "x \<in> set ss" "id_role i = sor (strip (sor (ia_role (ss_args x)) ''viewer'')) ''viewer''" by auto
  have "ss_args x \<in> set (grants env s cs)" using x(1) ss(2) by (metis image_eqI list.set_map)
  with gate x(2) r show ?thesis by auto
qed

theorem session_passes_gate_by_role_witness:
  "authorize_or_respond (permissions_in (snd (resolve_access_token demo_auth_env 1100 ''a1''
     (run (auth_step demo_auth_env) demo_nobody demo_history)))) (Some ''viewer'') ''DELETE'' ''/api/v1/auth/users/alice'' = False"
proof -
  have n: "au_roles demo_nobody = None" by (simp add: demo_nobody_def)
  have v: "role_entry ''viewer'' [] \<in> set default_roles" by (simp add: default_roles_def)
  have e: "entry_name (role_entry ''viewer'' []) = ''viewer''" "default_permissions (role_entry ''viewer'' []) = []" by code_simp+
  have env: "env_ok demo_auth_env" unfolding demo_auth_env_def by (rule auth_service_ok)
  have i: "fst (resolve_access_token demo_auth_env 1100 ''a1'' (run (auth_step demo_auth_env) demo_nobody demo_history))
      = Inr (Some \<lparr>id_username = ''alice'', id_role = ''viewer'', id_session_id = ''s1'', id_tenant_id = Some ''acme''\<rparr>)" unfolding demo_auth_run by code_simp
  have r: "id_role \<lparr>id_username = ''alice'', id_role = ''viewer'', id_session_id = ''s1'', id_tenant_id = Some ''acme''\<rparr> = entry_name (role_entry ''viewer'' [])"
    by (simp only: e identity.select_convs)
  have a: "is_allowed ''viewer'' (required_permission ''DELETE'' ''/api/v1/auth/users/alice'') (set []) = False" by code_simp
  from session_passes_gate_by_role [OF n demo_nobody_sessions env v i r, THEN conjunct1, of "''DELETE''" "''/api/v1/auth/users/alice''"] show ?thesis
    by (simp only: e a identity.select_convs)
qed

subsection \<open>Credentials\<close>

text \<open>A stored password hash verifies the password it was made of, and another password exactly when the two
  have the same digest under the stored salt and iteration count.\<close>

lemma password_roundtrip:
  assumes "hash_password env salt n p = Inr h"
  shows "verify_password env p h = Inr True
    \<and> (verify_password env p' h = Inr True \<longleftrightarrow> ae_pbkdf2 env (utf8_encode p') salt n = ae_pbkdf2 env (utf8_encode p) salt n)"
proof -
  from assms obtain d where d: "ae_pbkdf2 env (utf8_encode p) salt n = Inr d" by (auto simp: hash_password_def rbind_eq_Inr)
  show ?thesis
    using verify_hash [OF assms, of p] verify_hash [OF assms, of p'] d
    by (cases "ae_pbkdf2 env (utf8_encode p') salt n") auto
qed

lemma totp_at_total:
  assumes "b32decode (b32_padded secret) = Some key" and "0 \<le> c" "c < 2 ^ 64" and "\<And>k m. length (ae_hmac_sha1 env k m) = 20"
  shows "\<exists>otp. totp_at env secret c = Inr otp"
proof -
  define d where "d = ae_hmac_sha1 env key (to_bytes 8 (nat c))"
  have len: "length d = 20" by (simp add: d_def assms(4))
  then have "d \<noteq> []" by auto
  have "(of_char (last d) :: nat) mod 16 + j < length d" if "j \<le> 3" for j
    using mod_less_divisor [of 16 "of_char (last d)"] that len by linarith
  then have ib: "\<exists>v. index_byte d (of_char (last d) mod 16 + j) = Inr v" if "j \<le> 3" for j using that by (simp add: index_byte_def)
  obtain v0 v1 v2 v3 where v: "index_byte d (of_char (last d) mod 16) = Inr v0" "index_byte d (of_char (last d) mod 16 + 1) = Inr v1"
    "index_byte d (of_char (last d) mod 16 + 2) = Inr v2" "index_byte d (of_char (last d) mod 16 + 3) = Inr v3"
    using ib [of 0] ib [of 1] ib [of 2] ib [of 3] by auto
  show ?thesis
    using assms(1-3) \<open>d \<noteq> []\<close> v by (simp add: totp_at_def d_def [symmetric] Let_def)
qed

lemma pad_digits: "list_all is_digit (pad_to k n)"
proof -
  have "is_digit (CHR ''0'')" by (simp add: is_digit_def)
  then show ?thesis using nat_str_digits by (auto simp: pad_to_def list_all_iff)
qed

lemma length_pad_to: "0 < k \<Longrightarrow> n < 10 ^ k \<Longrightarrow> length (pad_to k n) = k"
  using length_nat_str [of k n] by (simp add: pad_to_def)

lemma totp_code_form:
  assumes "totp_at env secret c = Inr otp"
  shows "py_isdigit otp" "length otp = 6" "drop_blanks otp = otp"
proof -
  obtain n :: nat where otp: "otp = pad_to 6 (n mod 1000000)"
    using assms by (auto simp: totp_at_def Let_def rbind_eq_Inr split: option.splits if_splits)
  show len: "length otp = 6" unfolding otp by (rule length_pad_to) simp_all
  have dig: "list_all is_digit otp" unfolding otp by (rule pad_digits)
  then show "py_isdigit otp" using len by (auto simp: py_isdigit_def list_all_iff)
  show "drop_blanks otp = otp" using dig by (auto simp: drop_blanks_def list_all_iff filter_id_conv dest: digit_not_space)
qed

text \<open>An enrolled second factor works: after enrolment the user's entry holds the secret, a login asks for a
  code, and the code an authenticator computes from the twenty random bytes for a time step verifies
  whenever the clock is in that step or in one next to it.\<close>

lemma enrolled_code_verifies:
  assumes u: "find_user u s = Some d" and rnd: "length rnd = 20" and hm: "\<And>k m. length (ae_hmac_sha1 env k m) = 20"
    and step: "\<bar>now div 30 - c\<bar> \<le> 1" and range: "60 \<le> now" "now < 2 ^ 64"
    and code: "totp_at env (generate_totp_secret rnd) c = Inr otp"
  shows "\<exists>d'. find_user u (snd (enroll_totp rnd u s)) = Some d' \<and> needs_totp d'
    \<and> verify_totp_code env now 1 (sget d' ''totp_secret'') otp = Inr True"
proof -
  define d' where "d' = dset ''totp_enabled'' (PBool True) (dset ''totp_secret'' (PStr (generate_totp_secret rnd)) d)"
  have fu: "find_entry (same_user (strip u)) (user_list s) = Some d" and ne: "strip u \<noteq> []"
    using u by (auto simp: find_user_def Let_def split: if_splits)
  have kd: "user_key d = lower (strip u)" using find_entry_sat [OF fu] by (simp add: same_user_def)
  have key: "user_key d' = user_key d" by (simp add: d'_def user_key_dset)
  have sm: "(\<lambda>e. user_key e = user_key d') = same_user (strip u)" using kd key by (auto simp: same_user_def)
  have "find_entry (same_user (strip u)) (update_first (same_user (strip u)) (\<lambda>_. d') (user_list s)) = Some d'"
    using fu
  proof (induction "user_list s" arbitrary: s)
    case Nil
    then show ?case by (simp add: find_entry_def)
  next
    case (Cons x xs)
    have "same_user (strip u) d'" using kd key by (simp add: same_user_def)
    then have *: "find_entry (same_user (strip u)) ys = Some d \<Longrightarrow> find_entry (same_user (strip u)) (update_first (same_user (strip u)) (\<lambda>_. d') ys) = Some d'" for ys
      by (induction ys) (auto simp: find_entry_def sat_def split: if_splits)
    then show ?case using Cons.prems by simp
  qed
  then have found: "find_user u (snd (enroll_totp rnd u s)) = Some d'"
    using u fu ne by (simp add: enroll_totp_def persist_user_record_def Let_def find_user_def d'_def [symmetric] sm)
  have raw: "length rnd mod 5 = 0" "rnd \<noteq> []" using rnd by auto
  note g = generated_secret [OF raw(1)]
  have ne_secret: "generate_totp_secret rnd \<noteq> []" by (rule g(3) [OF raw(2)])
  have st: "strip (generate_totp_secret rnd) \<noteq> []" using g(1) ne_secret by (metis list.map_disc_iff upper_def)
  have needs: "needs_totp d'" using st by (simp add: needs_totp_def d'_def stget_def)
  have tot: "\<forall>o' \<in> set [- 1 .. 1]. \<exists>x. totp_at env (generate_totp_secret rnd) (now div 30 + o') = Inr x"
  proof
    fix o' :: int
    assume "o' \<in> set [- 1 .. 1]"
    then have "0 \<le> now div 30 + o'" "now div 30 + o' < 2 ^ 64" using range by auto
    then show "\<exists>x. totp_at env (generate_totp_secret rnd) (now div 30 + o') = Inr x"
      using totp_at_total [OF g(2) _ _ hm] by blast
  qed
  have off: "c - now div 30 \<in> set [- 1 .. 1]" using step by auto
  have "totp_at env (generate_totp_secret rnd) (now div 30 + (c - now div 30)) = Inr otp" using code by simp
  from totp_scan_finds [OF off tot this] have "totp_scan env (generate_totp_secret rnd) otp (now div 30) [- 1 .. 1] = Inr True" .
  then have "verify_totp_code env now 1 (sget d' ''totp_secret'') otp = Inr True"
    using totp_code_form [OF code] ne_secret g(1) by (simp add: verify_totp_code_def Let_def d'_def)
  with found needs show ?thesis by blast
qed

subsection \<open>A code used twice\<close>

lemma issue_total:
  assumes "session_list s = encoded env ss"
  shows "\<exists>g. fst (issue_session env ia s) = Inr g"
  using enforce_encoded [of env "ia_now ia" "ia_username ia" ss UNIV] by (auto simp: issue_session_def assms)

lemma login_local:
  assumes "username_ok (strip (la_username a))" and "find_user (strip (la_username a)) s = Some user" and "enabled_user user"
    and "user_auth_source user \<noteq> ''ldap''" and "verify_password env (la_password a) (sget user ''password_hash'') = Inr True"
    and "totp_step env a user = Inr ()"
  shows "login env a s = abind (issue_session env (login_issue a user) s) (\<lambda>g s3. (Inr (Some g), s3))"
  using assms by (simp add: login_def login_user_def password_step_def login_user_after_def abind_def [of "(_, _)"])

text \<open>One-time codes can be used more than once: after a login of a local account with a code, anyone with
  the same password and the same code logs in again within the same time step.\<close>

lemma totp_code_replayed:
  assumes ok: "auth_sessions_ok env s" and g: "fst (login env a s) = Inr (Some g)"
    and u: "find_user (strip (la_username a)) s = Some user" and src: "user_auth_source user \<noteq> ''ldap''"
    and same: "la_username a' = la_username a" "la_password a' = la_password a" "la_totp_code a' = la_totp_code a"
      "la_now_totp a' div 30 = la_now_totp a div 30"
  shows "\<exists>g'. fst (login env a' (snd (login env a s))) = Inr (Some g')"
proof -
  from login_success [OF g] obtain user' s1 s2 where
    l: "username_ok (strip (la_username a))" "login_user a s = (Some user', s1)" "enabled_user user'"
      "password_step env a user' s1 = (Inr True, s2)" "totp_step env a (login_subject a s) = Inr ()" by metis
  have us: "user' = user" "s1 = s" using l(2) u by (simp_all add: login_user_def)
  have sub: "login_subject a s = user" using src by (simp add: login_subject_def l(2) us login_user_after_def)
  have pw: "verify_password env (la_password a) (sget user ''password_hash'') = Inr True" and s2: "s2 = s"
    using l(4) src by (simp_all add: us password_step_def)
  have l1: "login env a s = abind (issue_session env (login_issue a user) s) (\<lambda>g s3. (Inr (Some g), s3))"
    by (rule login_local) (use l u src pw sub us in auto)
  define t where "t = snd (login env a s)"
  have "au_users t = au_users s" unfolding t_def l1 snd_abind by (auto simp: frame_simps split: sum.splits)
  then have u': "find_user (strip (la_username a')) t = Some user" using u user_list_cong [of t s] same(1) by (simp add: find_user_def Let_def split: if_splits)
  have "totp_step env a' user = totp_step env a user"
    unfolding totp_step_def verify_totp_code_def same by (rule refl)
  then have "login env a' t = abind (issue_session env (login_issue a' user) t) (\<lambda>g s3. (Inr (Some g), s3))"
    by (intro login_local) (use l u' src pw sub us same in auto)
  moreover have "auth_sessions_ok env t" using auth_sessions_ok_step [OF ok, of "ALogin a"] by (simp add: t_def)
  then obtain ss where "session_list t = encoded env ss" unfolding auth_sessions_ok_def by blast
  from issue_total [OF this] obtain g' where "fst (issue_session env (login_issue a' user) t) = Inr g'" by blast
  ultimately have "fst (login env a' t) = Inr (Some g')" by (simp add: fst_abind)
  then show ?thesis unfolding t_def by blast
qed

subsection \<open>Onboarding\<close>

lemma status_closed:
  assumes "list_users None s = Inr vs" and "real_views vs \<noteq> []"
  shows "(\<exists>e. fst (onboarding_status now b d s) = Inl e) \<or> (\<exists>v. fst (onboarding_status now b d s) = Inr v \<and> \<not> ov_pending v)"
    and "au_users (snd (onboarding_status now b d s)) = au_users s"
  using assms by (auto simp: onboarding_status_def drop_bootstrap_users_def onboarding_decision_def abind_def Let_def split: sum.splits)

text \<open>The onboarding, which anybody may call, is closed once there is an enabled user that is not only the
  bootstrap account: it is refused whatever is sent, and users, roles and sessions stay as they are.\<close>

lemma onboarding_closed:
  assumes "list_users None s = Inr vs" and "real_views vs \<noteq> []"
  shows "\<exists>e s'. complete_onboarding env n1 n2 n3 n4 salt u p b d s = (Inl e, s')
    \<and> au_users s' = au_users s \<and> au_roles s' = au_roles s \<and> au_sessions s' = au_sessions s"
proof (cases "validate_username u")
  case (Inl e)
  then show ?thesis by (simp add: complete_onboarding_def)
next
  case un: (Inr n)
  show ?thesis
  proof (cases "check_password p")
    case (Inl e)
    then show ?thesis by (simp add: complete_onboarding_def un)
  next
    case pw: (Inr passwd)
    obtain r s1 where st: "onboarding_status n1 b d s = (r, s1)" by (cases "onboarding_status n1 b d s")
    have keep: "au_users s1 = au_users s" "au_roles s1 = au_roles s" "au_sessions s1 = au_sessions s"
      using status_closed(2) [OF assms, of n1 b d] onboarding_status_frame [of n1 b d s] st by simp_all
    show ?thesis
      using status_closed(1) [OF assms, of n1 b d] keep by (auto simp: complete_onboarding_def un pw st abind_def)
  qed
qed

end
