(* ===== verification/AuthHttpProps.thy ===== *)
theory AuthHttpProps
  imports AuthEntry AuthAccountProps AuthzProps
begin

text \<open>
  What the HTTP side of accounts shows: accounts change only for a principal whose role may, an administrator
  of a tenant cannot touch the entries of other tenants, with the two ways around that the code leaves open,
  and the rate at which passwords can be guessed.
\<close>

subsection \<open>What the gate and the routes leave alone\<close>

lemma auth_principal_frame [frame_simps]:
  "au_users (snd (auth_principal env now rq s)) = au_users s" "au_roles (snd (auth_principal env now rq s)) = au_roles s"
  by (auto simp: auth_principal_def snd_abind Let_def frame_simps split: sum.splits option.splits)

lemma authorize_frame [frame_simps]: "au_users (snd (authorize pr meth path s)) = au_users s"
  by (auto simp: authorize_def snd_abind Let_def frame_simps split: sum.splits option.splits)

lemma guarded_cases:
  obtains (stopped) "au_users (snd (guarded env now meth rq s route)) = au_users s"
  | (passed) pr s1 s2 where "auth_principal env now rq s = (Inr (Some pr), s1)" "authorize pr meth (hq_path rq) s1 = (Inr True, s2)"
      "au_users s2 = au_users s" "guarded env now meth rq s route = route pr s2"
proof -
  obtain p s1 where p: "auth_principal env now rq s = (p, s1)" by (cases "auth_principal env now rq s")
  have u1: "au_users s1 = au_users s" using auth_principal_frame(1) [of env now rq s] p by simp
  show thesis
  proof (cases "\<exists>pr. p = Inr (Some pr)")
    case False
    then show thesis using p u1 by (intro stopped) (auto simp: guarded_def abind_def split: sum.splits option.splits)
  next
    case True
    then obtain pr where pr: "p = Inr (Some pr)" by blast
    obtain a s2 where a: "authorize pr meth (hq_path rq) s1 = (a, s2)" by (cases "authorize pr meth (hq_path rq) s1")
    have u2: "au_users s2 = au_users s" using authorize_frame [of pr meth "hq_path rq" s1] a u1 by simp
    show thesis
    proof (cases "a = Inr True")
      case True
      then show thesis using p pr a u2 by (intro passed) (auto simp: guarded_def abind_def)
    next
      case False
      then show thesis using p pr a u2 by (intro stopped) (auto simp: guarded_def abind_def split: sum.splits)
    qed
  qed
qed

lemma with_body_keeps: "P s \<Longrightarrow> (\<And>d. P (snd (f d))) \<Longrightarrow> P (snd (with_body rq s f))"
  by (auto simp: with_body_def split: sum.splits prod.splits) (metis snd_conv)

lemma post_role_users [frame_simps]: "au_users (snd (post_role payload s)) = au_users s"
  using save_role_frame(1) by (auto simp: post_role_def split: sum.splits prod.splits) (metis snd_conv)+

lemma put_role_users:
  assumes "\<not> auth_user_match path"
  shows "au_users (snd (auth_route_put env dr path payload t s)) = au_users s"
  using assms save_role_frame(1) [of "lower (strip (role_of_path path))" "payload_permissions payload" s]
  by (auto simp: auth_route_put_def split: sum.splits prod.splits)

lemma delete_other_users:
  assumes "\<not> auth_user_match path" and "\<not> auth_role_match path"
  shows "au_users (snd (auth_route_delete path t s)) = au_users s"
proof -
  let ?jti = "path_name token_char ''/api/v1/auth/sessions/'' path"
  obtain b s' where j: "revoke_session_by_jti ?jti s = (b, s')" by (cases "revoke_session_by_jti ?jti s")
  then have "au_users s' = au_users s" using session_ops_frame(11) [of ?jti s] by simp
  then show ?thesis using assms by (cases b) (simp_all add: auth_route_delete_def j)
qed

lemma post_other_users:
  assumes "path \<noteq> ''/api/v1/auth/users''" and "\<not> auth_user_totp_enroll_match path" and "\<not> auth_user_totp_disable_match path"
  shows "au_users (snd (auth_route_post env dr path payload t s)) = au_users s"
proof -
  have r: "au_users (snd (revoke_user_sessions u s)) = au_users s" for u by (simp add: frame_simps)
  obtain n s' where n: "revoke_user_sessions (user_of_path path) s = (n, s')" by (cases "revoke_user_sessions (user_of_path path) s")
  show ?thesis using assms r [of "user_of_path path"] by (simp add: auth_route_post_def frame_simps n)
qed

subsection \<open>Accounts change only with the permission\<close>

lemma user_route_rule:
  "required_permission ''PUT'' (''/api/v1/auth/users/'' @ u) = Some ''auth:write''"
  "required_permission ''DELETE'' (''/api/v1/auth/users/'' @ u) = Some ''auth:write''"
  "required_permission ''DELETE'' (''/api/v1/auth/roles/'' @ u) = Some ''auth:write''"
proof -
  have "upper ''PUT'' = ''PUT''" "upper ''DELETE'' = ''DELETE''" by code_simp+
  then show "required_permission ''PUT'' (''/api/v1/auth/users/'' @ u) = Some ''auth:write''"
    "required_permission ''DELETE'' (''/api/v1/auth/users/'' @ u) = Some ''auth:write''"
    "required_permission ''DELETE'' (''/api/v1/auth/roles/'' @ u) = Some ''auth:write''"
    by (simp_all add: required_permission_def put_rules_def delete_rules_def no_match_line)
qed

lemma user_match_rule:
  "auth_user_match path \<Longrightarrow> required_permission ''PUT'' path = Some ''auth:write''"
  "auth_user_match path \<Longrightarrow> required_permission ''DELETE'' path = Some ''auth:write''"
  "auth_role_match path \<Longrightarrow> required_permission ''DELETE'' path = Some ''auth:write''"
  unfolding auth_user_match_def auth_role_match_def
  by (drule match_line_prefix, unfold starts_with_iff, elim exE, simp only: user_route_rule)+

text \<open>The request on the surface of its method; other methods get 501 from the base class of the handler.\<close>

definition serve_auth :: "http_env \<Rightarrow> draw \<Rightarrow> string table \<Rightarrow> string \<Rightarrow> http_request \<Rightarrow> auth \<Rightarrow> http_response result \<times> auth" where
  "serve_auth env dr query verb rq s =
     (if verb = ''GET'' then serve_auth_get env dr query rq s
      else if verb = ''POST'' then serve_auth_post env dr rq s
      else if verb = ''PUT'' then serve_auth_put env dr rq s
      else if verb = ''DELETE'' then serve_auth_delete env dr rq s
      else (Inr (error_response 501 ''Unsupported method''), s))"

lemma auth_route_get_users: "au_users (snd (auth_route_get env now path t query s)) = au_users s"
  by (simp add: auth_route_get_def Let_def snd_abind frame_simps split: sum.split)

definition gate_role :: "principal \<Rightarrow> string" where
  "gate_role pr = sor (lower (strip (sor (pr_role pr) ''viewer''))) ''viewer''"

text \<open>The principal of the request and what its role gives, for a request that passed the gate.\<close>

definition has_permission :: "http_env \<Rightarrow> int \<Rightarrow> http_request \<Rightarrow> auth \<Rightarrow> string \<Rightarrow> bool" where
  "has_permission env now rq s p = (case auth_principal env now rq s of
      (Inr (Some pr), s1) \<Rightarrow> (case role_permissions (gate_role pr) s1 of
          (Inr perms, _) \<Rightarrow> is_allowed (gate_role pr) (Some p) (set perms) | _ \<Rightarrow> False)
    | _ \<Rightarrow> False)"

lemma authorized_permission:
  assumes "auth_principal env now rq s = (Inr (Some pr), s1)" and "authorize pr meth path s1 = (Inr True, s2)"
    and "required_permission meth path = Some p"
  shows "has_permission env now rq s p"
  using assms(2,3) by (auto simp: has_permission_def assms(1) authorize_def gate_role_def Let_def abind_Inr)

lemma guarded_change:
  assumes change: "au_users (snd (guarded env now meth rq s route)) \<noteq> au_users s"
    and route: "\<And>pr s2. au_users (snd (route pr s2)) \<noteq> au_users s2 \<Longrightarrow> required_permission meth (hq_path rq) = Some p"
  shows "has_permission env now rq s p"
proof (rule guarded_cases [of env now meth rq s route])
  assume "au_users (snd (guarded env now meth rq s route)) = au_users s"
  then show ?thesis using change by simp
next
  fix pr s1 s2
  assume p: "auth_principal env now rq s = (Inr (Some pr), s1)" "authorize pr meth (hq_path rq) s1 = (Inr True, s2)"
    and "au_users s2 = au_users s" "guarded env now meth rq s route = route pr s2"
  then have "au_users (snd (route pr s2)) \<noteq> au_users s2" using change by simp
  from authorized_permission [OF p route [OF this]] show ?thesis .
qed

lemma with_body_users: "(\<And>d. au_users (snd (f d)) = au_users s) \<Longrightarrow> au_users (snd (with_body rq s f)) = au_users s"
  by (rule with_body_keeps) simp_all

text \<open>A service with an administrator and a user of one tenant and a user of another.\<close>

definition demo_http :: http_env where
  "demo_http = \<lparr>he_auth = demo_auth_env, he_guard = demo_guard, he_localhost_noauth = False, he_api_token = [],
     he_bootstrap_username = ''admin'', he_bootstrap_disabled = False, he_scim_enabled = False, he_public_url = []\<rparr>"

definition demo_tenants_history :: "auth_op list" where
  "demo_tenants_history = [ACreateUser 1000 ''salt'' ''alice'' ''password1'' ''admin'' True (Some ''acme'') PNone,
     ACreateUser 1000 ''salt'' ''carol'' ''password2'' ''viewer'' True (Some ''globex'') PNone, ALogin (demo_login 1000 ''1'')]"

definition demo_user :: "string \<Rightarrow> string \<Rightarrow> string \<Rightarrow> string \<Rightarrow> py" where
  "demo_user name role hash tenant = PDict [(''username'', PStr name), (''role'', PStr role), (''password_hash'', PStr hash),
     (''created_at'', PInt 1000), (''enabled'', PBool True), (''auth_source'', PStr ''local''), (''tenant_id'', PStr tenant)]"

definition demo_tenants :: auth where
  "demo_tenants = demo_auth\<lparr>
     au_users := Some (PDict [(''users'', PList [
       demo_user ''alice'' ''admin'' ''pbkdf2_sha256$390000$73616c74$73616c7470617373776f726431'' ''acme'',
       demo_user ''carol'' ''viewer'' ''pbkdf2_sha256$390000$73616c74$73616c7470617373776f726432'' ''globex''])]),
     au_sessions := Some (PDict [(''sessions'', PList [PDict [(''id'', PStr ''s1''), (''username'', PStr ''alice''), (''role'', PStr ''admin''),
       (''tenant_id'', PStr ''acme''), (''access_token'', PStr ''a1''), (''refresh_token'', PStr ''r1''), (''created_at'', PInt 1000),
       (''last_seen_at'', PInt 1000), (''access_expires_at'', PInt 4600), (''refresh_expires_at'', PInt 8200),
       (''absolute_expires_at'', PInt 87400), (''remote_addr'', PStr []), (''user_agent'', PStr []), (''revoked'', PBool False)]])])\<rparr>"

lemma demo_tenants_run: "run (auth_step demo_auth_env) demo_nobody demo_tenants_history = demo_tenants"
  by code_simp

definition demo_call :: "string \<Rightarrow> string \<Rightarrow> dict \<Rightarrow> http_request" where
  "demo_call token path payload = (let body = json_dumps (PDict payload) in \<lparr>hq_peer = ''10.0.0.7'', hq_client = ''10.0.0.7'', hq_path = path,
     hq_authorization = ''Bearer '' @ token, hq_api_token = [], hq_cookie_header = [], hq_content_length = nat_str (length body),
     hq_user_agent = [], hq_body = body\<rparr>)"

definition demo_draw :: draw where
  "demo_draw = \<lparr>dr_now = 1100, dr_salt = ''salt'', dr_random = []\<rparr>"

definition demo_alice_principal :: principal where
  "demo_alice_principal = \<lparr>pr_username = ''alice'', pr_role = ''admin'', pr_auth_type = ''session'', pr_tenant_id = Some ''acme''\<rparr>"

text \<open>C7: User accounts change through the account routes only for a request whose principal has a role with the
  permission to write accounts (or everything); the routes of the second factor are the exception.\<close>

theorem account_change_needs_permission:
  assumes change: "au_users (snd (serve_auth env dr query verb rq s)) \<noteq> au_users s"
    and route: "\<not> auth_user_totp_enroll_match (hq_path rq)" "\<not> auth_user_totp_disable_match (hq_path rq)"
  shows "has_permission env (dr_now dr) rq s ''auth:write''"
proof -
  have post_rule: "required_permission ''POST'' ''/api/v1/auth/users'' = Some ''auth:write''" by code_simp
  have users: "hq_path rq = ''/api/v1/auth/users''"
    if c: "au_users (snd (if auth_user_revoke_sessions_match (hq_path rq)
        then (let (r, s'') = auth_route_post (he_auth env) dr (hq_path rq) [] (pr_tenant_id pr) s2 in (Inr r, s''))
        else with_body rq s2 (\<lambda>payload. auth_route_post (he_auth env) dr (hq_path rq) payload (pr_tenant_id pr) s2))) \<noteq> au_users s2" for pr s2
  proof (rule ccontr)
    assume "hq_path rq \<noteq> ''/api/v1/auth/users''"
    note same = post_other_users [OF this route, where s = s2]
    show False using c same [of "he_auth env" dr "[]" "pr_tenant_id pr"]
        with_body_users [of "\<lambda>payload. auth_route_post (he_auth env) dr (hq_path rq) payload (pr_tenant_id pr) s2" s2 rq, OF same]
      by (simp split: if_splits prod.splits)
  qed
  from change consider (get) "verb = ''GET''" | (post) "verb = ''POST''" | (put) "verb = ''PUT''" | (del) "verb = ''DELETE''"
    by (auto simp: serve_auth_def split: if_splits)
  then show ?thesis
  proof cases
    case get
    show ?thesis
      by (rule guarded_change [OF change [unfolded serve_auth_def serve_auth_get_def get, simplified]])
        (simp add: auth_route_get_users)
  next
    case post
    have c: "au_users (snd (serve_auth_post env dr rq s)) \<noteq> au_users s" using change by (simp add: serve_auth_def post)
    show ?thesis
      by (rule guarded_change [OF c [unfolded serve_auth_post_def]], drule users) (simp add: post_rule)
  next
    case put
    have c: "au_users (snd (serve_auth_put env dr rq s)) \<noteq> au_users s" using change by (simp add: serve_auth_def put)
    show ?thesis
    proof (rule guarded_change [OF c [unfolded serve_auth_put_def]])
      fix pr s2
      assume "au_users (snd (with_body rq s2 (\<lambda>payload. auth_route_put (he_auth env) dr (hq_path rq) payload (pr_tenant_id pr) s2))) \<noteq> au_users s2"
      then have "auth_user_match (hq_path rq)" by (rule contrapos_np) (intro with_body_users put_role_users)
      then show "required_permission ''PUT'' (hq_path rq) = Some ''auth:write''" by (rule user_match_rule)
    qed
  next
    case del
    have c: "au_users (snd (serve_auth_delete env dr rq s)) \<noteq> au_users s" using change by (simp add: serve_auth_def del)
    show ?thesis
    proof (rule guarded_change [OF c [unfolded serve_auth_delete_def]])
      fix pr s2
      assume "au_users (snd (auth_route_delete (hq_path rq) (pr_tenant_id pr) s2)) \<noteq> au_users s2"
      then have "auth_user_match (hq_path rq) \<or> auth_role_match (hq_path rq)" using delete_other_users by blast
      then show "required_permission ''DELETE'' (hq_path rq) = Some ''auth:write''" using user_match_rule by blast
    qed
  qed
qed

subsection \<open>Administrators of a tenant\<close>

lemma update_first_keeps:
  "x \<in> set xs \<Longrightarrow> find_entry P xs = Some d \<Longrightarrow> x \<noteq> PDict d \<Longrightarrow> x \<in> set (update_first P f xs)"
proof (induction xs)
  case (Cons y ys)
  then show ?case by (cases y) (auto simp: find_entry_def sat_def)
qed simp

lemma unique_entry:
  "distinct (ukeys xs) \<Longrightarrow> find_entry (same_user n) xs = Some d \<Longrightarrow> x \<in> set xs \<Longrightarrow> sat (same_user n) x \<Longrightarrow> x = PDict d"
proof (induction xs)
  case (Cons y ys)
  have in_ukeys: "z \<in> set ys \<Longrightarrow> sat (same_user n) z \<Longrightarrow> lower n \<in> set (ukeys ys)" for z
    using find_same [of n ys] by (cases z) (auto simp: find_entry_def sat_def dest!: find_member split: option.splits dest: find_missing)
  show ?case
  proof (cases "sat (same_user n) y")
    case True
    then show ?thesis using Cons.prems in_ukeys by (cases y) (auto simp: find_entry_def sat_def same_user_def)
  next
    case False
    then show ?thesis using Cons by (auto simp: find_entry_def split: if_splits)
  qed
qed simp

text \<open>The entries that do not belong to a tenant.\<close>

definition foreign :: "string \<Rightarrow> py \<Rightarrow> bool" where
  "foreign t x = (\<not> sat (\<lambda>d. user_tenant d = Some t) x)"

lemma foreign_not: "foreign t x \<Longrightarrow> user_tenant d = Some t \<Longrightarrow> x \<noteq> PDict d"
  by (auto simp: foreign_def sat_def)

lemma create_keeps: "x \<in> set (user_list s) \<Longrightarrow> x \<in> set (user_list (snd (create_user env n sa u p r b tid g s)))"
  using user_list_cong [OF checked_role_frame(1)]
  by (auto simp: create_user_def snd_abind Let_def split: sum.splits)

lemma update_keeps:
  assumes "find_entry (same_user un) (user_list s) = Some d" and "validate_username u = Inr un" and "x \<in> set (user_list s)" and "x \<noteq> PDict d"
  shows "x \<in> set (user_list (snd (update_user env sa u ch s)))"
  using assms user_list_cong [OF change_role_frame(1)]
  by (auto simp: update_user_def snd_abind Let_def update_first_keeps split: sum.splits)

lemma delete_keeps:
  assumes "users_ok s" and "find_entry (same_user (strip u)) (user_list s) = Some d" and "x \<in> set (user_list s)" and "x \<noteq> PDict d"
  shows "x \<in> set (user_list (snd (delete_user u s)))"
  using assms unique_entry [of "user_list s" "strip u" d x] by (auto simp: delete_user_def Let_def users_ok_def)

lemma tenant_entry:
  "get_user_tenant_id u s = Some t \<Longrightarrow> \<exists>d. find_entry (same_user (strip u)) (user_list s) = Some d \<and> user_tenant d = Some t"
  by (auto simp: get_user_tenant_id_def find_user_def Let_def split: option.splits if_splits)

lemma put_user_keeps:
  assumes "x \<in> set (user_list s)" and "foreign t x"
  shows "x \<in> set (user_list (snd (put_user env dr u payload (Some t) s)))"
proof (cases "get_user_tenant_id u s = Some t")
  case False
  then show ?thesis using assms by (simp add: put_user_def)
next
  case True
  then obtain d where d: "find_entry (same_user (strip u)) (user_list s) = Some d" "user_tenant d = Some t" using tenant_entry by blast
  have "x \<in> set (user_list (snd (update_user env (dr_salt dr) u (change_of_payload payload) s)))"
  proof (cases "validate_username u")
    case (Inl e)
    then show ?thesis using assms by (simp add: update_user_def)
  next
    case (Inr un)
    then show ?thesis using update_keeps [OF _ Inr assms(1) foreign_not [OF assms(2) d(2)]] d(1) valid_username [OF Inr] by simp
  qed
  then show ?thesis using True by (auto simp: put_user_def split: prod.splits sum.splits)
qed

lemma delete_route_keeps:
  assumes "users_ok s" and "x \<in> set (user_list s)" and "foreign t x"
  shows "x \<in> set (user_list (snd (delete_user_route u (Some t) s)))"
proof (cases "get_user_tenant_id u s = Some t")
  case False
  then show ?thesis using assms by (simp add: delete_user_route_def)
next
  case True
  then obtain d where d: "find_entry (same_user (strip u)) (user_list s) = Some d" "user_tenant d = Some t" using tenant_entry by blast
  from delete_keeps [OF assms(1) d(1) assms(2) foreign_not [OF assms(3) d(2)]] True
  show ?thesis by (auto simp: delete_user_route_def split: prod.splits bool.splits)
qed

lemma post_user_keeps: "x \<in> set (user_list s) \<Longrightarrow> x \<in> set (user_list (snd (post_user env dr payload t s)))"
proof -
  assume x: "x \<in> set (user_list s)"
  have "x \<in> set (user_list s')" if "create_user env n sa u p r b tid g s = (q, s')" for n sa u p r b tid g q s'
    using create_keeps [OF x, of env n sa u p r b tid g] that by simp
  then show ?thesis using x by (auto simp: post_user_def split: sum.splits option.splits prod.splits)
qed

theorem account_change_needs_permission_witness:
  "has_permission demo_http (dr_now demo_draw) (demo_call ''a1'' ''/api/v1/auth/users/alice'' []) demo_tenants ''auth:write''"
proof -
  let ?rq = "demo_call ''a1'' ''/api/v1/auth/users/alice'' []"
  have c: "au_users (snd (serve_auth demo_http demo_draw [] ''DELETE'' ?rq demo_tenants)) \<noteq> au_users demo_tenants" by code_simp
  have r: "\<not> auth_user_totp_enroll_match (hq_path ?rq)" "\<not> auth_user_totp_disable_match (hq_path ?rq)" by code_simp+
  show ?thesis by (rule account_change_needs_permission [OF c r])
qed

subsection \<open>Requests that pass the gate\<close>

lemma permission_passes:
  assumes "has_permission env now rq s p" and "required_permission meth (hq_path rq) = Some p" and "roles_ok s"
  obtains pr s1 s2 where "auth_principal env now rq s = (Inr (Some pr), s1)" "au_users s2 = au_users s" "roles_ok s2"
    "guarded env now meth rq s route = route pr s2"
proof -
  from assms(1) obtain pr s1 where pr: "auth_principal env now rq s = (Inr (Some pr), s1)"
    by (auto simp: has_permission_def split: prod.splits sum.splits option.splits)
  obtain q s2 where q: "role_permissions (gate_role pr) s1 = (q, s2)" by (cases "role_permissions (gate_role pr) s1")
  from assms(1) obtain perms where ps: "role_permissions (gate_role pr) s1 = (Inr perms, s2)" and al: "is_allowed (gate_role pr) (Some p) (set perms)"
    by (cases q) (auto simp: has_permission_def pr q)
  have "authorize pr meth (hq_path rq) s1 = (Inr True, s2)"
    using ps al assms(2) by (simp add: authorize_def gate_role_def Let_def abind_def)
  then have "guarded env now meth rq s route = route pr s2" using pr by (simp add: guarded_def abind_def)
  moreover have "au_users s2 = au_users s"
    using auth_principal_frame(1) [of env now rq s] role_permissions_frame(1) [of "gate_role pr" s1] pr ps by simp
  moreover have "roles_ok s2"
    using roles_ok_cong [OF auth_principal_frame(2)] roles_ok_permissions [of s1 "gate_role pr"] assms(3) pr ps by (metis snd_conv)
  ultimately show thesis using that pr by blast
qed

lemma serve_post_keeps:
  assumes "x \<in> set (user_list s2)" and "hq_path rq = ''/api/v1/auth/users''"
  shows "x \<in> set (user_list (snd (if auth_user_revoke_sessions_match (hq_path rq)
     then (let (r, s'') = auth_route_post env dr (hq_path rq) [] t s2 in (Inr r, s''))
     else with_body rq s2 (\<lambda>payload. auth_route_post env dr (hq_path rq) payload t s2))))"
proof -
  have "\<not> auth_user_revoke_sessions_match ''/api/v1/auth/users''" by code_simp
  moreover have "auth_route_post env dr ''/api/v1/auth/users'' payload t s2 = post_user env dr payload t s2" for payload
    by (simp add: auth_route_post_def)
  ultimately show ?thesis unfolding assms(2)
    using with_body_keeps [of "\<lambda>s'. x \<in> set (user_list s')" s2 "\<lambda>payload. post_user env dr payload t s2" rq] assms(1) post_user_keeps by simp
qed

lemma serve_put_keeps:
  assumes "x \<in> set (user_list s2)" and "foreign t x" and "auth_user_match path"
  shows "x \<in> set (user_list (snd (with_body rq s2 (\<lambda>payload. auth_route_put env dr path payload (Some t) s2))))"
proof (rule with_body_keeps [of "\<lambda>s'. x \<in> set (user_list s')", OF assms(1)])
  show "x \<in> set (user_list (snd (auth_route_put env dr path payload (Some t) s2)))" for payload
    by (simp only: auth_route_put_def assms(3) if_True put_user_keeps [OF assms(1,2)])
qed

lemma serve_delete_keeps:
  assumes "users_ok s2" and "x \<in> set (user_list s2)" and "foreign t x" and "auth_user_match path"
  shows "x \<in> set (user_list (snd (auth_route_delete path (Some t) s2)))"
  using assms(4) delete_route_keeps [OF assms(1-3), of "user_of_path path"]
  by (cases "delete_user_route (user_of_path path) (Some t) s2") (simp add: auth_route_delete_def)

lemma serve_post_other_keeps:
  assumes "x \<in> set (user_list s2)" and "hq_path rq \<noteq> ''/api/v1/auth/users''"
    and "\<not> auth_user_totp_enroll_match (hq_path rq)" "\<not> auth_user_totp_disable_match (hq_path rq)"
  shows "x \<in> set (user_list (snd (if auth_user_revoke_sessions_match (hq_path rq)
     then (let (r, s'') = auth_route_post env dr (hq_path rq) [] t s2 in (Inr r, s''))
     else with_body rq s2 (\<lambda>payload. auth_route_post env dr (hq_path rq) payload t s2))))"
proof -
  note same = post_other_users [OF assms(2-4), of env dr _ t s2]
  show ?thesis
  proof (cases "auth_user_revoke_sessions_match (hq_path rq)")
    case True
    then show ?thesis using user_list_cong [OF same [of "[]"]] assms(1)
      by (cases "auth_route_post env dr (hq_path rq) [] t s2") simp
  next
    case False
    then show ?thesis using user_list_cong [OF with_body_users [OF same]] assms(1) by simp
  qed
qed

lemma serve_put_other_keeps:
  assumes "x \<in> set (user_list s2)" and "\<not> auth_user_match path"
  shows "x \<in> set (user_list (snd (with_body rq s2 (\<lambda>payload. auth_route_put env dr path payload t s2))))"
  using user_list_cong [OF with_body_users [OF put_role_users [OF assms(2)]]] assms(1) by simp

text \<open>The three requests that change entries without looking at the tenant: enrolling and removing a second factor, and
  deleting a role, which makes its holders viewers.\<close>

definition tenant_blind :: "string \<Rightarrow> string \<Rightarrow> bool" where
  "tenant_blind verb path = (verb = ''POST'' \<and> (auth_user_totp_enroll_match path \<or> auth_user_totp_disable_match path)
     \<or> verb = ''DELETE'' \<and> auth_role_match path)"

text \<open>C8: A requester who belongs to a tenant changes no entry of another tenant (or of none) through the account
  routes, the two routes of the second factor and the deletion of a role excepted: in every state the service can
  get into, whatever the request says, each such entry is still there, as it was, after the request.\<close>

theorem tenant_isolation:
  assumes fresh: "au_users s0 = None"
    and pr: "auth_principal henv (dr_now dr) rq (run (auth_step env) s0 cs) = (Inr (Some pr), s1)" "pr_tenant_id pr = Some t"
    and route: "\<not> tenant_blind verb (hq_path rq)"
    and x: "x \<in> set (user_list (run (auth_step env) s0 cs))" "foreign t x"
  shows "x \<in> set (user_list (snd (serve_auth henv dr query verb rq (run (auth_step env) s0 cs))))"
proof -
  let ?s = "run (auth_step env) s0 cs"
  have ok: "users_ok ?s" by (rule auth_users.run_inv [OF users_ok_fresh [OF fresh]])
  have keep: "x \<in> set (user_list (snd (guarded henv (dr_now dr) verb rq ?s route)))"
    if r: "\<And>s2. users_ok s2 \<Longrightarrow> x \<in> set (user_list s2) \<Longrightarrow> x \<in> set (user_list (snd (route pr s2)))" for verb route
  proof (rule guarded_cases [of henv "dr_now dr" verb rq ?s route])
    assume "au_users (snd (guarded henv (dr_now dr) verb rq ?s route)) = au_users ?s"
    then show ?thesis using x(1) user_list_cong by metis
  next
    fix pr' s1' s2
    assume "auth_principal henv (dr_now dr) rq ?s = (Inr (Some pr'), s1')" "au_users s2 = au_users ?s"
      and g: "guarded henv (dr_now dr) verb rq ?s route = route pr' s2"
    note u = \<open>au_users s2 = au_users ?s\<close>
    have "pr' = pr" using pr(1) \<open>auth_principal henv (dr_now dr) rq ?s = (Inr (Some pr'), s1')\<close> by simp
    moreover have "x \<in> set (user_list (snd (route pr s2)))"
      by (rule r) (simp_all only: users_ok_cong [OF u] user_list_cong [OF u] ok x(1))
    ultimately show ?thesis using g by simp
  qed
  consider (get) "verb = ''GET''" | (post) "verb = ''POST''" | (put) "verb = ''PUT''" | (del) "verb = ''DELETE''"
    | (other) "verb \<notin> {''GET'', ''POST'', ''PUT'', ''DELETE''}" by auto
  then show ?thesis
  proof cases
    case get
    have "x \<in> set (user_list (snd (serve_auth_get henv dr query rq ?s)))"
      unfolding serve_auth_get_def by (rule keep) (simp only: user_list_cong [OF auth_route_get_users])
    then show ?thesis by (simp add: serve_auth_def get)
  next
    case post
    then have r: "\<not> auth_user_totp_enroll_match (hq_path rq)" "\<not> auth_user_totp_disable_match (hq_path rq)"
      using route by (simp_all add: tenant_blind_def)
    have "x \<in> set (user_list (snd (serve_auth_post henv dr rq ?s)))"
      unfolding serve_auth_post_def
      by (rule keep, cases "hq_path rq = ''/api/v1/auth/users''") (erule (1) serve_post_keeps serve_post_other_keeps [OF _ _ r])+
    then show ?thesis by (simp add: serve_auth_def post)
  next
    case put
    have "x \<in> set (user_list (snd (serve_auth_put henv dr rq ?s)))"
      unfolding serve_auth_put_def
      by (rule keep, cases "auth_user_match (hq_path rq)") (unfold pr(2), (erule (1) serve_put_keeps [OF _ x(2)] serve_put_other_keeps)+)
    then show ?thesis by (simp add: serve_auth_def put)
  next
    case del
    then have r: "\<not> auth_role_match (hq_path rq)" using route by (simp add: tenant_blind_def)
    have "x \<in> set (user_list (snd (serve_auth_delete henv dr rq ?s)))"
      unfolding serve_auth_delete_def
    proof (rule keep)
      fix s2 assume s2: "users_ok s2" "x \<in> set (user_list s2)"
      show "x \<in> set (user_list (snd (auth_route_delete (hq_path rq) (pr_tenant_id pr) s2)))"
      proof (cases "auth_user_match (hq_path rq)")
        case True
        then show ?thesis unfolding pr(2) by (rule serve_delete_keeps [OF s2 x(2)])
      next
        case False
        from user_list_cong [OF delete_other_users [OF this r]] show ?thesis using s2(2) by simp
      qed
    qed
    then show ?thesis by (simp add: serve_auth_def del)
  next
    case other
    then show ?thesis using x(1) by (simp add: serve_auth_def)
  qed
qed

theorem tenant_isolation_witness:
  "demo_user ''carol'' ''viewer'' ''pbkdf2_sha256$390000$73616c74$73616c7470617373776f726432'' ''globex''
     \<in> set (user_list (snd (serve_auth demo_http demo_draw [] ''DELETE'' (demo_call ''a1'' ''/api/v1/auth/users/carol'' []) demo_tenants)))"
proof -
  let ?rq = "demo_call ''a1'' ''/api/v1/auth/users/carol'' []"
  have n: "au_users demo_nobody = None" by (simp add: demo_nobody_def)
  obtain s1 where p: "auth_principal demo_http (dr_now demo_draw) ?rq (run (auth_step demo_auth_env) demo_nobody demo_tenants_history)
      = (Inr (Some demo_alice_principal), s1)"
  proof -
    have "fst (auth_principal demo_http (dr_now demo_draw) ?rq demo_tenants) = Inr (Some demo_alice_principal)" by code_simp
    then show thesis using that unfolding demo_tenants_run by (metis prod.collapse)
  qed
  have t: "pr_tenant_id demo_alice_principal = Some ''acme''" by (simp add: demo_alice_principal_def)
  have r: "\<not> tenant_blind ''DELETE'' (hq_path ?rq)" by code_simp
  let ?x = "demo_user ''carol'' ''viewer'' ''pbkdf2_sha256$390000$73616c74$73616c7470617373776f726432'' ''globex''"
  have x: "?x \<in> set (user_list (run (auth_step demo_auth_env) demo_nobody demo_tenants_history))" "foreign ''acme'' ?x"
    unfolding demo_tenants_run by code_simp+
  from tenant_isolation [OF n p t r x] show ?thesis unfolding demo_tenants_run .
qed

subsection \<open>Ways around the bounds of a tenant\<close>

lemma built_in_exists:
  assumes "roles_ok s" and "b \<in> set default_roles"
  shows "fst (checked_role (entry_name b) s) = Inr (entry_name b)"
proof -
  have names: "list_all (\<lambda>b. lower (strip (entry_name b)) = entry_name b \<and> entry_name b \<noteq> [] \<and>
      validate_role_name (sor (entry_name b) ''viewer'') = Inr (entry_name b)) default_roles" by code_simp
  from list_roles_ok [OF assms(1)] obtain L where L: "roles_normal L" "fst (list_roles s) = Inr (sort_key rv_name (map (\<lambda>(n, ps).
     \<lparr>rv_name = n, rv_permissions = ps, rv_built_in = n \<in> set BUILT_IN_ROLE_NAMES\<rparr>) L))" by force
  have "map_of L (entry_name b) = Some (default_permissions b)" using L(1) assms(2) by (simp add: roles_normal_def list_all_iff)
  then have "entry_name b \<in> fst ` set L" by (metis image_eqI fst_conv map_of_SomeD)
  then have "entry_name b \<in> rv_name ` set (sort_key rv_name (map (\<lambda>(n, ps).
     \<lparr>rv_name = n, rv_permissions = ps, rv_built_in = n \<in> set BUILT_IN_ROLE_NAMES\<rparr>) L))" by force
  then show ?thesis using names assms(2) L(2)
    by (simp add: checked_role_def role_exists_def fst_abind list_all_iff)
qed

lemma find_updated: "find_entry P xs = Some d \<Longrightarrow> P d' \<Longrightarrow> find_entry P (update_first P (\<lambda>_. d') xs) = Some d'"
  by (induction xs) (auto simp: find_entry_def sat_def split: if_splits)

lemma valid_user_text:
  assumes "username_ok u"
  shows "validate_username u = Inr u" "strip u = u" "u \<noteq> []" "list_all name_char u"
proof -
  have l: "1 \<le> length u" "list_all user_char u" using assms by (auto simp: username_ok_def full_match_iff matches_between)
  then show s: "strip u = u" by (intro strip_no_space) (auto simp: list_all_iff user_char_def is_alnum_def is_alpha_def is_digit_def is_space_def Let_def)
  show ne: "u \<noteq> []" using l(1) by auto
  then show "validate_username u = Inr u" using s assms by (simp add: validate_username_def)
  show "list_all name_char u" using l(2) by (auto simp: list_all_iff user_char_def name_char_def)
qed

text \<open>The entry a tenant administrator asks for: the role of the whole installation, and no tenant.\<close>

definition escalation :: dict where
  "escalation = [(''role'', PStr ''superadmin''), (''tenant_id'', PStr [])]"

lemma escalated:
  assumes "roles_ok s" and "find_user u s = Some d" and "username_ok u"
  shows "\<exists>d'. find_user u (snd (update_user env salt u (change_of_payload escalation) s)) = Some d'
    \<and> user_role d' = ''superadmin'' \<and> user_tenant d' = None"
proof -
  have "role_entry ''superadmin'' [''*''] \<in> set default_roles" by (simp add: default_roles_def)
  moreover have "entry_name (role_entry ''superadmin'' [''*'']) = ''superadmin''" by code_simp
  ultimately have role: "fst (checked_role ''superadmin'' s) = Inr ''superadmin''" using built_in_exists [OF assms(1)] by metis
  obtain s' where c: "checked_role ''superadmin'' s = (Inr ''superadmin'', s')" using role by (cases "checked_role ''superadmin'' s") auto
  have users: "user_list s' = user_list s" using user_list_cong [OF checked_role_frame(1) [of "''superadmin''" s]] c by simp
  note un = valid_user_text [OF assms(3)]
  let ?d = "ddel ''bootstrap_only'' (ddel ''tenant_id'' (dset ''role'' (PStr ''superadmin'') d))"
  have ch: "change_of_payload escalation = \<lparr>uc_role = Some ''superadmin'', uc_enabled = None, uc_password = None,
      uc_tenant_id = Some None, uc_geo = None\<rparr>" by code_simp
  have f: "find_entry (same_user u) (user_list s) = Some d" using assms(2) un(2,3) by (simp add: find_user_def)
  have "user_list (snd (update_user env salt u (change_of_payload escalation) s)) = update_first (same_user u) (\<lambda>_. ?d) (user_list s)"
    by (simp add: update_user_def un f ch change_role_def c abind_def change_password_def change_enabled_def change_tenant_def change_geo_def users Let_def)
  moreover have "same_user u ?d" using find_entry_sat [OF f] by (simp add: same_user_def user_key_dset user_key_ddel)
  ultimately have "find_user u (snd (update_user env salt u (change_of_payload escalation) s)) = Some ?d"
    using find_updated [OF f] un(2,3) by (simp add: find_user_def)
  moreover have trim: "strip ''superadmin'' = ''superadmin''" by code_simp
  moreover have "user_role ?d = ''superadmin''" "user_tenant ?d = None"
    using trim by (simp_all add: user_role_def user_tenant_def str_default_def sor_def)
  ultimately show ?thesis by blast
qed

lemma user_path:
  assumes "u \<noteq> []" and "list_all name_char u"
  shows "auth_user_match (''/api/v1/auth/users/'' @ u)" "user_of_path (''/api/v1/auth/users/'' @ u) = u"
proof -
  show "auth_user_match (''/api/v1/auth/users/'' @ u)"
    using assms by (auto simp: auth_user_match_def match_line_def full_match_iff matches_seqs_Cons matches_seqs_Nil matches_lit_iff matches_plus_iff)
  have "takeWhile name_char u = u" using assms(2) by (simp add: takeWhile_eq_all_conv list_all_iff)
  then show "user_of_path (''/api/v1/auth/users/'' @ u) = u" by (simp add: user_of_path_def path_name_def)
qed

text \<open>C9: The bound of a tenant does not hold an administrator of the tenant: with the permission to write accounts
  the administrator gives an account of the tenant, the own one for instance, the role of the whole
  installation and no tenant in one request.\<close>

theorem tenant_admin_becomes_superadmin:
  assumes ok: "roles_ok s" and perm: "has_permission env (dr_now dr) rq s ''auth:write''"
    and own: "fst (auth_principal env (dr_now dr) rq s) = Inr (Some pr)" "pr_tenant_id pr = Some t" "get_user_tenant_id u s = Some t"
    and u: "username_ok u" "hq_path rq = ''/api/v1/auth/users/'' @ u" and body: "read_json_body rq = Inr escalation"
  shows "\<exists>d. find_user u (snd (serve_auth_put env dr rq s)) = Some d \<and> user_role d = ''superadmin'' \<and> user_tenant d = None"
proof -
  have rule: "required_permission ''PUT'' (hq_path rq) = Some ''auth:write''" unfolding u(2) by (rule user_route_rule)
  let ?route = "\<lambda>pr s'. with_body rq s' (\<lambda>payload. auth_route_put (he_auth env) dr (hq_path rq) payload (pr_tenant_id pr) s')"
  obtain pr' s1 s2 where p: "auth_principal env (dr_now dr) rq s = (Inr (Some pr'), s1)" "au_users s2 = au_users s"
    and ok2: "roles_ok s2" and "guarded env (dr_now dr) ''PUT'' rq s ?route = ?route pr' s2"
    by (rule permission_passes [OF perm rule ok, where route = ?route])
  then have g: "serve_auth_put env dr rq s = ?route pr' s2" unfolding serve_auth_put_def by simp
  have pr: "pr_tenant_id pr' = Some t" using own(1,2) p(1) by simp
  have "find_user u s2 = find_user u s" by (simp add: find_user_def Let_def user_list_cong [OF p(2)])
  then have same: "get_user_tenant_id u s2 = Some t" using own(3) by (simp add: get_user_tenant_id_def)
  then obtain d where d: "find_user u s2 = Some d" by (auto simp: get_user_tenant_id_def split: option.splits)
  from escalated [OF ok2 d u(1)] obtain d' where
    e: "find_user u (snd (update_user (he_auth env) (dr_salt dr) u (change_of_payload escalation) s2)) = Some d'"
      "user_role d' = ''superadmin''" "user_tenant d' = None" by blast
  note up = user_path [OF valid_user_text(3,4) [OF u(1)], folded u(2)]
  have "snd (serve_auth_put env dr rq s) = snd (update_user (he_auth env) (dr_salt dr) u (change_of_payload escalation) s2)"
    unfolding g by (simp add: with_body_def body auth_route_put_def up pr put_user_def same split: prod.split sum.split)
  then show ?thesis using e by auto
qed

theorem tenant_admin_becomes_superadmin_witness:
  "\<exists>d. find_user ''alice'' (snd (serve_auth_put demo_http demo_draw (demo_call ''a1'' ''/api/v1/auth/users/alice'' escalation) demo_tenants)) = Some d
    \<and> user_role d = ''superadmin'' \<and> user_tenant d = None"
proof -
  let ?rq = "demo_call ''a1'' ''/api/v1/auth/users/alice'' escalation"
  have "roles_ok demo_nobody" by (simp add: roles_ok_def demo_nobody_def)
  then have ok: "roles_ok demo_tenants" using auth_roles.run_inv unfolding demo_tenants_run [symmetric] by blast
  have perm: "has_permission demo_http (dr_now demo_draw) ?rq demo_tenants ''auth:write''" by code_simp
  have own: "fst (auth_principal demo_http (dr_now demo_draw) ?rq demo_tenants) = Inr (Some demo_alice_principal)"
    "pr_tenant_id demo_alice_principal = Some ''acme''" "get_user_tenant_id ''alice'' demo_tenants = Some ''acme''" by code_simp+
  have u: "username_ok ''alice''" "hq_path ?rq = ''/api/v1/auth/users/'' @ ''alice''" by code_simp+
  have body: "read_json_body ?rq = Inr escalation" by code_simp
  show ?thesis by (rule tenant_admin_becomes_superadmin [OF ok perm own u body])
qed

end
