(* ===== verification/AuthGuessing.thy ===== *)
theory AuthGuessing
  imports AuthHttpProps
begin

text \<open>
  Guessing passwords over HTTP: the answers to a sequence of login requests, from any clients and for any
  users, and how fast wrong passwords for one user from one client can be tried. The requests are handled one
  after the other; what parallel requests do to the guard is shown at the end.
\<close>

fun logins :: "http_env \<Rightarrow> guard \<Rightarrow> auth \<Rightarrow> (login_draw \<times> http_request) list \<Rightarrow> (login_draw \<times> http_request \<times> http_response result) list" where
  "logins env g s [] = []"
| "logins env g s ((ld, rq) # rqs) = (case handle_login env ld rq g s of (r, g', s') \<Rightarrow> (ld, rq, r) # logins env g' s' rqs)"

definition login_key :: "http_request \<Rightarrow> string option" where
  "login_key rq = (case credentials_body [''username'', ''password''] [''totp_code''] rq of Inl e \<Rightarrow> None
     | Inr (username, payload) \<Rightarrow> Some (login_guard_key (hq_client rq) username))"

text \<open>A login for the key that was answered with a status.\<close>

definition answered :: "int \<Rightarrow> string \<Rightarrow> login_draw \<times> http_request \<times> http_response result \<Rightarrow> bool" where
  "answered status key a = (case a of (ld, rq, r) \<Rightarrow> login_key rq = Some key \<and>
     (case r of Inl e \<Rightarrow> False | Inr resp \<Rightarrow> hs_status resp = status))"

definition try_times :: "login_draw \<times> http_request \<times> http_response result \<Rightarrow> rat \<times> rat" where
  "try_times a = (ld_checked (fst a), ld_recorded (fst a))"

definition tries :: "http_env \<Rightarrow> guard \<Rightarrow> auth \<Rightarrow> string \<Rightarrow> (login_draw \<times> http_request) list \<Rightarrow> (rat \<times> rat) list" where
  "tries env g s key rqs = map try_times (filter (answered 401 key) (logins env g s rqs))"

lemma statuses [simp]: "hs_status (json_response n p) = n" "hs_status (error_response n m) = n"
  "hs_status (invalid_payload e) = 400" "hs_status (blocked_response w) = 429" "hs_status (granted_response b gr) = 200"
  by (simp_all add: json_response_def error_response_def invalid_payload_def blocked_response_def granted_response_def)

lemma guard_other_key [simp]:
  "key' \<noteq> key \<Longrightarrow> map_of (record_login_failure cfg f key' g) key = map_of g key"
  "key' \<noteq> key \<Longrightarrow> map_of (record_login_success key' g) key = map_of g key"
  by (auto simp: record_login_failure_def record_login_success_def Let_def)

lemma guesses_cong:
  assumes "map_of g key = map_of g' key"
  shows "guesses cfg key g as = guesses cfg key g' as"
  using assms
proof (induction as arbitrary: g g')
  case (Cons a as)
  obtain c f where a: "a = (c, f)" by (cases a)
  have "map_of (record_login_failure cfg f key g) key = map_of (record_login_failure cfg f key g') key"
    using Cons.prems by (simp add: record_login_failure_def Let_def)
  from Cons.IH [OF this] Cons.IH [OF Cons.prems] Cons.prems show ?case
    by (simp add: a check_login_guard_def)
qed simp

text \<open>What a login does to the entry of a key, by the answer.\<close>

lemma outcome_cases:
  assumes "login_outcome env ld key r g = (resp, g')"
  shows "(\<exists>h. resp = Inr h \<and> hs_status h = 401 \<and> g' = record_login_failure (he_guard env) (ld_recorded ld) key g)
    \<or> (\<exists>h. resp = Inr h \<and> hs_status h = 200 \<and> g' = record_login_success key g) \<or> (\<exists>e. resp = Inl e \<and> g' = g)"
  using assms by (auto simp: login_outcome_def split: sum.splits option.splits exn.splits)

lemma login_cases:
  assumes "handle_login env ld rq g s = (resp, g', s')" and "login_key rq = Some key"
  shows "(\<exists>h. resp = Inr h \<and> hs_status h = 401 \<and> fst (check_login_guard (ld_checked ld) key g)
      \<and> g' = record_login_failure (he_guard env) (ld_recorded ld) key g)
    \<or> (\<exists>h. resp = Inr h \<and> hs_status h = 200) \<or> (\<not> (\<exists>h. resp = Inr h \<and> hs_status h = 401) \<and> g' = g)"
proof -
  from assms(2) obtain u payload where b: "credentials_body [''username'', ''password''] [''totp_code''] rq = Inr (u, payload)"
    and k: "key = login_guard_key (hq_client rq) u" by (auto simp: login_key_def split: sum.splits)
  show ?thesis
  proof (cases "sget payload ''password'' = []")
    case True
    then show ?thesis using assms(1) b by (auto simp: handle_login_def)
  next
    case False
    obtain ok w where c: "check_login_guard (ld_checked ld) key g = (ok, w)" by (cases "check_login_guard (ld_checked ld) key g")
    show ?thesis
    proof (cases ok)
      case False
      then show ?thesis using assms(1) b c k \<open>sget payload ''password'' \<noteq> []\<close> by (auto simp: handle_login_def)
    next
      case True
      then obtain r where "login_outcome env ld key r g = (resp, g')"
        using assms(1) b c k False by (auto simp: handle_login_def Let_def split: prod.splits)
      from outcome_cases [OF this] show ?thesis using True c by auto
    qed
  qed
qed

lemma login_other_key:
  assumes "handle_login env ld rq g s = (resp, g', s')" and "login_key rq \<noteq> Some key"
  shows "map_of g' key = map_of g key"
proof (cases "credentials_body [''username'', ''password''] [''totp_code''] rq")
  case (Inl e)
  then show ?thesis using assms by (simp add: handle_login_def)
next
  case (Inr up)
  obtain u payload where up: "up = (u, payload)" by (cases up)
  let ?key = "login_guard_key (hq_client rq) u"
  have k: "?key \<noteq> key" using assms(2) Inr up by (simp add: login_key_def)
  have "g' = g \<or> (\<exists>r. login_outcome env ld ?key r g = (resp, g'))"
    using assms(1) Inr up by (auto simp: handle_login_def Let_def split: prod.splits if_splits)
  then show ?thesis using k by (auto dest!: outcome_cases)
qed

lemma tries_are_guesses:
  assumes "\<forall>a \<in> set (logins env g s rqs). \<not> answered 200 key a"
  shows "\<exists>as. set as \<subseteq> (\<lambda>(ld, rq). (ld_checked ld, ld_recorded ld)) ` set rqs
    \<and> tries env g s key rqs = guesses (he_guard env) key g as"
  using assms
proof (induction rqs arbitrary: g s)
  case Nil
  show ?case by (intro exI [of _ "[]"]) (simp add: tries_def)
next
  case (Cons q rqs)
  obtain ld rq where q: "q = (ld, rq)" by (cases q)
  obtain r g' s' where h: "handle_login env ld rq g s = (r, g', s')" by (cases "handle_login env ld rq g s")
  have none: "\<not> answered 200 key (ld, rq, r)" and rest: "\<forall>a \<in> set (logins env g' s' rqs). \<not> answered 200 key a"
    using Cons.prems by (simp_all add: q h)
  from Cons.IH [OF rest] obtain as where as: "set as \<subseteq> (\<lambda>(ld, rq). (ld_checked ld, ld_recorded ld)) ` set rqs"
    "tries env g' s' key rqs = guesses (he_guard env) key g' as" by blast
  have split: "tries env g s key (q # rqs) = (if answered 401 key (ld, rq, r) then [try_times (ld, rq, r)] else []) @ tries env g' s' key rqs"
    by (simp add: tries_def q h)
  show ?case
  proof (cases "answered 401 key (ld, rq, r)")
    case True
    then have k: "login_key rq = Some key" by (auto simp: answered_def)
    from login_cases [OF h k] True k have "fst (check_login_guard (ld_checked ld) key g)"
      "g' = record_login_failure (he_guard env) (ld_recorded ld) key g" by (auto simp: answered_def split: sum.splits)
    then show ?thesis using as True split
      by (intro exI [of _ "(ld_checked ld, ld_recorded ld) # as"]) (auto simp: try_times_def q)
  next
    case False
    have "map_of g' key = map_of g key"
    proof (cases "login_key rq = Some key")
      case True
      then show ?thesis using login_cases [OF h True] False none by (auto simp: answered_def)
    qed (rule login_other_key [OF h])
    from guesses_cong [OF this] show ?thesis using as False split by (intro exI [of _ as]) auto
  qed
qed

text \<open>C10: Guessing passwords is slow: among login requests handled one after the other, from any clients and for any
  users, those for one user from one address that are refused as wrong come at most up to the threshold and then
  one per lockout time, as long as no login for that user from that address succeeds in between.\<close>

theorem password_guessing_is_slow:
  assumes "\<forall>(ld, rq) \<in> set rqs. ld_checked ld \<le> ld_recorded ld"
    and "\<forall>a \<in> set (logins env [] s rqs). \<not> answered 200 key a"
    and "n = nat (max 1 (gc_lockout_threshold (he_guard env)))" and "n - 1 + m < length (tries env [] s key rqs)"
  shows "snd (tries env [] s key rqs ! (n - 1)) + of_nat m * lockout (he_guard env) \<le> snd (tries env [] s key rqs ! (n - 1 + m))"
proof -
  from tries_are_guesses [OF assms(2)] obtain as where as: "set as \<subseteq> (\<lambda>(ld, rq). (ld_checked ld, ld_recorded ld)) ` set rqs"
    "tries env [] s key rqs = guesses (he_guard env) key [] as" by blast
  have "\<forall>(c, f) \<in> set as. c \<le> f" using as(1) assms(1) by fastforce
  from guesses_bounded [OF this assms(3)] assms(4) as(2) show ?thesis by simp
qed

definition demo_try :: "rat \<Rightarrow> login_draw" where
  "demo_try t = \<lparr>ld_checked = t, ld_recorded = t + 1, ld_ldap = None, ld_now_user = 0, ld_now_totp = 0, ld_now = 0,
     ld_access_token = [], ld_refresh_token = [], ld_session_id = []\<rparr>"

definition demo_guess :: http_request where
  "demo_guess = demo_call [] ''/api/v1/auth/login'' [(''username'', PStr ''Eve''), (''password'', PStr ''guess'')]"

lemma demo_guess_body: "credentials_body [''username'', ''password''] [''totp_code''] demo_guess
    = Inr (''Eve'', [(''username'', PStr ''Eve''), (''password'', PStr ''guess'')])"
  "sget [(''username'', PStr ''Eve''), (''password'', PStr ''guess'')] ''password'' = ''guess''"
  "login_guard_key (hq_client demo_guess) ''Eve'' = ''10.0.0.7::eve''"
  by code_simp+

lemma demo_guess_login: "login (he_auth demo_http) (login_call (demo_try t) demo_guess ''Eve'' d) demo_nobody = (Inr None, demo_nobody)"
proof -
  have "find_user ''Eve'' demo_nobody = None" "username_ok ''Eve''" "strip ''Eve'' = ''Eve''" by code_simp+
  then show ?thesis by (simp add: login_def login_user_def login_call_def demo_try_def ldap_call_def provision_ldap_shadow_user_def)
qed

lemma demo_try_times: "ld_checked (demo_try t) = t" "ld_recorded (demo_try t) = t + 1"
  by (simp_all add: demo_try_def)

lemma demo_http_guard: "he_guard demo_http = demo_guard"
  by (simp add: demo_http_def)

lemma demo_guess_step:
  "handle_login demo_http (demo_try t) demo_guess g demo_nobody = (case check_login_guard t ''10.0.0.7::eve'' g of (ok, wait) \<Rightarrow>
     if \<not> ok then (Inr (blocked_response wait), g, demo_nobody)
     else (Inr (error_response 401 ''invalid credentials''), record_login_failure demo_guard (t + 1) ''10.0.0.7::eve'' g, demo_nobody))"
  by (simp add: handle_login_def demo_guess_body demo_guess_login login_outcome_def demo_http_guard demo_try_times Let_def split: prod.split)

definition demo_attack :: "(login_draw \<times> http_request) list" where
  "demo_attack = [(demo_try 0, demo_guess), (demo_try 10, demo_guess), (demo_try 20, demo_guess), (demo_try 312, demo_guess)]"

lemma demo_attack_run: "logins demo_http [] demo_nobody demo_attack =
    [(demo_try 0, demo_guess, Inr (error_response 401 ''invalid credentials'')),
     (demo_try 10, demo_guess, Inr (error_response 401 ''invalid credentials'')),
     (demo_try 20, demo_guess, Inr (blocked_response 291)),
     (demo_try 312, demo_guess, Inr (error_response 401 ''invalid credentials''))]"
  by (simp add: demo_attack_def demo_guess_step check_login_guard_def record_login_failure_def demo_guard_def Let_def trunc_def)

lemma demo_guess_key: "login_key demo_guess = Some ''10.0.0.7::eve''"
  by (simp add: login_key_def demo_guess_body)

lemma demo_attack_tries: "tries demo_http [] demo_nobody ''10.0.0.7::eve'' demo_attack = [(0, 1), (10, 11), (312, 313)]"
  by (simp add: tries_def demo_attack_run answered_def demo_guess_key try_times_def demo_try_times)

theorem password_guessing_is_slow_witness:
  "snd (tries demo_http [] demo_nobody ''10.0.0.7::eve'' demo_attack ! 1) + of_nat 1 * lockout (he_guard demo_http)
     \<le> snd (tries demo_http [] demo_nobody ''10.0.0.7::eve'' demo_attack ! 2)"
proof -
  have o: "\<forall>(ld, rq) \<in> set demo_attack. ld_checked ld \<le> ld_recorded ld" by (simp add: demo_attack_def demo_try_times)
  have a: "\<forall>a \<in> set (logins demo_http [] demo_nobody demo_attack). \<not> answered 200 ''10.0.0.7::eve'' a"
    by (simp add: demo_attack_run answered_def)
  have n: "2 = nat (max 1 (gc_lockout_threshold (he_guard demo_http)))" by (simp add: demo_http_def demo_guard_def)
  have l: "2 - 1 + 1 < length (tries demo_http [] demo_nobody ''10.0.0.7::eve'' demo_attack)" by (simp add: demo_attack_tries)
  from password_guessing_is_slow [OF o a n l] show ?thesis by (simp add: numeral_2_eq_2)
qed

subsection \<open>Parallel requests\<close>

text \<open>
  The handler threads take the lock for the check and for the record separately. The events of attempts for one
  key in the order in which they take the lock; the checks that let the attempt go on.
\<close>

datatype guard_event = CheckAt rat | FailureAt rat

fun admitted_checks :: "guard_config \<Rightarrow> string \<Rightarrow> guard \<Rightarrow> guard_event list \<Rightarrow> nat" where
  "admitted_checks cfg key g [] = 0"
| "admitted_checks cfg key g (CheckAt t # es) = (if fst (check_login_guard t key g) then Suc (admitted_checks cfg key g es) else admitted_checks cfg key g es)"
| "admitted_checks cfg key g (FailureAt t # es) = admitted_checks cfg key (record_login_failure cfg t key g) es"

text \<open>So any number of attempts made at once passes the check before the first failure is recorded.\<close>

lemma parallel_attempts_pass:
  assumes "map_of g key = None"
  shows "admitted_checks cfg key g (replicate k (CheckAt t) @ replicate n (FailureAt t')) = k"
proof -
  have fails: "admitted_checks cfg key g' (replicate n (FailureAt t')) = 0" for g' by (induction n arbitrary: g') simp_all
  show ?thesis using assms by (induction k) (simp_all add: fails check_login_guard_def)
qed

end
