(* ===== verification/Failover.thy ===== *)
theory Failover
  imports StateStore
begin

text \<open>
  Moving VMs between nodes: the failover of a failed node (\<open>ha_manager.py\<close>), the maintenance of a node
  (\<open>maintenance_service.py\<close>) and the placement of anti-affinity groups (\<open>anti_affinity_scheduler.py\<close>). What the
  services read from the providers and what their calls answer may depend on the calls made before, so the
  providers are functions of the log of calls. An answer that is an \<open>Inl\<close> is an exception of the provider.
\<close>

record vm_summary =
  hv_vmid :: int
  hv_node :: string
  hv_name :: string
  hv_status :: string

datatype ha_call =
    MigrateVm int string bool bool string
  | ColdRestartVm int string string

type_synonym ha_log = "ha_call list"

record providers =
  hw_nodes :: "ha_log \<Rightarrow> py list result"
  hw_vms :: "ha_log \<Rightarrow> vm_summary list result"
  hw_config :: "ha_log \<Rightarrow> string \<Rightarrow> int \<Rightarrow> py result"
  hw_call :: "ha_log \<Rightarrow> ha_call \<Rightarrow> py result"

definition provider :: "providers \<Rightarrow> ha_call \<Rightarrow> ha_log \<Rightarrow> py result \<times> ha_log" where
  "provider w c lg = (hw_call w lg c, lg @ [c])"

text \<open>Sequencing: an exception ends the operation, the calls made stay made.\<close>

definition hbind :: "'a result \<times> ha_log \<Rightarrow> ('a \<Rightarrow> ha_log \<Rightarrow> 'b result \<times> ha_log) \<Rightarrow> 'b result \<times> ha_log" where
  "hbind p f = (case p of (Inl e, lg) \<Rightarrow> (Inl e, lg) | (Inr x, lg) \<Rightarrow> f x lg)"

subsection \<open>Nodes and policies\<close>

definition item_node :: "py \<Rightarrow> string" where
  "item_node x = strip (str_or (por (pget (dict_of x) ''name'') (pget (dict_of x) ''node'')))"

definition item_status :: "py \<Rightarrow> string" where
  "item_status x = lower (strip (py_str (por (pget (dict_of x) ''status'') (PStr ''unknown''))))"

definition normalize_ha_policy :: "py \<Rightarrow> string" where
  "normalize_ha_policy value = (let n = replace_char (CHR ''-'') ''_'' (lower (strip (str_or value)))
     in if n \<in> {''disabled'', ''restart'', ''fail_over''} then n else ''disabled'')"

definition config_policy :: "py \<Rightarrow> string" where
  "config_policy config = normalize_ha_policy (if is_dict config then pget (dict_of config) ''ha_policy'' else PStr [])"

text \<open>The nodes with a name other than the source, in the order listed.\<close>

definition other_nodes :: "string \<Rightarrow> py list \<Rightarrow> py list" where
  "other_nodes source items = filter (\<lambda>x. is_dict x \<and> item_node x \<noteq> [] \<and> item_node x \<noteq> source) items"

definition online_names :: "py list \<Rightarrow> string list" where
  "online_names items = map item_node (filter (\<lambda>x. item_status x = ''online'') items)"

definition first_sorted :: "exn \<Rightarrow> string list \<Rightarrow> string result" where
  "first_sorted e names = (if names = [] then Inl e else Inr (hd (sort names)))"

definition pick_target_node :: "providers \<Rightarrow> string \<Rightarrow> ha_log \<Rightarrow> string result" where
  "pick_target_node w source_node lg = (let source = strip source_node in
     rbind (hw_nodes w lg) (\<lambda>items.
       first_sorted (RuntimeError (''no online target node available for source node '' @ source))
         (online_names (other_nodes source items))))"

subsection \<open>Failover\<close>

text \<open>The report on one VM; the fields of the source's dictionary that are absent are \<open>None\<close> or empty.\<close>

record ha_action =
  ac_vmid :: int
  ac_vm_name :: string
  ac_source :: string
  ac_policy :: string
  ac_vm_status :: "string option"
  ac_handled :: bool
  ac_result :: string
  ac_reason :: string
  ac_target :: "string option"
  ac_fallback :: "string option"
  ac_details :: "py option"

definition vm_node :: "vm_summary \<Rightarrow> string" where
  "vm_node vm = strip (hv_node vm)"

definition vm_status :: "vm_summary \<Rightarrow> string" where
  "vm_status vm = lower (strip (sor (hv_status vm) ''unknown''))"

definition vm_action :: "vm_summary \<Rightarrow> string \<Rightarrow> ha_action" where
  "vm_action vm policy = \<lparr>ac_vmid = hv_vmid vm, ac_vm_name = sor (hv_name vm) (''vm-'' @ int_str (hv_vmid vm)),
     ac_source = vm_node vm, ac_policy = policy, ac_vm_status = None, ac_handled = False, ac_result = [], ac_reason = [],
     ac_target = None, ac_fallback = None, ac_details = None\<rparr>"

definition skipped :: "ha_action \<Rightarrow> ha_action" where
  "skipped a = a\<lparr>ac_result := ''skipped'', ac_reason := ''ha_policy=disabled''\<rparr>"

definition handled_as :: "string \<Rightarrow> py \<Rightarrow> ha_action \<Rightarrow> ha_action" where
  "handled_as res details a = a\<lparr>ac_handled := True, ac_result := res, ac_details := Some details\<rparr>"

text \<open>The migration, or the restart on the target when the migration raises.\<close>

definition migrate_or_restart :: "providers \<Rightarrow> int \<Rightarrow> string \<Rightarrow> string \<Rightarrow> bool \<Rightarrow> string \<Rightarrow> ha_log
    \<Rightarrow> (py + string \<times> py) result \<times> ha_log" where
  "migrate_or_restart w vmid node target live who lg =
     (case provider w (MigrateVm vmid target live False who) lg of
        (Inr details, lg1) \<Rightarrow> (Inr (Inl details), lg1)
      | (Inl e, lg1) \<Rightarrow> hbind (provider w (ColdRestartVm vmid node target) lg1) (\<lambda>details lg2.
           (Inr (Inr (exn_message e, details)), lg2)))"

definition reconcile_vm :: "providers \<Rightarrow> string \<Rightarrow> vm_summary \<Rightarrow> ha_log \<Rightarrow> ha_action result \<times> ha_log" where
  "reconcile_vm w who vm lg = (let node = vm_node vm; vmid = hv_vmid vm in
     hbind (hw_config w lg node vmid, lg) (\<lambda>config lg.
       let policy = config_policy config; action = vm_action vm policy in
       if policy = ''disabled'' then (Inr (skipped action), lg)
       else hbind (pick_target_node w node lg, lg) (\<lambda>target lg.
         let action = action\<lparr>ac_target := Some target\<rparr> in
         if policy = ''restart''
         then hbind (provider w (ColdRestartVm vmid node target) lg) (\<lambda>details lg. (Inr (handled_as ''cold_restart'' details action), lg))
         else hbind (migrate_or_restart w vmid node target (vm_status vm = ''running'') who lg) (\<lambda>r lg.
           (Inr (case r of Inl details \<Rightarrow> handled_as ''live_migration'' details action
              | Inr (reason, details) \<Rightarrow> (handled_as ''cold_restart_fallback'' details action)\<lparr>ac_fallback := Some reason\<rparr>), lg)))))"

fun for_vms :: "(vm_summary \<Rightarrow> ha_log \<Rightarrow> ha_action result \<times> ha_log) \<Rightarrow> vm_summary list \<Rightarrow> ha_log \<Rightarrow> ha_action list result \<times> ha_log" where
  "for_vms f [] lg = (Inr [], lg)"
| "for_vms f (vm # vms) lg = hbind (f vm lg) (\<lambda>a lg. hbind (for_vms f vms lg) (\<lambda>as lg. (Inr (a # as), lg)))"

definition vms_on :: "string \<Rightarrow> vm_summary list \<Rightarrow> vm_summary list" where
  "vms_on node vms = filter (\<lambda>vm. vm_node vm = node) vms"

text \<open>The report without the fixed head of the envelope: node, actions; the counts are those of the actions.\<close>

definition handled_count :: "ha_action list \<Rightarrow> nat" where
  "handled_count as = length (filter ac_handled as)"

definition reconcile_failed_node :: "providers \<Rightarrow> string \<Rightarrow> string \<Rightarrow> ha_log \<Rightarrow> (string \<times> ha_action list) result \<times> ha_log" where
  "reconcile_failed_node w failed_node who lg = (let source = strip failed_node in
     if source = [] then (Inl (ValueError ''failed_node is required''), lg)
     else hbind (hw_vms w lg, lg) (\<lambda>vms lg. hbind (for_vms (reconcile_vm w who) (vms_on source vms) lg) (\<lambda>as lg. (Inr (source, as), lg))))"

subsection \<open>Maintenance\<close>

definition maintenance_default :: py where
  "maintenance_default = PDict [(''maintenance_nodes'', PList [])]"

definition maintenance_nodes :: "state_file \<Rightarrow> string list result" where
  "maintenance_nodes f = rbind (store_load maintenance_default f) (\<lambda>payload.
     let state = (if is_dict payload then payload else maintenance_default);
         nodes = map (\<lambda>x. strip (str_or x)) (list_of (pget (dict_of state) ''maintenance_nodes''))
     in Inr (sort (dedup_onto [] (filter (\<lambda>n. n \<noteq> []) nodes))))"

definition is_node_in_maintenance :: "string \<Rightarrow> state_file \<Rightarrow> bool result" where
  "is_node_in_maintenance node_name f = (let node = strip node_name in
     if node = [] then Inr False else rbind (maintenance_nodes f) (\<lambda>ns. Inr (node \<in> set ns)))"

definition set_node_maintenance :: "string \<Rightarrow> bool \<Rightarrow> state_file \<Rightarrow> unit result \<times> state_file" where
  "set_node_maintenance node_name enabled f = (let node = strip node_name in
     if node = [] then (Inr (), f)
     else case maintenance_nodes f of Inl e \<Rightarrow> (Inl e, f)
     | Inr ns \<Rightarrow> let ns1 = (if enabled \<and> node \<notin> set ns then ns @ [node] else ns);
           ns2 = (if enabled then ns1 else filter (\<lambda>n. n \<noteq> node) ns1)
         in (Inr (), store_save (PDict [(''maintenance_nodes'', PList (map PStr (sort ns2)))]) f))"

text \<open>The state file is read for every candidate; it does not change meanwhile.\<close>

definition pick_drain_target :: "providers \<Rightarrow> state_file \<Rightarrow> string \<Rightarrow> ha_log \<Rightarrow> string result" where
  "pick_drain_target w f source_node lg = (let source = strip source_node in
     rbind (hw_nodes w lg) (\<lambda>items. let others = other_nodes source items in
       rbind (if others = [] then Inr [] else maintenance_nodes f) (\<lambda>ns.
         first_sorted (RuntimeError (''no online non-maintenance target node available for '' @ source))
           (online_names (filter (\<lambda>x. item_node x \<notin> set ns) others)))))"

definition plan_vm :: "providers \<Rightarrow> state_file \<Rightarrow> vm_summary \<Rightarrow> ha_log \<Rightarrow> ha_action result \<times> ha_log" where
  "plan_vm w f vm lg =
     (rbind (hw_config w lg (vm_node vm) (hv_vmid vm)) (\<lambda>config.
        let policy = config_policy config; action = (vm_action vm policy)\<lparr>ac_vm_status := Some (vm_status vm)\<rparr> in
        if policy = ''disabled'' then Inr (skipped action)
        else rbind (pick_drain_target w f (vm_node vm) lg) (\<lambda>target.
          Inr (action\<lparr>ac_target := Some target, ac_handled := True,
                 ac_result := (if policy = ''restart'' then ''cold_restart'' else ''live_migration'')\<rparr>))), lg)"

definition plan_drain_actions :: "providers \<Rightarrow> state_file \<Rightarrow> string \<Rightarrow> ha_log \<Rightarrow> (string \<times> ha_action list) result \<times> ha_log" where
  "plan_drain_actions w f node_name lg = (let source = strip node_name in
     if source = [] then (Inl (ValueError ''node_name is required''), lg)
     else hbind (hw_nodes w lg, lg) (\<lambda>items lg.
       if source \<notin> item_node ` set (filter is_dict items) then (Inl (RuntimeError (''node '' @ source @ '' not found'')), lg)
       else hbind (hw_vms w lg, lg) (\<lambda>vms lg. hbind (for_vms (plan_vm w f) (vms_on source vms) lg) (\<lambda>as lg. (Inr (source, as), lg)))))"

text \<open>The reports of drain and preview: node, whether it is in maintenance, actions, all nodes in maintenance.\<close>

type_synonym drain_report = "string \<times> bool \<times> ha_action list \<times> string list"

definition preview_drain_node :: "providers \<Rightarrow> state_file \<Rightarrow> string \<Rightarrow> ha_log \<Rightarrow> drain_report result \<times> ha_log" where
  "preview_drain_node w f node_name lg = hbind (plan_drain_actions w f node_name lg) (\<lambda>(source, as) lg.
     (rbind (is_node_in_maintenance source f) (\<lambda>b. rbind (maintenance_nodes f) (\<lambda>ns. Inr (source, b, as, ns))), lg))"

definition drain_action :: "providers \<Rightarrow> string \<Rightarrow> ha_action \<Rightarrow> ha_log \<Rightarrow> ha_action result \<times> ha_log" where
  "drain_action w who a lg =
     (if \<not> ac_handled a then (Inr a, lg)
      else let target = strip (case ac_target a of None \<Rightarrow> [] | Some t \<Rightarrow> t);
               status = lower (strip (sor (case ac_vm_status a of None \<Rightarrow> [] | Some st \<Rightarrow> st) ''unknown''));
               policy = normalize_ha_policy (PStr (ac_policy a)) in
        if policy = ''restart''
        then hbind (provider w (ColdRestartVm (ac_vmid a) (strip (ac_source a)) target) lg) (\<lambda>details lg. (Inr (a\<lparr>ac_details := Some details\<rparr>), lg))
        else hbind (migrate_or_restart w (ac_vmid a) (strip (ac_source a)) target (status = ''running'') who lg) (\<lambda>r lg.
           (Inr (case r of Inl details \<Rightarrow> a\<lparr>ac_details := Some details\<rparr>
              | Inr (reason, details) \<Rightarrow> a\<lparr>ac_details := Some details, ac_result := ''cold_restart_fallback'', ac_fallback := Some reason\<rparr>), lg)))"

fun drain_actions :: "providers \<Rightarrow> string \<Rightarrow> ha_action list \<Rightarrow> ha_log \<Rightarrow> ha_action list result \<times> ha_log" where
  "drain_actions w who [] lg = (Inr [], lg)"
| "drain_actions w who (a # as) lg = hbind (drain_action w who a lg) (\<lambda>b lg. hbind (drain_actions w who as lg) (\<lambda>bs lg. (Inr (b # bs), lg)))"

definition drain_node :: "providers \<Rightarrow> string \<Rightarrow> string \<Rightarrow> state_file \<Rightarrow> ha_log \<Rightarrow> drain_report result \<times> state_file \<times> ha_log" where
  "drain_node w node_name who f lg = (case plan_drain_actions w f node_name lg of
      (Inl e, lg1) \<Rightarrow> (Inl e, f, lg1)
    | (Inr (source, planned), lg1) \<Rightarrow>
        (case set_node_maintenance source True f of
           (Inl e, f1) \<Rightarrow> (Inl e, f1, lg1)
         | (Inr _, f1) \<Rightarrow>
             let (r, lg2) = drain_actions w who planned lg1
             in (rbind r (\<lambda>as. rbind (maintenance_nodes f1) (\<lambda>ns. Inr (source, True, as, ns))), f1, lg2)))"

subsection \<open>Anti-affinity\<close>

definition eligible_nodes :: "providers \<Rightarrow> (string \<Rightarrow> bool) \<Rightarrow> ha_log \<Rightarrow> string list result" where
  "eligible_nodes w in_maintenance lg = rbind (hw_nodes w lg) (\<lambda>items.
     Inr (sort (map item_node (filter (\<lambda>x. is_dict x \<and> item_node x \<noteq> [] \<and> item_status x \<in> {''online'', ''active''}
        \<and> \<not> in_maintenance (item_node x)) items))))"

text \<open>A configuration that cannot be read is left out, one that is no dictionary has no \<open>get\<close>.\<close>

definition group_of_config :: "py \<Rightarrow> string result" where
  "group_of_config config = (case por config (PDict []) of
      PDict d \<Rightarrow> Inr (stget d ''anti_affinity_group'') | _ \<Rightarrow> Inl (AttributeError ''object has no attribute get''))"

fun occupied_nodes :: "providers \<Rightarrow> string \<Rightarrow> int \<Rightarrow> vm_summary list \<Rightarrow> ha_log \<Rightarrow> string list result" where
  "occupied_nodes w grp vmid [] lg = Inr []"
| "occupied_nodes w grp vmid (vm # vms) lg =
     (if hv_vmid vm = vmid \<or> vm_node vm = [] then occupied_nodes w grp vmid vms lg
      else case hw_config w lg (vm_node vm) (hv_vmid vm) of Inl e \<Rightarrow> occupied_nodes w grp vmid vms lg
      | Inr config \<Rightarrow> rbind (group_of_config config) (\<lambda>g. rbind (occupied_nodes w grp vmid vms lg) (\<lambda>ns.
           Inr (if g = grp then vm_node vm # ns else ns))))"

definition occupied_nodes_for_group :: "providers \<Rightarrow> string \<Rightarrow> int \<Rightarrow> ha_log \<Rightarrow> string list result" where
  "occupied_nodes_for_group w group_name vmid lg = (let grp = strip group_name in
     if grp = [] then Inr [] else rbind (hw_vms w lg) (\<lambda>vms. occupied_nodes w grp vmid vms lg))"

definition pick_node :: "providers \<Rightarrow> (string \<Rightarrow> bool) \<Rightarrow> int \<Rightarrow> string \<Rightarrow> ha_log \<Rightarrow> string result" where
  "pick_node w in_maintenance vmid group_name lg = (let grp = strip group_name in
     if grp = [] then Inl (ValueError ''anti_affinity_group must not be empty'')
     else rbind (eligible_nodes w in_maintenance lg) (\<lambda>online.
       if online = [] then Inl (RuntimeError ''no online nodes available'')
       else rbind (occupied_nodes_for_group w grp vmid lg) (\<lambda>occupied.
         case filter (\<lambda>n. n \<notin> set occupied) online of
           [] \<Rightarrow> Inl (RuntimeError (''anti-affinity constraint violated: all online nodes already host a member of group '' @ [CHR 0x27] @ grp @ [CHR 0x27]))
         | n # _ \<Rightarrow> Inr n)))"

record placement_check =
  pc_ok :: bool
  pc_node :: string
  pc_group :: string
  pc_occupied :: "string list"
  pc_conflict :: bool

definition check_placement :: "providers \<Rightarrow> int \<Rightarrow> string \<Rightarrow> string \<Rightarrow> ha_log \<Rightarrow> placement_check result" where
  "check_placement w vmid node_name group_name lg = (let grp = strip group_name; node = strip node_name in
     rbind (occupied_nodes_for_group w grp vmid lg) (\<lambda>occupied.
       let conflict = node \<in> set occupied in
       Inr \<lparr>pc_ok = (\<not> conflict), pc_node = node, pc_group = grp, pc_occupied = sort (remdups occupied), pc_conflict = conflict\<rparr>))"

end
