(* ===== verification/PlacementProps.thy ===== *)
theory PlacementProps
  imports FailoverProps
begin

text \<open>
  The anti-affinity scheduler: which node it picks, and that a cluster in which VMs are placed where it says
  never has two members of a group on one node.
\<close>

subsection \<open>The node it picks\<close>

lemma occupied_known:
  assumes "occupied_nodes w grp vmid vms lg = Inr ns" and "vm \<in> set vms" and "hv_vmid vm \<noteq> vmid" and "vm_node vm \<noteq> []"
    and "hw_config w lg (vm_node vm) (hv_vmid vm) = Inr config" and "group_of_config config = Inr grp"
  shows "vm_node vm \<in> set ns"
  using assms
proof (induction vms arbitrary: ns)
  case (Cons v vms)
  then show ?case by (auto simp: rbind_eq_Inr split: if_splits sum.splits)
qed simp

text \<open>The pick is the least node that is online, not in maintenance and holds no other member of the group.\<close>

lemma pick_node_least:
  assumes "pick_node w m vmid grp lg = Inr n"
  obtains online occupied where "eligible_nodes w m lg = Inr online" "occupied_nodes_for_group w (strip grp) vmid lg = Inr occupied"
    "strip grp \<noteq> []" "n \<in> set online" "n \<notin> set occupied" "\<forall>k \<in> set online. k < n \<longrightarrow> k \<in> set occupied"
proof -
  from assms have g: "strip grp \<noteq> []" by (auto simp: pick_node_def Let_def split: if_splits)
  from assms obtain online where on: "eligible_nodes w m lg = Inr online" by (auto simp: pick_node_def Let_def rbind_eq_Inr split: if_splits)
  from assms on obtain occupied where oc: "occupied_nodes_for_group w (strip grp) vmid lg = Inr occupied"
    by (auto simp: pick_node_def Let_def rbind_eq_Inr split: if_splits)
  from assms g on oc obtain rest where f: "filter (\<lambda>n. n \<notin> set occupied) online = n # rest"
    by (auto simp: pick_node_def Let_def rbind_eq_Inr split: if_splits list.splits)
  have s: "sorted online" using on by (auto simp: eligible_nodes_def rbind_eq_Inr)
  then have "sorted (n # rest)" using sorted_filter [of id online] by (metis f list.map_id)
  moreover have "set (n # rest) = {k \<in> set online. k \<notin> set occupied}" using f by (metis set_filter)
  ultimately show thesis using that [OF on oc g] by fastforce
qed

lemma online_facts:
  assumes "eligible_nodes w m lg = Inr online" and "n \<in> set online"
  shows "n \<noteq> []" "strip n = n" "\<not> m n"
  using assms by (auto simp: eligible_nodes_def rbind_eq_Inr item_node_def)

subsection \<open>Placing one VM after the other\<close>

text \<open>
  The VMs placed so far, each with its node and group, and what the providers then report. Before each
  placement the list of nodes and the nodes in maintenance may be different.
\<close>

type_synonym placements = "(int \<times> string \<times> string) list"

record place_request =
  pl_items :: "py list"
  pl_maintenance :: "string \<Rightarrow> bool"
  pl_vmid :: int
  pl_group :: string

definition placed_providers :: "py list \<Rightarrow> placements \<Rightarrow> providers" where
  "placed_providers items ps = \<lparr>
     hw_nodes = (\<lambda>_. Inr items),
     hw_vms = (\<lambda>_. Inr (map (\<lambda>(v, n, g). \<lparr>hv_vmid = v, hv_node = n, hv_name = [], hv_status = ''running''\<rparr>) ps)),
     hw_config = (\<lambda>_ node vmid. case map_of ps vmid of None \<Rightarrow> Inl (KeyError ''vmid'')
        | Some (n, g) \<Rightarrow> Inr (PDict [(''anti_affinity_group'', PStr g)])),
     hw_call = (\<lambda>_ _. Inr PNone)\<rparr>"

definition place :: "placements \<Rightarrow> place_request \<Rightarrow> placements" where
  "place ps r = (case pick_node (placed_providers (pl_items r) ps) (pl_maintenance r) (pl_vmid r) (pl_group r) [] of
     Inl e \<Rightarrow> ps
   | Inr n \<Rightarrow> (pl_vmid r, n, strip (pl_group r)) # filter (\<lambda>(v, _). v \<noteq> pl_vmid r) ps)"

definition apart :: "placements \<Rightarrow> bool" where
  "apart ps = (distinct (map fst ps) \<and> (\<forall>(v, n, g) \<in> set ps. n \<noteq> [] \<and> strip n = n \<and> g \<noteq> [] \<and> strip g = g)
    \<and> (\<forall>(v, n, g) \<in> set ps. \<forall>(v', n', g') \<in> set ps. v \<noteq> v' \<and> g = g' \<longrightarrow> n \<noteq> n'))"

lemma place_apart: "apart ps \<Longrightarrow> apart (place ps r)"
proof -
  assume ps: "apart ps"
  let ?w = "placed_providers (pl_items r) ps"
  show ?thesis
  proof (cases "pick_node ?w (pl_maintenance r) (pl_vmid r) (pl_group r) []")
    case (Inl e)
    then show ?thesis using ps by (simp add: place_def)
  next
    case (Inr n)
    then obtain online occupied where on: "eligible_nodes ?w (pl_maintenance r) [] = Inr online"
      and oc: "occupied_nodes_for_group ?w (strip (pl_group r)) (pl_vmid r) [] = Inr occupied"
      and g: "strip (pl_group r) \<noteq> []" and n: "n \<in> set online" "n \<notin> set occupied" by (rule pick_node_least)
    note nf = online_facts [OF on n(1)]
    have free: "n' \<noteq> n" if m: "(v, n', strip (pl_group r)) \<in> set ps" "v \<noteq> pl_vmid r" for v n'
    proof -
      let ?vm = "\<lparr>hv_vmid = v, hv_node = n', hv_name = [], hv_status = ''running''\<rparr>"
      have w: "n' \<noteq> []" "strip n' = n'" using ps m(1) by (auto simp: apart_def)
      have "map_of ps v = Some (n', strip (pl_group r))" using ps m(1) by (intro map_of_is_SomeI) (auto simp: apart_def)
      then have c: "hw_config ?w [] (vm_node ?vm) (hv_vmid ?vm) = Inr (PDict [(''anti_affinity_group'', PStr (strip (pl_group r)))])"
        by (simp add: placed_providers_def)
      have "?vm \<in> (\<lambda>(v, n, g). \<lparr>hv_vmid = v, hv_node = n, hv_name = [], hv_status = ''running''\<rparr>) ` set ps" using m(1) by force
      then have mem: "?vm \<in> set (map (\<lambda>(v, n, g). \<lparr>hv_vmid = v, hv_node = n, hv_name = [], hv_status = ''running''\<rparr>) ps)" by simp
      have o: "occupied_nodes ?w (strip (pl_group r)) (pl_vmid r) (map (\<lambda>(v, n, g). \<lparr>hv_vmid = v, hv_node = n, hv_name = [], hv_status = ''running''\<rparr>) ps) [] = Inr occupied"
        using oc g by (simp add: occupied_nodes_for_group_def placed_providers_def Let_def)
      have gr: "group_of_config (PDict [(''anti_affinity_group'', PStr (strip (pl_group r)))]) = Inr (strip (pl_group r))"
        by (simp add: group_of_config_def por_def stget_def sget_def)
      have "n' \<in> set occupied" using occupied_known [OF o mem _ _ c gr] m(2) w by (simp add: vm_node_def)
      then show ?thesis using n(2) by blast
    qed
    have d: "distinct (map fst (filter (\<lambda>(v, _). v \<noteq> pl_vmid r) ps))" using ps by (auto simp: apart_def intro: distinct_map_filter)
    have "place ps r = (pl_vmid r, n, strip (pl_group r)) # filter (\<lambda>(v, _). v \<noteq> pl_vmid r) ps" using Inr by (simp add: place_def)
    then show ?thesis using ps d free nf g unfolding apart_def by (auto; fastforce)
  qed
qed

interpretation placement: machine place apart
  by unfold_locales (rule place_apart)

text \<open>C19: Members of an anti-affinity group never share a node: however VMs are placed and moved one after the other
  where the scheduler says, with nodes coming, going and entering maintenance in between, two VMs of the
  same group are on different nodes.\<close>

theorem placements_spread:
  assumes "(v, n, g) \<in> set (run place [] rs)" and "(v', n', g) \<in> set (run place [] rs)" and "v \<noteq> v'"
  shows "n \<noteq> n'"
proof -
  have "apart []" by (simp add: apart_def)
  then have "apart (run place [] rs)" by (rule placement.run_inv)
  then show ?thesis using assms by (fastforce simp: apart_def)
qed

definition demo_place :: "int \<Rightarrow> place_request" where
  "demo_place v = \<lparr>pl_items = [demo_node ''b'' ''online'', demo_node ''a'' ''active''], pl_maintenance = (\<lambda>_. False), pl_vmid = v, pl_group = ''db''\<rparr>"

theorem placements_spread_witness: "''b'' \<noteq> ''a'' \<and> run place [] [demo_place 1, demo_place 2, demo_place 3] = [(2, ''b'', ''db''), (1, ''a'', ''db'')]"
proof -
  have r: "run place [] [demo_place 1, demo_place 2, demo_place 3] = [(2, ''b'', ''db''), (1, ''a'', ''db'')]" by code_simp
  have "(2, ''b'', ''db'') \<in> set (run place [] [demo_place 1, demo_place 2, demo_place 3])"
    "(1, ''a'', ''db'') \<in> set (run place [] [demo_place 1, demo_place 2, demo_place 3])" unfolding r by simp_all
  from placements_spread [OF this] r show ?thesis by simp
qed

end
