(* ===== verification/HaWatchdog.thy ===== *)
theory HaWatchdog
  imports Failover
begin

text \<open>
  \<open>ha_watchdog.py\<close>: heartbeats of the cluster's nodes and the fencing of nodes that fall silent. The state is
  a JSON file with an entry per node; clock readings are arguments. What a fencing action answers may depend
  on the attempts made before. The age of a heartbeat is reported exactly, the source rounds it.
\<close>

subsection \<open>The service\<close>

record watchdog =
  wd_node_name :: string
  wd_interval :: rat
  wd_missed :: int

text \<open>The constructor; the optional numbers as given, zero counts as not given.\<close>

definition watchdog_service :: "string \<Rightarrow> rat \<Rightarrow> int \<Rightarrow> watchdog result" where
  "watchdog_service node_name interval missed = (let node = strip node_name in
     if node = [] then Inl (ValueError ''node_name is required'')
     else Inr \<lparr>wd_node_name = node, wd_interval = max (if interval = 0 then 2 else interval) (1 / 10),
            wd_missed = max (if missed = 0 then 3 else missed) 1\<rparr>)"

definition fencing_priority :: "string list" where
  "fencing_priority = [''ipmi_reset'', ''watchdog_timer'', ''vm_forcestop'', ''software_isolation'']"

definition watchdog_default :: dict where
  "watchdog_default = [(''nodes'', PDict []), (''sent_seq'', PInt 0)]"

definition wd_read_state :: "state_file \<Rightarrow> dict result" where
  "wd_read_state f = rbind (store_load (PDict watchdog_default) f) (\<lambda>payload.
     Inr (if is_dict payload then dict_of payload else watchdog_default))"

definition wd_nodes :: "dict \<Rightarrow> dict" where
  "wd_nodes state = dict_of (pget state ''nodes'')"

definition wd_write :: "dict \<Rightarrow> dict \<Rightarrow> state_file \<Rightarrow> state_file" where
  "wd_write state nodes f = store_save (PDict (dset ''nodes'' (PDict nodes) state)) f"

subsection \<open>Heartbeats\<close>

definition beat_item :: "rat \<Rightarrow> string \<Rightarrow> dict \<Rightarrow> dict" where
  "beat_item at_time utc item = ddel ''last_fencing_at'' (ddel ''last_fencing_method'' (dset ''fencing_active'' (PBool False)
     (dset ''status'' (PStr ''online'') (dset ''last_heartbeat_utc'' (PStr utc) (dset ''last_heartbeat_at'' (PFloat at_time) item)))))"

definition record_heartbeat :: "string \<Rightarrow> rat \<Rightarrow> string \<Rightarrow> state_file \<Rightarrow> unit result \<times> state_file" where
  "record_heartbeat source_node at_time utc f = (let node = strip source_node in
     if node = [] then (Inr (), f)
     else case wd_read_state f of Inl e \<Rightarrow> (Inl e, f)
     | Inr state \<Rightarrow> let nodes = wd_nodes state; item = dict_of (pget nodes node)
         in (Inr (), wd_write state (dset node (PDict (beat_item at_time utc item)) nodes) f))"

text \<open>The targets in the order of the list; a send that raises ends the round before the sequence number is stored.\<close>

definition beat_targets :: "string \<Rightarrow> py list \<Rightarrow> string list" where
  "beat_targets node_name items = filter (\<lambda>n. n \<noteq> [] \<and> n \<noteq> node_name) (map item_node (filter is_dict items))"

fun send_all :: "(string \<Rightarrow> dict \<Rightarrow> unit result) \<Rightarrow> dict \<Rightarrow> string list \<Rightarrow> unit result" where
  "send_all send payload [] = Inr ()"
| "send_all send payload (t # ts) = rbind (send t payload) (\<lambda>_. send_all send payload ts)"

record beat_report =
  br_sequence :: int
  br_sent_at :: rat
  br_target_count :: nat
  br_interval :: rat

definition send_heartbeats :: "watchdog \<Rightarrow> py list \<Rightarrow> (string \<Rightarrow> dict \<Rightarrow> unit result) \<Rightarrow> rat \<Rightarrow> string \<Rightarrow> state_file
    \<Rightarrow> beat_report result \<times> state_file" where
  "send_heartbeats wd items send now utc f = (case wd_read_state f of Inl e \<Rightarrow> (Inl e, f)
     | Inr state \<Rightarrow> (case int_or0 (pget state ''sent_seq'') of Inl e \<Rightarrow> (Inl e, f)
       | Inr sent \<Rightarrow> let payload = [(''kind'', PStr ''ha_heartbeat''), (''source_node'', PStr (wd_node_name wd)),
             (''sequence'', PInt (sent + 1)), (''sent_at'', PFloat now), (''sent_at_utc'', PStr utc)];
             targets = beat_targets (wd_node_name wd) items
           in (case send_all send payload targets of Inl e \<Rightarrow> (Inl e, f)
             | Inr _ \<Rightarrow> (Inr \<lparr>br_sequence = sent + 1, br_sent_at = now, br_target_count = length targets, br_interval = wd_interval wd\<rparr>,
                 store_save (PDict (dset ''sent_seq'' (PInt (sent + 1)) state)) f))))"

subsection \<open>Fencing\<close>

type_synonym fence_log = "(string \<times> string) list"
type_synonym fence = "fence_log \<Rightarrow> string \<Rightarrow> string \<Rightarrow> bool result"

text \<open>The methods in order until one works; the method that worked or the empty text.\<close>

fun try_methods :: "fence \<Rightarrow> string \<Rightarrow> string list \<Rightarrow> fence_log \<Rightarrow> string result \<times> fence_log" where
  "try_methods fence node [] lg = (Inr [], lg)"
| "try_methods fence node (m # ms) lg = (case fence lg node m of Inl e \<Rightarrow> (Inl e, lg @ [(node, m)])
     | Inr ok \<Rightarrow> if ok then (Inr m, lg @ [(node, m)]) else try_methods fence node ms (lg @ [(node, m)]))"

record fence_report =
  fr_node :: string
  fr_fenced :: bool
  fr_method :: string
  fr_age :: rat

definition fenced_item :: "string \<Rightarrow> string \<Rightarrow> dict \<Rightarrow> dict" where
  "fenced_item used utc item = dset ''last_fencing_at'' (PStr utc) (dset ''last_fencing_method'' (PStr used)
     (dset ''fencing_active'' (PBool False) (dset ''status'' (PStr (if used \<noteq> [] then ''fenced'' else ''unreachable''))
       (dset ''fencing_active'' (PBool True) (dset ''status'' (PStr ''unreachable'') item)))))"

definition timeout_seconds :: "watchdog \<Rightarrow> rat" where
  "timeout_seconds wd = wd_interval wd * of_int (wd_missed wd)"

text \<open>The seconds since the last heartbeat of a node that is to be fenced now.\<close>

definition beat_overdue :: "watchdog \<Rightarrow> rat \<Rightarrow> dict \<Rightarrow> rat option result" where
  "beat_overdue wd now item = (if lower (sget item ''status'') = ''fenced'' then Inr None
     else rbind (py_float (por (pget item ''last_heartbeat_at'') (PFloat 0))) (\<lambda>last.
       Inr (if last \<le> 0 \<or> now - last < timeout_seconds wd then None else Some (now - last))))"

fun evaluate_nodes :: "watchdog \<Rightarrow> fence \<Rightarrow> rat \<Rightarrow> string \<Rightarrow> string list \<Rightarrow> dict \<Rightarrow> fence_log
    \<Rightarrow> (fence_report list \<times> dict) result \<times> fence_log" where
  "evaluate_nodes wd fence now utc [] nodes lg = (Inr ([], nodes), lg)"
| "evaluate_nodes wd fence now utc (n # ns) nodes lg = (let item = dict_of (pget nodes n) in
     case beat_overdue wd now item of Inl e \<Rightarrow> (Inl e, lg)
     | Inr None \<Rightarrow> evaluate_nodes wd fence now utc ns nodes lg
     | Inr (Some age) \<Rightarrow> (case try_methods fence n fencing_priority lg of
          (Inl e, lg1) \<Rightarrow> (Inl e, lg1)
        | (Inr used, lg1) \<Rightarrow> (case evaluate_nodes wd fence now utc ns (dset n (PDict (fenced_item used utc item)) nodes) lg1 of
             (Inl e, lg2) \<Rightarrow> (Inl e, lg2)
           | (Inr (rs, nodes'), lg2) \<Rightarrow>
               (Inr (\<lparr>fr_node = n, fr_fenced = (used \<noteq> []), fr_method = used, fr_age = age\<rparr> # rs, nodes'), lg2))))"

definition evaluate_timeouts :: "watchdog \<Rightarrow> fence \<Rightarrow> rat \<Rightarrow> string \<Rightarrow> state_file \<Rightarrow> fence_report list result \<times> fence_log \<times> state_file" where
  "evaluate_timeouts wd fence now utc f = (case wd_read_state f of Inl e \<Rightarrow> (Inl e, [], f)
     | Inr state \<Rightarrow> let nodes = wd_nodes state in
         (case evaluate_nodes wd fence now utc (sort (keys nodes)) nodes [] of
            (Inl e, lg) \<Rightarrow> (Inl e, lg, f)
          | (Inr (rs, nodes'), lg) \<Rightarrow> (Inr rs, lg, wd_write state nodes' f)))"

subsection \<open>Health\<close>

record node_health =
  nh_name :: string
  nh_status :: string
  nh_last_heartbeat_at :: rat
  nh_last_heartbeat_utc :: string
  nh_fencing_active :: bool
  nh_last_fencing_method :: string
  nh_last_fencing_at :: string

definition health_of :: "string \<Rightarrow> dict \<Rightarrow> node_health result" where
  "health_of name item = rbind (py_float (por (pget item ''last_heartbeat_at'') (PFloat 0))) (\<lambda>last.
     Inr \<lparr>nh_name = name, nh_status = py_str (por (pget item ''status'') (PStr ''unknown'')), nh_last_heartbeat_at = last,
          nh_last_heartbeat_utc = sget item ''last_heartbeat_utc'', nh_fencing_active = truthy (pget item ''fencing_active''),
          nh_last_fencing_method = sget item ''last_fencing_method'', nh_last_fencing_at = sget item ''last_fencing_at''\<rparr>)"

definition list_node_health :: "state_file \<Rightarrow> node_health list result" where
  "list_node_health f = rbind (wd_read_state f) (\<lambda>state. let nodes = wd_nodes state in
     rmap (\<lambda>n. health_of n (dict_of (pget nodes n))) (sort (keys nodes)))"

end
