(* ===== verification/HaWatchdogProps.thy ===== *)
theory HaWatchdogProps
  imports HaWatchdog FailoverProps
begin

text \<open>
  A node is fenced only after it has been silent for the timeout, then exactly once until it is heard again.
  The history of a run, the last heartbeat of each node and the nodes fenced since, is kept beside the file.
\<close>

subsection \<open>Attempts\<close>

lemma try_methods_log:
  "try_methods fence n ms lg = (q, lg') \<Longrightarrow> \<exists>tried. lg' = lg @ map (Pair n) tried"
proof (induction ms arbitrary: lg)
  case Nil
  then show ?case by simp
next
  case (Cons m ms)
  show ?case
  proof (cases "fence lg n m")
    case (Inl e)
    then show ?thesis using Cons.prems by (auto intro: exI [of _ "[m]"])
  next
    case (Inr ok)
    show ?thesis
    proof (cases ok)
      case True
      then show ?thesis using Inr Cons.prems by (auto intro: exI [of _ "[m]"])
    next
      case False
      then obtain tried where "lg' = (lg @ [(n, m)]) @ map (Pair n) tried" using Cons.IH Inr Cons.prems by fastforce
      then show ?thesis by (intro exI [of _ "m # tried"]) simp
    qed
  qed
qed

definition due :: "watchdog \<Rightarrow> rat \<Rightarrow> dict \<Rightarrow> string \<Rightarrow> bool" where
  "due wd now nodes n = (\<exists>age. beat_overdue wd now (dict_of (pget nodes n)) = Inr (Some age))"

lemma due_other: "n \<noteq> k \<Longrightarrow> due wd now (dset k v nodes) n = due wd now nodes n"
  by (simp add: due_def)

lemma evaluate_attempts:
  assumes "evaluate_nodes wd fence now utc ns nodes lg = (q, lg')" and "distinct ns"
  shows "\<exists>lg2. lg' = lg @ lg2 \<and> (\<forall>(n, m) \<in> set lg2. n \<in> set ns \<and> due wd now nodes n)"
  using assms
proof (induction ns arbitrary: nodes lg q lg')
  case Nil
  then show ?case by simp
next
  case (Cons n ns)
  let ?item = "dict_of (pget nodes n)"
  show ?case
  proof (cases "beat_overdue wd now ?item")
    case (Inl e)
    then show ?thesis using Cons.prems by (auto simp: Let_def)
  next
    case (Inr o')
    show ?thesis
    proof (cases o')
      case None
      then have "evaluate_nodes wd fence now utc ns nodes lg = (q, lg')" using Cons.prems Inr by (simp add: Let_def)
      from Cons.IH [OF this] Cons.prems(2) show ?thesis by fastforce
    next
      case (Some age)
      then have d: "due wd now nodes n" using Inr by (auto simp: due_def)
      obtain r lg1 where t: "try_methods fence n fencing_priority lg = (r, lg1)" by (cases "try_methods fence n fencing_priority lg")
      from try_methods_log [OF t] obtain tried where lg1: "lg1 = lg @ map (Pair n) tried" by blast
      show ?thesis
      proof (cases r)
        case (Inl e)
        then have "lg' = lg1" using Cons.prems(1) Inr Some t by (simp add: Let_def)
        then show ?thesis using lg1 d by auto
      next
        case used: (Inr used)
        let ?nodes = "dset n (PDict (fenced_item used utc ?item)) nodes"
        obtain q2 lg3 where e: "evaluate_nodes wd fence now utc ns ?nodes lg1 = (q2, lg3)" by (cases "evaluate_nodes wd fence now utc ns ?nodes lg1")
        then have "lg' = lg3" using Cons.prems(1) Inr Some t used by (auto simp: Let_def split: sum.splits prod.splits)
        with Cons.IH [OF e] Cons.prems(2) obtain lg2 where "lg' = lg1 @ lg2" "\<forall>(k, m) \<in> set lg2. k \<in> set ns \<and> due wd now ?nodes k" by auto
        moreover have "k \<in> set ns \<Longrightarrow> due wd now ?nodes k = due wd now nodes k" for k using Cons.prems(2) by (intro due_other) auto
        ultimately show ?thesis using lg1 d by (intro exI [of _ "map (Pair n) tried @ lg2"]) auto
      qed
    qed
  qed
qed

lemma evaluate_result:
  assumes "evaluate_nodes wd fence now utc ns nodes lg = (Inr (rs, nodes'), lg')" and "distinct ns"
  shows "fr_node ` set rs = {n \<in> set ns. due wd now nodes n}
    \<and> (\<forall>n. n \<notin> fr_node ` set rs \<longrightarrow> map_of nodes' n = map_of nodes n)
    \<and> (\<forall>r \<in> set rs. \<exists>used. map_of nodes' (fr_node r) = Some (PDict (fenced_item used utc (dict_of (pget nodes (fr_node r)))))
        \<and> fr_fenced r = (used \<noteq> []))"
  using assms
proof (induction ns arbitrary: nodes lg rs)
  case Nil
  then show ?case by simp
next
  case (Cons n ns)
  let ?item = "dict_of (pget nodes n)"
  from Cons.prems(1) obtain o' where o': "beat_overdue wd now ?item = Inr o'" by (auto simp: Let_def split: sum.splits)
  show ?case
  proof (cases o')
    case None
    then have "evaluate_nodes wd fence now utc ns nodes lg = (Inr (rs, nodes'), lg')" using Cons.prems(1) o' by (simp add: Let_def)
    moreover have "\<not> due wd now nodes n" using o' None by (simp add: due_def)
    ultimately show ?thesis using Cons.IH Cons.prems(2) by fastforce
  next
    case (Some age)
    then have d: "due wd now nodes n" using o' by (auto simp: due_def)
    from Cons.prems(1) o' Some obtain used lg1 rs' where t: "try_methods fence n fencing_priority lg = (Inr used, lg1)"
      and e: "evaluate_nodes wd fence now utc ns (dset n (PDict (fenced_item used utc ?item)) nodes) lg1 = (Inr (rs', nodes'), lg')"
      and rs: "rs = \<lparr>fr_node = n, fr_fenced = (used \<noteq> []), fr_method = used, fr_age = age\<rparr> # rs'"
      by (auto simp: Let_def split: sum.splits prod.splits)
    let ?nodes = "dset n (PDict (fenced_item used utc ?item)) nodes"
    from Cons.IH [OF e] Cons.prems(2) have ih: "fr_node ` set rs' = {k \<in> set ns. due wd now ?nodes k}"
      "\<forall>k. k \<notin> fr_node ` set rs' \<longrightarrow> map_of nodes' k = map_of ?nodes k"
      "\<forall>r \<in> set rs'. \<exists>used. map_of nodes' (fr_node r) = Some (PDict (fenced_item used utc (dict_of (pget ?nodes (fr_node r)))))
        \<and> fr_fenced r = (used \<noteq> [])" by auto
    have ne: "k \<noteq> n" if "k \<in> set ns" for k using that Cons.prems(2) by auto
    have same: "{k \<in> set ns. due wd now ?nodes k} = {k \<in> set ns. due wd now nodes k}" using ne due_other by blast
    have own: "map_of nodes' n = Some (PDict (fenced_item used utc ?item))" proof -
      have "n \<notin> fr_node ` set rs'" using ih(1) ne by blast
      then show ?thesis using ih(2) by simp
    qed
    have rest: "\<exists>used. map_of nodes' (fr_node r) = Some (PDict (fenced_item used utc (dict_of (pget nodes (fr_node r))))) \<and> fr_fenced r = (used \<noteq> [])"
      if "r \<in> set rs'" for r
    proof -
      have "fr_node r \<noteq> n" using that ih(1) ne by blast
      then show ?thesis using ih(3) that by fastforce
    qed
    show ?thesis using ih(1,2) same d own rest by (auto simp: rs)
  qed
qed

lemma evaluate_wf:
  "evaluate_nodes wd fence now utc ns nodes lg = (Inr (rs, nodes'), lg') \<Longrightarrow> wf_dict nodes \<Longrightarrow> wf_dict nodes'"
proof (induction ns arbitrary: nodes lg rs)
  case (Cons n ns)
  then show ?case by (auto simp: Let_def split: sum.splits option.splits prod.splits)
qed simp

subsection \<open>The history of a run\<close>

datatype wd_op =
    Beat string rat string
  | Evaluate fence rat string
  | SendBeats "py list" "string \<Rightarrow> dict \<Rightarrow> unit result" rat string

record wd_world =
  ww_file :: state_file
  ww_last :: "string \<Rightarrow> rat option"
  ww_fenced :: "string set"

definition wd_start :: wd_world where
  "wd_start = \<lparr>ww_file = Missing, ww_last = (\<lambda>_. None), ww_fenced = {}\<rparr>"

text \<open>The nodes an evaluation reports as fenced; none when it raised.\<close>

definition fenced_by :: "fence_report list result \<Rightarrow> string set" where
  "fenced_by r = (case r of Inl e \<Rightarrow> {} | Inr rs \<Rightarrow> fr_node ` {x \<in> set rs. fr_fenced x})"

fun wd_step :: "watchdog \<Rightarrow> wd_world \<Rightarrow> wd_op \<Rightarrow> wd_world" where
  "wd_step wd w (Beat n t utc) = (let n' = strip n in
     if n' = [] then w
     else w\<lparr>ww_file := snd (record_heartbeat n t utc (ww_file w)), ww_last := (ww_last w)(n' := Some t),
            ww_fenced := ww_fenced w - {n'}\<rparr>)"
| "wd_step wd w (Evaluate fence now utc) = (case evaluate_timeouts wd fence now utc (ww_file w) of (r, lg, f) \<Rightarrow>
     w\<lparr>ww_file := f, ww_fenced := ww_fenced w \<union> fenced_by r\<rparr>)"
| "wd_step wd w (SendBeats items send now utc) = w\<lparr>ww_file := snd (send_heartbeats wd items send now utc (ww_file w))\<rparr>"

text \<open>The entry of a node in the file, with its last heartbeat and whether it was fenced since.\<close>

definition entry_ok :: "rat option \<Rightarrow> bool \<Rightarrow> py option \<Rightarrow> bool" where
  "entry_ok hb fenced x = (case hb of None \<Rightarrow> x = None
     | Some t \<Rightarrow> \<exists>item. x = Some (PDict item) \<and> pget item ''last_heartbeat_at'' = PFloat t
         \<and> (lower (sget item ''status'') = ''fenced'') = fenced)"

definition wd_ok :: "wd_world \<Rightarrow> bool" where
  "wd_ok w = (\<exists>state. wd_read_state (ww_file w) = Inr state \<and> wf_dict (wd_nodes state) \<and>
     (\<forall>n. entry_ok (ww_last w n) (n \<in> ww_fenced w) (map_of (wd_nodes state) n)))"

lemma read_written: "wd_read_state (wd_write state nodes f) = Inr (dset ''nodes'' (PDict nodes) state)"
  by (simp add: wd_read_state_def wd_write_def store_save_def atomic_write_def)

lemma nodes_written: "wd_nodes (dset ''nodes'' (PDict nodes) state) = nodes"
  by (simp add: wd_nodes_def)

lemma wd_ok_written:
  "wf_dict nodes \<Longrightarrow> (\<And>n. entry_ok (hb n) (n \<in> F) (map_of nodes n)) \<Longrightarrow>
   wd_ok \<lparr>ww_file = wd_write state nodes f, ww_last = hb, ww_fenced = F\<rparr>"
  by (simp add: wd_ok_def read_written nodes_written)

lemma wd_ok_start: "wd_ok wd_start"
  by (simp add: wd_ok_def wd_start_def wd_read_state_def watchdog_default_def wd_nodes_def entry_ok_def)

lemma status_texts: "lower ''online'' \<noteq> ''fenced''" "lower ''unreachable'' \<noteq> ''fenced''" "lower ''fenced'' = ''fenced''"
  by code_simp+

lemma beat_entry: "entry_ok (Some t) False (Some (PDict (beat_item t utc item)))"
  by (simp add: entry_ok_def beat_item_def sget_def status_texts)

lemma fenced_entry:
  assumes "entry_ok (Some t) b (Some (PDict item))"
  shows "entry_ok (Some t) (used \<noteq> []) (Some (PDict (fenced_item used utc item)))"
  using assms by (simp add: entry_ok_def fenced_item_def status_texts)

lemma due_entry:
  assumes "entry_ok hb fenced (map_of nodes n)"
  shows "due wd now nodes n \<longleftrightarrow> (\<exists>t. hb = Some t \<and> 0 < t \<and> timeout_seconds wd \<le> now - t) \<and> \<not> fenced"
proof (cases hb)
  case None
  then have "pget nodes n = PNone" using assms by (simp add: entry_ok_def pget_def)
  then show ?thesis using None by (simp add: due_def beat_overdue_def por_def)
next
  case (Some t)
  then obtain item where i: "map_of nodes n = Some (PDict item)" "pget item ''last_heartbeat_at'' = PFloat t"
    "(lower (sget item ''status'') = ''fenced'') = fenced" using assms by (auto simp: entry_ok_def)
  have p: "dict_of (pget nodes n) = item" using i(1) by (simp add: pget_def)
  have f: "py_float (por (PFloat t) (PFloat 0)) = Inr t" by (simp add: por_def)
  show ?thesis using i(2,3) Some by (auto simp: due_def p beat_overdue_def f)
qed

lemma fenced_status: "(lower (sget (fenced_item used utc item) ''status'') = ''fenced'') = (used \<noteq> [])"
  by (simp add: fenced_item_def status_texts)

lemma evaluated_entry:
  assumes dom: "fr_node ` set rs = {n \<in> S. due wd now nodes n}"
    and same: "\<forall>n. n \<notin> fr_node ` set rs \<longrightarrow> map_of nodes' n = map_of nodes n"
    and new: "\<forall>r \<in> set rs. \<exists>used. map_of nodes' (fr_node r) = Some (PDict (fenced_item used utc (dict_of (pget nodes (fr_node r)))))
        \<and> fr_fenced r = (used \<noteq> [])"
    and ok: "\<And>n. entry_ok (hb n) (n \<in> F) (map_of nodes n)"
  shows "entry_ok (hb n) (n \<in> F \<union> fenced_by (Inr rs)) (map_of nodes' n)"
proof (cases "n \<in> fr_node ` set rs")
  case False
  then have "n \<notin> fenced_by (Inr rs)" by (auto simp: fenced_by_def)
  then show ?thesis using ok [of n] same False by simp
next
  case True
  then have "due wd now nodes n" using dom by blast
  then obtain t where t: "hb n = Some t" "n \<notin> F" using due_entry [OF ok] by blast
  with ok [of n] obtain item where i: "map_of nodes n = Some (PDict item)" by (auto simp: entry_ok_def)
  then have p: "dict_of (pget nodes n) = item" by (simp add: pget_def)
  from True new obtain used where u: "map_of nodes' n = Some (PDict (fenced_item used utc item))" using p by force
  have all: "fr_fenced r = (used \<noteq> [])" if "r \<in> set rs" "fr_node r = n" for r
  proof -
    from new that(1) obtain used' where n: "map_of nodes' (fr_node r) = Some (PDict (fenced_item used' utc (dict_of (pget nodes (fr_node r)))))"
      "fr_fenced r = (used' \<noteq> [])" by blast
    then have "fenced_item used' utc item = fenced_item used utc item" using that(2) p u by simp
    then have "(used' \<noteq> []) = (used \<noteq> [])" by (metis fenced_status)
    then show ?thesis using n(2) by simp
  qed
  then have "n \<in> fenced_by (Inr rs) \<longleftrightarrow> used \<noteq> []" using True by (auto simp: fenced_by_def)
  moreover have "entry_ok (Some t) (used \<noteq> []) (Some (PDict (fenced_item used utc item)))"
    by (rule fenced_entry) (use ok [of n] t i in simp)
  ultimately show ?thesis using t u by simp
qed

lemma wd_ok_step: "wd_ok w \<Longrightarrow> wd_ok (wd_step wd w op)"
proof -
  assume "wd_ok w"
  then obtain state where s: "wd_read_state (ww_file w) = Inr state" and wf: "wf_dict (wd_nodes state)"
    and ok: "\<And>n. entry_ok (ww_last w n) (n \<in> ww_fenced w) (map_of (wd_nodes state) n)" by (auto simp: wd_ok_def)
  show ?thesis
  proof (cases op)
    case (Beat n t utc)
    let ?n = "strip n"
    let ?nodes = "dset ?n (PDict (beat_item t utc (dict_of (pget (wd_nodes state) ?n)))) (wd_nodes state)"
    show ?thesis
    proof (cases "?n = []")
      case True
      then show ?thesis using \<open>wd_ok w\<close> by (simp add: Beat)
    next
      case False
      have "wd_ok \<lparr>ww_file = wd_write state ?nodes (ww_file w), ww_last = (ww_last w)(?n := Some t), ww_fenced = ww_fenced w - {?n}\<rparr>"
        by (rule wd_ok_written) (use wf ok beat_entry in auto)
      then show ?thesis using False s by (cases w) (simp add: Beat record_heartbeat_def Let_def)
    qed
  next
    case (Evaluate fence now utc)
    obtain q lg where e: "evaluate_nodes wd fence now utc (sort (keys (wd_nodes state))) (wd_nodes state) [] = (q, lg)"
      by (cases "evaluate_nodes wd fence now utc (sort (keys (wd_nodes state))) (wd_nodes state) []")
    show ?thesis
    proof (cases q)
      case (Inl x)
      then show ?thesis using \<open>wd_ok w\<close> s e by (simp add: Evaluate evaluate_timeouts_def fenced_by_def)
    next
      case (Inr p)
      obtain rs nodes' where p: "p = (rs, nodes')" by (cases p)
      note e' = e [unfolded Inr p]
      have d: "distinct (sort (keys (wd_nodes state)))" using wf by (simp add: wf_dict_def keys_def)
      note res = evaluate_result [OF e' d]
      have "wd_ok \<lparr>ww_file = wd_write state nodes' (ww_file w), ww_last = ww_last w, ww_fenced = ww_fenced w \<union> fenced_by (Inr rs)\<rparr>"
      proof (rule wd_ok_written)
        show "wf_dict nodes'" by (rule evaluate_wf [OF e' wf])
        show "entry_ok (ww_last w n) (n \<in> ww_fenced w \<union> fenced_by (Inr rs)) (map_of nodes' n)" for n
          by (rule evaluated_entry [OF conjunct1 [OF res] conjunct1 [OF conjunct2 [OF res]] conjunct2 [OF conjunct2 [OF res]] ok])
      qed
      then show ?thesis using s e Inr p by (cases w) (simp add: Evaluate evaluate_timeouts_def Let_def)
    qed
  next
    case (SendBeats items send now utc)
    have nodes: "wd_nodes (dset ''sent_seq'' v state) = wd_nodes state" for v by (simp add: wd_nodes_def)
    have "wd_read_state (snd (send_heartbeats wd items send now utc (ww_file w))) = Inr state
      \<or> (\<exists>v. wd_read_state (snd (send_heartbeats wd items send now utc (ww_file w))) = Inr (dset ''sent_seq'' v state))"
      using s by (auto simp: send_heartbeats_def Let_def wd_read_state_def store_save_def atomic_write_def split: sum.splits)
    then show ?thesis using wf ok nodes by (auto simp: SendBeats wd_ok_def)
  qed
qed

interpretation watchdog: machine "wd_step wd" wd_ok for wd
  by unfold_locales (rule wd_ok_step)

text \<open>C20: Whatever the history, a node is fenced only when its last heartbeat is at least the timeout old and no
  evaluation that returned has reported it fenced since; and an evaluation that returns has dealt with exactly
  these nodes.\<close>

theorem fenced_only_after_silence:
  assumes "evaluate_timeouts wd fence now utc (ww_file (run (wd_step wd) wd_start ops)) = (r, attempts, f')"
  shows "\<exists>silent. silent = {n. (\<exists>t. ww_last (run (wd_step wd) wd_start ops) n = Some t \<and> 0 < t \<and> timeout_seconds wd \<le> now - t)
      \<and> n \<notin> ww_fenced (run (wd_step wd) wd_start ops)}
    \<and> fst ` set attempts \<subseteq> silent \<and> (\<forall>rs. r = Inr rs \<longrightarrow> fr_node ` set rs = silent)"
proof -
  let ?w = "run (wd_step wd) wd_start ops"
  have "wd_ok ?w" by (rule watchdog.run_inv [OF wd_ok_start])
  then obtain state where s: "wd_read_state (ww_file ?w) = Inr state" and wf: "wf_dict (wd_nodes state)"
    and ok: "\<And>n. entry_ok (ww_last ?w n) (n \<in> ww_fenced ?w) (map_of (wd_nodes state) n)" by (auto simp: wd_ok_def)
  define silent where "silent = {n. (\<exists>t. ww_last ?w n = Some t \<and> 0 < t \<and> timeout_seconds wd \<le> now - t) \<and> n \<notin> ww_fenced ?w}"
  have d: "distinct (sort (keys (wd_nodes state)))" using wf by (simp add: wf_dict_def keys_def)
  have due: "due wd now (wd_nodes state) n \<longleftrightarrow> n \<in> silent" for n unfolding due_entry [OF ok] silent_def by simp
  have known: "n \<in> set (sort (keys (wd_nodes state)))" if "n \<in> silent" for n
  proof -
    have "map_of (wd_nodes state) n \<noteq> None" using ok [of n] that by (auto simp: silent_def entry_ok_def)
    then show ?thesis by (simp add: keys_def map_of_eq_None_iff)
  qed
  obtain q lg where e: "evaluate_nodes wd fence now utc (sort (keys (wd_nodes state))) (wd_nodes state) [] = (q, lg)"
    by (cases "evaluate_nodes wd fence now utc (sort (keys (wd_nodes state))) (wd_nodes state) []")
  from assms s e have a: "attempts = lg" by (auto simp: evaluate_timeouts_def Let_def split: sum.splits prod.splits)
  have 1: "fst ` set attempts \<subseteq> silent" using evaluate_attempts [OF e d] due a by auto
  have 2: "fr_node ` set rs = silent" if r: "r = Inr rs" for rs
  proof -
    from assms s e r obtain nodes' where "q = Inr (rs, nodes')" by (auto simp: evaluate_timeouts_def Let_def split: sum.splits prod.splits)
    with e evaluate_result [of wd fence now utc _ _ _ rs nodes' lg] d have "fr_node ` set rs = {n \<in> set (sort (keys (wd_nodes state))). due wd now (wd_nodes state) n}" by blast
    then show ?thesis using due known by auto
  qed
  show ?thesis using 1 2 silent_def by blast
qed

definition demo_watchdog :: watchdog where
  "demo_watchdog = \<lparr>wd_node_name = ''pve1'', wd_interval = 2, wd_missed = 3\<rparr>"

definition demo_fence :: fence where
  "demo_fence = (\<lambda>_ n m. Inr (m = ''watchdog_timer''))"

definition demo_beats :: "wd_op list" where
  "demo_beats = [Beat ''pve2'' 100 ''t'', Beat ''pve3'' 103 ''t'']"

lemma demo_evaluation: "evaluate_timeouts demo_watchdog demo_fence 107 ''t'' (ww_file (run (wd_step demo_watchdog) wd_start demo_beats))
  = (Inr [\<lparr>fr_node = ''pve2'', fr_fenced = True, fr_method = ''watchdog_timer'', fr_age = 7\<rparr>],
     [(''pve2'', ''ipmi_reset''), (''pve2'', ''watchdog_timer'')],
     snd (snd (evaluate_timeouts demo_watchdog demo_fence 107 ''t'' (ww_file (run (wd_step demo_watchdog) wd_start demo_beats)))))"
  by code_simp

theorem fenced_only_after_silence_witness:
  "\<exists>t. ww_last (run (wd_step demo_watchdog) wd_start demo_beats) ''pve2'' = Some t \<and> timeout_seconds demo_watchdog \<le> 107 - t"
  using fenced_only_after_silence [OF demo_evaluation] by auto

text \<open>An exception of a fencing action ends the evaluation before the file is written: nodes fenced before it are not
  recorded as fenced and are fenced again by the next evaluation.\<close>

lemma raised_fencing_not_recorded:
  assumes "evaluate_timeouts wd fence now utc f = (Inl e, attempts, f')"
  shows "f' = f"
  using assms by (auto simp: evaluate_timeouts_def Let_def split: sum.splits prod.splits)

end
