(* ===== verification/Ipam.thy ===== *)
theory Ipam
  imports IpAddress StateStore
begin

text \<open>
  \<open>ipam_service.py\<close>: the addresses of the VMs of a network zone. The service keeps its state in memory and
  writes it to its file after every change; here the state is typed as the service writes it, without the file.
  Scope identifiers of IPv6 addresses are outside the model, the clock gives the timestamps as texts.
\<close>

subsection \<open>Text of an address\<close>

definition ip4_str :: "32 word \<Rightarrow> string" where
  "ip4_str w = (let n = unat w in join_with ''.'' [nat_str (n div 16777216), nat_str (n div 65536 mod 256), nat_str (n div 256 mod 256), nat_str (n mod 256)])"

text \<open>The longest run of zero groups, the first one of several, as its start and length.\<close>

fun longest_run :: "nat \<Rightarrow> nat \<Rightarrow> nat \<Rightarrow> nat \<Rightarrow> nat list \<Rightarrow> nat \<times> nat" where
  "longest_run i len best blen [] = (best, blen)"
| "longest_run i len best blen (g # gs) = (if g \<noteq> 0 then longest_run (i + 1) 0 best blen gs
     else if blen < len + 1 then longest_run (i + 1) (len + 1) (i - len) (len + 1) gs
     else longest_run (i + 1) (len + 1) best blen gs)"

definition hextets :: "128 word \<Rightarrow> nat list" where
  "hextets w = map (\<lambda>k. unat w div 65536 ^ k mod 65536) [7, 6, 5, 4, 3, 2, 1, 0]"

definition compress :: "nat list \<Rightarrow> string list" where
  "compress gs = (let (start, len) = longest_run 0 0 0 0 gs; hs = map hex_str gs in
     if len \<le> 1 then hs
     else (if start = 0 then [[]] else []) @ take start hs @ [[]] @ drop (start + len) hs @ (if start + len = length gs then [[]] else []))"

definition ip6_str :: "128 word \<Rightarrow> string" where
  "ip6_str w = join_with '':'' (compress (hextets w))"

subsection \<open>The state\<close>

record ip_lease =
  il_ip_address :: string
  il_mac_address :: string
  il_vm_id :: string
  il_zone_id :: string
  il_hostname :: string
  il_static :: bool
  il_issued_at :: string
  il_expires_at :: "string option"

record ip_zone =
  iz_subnet :: string
  iz_dhcp_start :: string
  iz_dhcp_end :: string
  iz_bridge_name :: string

record ipam =
  ip_leases :: "ip_lease table"
  ip_zones :: "ip_zone table"

definition not_an_address :: "string \<Rightarrow> exn" where
  "not_an_address s = ValueError (repr_str s @ '' does not appear to be an IPv4 or IPv6 address'')"

definition parse_address :: "string \<Rightarrow> ip result" where
  "parse_address s = (case ip_address s of None \<Rightarrow> Inl (not_an_address s) | Some a \<Rightarrow> Inr a)"

definition parse_network :: "string \<Rightarrow> network result" where
  "parse_network s = (case ip_network s of
     None \<Rightarrow> Inl (ValueError (repr_str s @ '' does not appear to be an IPv4 or IPv6 network'')) | Some n \<Rightarrow> Inr n)"

subsection \<open>Operations\<close>

definition register_zone :: "string \<Rightarrow> string \<Rightarrow> string \<Rightarrow> string \<Rightarrow> string \<Rightarrow> ipam \<Rightarrow> unit result \<times> ipam" where
  "register_zone zone_id subnet dhcp_start dhcp_end bridge_name s =
     (case rbind (parse_network subnet) (\<lambda>n. rbind (parse_address dhcp_start) (\<lambda>a. rbind (parse_address dhcp_end) (\<lambda>b.
         if in_network a n \<and> in_network b n then Inr ()
         else Inl (ValueError (''DHCP range '' @ dhcp_start @ ''-'' @ dhcp_end @ '' not in subnet '' @ subnet))))) of
        Inl e \<Rightarrow> (Inl e, s)
      | Inr _ \<Rightarrow> (Inr (), s\<lparr>ip_zones := dset zone_id \<lparr>iz_subnet = subnet, iz_dhcp_start = dhcp_start, iz_dhcp_end = dhcp_end,
          iz_bridge_name = strip bridge_name\<rparr> (ip_zones s)\<rparr>))"

definition lease_key :: "string \<Rightarrow> string \<Rightarrow> string" where
  "lease_key zone_id vm_id = zone_id @ '':'' @ vm_id"

text \<open>The addresses of the leases whose key starts with the zone.\<close>

definition zone_entries :: "string \<Rightarrow> ipam \<Rightarrow> ip_lease list" where
  "zone_entries zone_id s = map snd (filter (\<lambda>(k, _). starts_with k (zone_id @ '':'')) (ip_leases s))"

definition allocated :: "string \<Rightarrow> ipam \<Rightarrow> string set" where
  "allocated zone_id s = il_ip_address ` set (zone_entries zone_id s)"

lemma next_word: "(w :: 'a::len word) \<noteq> - 1 \<Longrightarrow> unat (w + 1) = Suc (unat w)"
proof -
  assume "w \<noteq> - 1"
  then have "1 + w \<noteq> 0" by (metis add.commute add_eq_0_iff2)
  then show ?thesis by (simp add: unatSuc add.commute)
qed

text \<open>
  The loop over the range, for either width of address. Counting past the last address of all is an error
  of the address class.
\<close>

function scan_range :: "('a::len word \<Rightarrow> string) \<Rightarrow> string set \<Rightarrow> exn \<Rightarrow> 'a word \<Rightarrow> 'a word \<Rightarrow> string result" where
  "scan_range str taken exhausted current end_ip =
     (if end_ip < current then Inl exhausted
      else if str current \<notin> taken then Inr (str current)
      else if current = - 1 then Inl (ValueError ''address is not permitted'')
      else scan_range str taken exhausted (current + 1) end_ip)"
  by pat_completeness auto

termination
proof (relation "measure (\<lambda>(_, _, _, current :: 'a word, _). 2 ^ LENGTH('a) - unat current)")
  fix str :: "'a word \<Rightarrow> string" and taken exhausted and current end_ip :: "'a word"
  assume "current \<noteq> - 1"
  then have "unat (current + 1) = Suc (unat current)" by (rule next_word)
  moreover have "unat (current + 1) < 2 ^ LENGTH('a)" by (rule unsigned_less)
  ultimately show "((str, taken, exhausted, current + 1, end_ip), str, taken, exhausted, current, end_ip)
      \<in> measure (\<lambda>(_, _, _, current :: 'a word, _). 2 ^ LENGTH('a) - unat current)" by simp
qed simp

declare scan_range.simps [simp del]

definition find_available_ip :: "string \<Rightarrow> string \<Rightarrow> string \<Rightarrow> ipam \<Rightarrow> string result" where
  "find_available_ip zone_id dhcp_start dhcp_end s =
     rbind (parse_address dhcp_start) (\<lambda>a. rbind (parse_address dhcp_end) (\<lambda>b.
       let exhausted = RuntimeError (''DHCP pool exhausted for zone '' @ zone_id) in
       (case (a, b) of
          (V4 v, V4 w) \<Rightarrow> scan_range ip4_str (allocated zone_id s) exhausted v w
        | (V6 v, V6 w) \<Rightarrow> scan_range ip6_str (allocated zone_id s) exhausted v w
        | _ \<Rightarrow> Inl (TypeError (dhcp_start @ '' and '' @ dhcp_end @ '' are not of the same version'')))))"

text \<open>The address a request gets: the static one asked for, if it is in the subnet, or the next free one.\<close>

definition assigned_ip :: "ip_zone \<Rightarrow> string \<Rightarrow> string option \<Rightarrow> ipam \<Rightarrow> (string \<times> bool) result" where
  "assigned_ip z zone_id static_ip s = (case static_ip of
      Some ip \<Rightarrow> if ip \<noteq> [] then rbind (parse_address ip) (\<lambda>a. rbind (parse_network (iz_subnet z)) (\<lambda>n.
          if in_network a n then Inr (ip, True) else Inl (ValueError (''Static IP '' @ ip @ '' not in subnet '' @ iz_subnet z))))
        else rbind (find_available_ip zone_id (iz_dhcp_start z) (iz_dhcp_end z) s) (\<lambda>ip. Inr (ip, False))
    | None \<Rightarrow> rbind (find_available_ip zone_id (iz_dhcp_start z) (iz_dhcp_end z) s) (\<lambda>ip. Inr (ip, False)))"

definition allocate_ip :: "string \<Rightarrow> string \<Rightarrow> string \<Rightarrow> string \<Rightarrow> string option \<Rightarrow> string \<Rightarrow> string \<Rightarrow> ipam \<Rightarrow> string result \<times> ipam" where
  "allocate_ip zone_id vm_id mac_address hostname static_ip issued_at expires_at s =
     (case map_of (ip_zones s) zone_id of None \<Rightarrow> (Inl (ValueError (''Zone '' @ zone_id @ '' not registered in IPAM'')), s)
      | Some z \<Rightarrow> (case assigned_ip z zone_id static_ip s of Inl e \<Rightarrow> (Inl e, s)
        | Inr (ip, static) \<Rightarrow> (Inr ip, s\<lparr>ip_leases := dset (lease_key zone_id vm_id)
            \<lparr>il_ip_address = ip, il_mac_address = mac_address, il_vm_id = vm_id, il_zone_id = zone_id, il_hostname = hostname,
             il_static = static, il_issued_at = issued_at, il_expires_at = (if static then None else Some expires_at)\<rparr> (ip_leases s)\<rparr>)))"

definition release_ip :: "string \<Rightarrow> string \<Rightarrow> ipam \<Rightarrow> ipam" where
  "release_ip zone_id vm_id s = s\<lparr>ip_leases := ddel (lease_key zone_id vm_id) (ip_leases s)\<rparr>"

definition get_zone_leases :: "string \<Rightarrow> ipam \<Rightarrow> ip_lease list" where
  "get_zone_leases zone_id s = zone_entries zone_id s"

definition get_vm_lease :: "string \<Rightarrow> string \<Rightarrow> ipam \<Rightarrow> ip_lease option" where
  "get_vm_lease zone_id vm_id s = map_of (ip_leases s) (lease_key zone_id vm_id)"

definition get_all_zones :: "ipam \<Rightarrow> (string \<times> string \<times> ip_zone) list" where
  "get_all_zones s = map (\<lambda>(k, z). (k, k, z\<lparr>iz_bridge_name := strip (iz_bridge_name z)\<rparr>)) (ip_zones s)"

subsection \<open>The scan\<close>

lemma scan_found:
  "scan_range str taken ex current end_ip = Inr a \<Longrightarrow>
    \<exists>w. a = str w \<and> current \<le> w \<and> w \<le> end_ip \<and> str w \<notin> taken \<and> (\<forall>v. current \<le> v \<and> v < w \<longrightarrow> str v \<in> taken)"
proof (induction str taken ex current end_ip rule: scan_range.induct)
  case (1 str taken ex current end_ip)
  show ?case
  proof (cases "end_ip < current")
    case True
    then show ?thesis using "1.prems" by (simp add: scan_range.simps)
  next
    case le: False
    show ?thesis
    proof (cases "str current \<notin> taken")
      case True
      then show ?thesis using "1.prems" le by (auto simp: scan_range.simps not_less intro!: exI [of _ current])
    next
      case False
      then have ne: "current \<noteq> - 1" using "1.prems" le by (auto simp: scan_range.simps [of str taken ex current end_ip])
      then have "scan_range str taken ex (current + 1) end_ip = Inr a"
        using "1.prems" le False by (simp add: scan_range.simps [of str taken ex current end_ip])
      from "1.IH" [OF le _ ne this] False obtain w where w: "a = str w" "current + 1 \<le> w" "w \<le> end_ip" "str w \<notin> taken"
        "\<forall>v. current + 1 \<le> v \<and> v < w \<longrightarrow> str v \<in> taken" by auto
      have step: "current < v \<longleftrightarrow> current + 1 \<le> v" for v
        using next_word [OF ne] by (simp add: word_less_nat_alt word_le_nat_alt Suc_le_eq)
      have "\<forall>v. current \<le> v \<and> v < w \<longrightarrow> str v \<in> taken" using w(5) False step by (metis order_le_less)
      then show ?thesis using w(1-4) step by (intro exI [of _ w]) (auto simp: order_le_less)
    qed
  qed
qed

lemma scan_exhausted:
  "scan_range str taken ex current end_ip = Inl e \<Longrightarrow> \<forall>v. current \<le> v \<and> v \<le> end_ip \<longrightarrow> str v \<in> taken"
proof (induction str taken ex current end_ip rule: scan_range.induct)
  case (1 str taken ex current end_ip)
  show ?case
  proof (cases "end_ip < current")
    case True
    then show ?thesis by auto
  next
    case le: False
    then have t: "str current \<in> taken" using "1.prems" by (auto simp: scan_range.simps [of str taken ex current end_ip] split: if_splits)
    show ?thesis
    proof (cases "current = - 1")
      case True
      then show ?thesis using t by (metis word_n1_ge order_antisym)
    next
      case ne: False
      then have "scan_range str taken ex (current + 1) end_ip = Inl e"
        using "1.prems" le t by (simp add: scan_range.simps [of str taken ex current end_ip])
      from "1.IH" [OF le _ ne this] t have "\<forall>v. current + 1 \<le> v \<and> v \<le> end_ip \<longrightarrow> str v \<in> taken" by auto
      moreover have "current < v \<longleftrightarrow> current + 1 \<le> v" for v
        using next_word [OF ne] by (simp add: word_less_nat_alt word_le_nat_alt Suc_le_eq)
      ultimately show ?thesis using t by (metis order_le_less)
    qed
  qed
qed

end
