(* ===== verification/IpamProps.thy ===== *)
theory IpamProps
  imports Ipam Json
begin

text \<open>
  Addresses the allocator hands out: the first free one of the range, in the subnet of the zone, and not shared
  with another lease of the zone unless one of the two was asked for by its address.
\<close>

subsection \<open>An IPv4 address is read back from its text\<close>

lemma octet_nat_str: "n < 256 \<Longrightarrow> octet (nat_str n) = Some n"
proof -
  assume n: "n < 256"
  have "length (nat_str n) \<le> 3" using n by (subst length_nat_str) auto
  moreover have "nat_str n = ''0'' \<or> hd (nat_str n) \<noteq> CHR ''0''" using nat_str_lead [of n] nat_str_zero by (cases "n = 0") auto
  ultimately show ?thesis using n nat_str_digits [of _ n] by (auto simp: octet_def list_all_iff)
qed

lemma four_octets: "unat (w :: 32 word) = ((unat w div 16777216 * 256 + unat w div 65536 mod 256) * 256 + unat w div 256 mod 256) * 256 + unat w mod 256"
proof -
  let ?n = "unat w"
  have "?n div 65536 = ?n div 65536 div 256 * 256 + ?n div 65536 mod 256" by simp
  then have 1: "?n div 16777216 * 256 + ?n div 65536 mod 256 = ?n div 65536" by (simp add: div_mult2_eq [of ?n 65536 256, simplified])
  have "?n div 256 = ?n div 256 div 256 * 256 + ?n div 256 mod 256" by simp
  then have 2: "?n div 65536 * 256 + ?n div 256 mod 256 = ?n div 256" by (simp add: div_mult2_eq [of ?n 256 256, simplified])
  show ?thesis unfolding 1 2 by simp
qed

lemma ipv4_roundtrip: "ipv4_of (ip4_str w) = Some w"
proof -
  have "unat w < 2 ^ 32" using unsigned_less [of w] by simp
  then have top: "unat w div 16777216 < 256" by (simp add: less_mult_imp_div_less)
  have nodot: "CHR ''.'' \<notin> set (nat_str n)" for n using nat_str_digits [of "CHR ''.''" n] by (auto simp: is_digit_def)
  have "ipv4_of (ip4_str w) = Some (word_of_nat (((unat w div 16777216 * 256 + unat w div 65536 mod 256) * 256 + unat w div 256 mod 256) * 256 + unat w mod 256))"
    using top by (simp add: ipv4_of_def ip4_str_def Let_def split_char_append split_char_no_sep nodot octet_nat_str)
  then show ?thesis unfolding four_octets [symmetric] by simp
qed

lemma ip_address_ip4_str: "ip_address (ip4_str w) = Some (V4 w)"
proof -
  have "CHR ''/'' \<notin> set (nat_str n)" for n using nat_str_digits [of "CHR ''/''" n] by (auto simp: is_digit_def)
  then have "CHR ''/'' \<notin> set (ip4_str w)" by (simp add: ip4_str_def Let_def)
  then show ?thesis by (simp add: ip_address_def ipv4_roundtrip)
qed

subsection \<open>A network holds every address between two of its own\<close>

lemma masked_block: "(a :: 32 word) AND NOT (mask k) = push_bit k (drop_bit k a)"
  by (rule bit_word_eqI) (auto simp: bit_simps)

lemma same_block: "(a :: 32 word) AND NOT (mask k) = b AND NOT (mask k) \<longleftrightarrow> drop_bit k a = drop_bit k b"
proof
  assume e: "a AND NOT (mask k) = b AND NOT (mask k)"
  show "drop_bit k a = drop_bit k b"
  proof (rule bit_word_eqI)
    fix n assume "n < LENGTH(32)"
    have "bit (a AND NOT (mask k)) (k + n) = bit (b AND NOT (mask k)) (k + n)" using e by simp
    then show "bit (drop_bit k a) n = bit (drop_bit k b) n"
      using bit_imp_le_length [of a "k + n"] bit_imp_le_length [of b "k + n"] by (auto simp: bit_simps)
  qed
qed (simp add: masked_block)

lemma network_between:
  assumes "in_network (V4 v) n" and "in_network (V4 w) n" and "n = N4 (x AND mask4 p) (mask4 p)" and "v \<le> a" "a \<le> w"
  shows "in_network (V4 a) n"
proof -
  let ?k = "32 - p"
  have "drop_bit ?k v = drop_bit ?k w" using assms(1-3) same_block [of v ?k w] by (simp add: mask4_def)
  moreover have "unat (drop_bit ?k v) \<le> unat (drop_bit ?k a)" "unat (drop_bit ?k a) \<le> unat (drop_bit ?k w)"
    using assms(4,5) by (simp_all add: unat_drop_bit_eq drop_bit_eq_div [where 'a = nat] div_le_mono word_le_nat_alt)
  ultimately have "drop_bit ?k a = drop_bit ?k v" by (simp add: word_unat_eq_iff)
  then show ?thesis using assms(1,3) same_block [of a ?k v] by (simp add: mask4_def)
qed

lemma network_form: "ip_network s = Some (N4 n m) \<Longrightarrow> \<exists>x p. n = x AND mask4 p \<and> m = mask4 p"
  by (auto simp: ip_network_def network4_def network6_def split: list.splits option.splits)

subsection \<open>The first free address\<close>

lemma assigned_dynamic:
  "static_ip \<in> {None, Some []} \<Longrightarrow> assigned_ip z zone_id static_ip s
    = rbind (find_available_ip zone_id (iz_dhcp_start z) (iz_dhcp_end z) s) (\<lambda>ip. Inr (ip, False))"
  by (auto simp: assigned_ip_def)

lemma find_ip4:
  assumes "ip_address start_ip = Some (V4 v)" and "ip_address end_ip = Some (V4 w)"
  shows "find_available_ip zone_id start_ip end_ip s
    = scan_range ip4_str (allocated zone_id s) (RuntimeError (''DHCP pool exhausted for zone '' @ zone_id)) v w"
  using assms by (simp add: find_available_ip_def parse_address_def)











text \<open>The lease of a static IPv6 address keeps the text of the request, which need not be the one the search
  compares with: an address that is leased is then handed out again.\<close>

definition demo_ipam6 :: ipam where
  "demo_ipam6 = snd (allocate_ip ''lan'' ''1'' [] [] (Some ''FD00::1'') [] []
     (snd (register_zone ''lan'' ''fd00::/64'' ''fd00::1'' ''fd00::2'' [] \<lparr>ip_leases = [], ip_zones = []\<rparr>)))"

lemma static_text_overlooked:
  "map_option il_ip_address (get_vm_lease ''lan'' ''1'' demo_ipam6) = Some ''FD00::1''
    \<and> fst (allocate_ip ''lan'' ''2'' [] [] None [] [] demo_ipam6) = Inr ''fd00::1''
    \<and> ip_address ''FD00::1'' = ip_address ''fd00::1'' \<and> ip_address ''fd00::1'' \<noteq> None"
proof -
  have "map_option il_ip_address (get_vm_lease ''lan'' ''1'' demo_ipam6) = Some ''FD00::1''" by code_simp
  moreover have "fst (allocate_ip ''lan'' ''2'' [] [] None [] [] demo_ipam6) = Inr ''fd00::1''" by code_simp
  moreover have "ip_address ''FD00::1'' = ip_address ''fd00::1''" by code_simp
  moreover have "ip_address ''fd00::1'' \<noteq> None" by code_simp
  ultimately show ?thesis by simp
qed

text \<open>The address a request gets, asked for or chosen, lies in the subnet of the zone, when the zone was registered
  with a range of IPv4 addresses.\<close>

lemma lease_in_subnet:
  assumes "map_of (ip_zones s) zone_id = Some z" and "register_zone zone_id (iz_subnet z) (iz_dhcp_start z) (iz_dhcp_end z) b s0 = (Inr (), s1)"
    and "ip_address (iz_dhcp_start z) = Some (V4 v)"
    and "allocate_ip zone_id vm_id mac host static_ip issued expires s = (Inr ip, s')"
  shows "\<exists>a n. ip_address ip = Some a \<and> ip_network (iz_subnet z) = Some n \<and> in_network a n"
proof -
  from assms(4,1) obtain st where as: "assigned_ip z zone_id static_ip s = Inr (ip, st)" by (auto simp: allocate_ip_def split: sum.splits)
  from assms(2) obtain n last_ip where n: "ip_network (iz_subnet z) = Some n" and l: "ip_address (iz_dhcp_end z) = Some last_ip"
    and v: "in_network (V4 v) n" and w: "in_network last_ip n"
    by (auto simp: register_zone_def parse_network_def parse_address_def assms(3) split: option.splits if_splits sum.splits)
  from v obtain x m where xm: "n = N4 x m" by (cases n) auto
  then obtain lw where lw: "last_ip = V4 lw" using w by (cases last_ip) auto
  obtain x' p where nf: "n = N4 (x' AND mask4 p) (mask4 p)" using network_form n xm by blast
  show ?thesis
  proof (cases "static_ip \<in> {None, Some []}")
    case True
    let ?scan = "scan_range ip4_str (allocated zone_id s) (RuntimeError (''DHCP pool exhausted for zone '' @ zone_id)) v lw"
    have "?scan = Inr ip" using as unfolding assigned_dynamic [OF True] find_ip4 [OF assms(3) l [unfolded lw]] by (auto simp: rbind_eq_Inr)
    then obtain a where "ip = ip4_str a" "v \<le> a" "a \<le> lw" using scan_found by blast
    then show ?thesis using n network_between [OF v w [unfolded lw] nf] ip_address_ip4_str by auto
  next
    case False
    then obtain t where "static_ip = Some t" "t \<noteq> []" by (cases static_ip) auto
    then show ?thesis using as n by (auto simp: assigned_ip_def parse_address_def parse_network_def rbind_eq_Inr split: option.splits if_splits)
  qed
qed

subsection \<open>Sharing an address\<close>

datatype ipam_op =
  Register string string string string string
| Allocate string string string string "string option" string string
| Release string string

fun ipam_step :: "ipam \<Rightarrow> ipam_op \<Rightarrow> ipam" where
  "ipam_step s (Register z net a b br) = snd (register_zone z net a b br s)"
| "ipam_step s (Allocate z vm mac host ip t t') = snd (allocate_ip z vm mac host ip t t' s)"
| "ipam_step s (Release z vm) = release_ip z vm s"

definition ipam_start :: ipam where
  "ipam_start = \<lparr>ip_leases = [], ip_zones = []\<rparr>"

definition ipam_ok :: "ipam \<Rightarrow> bool" where
  "ipam_ok s = (wf_dict (ip_leases s)
    \<and> (\<forall>(k, l) \<in> set (ip_leases s). k = lease_key (il_zone_id l) (il_vm_id l))
    \<and> (\<forall>(k, l) \<in> set (ip_leases s). \<forall>(k', l') \<in> set (ip_leases s).
        k \<noteq> k' \<and> il_zone_id l = il_zone_id l' \<and> il_ip_address l = il_ip_address l' \<longrightarrow> il_static l \<or> il_static l'))"

lemma dynamic_not_allocated:
  assumes "assigned_ip z zone_id static_ip s = Inr (ip, False)"
  shows "ip \<notin> allocated zone_id s"
proof -
  from assms have "find_available_ip zone_id (iz_dhcp_start z) (iz_dhcp_end z) s = Inr ip"
    by (auto simp: assigned_ip_def rbind_eq_Inr split: option.splits if_splits)
  then obtain a b where "(case (a, b) of
          (V4 v, V4 w) \<Rightarrow> scan_range ip4_str (allocated zone_id s) (RuntimeError (''DHCP pool exhausted for zone '' @ zone_id)) v w
        | (V6 v, V6 w) \<Rightarrow> scan_range ip6_str (allocated zone_id s) (RuntimeError (''DHCP pool exhausted for zone '' @ zone_id)) v w
        | _ \<Rightarrow> Inl (TypeError (iz_dhcp_start z @ '' and '' @ iz_dhcp_end z @ '' are not of the same version''))) = Inr ip"
    unfolding find_available_ip_def Let_def by (auto simp only: rbind_eq_Inr)
  then show ?thesis by (cases a; cases b) (auto dest!: scan_found)
qed

lemma in_zone_allocated:
  assumes "(k, l) \<in> set (ip_leases s)" and "k = lease_key (il_zone_id l) vm"
  shows "il_ip_address l \<in> allocated (il_zone_id l) s"
proof -
  have "starts_with k (il_zone_id l @ '':'')" using assms(2) by (simp add: starts_with_def lease_key_def)
  then show ?thesis using assms(1) by (force simp: allocated_def zone_entries_def)
qed

lemma ipam_ok_step: "ipam_ok s \<Longrightarrow> ipam_ok (ipam_step s op)"
proof -
  assume ok: "ipam_ok s"
  show ?thesis
  proof (cases op)
    case (Register z net a b br)
    then show ?thesis using ok by (simp add: register_zone_def ipam_ok_def split: sum.splits)
  next
    case (Release z vm)
    then show ?thesis using ok by (auto simp: release_ip_def ipam_ok_def set_ddel)
  next
    case (Allocate zid vm mac host sip t t')
    show ?thesis
    proof (cases "\<exists>z ip st. map_of (ip_zones s) zid = Some z \<and> assigned_ip z zid sip s = Inr (ip, st)")
      case False
      then have "ipam_step s op = s" unfolding Allocate by (auto simp: allocate_ip_def split: option.splits sum.splits)
      then show ?thesis using ok by simp
    next
      case True
      then obtain z ip st where z: "map_of (ip_zones s) zid = Some z" and as: "assigned_ip z zid sip s = Inr (ip, st)" by blast
      let ?l = "\<lparr>il_ip_address = ip, il_mac_address = mac, il_vm_id = vm, il_zone_id = zid, il_hostname = host,
        il_static = st, il_issued_at = t, il_expires_at = (if st then None else Some t')\<rparr>"
      have e: "ipam_step s op = s\<lparr>ip_leases := dset (lease_key zid vm) ?l (ip_leases s)\<rparr>"
        using z as by (simp add: Allocate allocate_ip_def)
      have wf: "wf_dict (ip_leases s)" using ok by (simp add: ipam_ok_def)
      have fresh: "il_ip_address l \<noteq> ip" if "(k, l) \<in> set (ip_leases s)" "il_zone_id l = zid" "\<not> st" for k l
      proof -
        have "k = lease_key (il_zone_id l) (il_vm_id l)" using ok that(1) by (auto simp: ipam_ok_def)
        from in_zone_allocated [OF that(1) this] show ?thesis using dynamic_not_allocated [of z zid sip s ip] as that(2,3) by auto
      qed
      show ?thesis using ok fresh unfolding e ipam_ok_def by (auto simp: set_dset [OF wf])
    qed
  qed
qed

interpretation ipam: machine ipam_step ipam_ok
  by unfold_locales (rule ipam_ok_step)

text \<open>C40: Two VMs of a zone share an address only if one of them was given it as a static address: after any registrations,
  allocations and releases, two leases of one zone with the same address are not both dynamic.\<close>

theorem shared_address_is_static:
  assumes "get_vm_lease z vm (run ipam_step ipam_start ops) = Some l" and "get_vm_lease z' vm' (run ipam_step ipam_start ops) = Some l'"
    and "lease_key z vm \<noteq> lease_key z' vm'" and "il_zone_id l = il_zone_id l'" and "il_ip_address l = il_ip_address l'"
  shows "il_static l \<or> il_static l'"
proof -
  have "ipam_ok ipam_start" by (simp add: ipam_ok_def ipam_start_def)
  then have ok: "ipam_ok (run ipam_step ipam_start ops)" by (rule ipam.run_inv)
  have "(lease_key z vm, l) \<in> set (ip_leases (run ipam_step ipam_start ops))" "(lease_key z' vm', l') \<in> set (ip_leases (run ipam_step ipam_start ops))"
    using assms(1,2) by (auto simp: get_vm_lease_def dest: map_of_SomeD)
  then show ?thesis using ok assms(3-5) by (fastforce simp: ipam_ok_def)
qed

text \<open>The allocation of a static address never looks at the leases: it gives an address that another VM has, and gives
  it twice.\<close>

definition demo_ipam_ops :: "ipam_op list" where
  "demo_ipam_ops = [Register ''lan'' ''10.0.0.0/29'' ''10.0.0.5'' ''10.0.0.6'' [], Allocate ''lan'' ''1'' [] [] None [] [],
     Allocate ''lan'' ''2'' [] [] (Some ''10.0.0.5'') [] []]"

theorem shared_address_is_static_witness:
  "\<exists>l l'. get_vm_lease ''lan'' ''1'' (run ipam_step ipam_start demo_ipam_ops) = Some l
    \<and> get_vm_lease ''lan'' ''2'' (run ipam_step ipam_start demo_ipam_ops) = Some l'
    \<and> il_ip_address l = ''10.0.0.5'' \<and> il_ip_address l' = ''10.0.0.5'' \<and> (il_static l \<or> il_static l')"
proof -
  have r: "map_option (\<lambda>l. (il_ip_address l, il_zone_id l)) (get_vm_lease ''lan'' ''1'' (run ipam_step ipam_start demo_ipam_ops)) = Some (''10.0.0.5'', ''lan'')"
    "map_option (\<lambda>l. (il_ip_address l, il_zone_id l)) (get_vm_lease ''lan'' ''2'' (run ipam_step ipam_start demo_ipam_ops)) = Some (''10.0.0.5'', ''lan'')"
    by code_simp+
  then obtain l l' where l: "get_vm_lease ''lan'' ''1'' (run ipam_step ipam_start demo_ipam_ops) = Some l"
    "get_vm_lease ''lan'' ''2'' (run ipam_step ipam_start demo_ipam_ops) = Some l'"
    and a: "il_ip_address l = ''10.0.0.5''" "il_ip_address l' = ''10.0.0.5''" "il_zone_id l = ''lan''" "il_zone_id l' = ''lan''" by auto
  have k: "lease_key ''lan'' ''1'' \<noteq> lease_key ''lan'' ''2''" by (simp add: lease_key_def)
  from shared_address_is_static [OF l k] show ?thesis using l a by simp
qed

lemma static_ignores_leases:
  assumes "map_of (ip_zones s) z = Some c" and "ip \<noteq> []" and "parse_address ip = Inr a" and "parse_network (iz_subnet c) = Inr n" and "in_network a n"
  shows "fst (allocate_ip z vm mac host (Some ip) t t' s) = Inr ip"
  using assms by (simp add: allocate_ip_def assigned_ip_def)

text \<open>An allocation for a VM that has a lease does not renew it: its own address counts as taken, and it gets another.\<close>

lemma reallocation_moves:
  assumes "map_of (ip_zones s) z = Some c" and "get_vm_lease z vm s = Some l" and "il_zone_id l = z"
    and "allocate_ip z vm mac host None t t' s = (Inr ip, s')"
  shows "ip \<noteq> il_ip_address l"
proof -
  from assms(1,4) have "assigned_ip c z None s = Inr (ip, False)"
    by (auto simp: allocate_ip_def assigned_dynamic rbind_eq_Inr split: sum.splits prod.splits)
  then have "ip \<notin> allocated z s" by (rule dynamic_not_allocated)
  moreover have "il_ip_address l \<in> allocated (il_zone_id l) s"
  proof (rule in_zone_allocated)
    show "(lease_key z vm, l) \<in> set (ip_leases s)" using assms(2) by (simp add: get_vm_lease_def map_of_SomeD)
    show "lease_key z vm = lease_key (il_zone_id l) vm" by (simp only: assms(3))
  qed
  then have "il_ip_address l \<in> allocated z s" by (simp only: assms(3))
  ultimately show ?thesis by auto
qed

end
