(* ===== verification/Entitlements.thy ===== *)
theory Entitlements
  imports StateStore
begin

text \<open>
  \<open>entitlement_service.py\<close>: which users and groups may use a pool. The service reads its file before every
  operation and writes the whole of it back.
\<close>

record entitlements =
  en_pool_id :: string
  en_users :: "string list"
  en_groups :: "string list"

definition entitlement_default :: py where
  "entitlement_default = PDict [(''pools'', PDict [])]"

text \<open>The table of pools in the file.\<close>

definition load_state :: "state_file \<Rightarrow> dict result" where
  "load_state f = rbind (store_load entitlement_default f) (\<lambda>data. Inr (dict_of (pget (dict_of data) ''pools'')))"

definition normalize_pool_id :: "string \<Rightarrow> string result" where
  "normalize_pool_id pid = (if strip pid = [] then Inl (ValueError ''pool_id is required'') else Inr (strip pid))"

definition normalize_entries :: "py list \<Rightarrow> string list" where
  "normalize_entries xs = dedup_onto [] (filter (\<lambda>v. v \<noteq> []) (map (\<lambda>x. strip (str_or x)) xs))"

text \<open>The items of a loop over a value: texts give their characters, dictionaries their keys.\<close>

definition py_iter :: "py \<Rightarrow> py list result" where
  "py_iter v = (case v of PList xs \<Rightarrow> Inr xs | PStr s \<Rightarrow> Inr (map (\<lambda>c. PStr [c]) s) | PDict d \<Rightarrow> Inr (map (\<lambda>(k, _). PStr k) d)
     | _ \<Rightarrow> Inl (TypeError ''object is not iterable''))"

definition entries_of :: "py \<Rightarrow> py list result" where
  "entries_of v = (if truthy v then py_iter v else Inr [])"

definition read_entries :: "py \<Rightarrow> string list result" where
  "read_entries v = rbind (entries_of v) (\<lambda>xs. Inr (normalize_entries xs))"

definition get_entitlements :: "string \<Rightarrow> state_file \<Rightarrow> entitlements result" where
  "get_entitlements pool_id f = rbind (normalize_pool_id pool_id) (\<lambda>pool. rbind (load_state f) (\<lambda>pools.
     let entry = pget_or pools pool (PDict []); d = dict_of entry in
     if \<not> is_dict entry then Inl (AttributeError ''object has no attribute get'')
     else rbind (read_entries (pget_or d ''users'' (PList []))) (\<lambda>users.
          rbind (read_entries (pget_or d ''groups'' (PList []))) (\<lambda>groups.
            Inr \<lparr>en_pool_id = pool, en_users = users, en_groups = groups\<rparr>))))"

definition entitlement_entry :: "entitlements \<Rightarrow> py" where
  "entitlement_entry e = PDict [(''users'', PList (map PStr (en_users e))), (''groups'', PList (map PStr (en_groups e)))]"

definition set_entitlements :: "string \<Rightarrow> py \<Rightarrow> py \<Rightarrow> state_file \<Rightarrow> entitlements result \<times> state_file" where
  "set_entitlements pool_id users groups f =
     (case rbind (normalize_pool_id pool_id) (\<lambda>pool. rbind (load_state f) (\<lambda>pools.
         rbind (read_entries users) (\<lambda>us. rbind (read_entries groups) (\<lambda>gs.
           Inr (pools, \<lparr>en_pool_id = pool, en_users = us, en_groups = gs\<rparr>))))) of
       Inl e \<Rightarrow> (Inl e, f)
     | Inr (pools, en) \<Rightarrow> (Inr en, store_save (PDict [(''pools'', PDict (dset (en_pool_id en) (entitlement_entry en) pools))]) f))"

definition add_entitlement :: "string \<Rightarrow> string \<Rightarrow> string \<Rightarrow> state_file \<Rightarrow> entitlements result \<times> state_file" where
  "add_entitlement pool_id user_id group_id f =
     (if strip user_id = [] \<and> strip group_id = [] then (Inl (ValueError ''either user_id or group_id is required''), f)
      else case get_entitlements pool_id f of Inl e \<Rightarrow> (Inl e, f)
      | Inr current \<Rightarrow> set_entitlements pool_id
          (PList (map PStr (en_users current @ (if strip user_id \<noteq> [] then [strip user_id] else []))))
          (PList (map PStr (en_groups current @ (if strip group_id \<noteq> [] then [strip group_id] else [])))) f)"

definition remove_entitlement :: "string \<Rightarrow> string \<Rightarrow> string \<Rightarrow> state_file \<Rightarrow> entitlements result \<times> state_file" where
  "remove_entitlement pool_id user_id group_id f =
     (case get_entitlements pool_id f of Inl e \<Rightarrow> (Inl e, f)
      | Inr current \<Rightarrow> set_entitlements pool_id (PList (map PStr (filter (\<lambda>u. u \<noteq> strip user_id) (en_users current))))
          (PList (map PStr (filter (\<lambda>g. g \<noteq> strip group_id) (en_groups current)))) f)"

definition has_explicit_entitlements :: "string \<Rightarrow> state_file \<Rightarrow> bool result" where
  "has_explicit_entitlements pool_id f = rbind (get_entitlements pool_id f) (\<lambda>c. Inr (en_users c \<noteq> [] \<or> en_groups c \<noteq> []))"

definition is_entitled :: "string \<Rightarrow> string \<Rightarrow> string list \<Rightarrow> state_file \<Rightarrow> bool result" where
  "is_entitled pool_id user_id groups f = rbind (get_entitlements pool_id f) (\<lambda>c. let user = strip user_id in
     Inr ((user \<noteq> [] \<and> user \<in> set (en_users c)) \<or> (\<exists>g \<in> set (en_groups c). g \<in> set (filter (\<lambda>g. g \<noteq> []) (map strip groups)))))"

definition entitled_view :: "string \<Rightarrow> string \<Rightarrow> string list \<Rightarrow> bool \<Rightarrow> state_file \<Rightarrow> bool result" where
  "entitled_view pool_id user_id groups allow_unrestricted f = rbind (has_explicit_entitlements pool_id f) (\<lambda>explicit.
     if \<not> explicit then Inr allow_unrestricted else is_entitled pool_id user_id groups f)"

subsection \<open>What is written is read back\<close>

lemma trimmed_entries: "x \<in> set (normalize_entries xs) \<Longrightarrow> x \<noteq> [] \<and> strip x = x"
  by (auto simp: normalize_entries_def)

lemma distinct_entries: "distinct (normalize_entries xs)"
  by (auto simp: normalize_entries_def)

lemma normalize_again: "normalize_entries (map PStr (normalize_entries xs)) = normalize_entries xs"
proof -
  have "map (\<lambda>s. strip (str_or (PStr s))) (normalize_entries xs) = normalize_entries xs"
    by (rule map_idI) (use trimmed_entries in auto)
  then have m: "map (\<lambda>x. strip (str_or x)) (map PStr (normalize_entries xs)) = normalize_entries xs" by (simp add: comp_def)
  have "filter (\<lambda>v. v \<noteq> []) (normalize_entries xs) = normalize_entries xs" by (rule filter_True) (use trimmed_entries in auto)
  then show ?thesis unfolding normalize_entries_def [of "map PStr (normalize_entries xs)"] m
    using dedup_onto_id [of "[]" "normalize_entries xs"] distinct_entries by simp
qed

lemma entries_of_texts [simp]: "entries_of (PList (map PStr us)) = Inr (map PStr us)"
  by (simp add: entries_of_def py_iter_def)

lemma read_again: "read_entries v = Inr us \<Longrightarrow> read_entries (PList (map PStr us)) = Inr us"
  by (auto simp: read_entries_def rbind_eq_Inr normalize_again)

lemma load_saved: "load_state (store_save (PDict [(''pools'', PDict pools)]) f) = Inr pools"
  by (simp add: load_state_def store_save_def atomic_write_def pget_def)

lemma get_saved:
  assumes "read_entries u = Inr us" and "read_entries g = Inr gs" and "strip pid \<noteq> []"
  shows "get_entitlements pid (store_save (PDict [(''pools'', PDict (dset (strip pid)
     (entitlement_entry \<lparr>en_pool_id = strip pid, en_users = us, en_groups = gs\<rparr>) pools))]) f) = Inr \<lparr>en_pool_id = strip pid, en_users = us, en_groups = gs\<rparr>"
  using assms(3) read_again [OF assms(1)] read_again [OF assms(2)]
  by (simp add: get_entitlements_def normalize_pool_id_def load_saved pget_or_def entitlement_entry_def Let_def)

lemma set_get:
  assumes "set_entitlements pid u g f = (Inr e, f')"
  shows "get_entitlements pid f' = Inr e" and "strip q \<noteq> strip pid \<Longrightarrow> get_entitlements q f' = get_entitlements q f"
proof -
  from assms obtain pools us gs where n: "strip pid \<noteq> []" and l: "load_state f = Inr pools" and r: "read_entries u = Inr us" "read_entries g = Inr gs"
    and e: "e = \<lparr>en_pool_id = strip pid, en_users = us, en_groups = gs\<rparr>"
    and f': "f' = store_save (PDict [(''pools'', PDict (dset (strip pid) (entitlement_entry e) pools))]) f"
    by (auto simp: set_entitlements_def normalize_pool_id_def rbind_eq_Inr split: sum.splits if_splits)
  show "get_entitlements pid f' = Inr e" unfolding f' e by (rule get_saved [OF r n])
  show "get_entitlements q f' = get_entitlements q f" if "strip q \<noteq> strip pid"
    using that by (simp add: get_entitlements_def normalize_pool_id_def f' load_saved l pget_or_def)
qed

lemma refused_set: "set_entitlements pid u g f = (Inl e, f') \<Longrightarrow> f' = f"
  by (auto simp: set_entitlements_def split: sum.splits)

text \<open>An entry is what reading gives: trimmed, not empty, without repetition.\<close>

lemma read_entries_form: "read_entries v = Inr us \<Longrightarrow> distinct us \<and> (\<forall>u \<in> set us. u \<noteq> [] \<and> strip u = u)"
  using trimmed_entries distinct_entries by (auto simp: read_entries_def rbind_eq_Inr)

lemma get_form:
  assumes "get_entitlements pid f = Inr e"
  shows "distinct (en_users e)" "distinct (en_groups e)" "\<forall>u \<in> set (en_users e). u \<noteq> [] \<and> strip u = u" "\<forall>g \<in> set (en_groups e). g \<noteq> [] \<and> strip g = g"
proof -
  from assms obtain u g where "read_entries u = Inr (en_users e)" "read_entries g = Inr (en_groups e)"
    by (auto simp: get_entitlements_def rbind_eq_Inr Let_def split: if_splits)
  then show "distinct (en_users e)" "distinct (en_groups e)" "\<forall>u \<in> set (en_users e). u \<noteq> [] \<and> strip u = u" "\<forall>g \<in> set (en_groups e). g \<noteq> [] \<and> strip g = g"
    by (simp_all add: read_entries_form)
qed

lemma read_texts: "read_entries (PList (map PStr us)) = Inr (normalize_entries (map PStr us))"
  by (simp add: read_entries_def)

lemma set_normal: "set (normalize_entries (map PStr us)) = strip ` set us - {[]}"
  by (auto simp: normalize_entries_def)

lemma strip_added:
  assumes "\<forall>u \<in> set xs. u \<noteq> [] \<and> strip u = u"
  shows "strip ` set (xs @ (if strip x \<noteq> [] then [strip x] else [])) - {[]} = set xs \<union> ({strip x} - {[]})"
proof -
  have "strip ` set xs = set xs" by (rule image_cong [OF refl, of _ strip "\<lambda>u. u", simplified]) (use assms in blast)
  moreover have "[] \<notin> set xs" using assms by blast
  ultimately show ?thesis by (cases "strip x = []") auto
qed

subsection \<open>Adding and removing\<close>

text \<open>What a change does to the users and groups of the pool, as sets.\<close>

lemma add_entitlement_result:
  assumes "add_entitlement pid user grp f = (Inr e, f')"
  obtains old where "get_entitlements pid f = Inr old" "get_entitlements pid f' = Inr e"
    "set (en_users e) = set (en_users old) \<union> ({strip user} - {[]})" "set (en_groups e) = set (en_groups old) \<union> ({strip grp} - {[]})"
proof -
  from assms obtain old where old: "get_entitlements pid f = Inr old" by (auto simp: add_entitlement_def split: if_splits sum.splits)
  let ?us = "en_users old @ (if strip user \<noteq> [] then [strip user] else [])"
  let ?gs = "en_groups old @ (if strip grp \<noteq> [] then [strip grp] else [])"
  have s: "set_entitlements pid (PList (map PStr ?us)) (PList (map PStr ?gs)) f = (Inr e, f')"
    using assms old by (simp add: add_entitlement_def split: if_splits)
  have "en_users e = normalize_entries (map PStr ?us) \<and> en_groups e = normalize_entries (map PStr ?gs)"
    using s unfolding set_entitlements_def read_texts by (auto simp: rbind_eq_Inr split: sum.splits)
  moreover have "strip ` set ?us - {[]} = set (en_users old) \<union> ({strip user} - {[]})"
    "strip ` set ?gs - {[]} = set (en_groups old) \<union> ({strip grp} - {[]})"
    by (rule strip_added [OF get_form(3) [OF old]], rule strip_added [OF get_form(4) [OF old]])
  ultimately have "set (en_users e) = set (en_users old) \<union> ({strip user} - {[]})" "set (en_groups e) = set (en_groups old) \<union> ({strip grp} - {[]})"
    by (simp_all only: set_normal)
  then show thesis by (rule that [OF old set_get(1) [OF s]])
qed

lemma remove_entitlement_result:
  assumes "remove_entitlement pid user grp f = (Inr e, f')"
  obtains old where "get_entitlements pid f = Inr old" "get_entitlements pid f' = Inr e"
    "set (en_users e) = set (en_users old) - {strip user}" "set (en_groups e) = set (en_groups old) - {strip grp}"
proof -
  from assms obtain old where old: "get_entitlements pid f = Inr old" by (auto simp: remove_entitlement_def split: sum.splits)
  let ?us = "filter (\<lambda>u. u \<noteq> strip user) (en_users old)" and ?gs = "filter (\<lambda>g. g \<noteq> strip grp) (en_groups old)"
  have s: "set_entitlements pid (PList (map PStr ?us)) (PList (map PStr ?gs)) f = (Inr e, f')"
    using assms old by (simp add: remove_entitlement_def)
  have "en_users e = normalize_entries (map PStr ?us) \<and> en_groups e = normalize_entries (map PStr ?gs)"
    using s unfolding set_entitlements_def read_texts by (auto simp: rbind_eq_Inr split: sum.splits)
  moreover have "strip ` (set (en_users old) - {strip user}) - {[]} = set (en_users old) - {strip user}"
    "strip ` (set (en_groups old) - {strip grp}) - {[]} = set (en_groups old) - {strip grp}"
    using get_form [OF old] by force+
  ultimately have "set (en_users e) = set (en_users old) - {strip user}" "set (en_groups e) = set (en_groups old) - {strip grp}"
    by (simp_all add: set_normal set_diff_eq)
  then show thesis by (rule that [OF old set_get(1) [OF s]])
qed

text \<open>A pool without entitlements is open to all: taking away the last one opens it.\<close>

lemma last_removal_opens:
  assumes "get_entitlements pid f = Inr e" and "en_users e = [user]" and "en_groups e = []" and "remove_entitlement pid user [] f = (Inr e', f')"
  shows "entitled_view pid anyone groups True f' = Inr True" and "is_entitled pid anyone groups f' = Inr False"
proof -
  from get_form [OF assms(1)] assms(2) have t: "strip user = user" by simp
  obtain old where "get_entitlements pid f = Inr old" and g: "get_entitlements pid f' = Inr e'"
    and s: "set (en_users e') = set (en_users old) - {strip user}" "set (en_groups e') = set (en_groups old) - {strip []}"
    by (rule remove_entitlement_result [OF assms(4)])
  then have "old = e" using assms(1) by simp
  then have "en_users e' = []" "en_groups e' = []" using s assms(2,3) t by simp_all
  with g  show "entitled_view pid anyone groups True f' = Inr True" "is_entitled pid anyone groups f' = Inr False"
    by (auto simp: entitled_view_def has_explicit_entitlements_def is_entitled_def)
qed

end
