(* ===== verification/PoolHttp.thy ===== *)
theory PoolHttp
  imports AuthHttp PoolSessions SessionManager Entitlements
begin

text \<open>
  The HTTP side of desktop pools: who may see a pool (\<open>request_handler_mixin.py\<close>), the routes of pools, their
  entitlements, desktops and kiosk sessions (\<open>pools_http_surface.py\<close>) and their dispatch in
  \<open>control_plane_handler.py\<close>. They join the pool manager, the entitlements and the session manager. The
  recording service and the routes of templates, gaming metrics, direct streams and handover lists are
  arguments; audit events, which never raise, are left out.
\<close>

record pool_services =
  ps_pm :: pm
  ps_ent :: state_file
  ps_sm :: sm

record pool_http_env =
  pe_pm :: pm_env
  pe_sm :: sm_env
  pe_stop_recording :: "string \<Rightarrow> exn option"
  pe_other_get :: "string \<Rightarrow> http_response option result"
  pe_other_post :: "string \<Rightarrow> dict \<Rightarrow> http_response option result"
  pe_other_delete :: "string \<Rightarrow> http_response option result"

subsection \<open>The requester\<close>

text \<open>
  What the surface asks of the requester. The principal of a request has no groups: neither sessions nor the
  tokens carry any, so \<open>_requester_groups\<close> is always empty.
\<close>

record requester =
  rr_identity :: string
  rr_permissions :: "string list"
  rr_tenant :: string

definition requester_identity :: "http_request \<Rightarrow> principal \<Rightarrow> string" where
  "requester_identity rq pr = sor (pr_username pr) (sor (hq_peer rq) ''unknown'')"

definition requester_of :: "http_request \<Rightarrow> principal \<Rightarrow> auth \<Rightarrow> requester result \<times> auth" where
  "requester_of rq pr s = abind (role_permissions (sor (lower (strip (sor (pr_role pr) ''viewer''))) ''viewer'') s) (\<lambda>perms s'.
     (Inr \<lparr>rr_identity = requester_identity rq pr, rr_permissions = perms,
        rr_tenant = (case pr_tenant_id pr of None \<Rightarrow> [] | Some t \<Rightarrow> strip t)\<rparr>, s'))"

definition can_bypass_pool_visibility :: "requester \<Rightarrow> bool" where
  "can_bypass_pool_visibility r = (''*'' \<in> set (rr_permissions r) \<or> ''pool:write'' \<in> set (rr_permissions r))"

definition can_view_pool :: "requester \<Rightarrow> string \<Rightarrow> pool_services \<Rightarrow> bool result" where
  "can_view_pool r pid svc = (if can_bypass_pool_visibility r then Inr True
     else rbind (if rr_tenant r = [] then Inr False else rbind (get_pool pid (ps_pm svc)) (\<lambda>i.
         Inr (case i of None \<Rightarrow> False | Some info \<Rightarrow> info_tenant_id info \<noteq> [] \<and> info_tenant_id info \<noteq> rr_tenant r)))
       (\<lambda>foreign. if foreign then Inr False else entitled_view pid (rr_identity r) [] True (ps_ent svc)))"

subsection \<open>Responses\<close>

definition ok_response :: "int \<Rightarrow> dict \<Rightarrow> http_response" where
  "ok_response status body = json_response status ((''ok'', PBool True) # body)"

definition not_found_response :: "string \<Rightarrow> http_response" where
  "not_found_response msg = error_response 404 msg"

definition pool_not_found :: http_response where
  "pool_not_found = not_found_response ''pool not found''"

fun is_value_error :: "exn \<Rightarrow> bool" where
  "is_value_error (ValueError m) = True"
| "is_value_error _ = False"

fun is_value_or_runtime :: "exn \<Rightarrow> bool" where
  "is_value_or_runtime (ValueError m) = True"
| "is_value_or_runtime (RuntimeError m) = True"
| "is_value_or_runtime _ = False"

fun is_value_or_type :: "exn \<Rightarrow> bool" where
  "is_value_or_type (ValueError m) = True"
| "is_value_or_type (TypeError m) = True"
| "is_value_or_type _ = False"

text \<open>The exceptions a route catches become answers, others end the request without one.\<close>

definition caught :: "(exn \<Rightarrow> bool) \<Rightarrow> int \<Rightarrow> exn \<Rightarrow> http_response result" where
  "caught p status e = (if p e then Inr (error_response status (exn_message e)) else Inl e)"

definition answer :: "(exn \<Rightarrow> bool) \<Rightarrow> int \<Rightarrow> ('a \<Rightarrow> http_response) \<Rightarrow> 'a result \<Rightarrow> http_response result" where
  "answer p status f r = (case r of Inl e \<Rightarrow> caught p status e | Inr x \<Rightarrow> Inr (f x))"

definition lease_response :: "lease \<Rightarrow> http_response" where
  "lease_response l = ok_response 200 (lease_to_dict l)"

text \<open>A step of the pool manager, with its answer.\<close>

definition pm_answer :: "(exn \<Rightarrow> bool) \<Rightarrow> ('a \<Rightarrow> http_response) \<Rightarrow> 'a result \<times> pm \<Rightarrow> pool_services \<Rightarrow> http_response result \<times> pool_services" where
  "pm_answer p f q svc = (answer p 400 f (fst q), svc\<lparr>ps_pm := snd q\<rparr>)"

subsection \<open>Paths\<close>

definition pool_path :: "string \<Rightarrow> string \<Rightarrow> bool" where
  "pool_path suffix path = match_line (seqs [lit ''/api/v1/pools/'', plus name_char, lit suffix]) path"

definition pool_of_path :: "string \<Rightarrow> string" where
  "pool_of_path path = path_name name_char ''/api/v1/pools/'' path"

definition kiosk_path :: "string \<Rightarrow> string \<Rightarrow> bool" where
  "kiosk_path suffix path = match_line (seqs [lit ''/api/v1/pools/kiosk/sessions/'', plus is_digit, lit suffix]) path"

definition kiosk_vmid :: "string \<Rightarrow> int" where
  "kiosk_vmid path = int (digits_val (path_name is_digit ''/api/v1/pools/kiosk/sessions/'' path))"

subsection \<open>Reading routes\<close>

definition get_pools :: "requester \<Rightarrow> pool_services \<Rightarrow> http_response result" where
  "get_pools r svc = rbind (list_pools (if can_bypass_pool_visibility r then None else Some (rr_tenant r)) (ps_pm svc)) (\<lambda>infos.
     rbind (filter_r (\<lambda>i. can_view_pool r (info_pool_id i) svc) infos) (\<lambda>shown.
       Inr (ok_response 200 [(''pools'', PList (map (\<lambda>i. PDict (pool_info_to_dict i)) shown))])))"

text \<open>A route about one pool the requester can see.\<close>

definition seen_pool :: "requester \<Rightarrow> string \<Rightarrow> pool_services \<Rightarrow> http_response result \<Rightarrow> http_response result" where
  "seen_pool r pid svc k = rbind (can_view_pool r pid svc) (\<lambda>ok. if ok then k else Inr pool_not_found)"

definition get_one_pool :: "string \<Rightarrow> pool_services \<Rightarrow> http_response result" where
  "get_one_pool pid svc = rbind (get_pool pid (ps_pm svc)) (\<lambda>i.
     Inr (case i of None \<Rightarrow> pool_not_found | Some info \<Rightarrow> ok_response 200 (pool_info_to_dict info)))"

definition get_pool_vms :: "string \<Rightarrow> pool_services \<Rightarrow> http_response result" where
  "get_pool_vms pid svc = answer is_value_error 404 (\<lambda>ds. ok_response 200 [(''vms'', PList (map PDict ds))]) (list_desktops pid (ps_pm svc))"

definition entitlement_fields :: "entitlements \<Rightarrow> dict" where
  "entitlement_fields e = [(''pool_id'', PStr (en_pool_id e)), (''users'', PList (map PStr (en_users e))), (''groups'', PList (map PStr (en_groups e)))]"

definition get_pool_entitlements :: "string \<Rightarrow> pool_services \<Rightarrow> http_response result" where
  "get_pool_entitlements pid svc = answer is_value_error 400 (\<lambda>e. ok_response 200 (entitlement_fields e)) (get_entitlements pid (ps_ent svc))"

text \<open>The kiosk session a listed session is: its pool exists, is a kiosk pool and can be seen.\<close>

definition kiosk_item :: "pool_http_env \<Rightarrow> requester \<Rightarrow> pool_services \<Rightarrow> dict \<Rightarrow> dict option result" where
  "kiosk_item env r svc session = (let pid = stget session ''pool_id'' in
     if pid = [] then Inr None
     else rbind (get_pool pid (ps_pm svc)) (\<lambda>i. case i of None \<Rightarrow> Inr None
       | Some info \<Rightarrow> if info_pool_type info \<noteq> PT_KIOSK then Inr None
         else rbind (can_view_pool r pid svc) (\<lambda>ok. if \<not> ok then Inr None
           else rbind (int_or0 (pget session ''vmid'')) (\<lambda>vmid. Inr (Some (
             dset ''time_remaining_seconds'' (PFloat (case time_remaining_seconds (pe_pm env) pid vmid (ps_pm svc) of Inl e \<Rightarrow> - 1 | Inr t \<Rightarrow> t))
               (dset ''session_extension_options_minutes'' (PList (map PInt (info_session_extension_options_minutes info)))
                 (dset ''vm_id'' (PInt vmid) session))))))))"

definition get_kiosk_sessions :: "pool_http_env \<Rightarrow> requester \<Rightarrow> pool_services \<Rightarrow> http_response result" where
  "get_kiosk_sessions env r svc = rbind (list_active_sessions (ps_pm svc)) (\<lambda>ss. rbind (rmap (kiosk_item env r svc) ss) (\<lambda>xs.
     Inr (ok_response 200 [(''sessions'', PList (map PDict (List.map_filter (\<lambda>x. x) xs)))])))"

definition pool_route_get :: "pool_http_env \<Rightarrow> requester \<Rightarrow> string \<Rightarrow> pool_services \<Rightarrow> http_response option result" where
  "pool_route_get env r path svc = (let some = (\<lambda>x. rbind x (\<lambda>y. Inr (Some y))) in
     if match_line (lit ''/api/v1/pools/kiosk/sessions'') path then some (get_kiosk_sessions env r svc)
     else if path = ''/api/v1/pools'' then some (get_pools r svc)
     else if pool_path [] path then some (seen_pool r (pool_of_path path) svc (get_one_pool (pool_of_path path) svc))
     else if pool_path ''/vms'' path then some (seen_pool r (pool_of_path path) svc (get_pool_vms (pool_of_path path) svc))
     else if pool_path ''/entitlements'' path then some (seen_pool r (pool_of_path path) svc (get_pool_entitlements (pool_of_path path) svc))
     else pe_other_get env path)"

subsection \<open>Creating a pool\<close>

definition int_arg :: "dict \<Rightarrow> string \<Rightarrow> int \<Rightarrow> int result" where
  "int_arg p k n = py_int (pget_or p k (PInt n))"

definition enum_arg :: "('e \<Rightarrow> string) \<Rightarrow> 'e list \<Rightarrow> string \<Rightarrow> string \<Rightarrow> 'e result" where
  "enum_arg f es kind v = (case enum_of f es v of None \<Rightarrow> Inl (ValueError (repr_str v @ '' is not a valid '' @ kind)) | Some e \<Rightarrow> Inr e)"

definition profile_arg :: "dict \<Rightarrow> streaming_profile option result" where
  "profile_arg p = (let v = pget p ''streaming_profile'' in
     if v = PNone then Inr None
     else if \<not> is_dict v then Inl (ValueError ''streaming_profile must be an object'')
     else rbind (streaming_profile_from_payload v) (\<lambda>s. Inr (Some s)))"

text \<open>
  The specification in a payload, the arguments in the order of the source. The extension levels are taken as
  minutes at once; the manager normalises them again.
\<close>

definition spec_of_payload :: "string \<Rightarrow> dict \<Rightarrow> pool_spec result" where
  "spec_of_payload tenant p =
     rbind (enum_arg mode_value MODES ''DesktopPoolMode'' (py_str (pget_or p ''mode'' (PStr ''floating_non_persistent'')))) (\<lambda>mode.
     rbind (enum_arg type_value TYPES ''DesktopPoolType'' (lower (strip (py_str (por (pget_or p ''pool_type'' (PStr ''desktop'')) (PStr ''desktop'')))))) (\<lambda>ptype.
     rbind (profile_arg p) (\<lambda>profile.
     rbind (int_arg p ''min_pool_size'' 0) (\<lambda>lo.
     rbind (int_arg p ''max_pool_size'' 10) (\<lambda>hi.
     rbind (int_arg p ''warm_pool_size'' 2) (\<lambda>warm.
     rbind (int_arg p ''cpu_cores'' 2) (\<lambda>cpu.
     rbind (int_arg p ''memory_mib'' 2048) (\<lambda>mem.
     rbind (enum_arg recording_value RECORDINGS ''SessionRecordingPolicy''
              (lower (strip (py_str (por (pget_or p ''session_recording'' (PStr ''disabled'')) (PStr ''disabled'')))))) (\<lambda>recording.
     rbind (int_arg p ''recording_retention_days'' 30) (\<lambda>days.
     rbind (py_iter (pget_or p ''labels'' (PList []))) (\<lambda>labels.
     rbind (int_or0 (pget_or p ''session_time_limit_minutes'' (PInt 0))) (\<lambda>limit.
     rbind (py_float (por (pget_or p ''session_cost_per_minute'' (PFloat 0)) (PFloat 0))) (\<lambda>cost.
     rbind (entries_of (pget p ''session_extension_options_minutes'')) (\<lambda>options.
     Inr \<lparr>spec_pool_id = stget p ''pool_id'', spec_template_id = sget p ''template_id'', spec_mode = mode,
       spec_min_pool_size = lo, spec_max_pool_size = hi, spec_warm_pool_size = warm, spec_cpu_cores = cpu, spec_memory_mib = mem,
       spec_storage_pool = py_str (por (pget_or p ''storage_pool'' (PStr ''local'')) (PStr ''local'')), spec_gpu_class = stget p ''gpu_class'',
       spec_session_recording = recording, spec_recording_retention_days = days,
       spec_recording_watermark_enabled = truthy (pget_or p ''recording_watermark_enabled'' (PBool False)),
       spec_recording_watermark_custom_text = stget p ''recording_watermark_custom_text'',
       spec_enabled = truthy (pget_or p ''enabled'' (PBool True)), spec_labels = map py_str labels, spec_streaming_profile = profile,
       spec_tenant_id = strip (sor (sget p ''tenant_id'') tenant), spec_pool_type = ptype, spec_session_time_limit_minutes = limit,
       spec_session_cost_per_minute = cost, spec_session_extension_options_minutes = extension_minutes [] (concat (map extension_parts options))\<rparr>))))))))))))))"

definition post_pool :: "pool_http_env \<Rightarrow> requester \<Rightarrow> dict \<Rightarrow> pool_services \<Rightarrow> http_response result \<times> pool_services" where
  "post_pool env r p svc = (case spec_of_payload (rr_tenant r) p of
      Inl e \<Rightarrow> (caught is_value_or_type 400 e, svc)
    | Inr spec \<Rightarrow> pm_answer is_value_or_type (\<lambda>i. ok_response 201 (pool_info_to_dict i)) (create_pool (pe_pm env) spec (ps_pm svc)) svc)"

subsection \<open>Desktops\<close>

definition session_key :: "string \<Rightarrow> int \<Rightarrow> string" where
  "session_key pid vmid = pid @ '':'' @ int_str vmid"

fun node_of_desktop :: "int \<Rightarrow> dict list \<Rightarrow> string result" where
  "node_of_desktop vmid [] = Inr []"
| "node_of_desktop vmid (d # ds) = rbind (int_or0 (pget d ''vmid'')) (\<lambda>i. if i = vmid then Inr (stget d ''node'') else node_of_desktop vmid ds)"

definition node_for_pool_vm :: "string \<Rightarrow> int \<Rightarrow> pm \<Rightarrow> string result" where
  "node_for_pool_vm pid vmid w = (case list_desktops pid w of Inl e \<Rightarrow> Inr [] | Inr ds \<Rightarrow> node_of_desktop vmid ds)"

text \<open>\<open>_pool_recording_policy\<close>.\<close>

definition recording_policy_of :: "string \<Rightarrow> pm \<Rightarrow> recording_policy result" where
  "recording_policy_of pid w = rbind (get_pool (strip pid) w) (\<lambda>i. Inr (case i of None \<Rightarrow> REC_DISABLED | Some info \<Rightarrow> info_session_recording info))"

text \<open>Registering the session of a lease; an exception of the lookup of its node drops it silently.\<close>

definition register_lease :: "pool_http_env \<Rightarrow> string \<Rightarrow> lease \<Rightarrow> string \<Rightarrow> pool_services \<Rightarrow> pool_services" where
  "register_lease env pid l user svc = (case node_for_pool_vm pid (lease_vmid l) (ps_pm svc) of
      Inl e \<Rightarrow> svc
    | Inr node \<Rightarrow> svc\<lparr>ps_sm := snd (register_session (pe_sm env) (session_key pid (lease_vmid l)) pid (lease_vmid l)
        (strip (sor (lease_user_id l) user)) node (ps_sm svc))\<rparr>)"

definition post_allocate :: "pool_http_env \<Rightarrow> requester \<Rightarrow> string \<Rightarrow> dict \<Rightarrow> pool_services \<Rightarrow> http_response result \<times> pool_services" where
  "post_allocate env r pid p svc = (let user = sor (stget p ''user_id'') (rr_identity r) in
     case is_entitled pid user [] (ps_ent svc) of
       Inl e \<Rightarrow> (caught is_value_or_runtime 400 e, svc)
     | Inr False \<Rightarrow> (Inr (error_response 403 ''not entitled to this pool''), svc)
     | Inr True \<Rightarrow> (case allocate_desktop (pe_pm env) pid user (ps_pm svc) of
          (Inl e, w) \<Rightarrow> (caught is_value_or_runtime 400 e, svc\<lparr>ps_pm := w\<rparr>)
        | (Inr l, w) \<Rightarrow> (case recording_policy_of pid w of
             Inl e \<Rightarrow> (Inl e, svc\<lparr>ps_pm := w\<rparr>)
           | Inr policy \<Rightarrow> (Inr (lease_response l), register_lease env pid l user (svc\<lparr>ps_pm := w\<rparr>)))))"

definition end_of_lease :: "pool_http_env \<Rightarrow> string \<Rightarrow> int \<Rightarrow> pool_services \<Rightarrow> pool_services" where
  "end_of_lease env pid vmid svc = svc\<lparr>ps_sm := snd (end_session (pe_sm env) (session_key pid vmid) (ps_sm svc))\<rparr>"

definition post_release :: "pool_http_env \<Rightarrow> requester \<Rightarrow> string \<Rightarrow> dict \<Rightarrow> pool_services \<Rightarrow> http_response result \<times> pool_services" where
  "post_release env r pid p svc = (case int_or0 (pget p ''vmid'') of
      Inl e \<Rightarrow> (caught is_value_or_runtime 400 e, svc)
    | Inr vmid \<Rightarrow> (case release_desktop (pe_pm env) pid vmid (sor (stget p ''user_id'') (rr_identity r)) (ps_pm svc) of
         (Inl e, w) \<Rightarrow> (caught is_value_or_runtime 400 e, svc\<lparr>ps_pm := w\<rparr>)
       | (Inr l, w) \<Rightarrow> let svc' = end_of_lease env pid vmid (svc\<lparr>ps_pm := w\<rparr>) in
            (rbind (recording_policy_of pid w) (\<lambda>policy.
               case (if policy = REC_ALWAYS then pe_stop_recording env (session_key pid vmid) else None) of
                 Some e \<Rightarrow> Inl e | None \<Rightarrow> Inr (lease_response l)), svc')))"

definition post_recycle :: "pool_http_env \<Rightarrow> string \<Rightarrow> dict \<Rightarrow> pool_services \<Rightarrow> http_response result \<times> pool_services" where
  "post_recycle env pid p svc = (case int_or0 (pget p ''vmid'') of
      Inl e \<Rightarrow> (caught is_value_or_runtime 400 e, svc)
    | Inr vmid \<Rightarrow> pm_answer is_value_or_runtime lease_response (recycle_desktop (pe_pm env) pid vmid (ps_pm svc)) svc)"

definition post_scale :: "pool_http_env \<Rightarrow> string \<Rightarrow> dict \<Rightarrow> pool_services \<Rightarrow> http_response result \<times> pool_services" where
  "post_scale env pid p svc = (case int_or0 (pget p ''target_size'') of
      Inl e \<Rightarrow> (caught is_value_or_type 400 e, svc)
    | Inr target \<Rightarrow> pm_answer is_value_or_type (\<lambda>i. ok_response 200 (pool_info_to_dict i)) (scale_pool (pe_pm env) pid target (ps_pm svc)) svc)"

definition post_vm :: "pool_http_env \<Rightarrow> string \<Rightarrow> dict \<Rightarrow> pool_services \<Rightarrow> http_response result \<times> pool_services" where
  "post_vm env pid p svc = (case rbind (int_or0 (pget p ''vmid'')) (\<lambda>v. if v = 0 then Inl (ValueError ''vmid is required'') else Inr v) of
      Inl e \<Rightarrow> (caught is_value_or_type 400 e, svc)
    | Inr vmid \<Rightarrow> pm_answer is_value_or_type (\<lambda>d. ok_response 201 d)
        (register_vm (pe_pm env) pid vmid (Inr (pget p ''scheduler_policy'')) (ps_pm svc)) svc)"

definition post_entitlements :: "string \<Rightarrow> dict \<Rightarrow> pool_services \<Rightarrow> http_response result \<times> pool_services" where
  "post_entitlements pid p svc = (let action = lower (strip (py_str (pget_or p ''action'' (PStr ''set''))));
       (q, f) = (if action = ''add'' then add_entitlement pid (sget p ''user_id'') (sget p ''group_id'') (ps_ent svc)
          else if action = ''remove'' then remove_entitlement pid (sget p ''user_id'') (sget p ''group_id'') (ps_ent svc)
          else set_entitlements pid (pget p ''users'') (pget p ''groups'') (ps_ent svc))
     in (answer is_value_error 400 (\<lambda>e. ok_response 200 (entitlement_fields e)) q, svc\<lparr>ps_ent := f\<rparr>))"

definition post_stream_health :: "pool_http_env \<Rightarrow> dict \<Rightarrow> pool_services \<Rightarrow> http_response result \<times> pool_services" where
  "post_stream_health env p svc = (let pid = stget p ''pool_id''; health = pget p ''stream_health'' in
     case rbind (int_or0 (pget p ''vmid'')) (\<lambda>vmid.
        if pid = [] then Inl (ValueError ''pool_id is required'')
        else if vmid \<le> 0 then Inl (ValueError ''vmid must be > 0'')
        else if health \<noteq> PNone \<and> \<not> is_dict health then Inl (ValueError ''stream_health must be an object'') else Inr vmid) of
       Inl e \<Rightarrow> (caught is_value_or_type 400 e, svc)
     | Inr vmid \<Rightarrow> pm_answer is_value_or_type lease_response (update_stream_health (pe_pm env) pid vmid health (ps_pm svc)) svc)"

subsection \<open>Kiosk sessions\<close>

fun kiosk_target :: "requester \<Rightarrow> pool_services \<Rightarrow> int \<Rightarrow> dict list \<Rightarrow> dict option result" where
  "kiosk_target r svc vmid [] = Inr None"
| "kiosk_target r svc vmid (s # ss) = rbind (int_or0 (pget s ''vmid'')) (\<lambda>i.
     if i \<noteq> vmid then kiosk_target r svc vmid ss
     else rbind (get_pool (stget s ''pool_id'') (ps_pm svc)) (\<lambda>info.
       if (case info of None \<Rightarrow> True | Some x \<Rightarrow> info_pool_type x \<noteq> PT_KIOSK) then kiosk_target r svc vmid ss
       else rbind (can_view_pool r (stget s ''pool_id'') svc) (\<lambda>ok. Inr (if ok then Some s else None))))"

definition with_kiosk_session :: "requester \<Rightarrow> int \<Rightarrow> pool_services \<Rightarrow> (dict \<Rightarrow> http_response result \<times> pool_services)
    \<Rightarrow> http_response result \<times> pool_services" where
  "with_kiosk_session r vmid svc k = (case rbind (list_active_sessions (ps_pm svc)) (kiosk_target r svc vmid) of
      Inl e \<Rightarrow> (Inl e, svc)
    | Inr None \<Rightarrow> (Inr (not_found_response ''kiosk session not found''), svc)
    | Inr (Some s) \<Rightarrow> k s)"

definition post_kiosk_end :: "pool_http_env \<Rightarrow> requester \<Rightarrow> int \<Rightarrow> pool_services \<Rightarrow> http_response result \<times> pool_services" where
  "post_kiosk_end env r vmid svc = with_kiosk_session r vmid svc (\<lambda>s. let pid = stget s ''pool_id'' in
     (case release_desktop (pe_pm env) pid vmid (sor (stget s ''user_id'') (rr_identity r)) (ps_pm svc) of
        (Inl e, w) \<Rightarrow> (caught is_value_or_runtime 400 e, svc\<lparr>ps_pm := w\<rparr>)
      | (Inr l, w) \<Rightarrow> (Inr (lease_response l), end_of_lease env pid vmid (svc\<lparr>ps_pm := w\<rparr>))))"

definition post_kiosk_extend :: "pool_http_env \<Rightarrow> requester \<Rightarrow> int \<Rightarrow> dict \<Rightarrow> pool_services \<Rightarrow> http_response result \<times> pool_services" where
  "post_kiosk_extend env r vmid p svc = (case int_or0 (pget p ''minutes'') of
      Inl e \<Rightarrow> (Inl e, svc)
    | Inr minutes \<Rightarrow> with_kiosk_session r vmid svc (\<lambda>s. let pid = stget s ''pool_id'' in
        (case extend_kiosk_session (pe_pm env) pid vmid minutes (ps_pm svc) of
           (Inl e, w) \<Rightarrow> (caught is_value_or_runtime 400 e, svc\<lparr>ps_pm := w\<rparr>)
         | (Inr l, w) \<Rightarrow> (answer is_value_or_runtime 400
             (\<lambda>t. ok_response 200 (dset ''time_remaining_seconds'' (PFloat t) (lease_to_dict l)))
             (time_remaining_seconds (pe_pm env) pid vmid w), svc\<lparr>ps_pm := w\<rparr>))))"

subsection \<open>Routing\<close>

definition respond :: "http_response result \<times> pool_services \<Rightarrow> http_response option result \<times> pool_services" where
  "respond q = (rbind (fst q) (\<lambda>x. Inr (Some x)), snd q)"

definition pool_route_post :: "pool_http_env \<Rightarrow> requester \<Rightarrow> string \<Rightarrow> dict \<Rightarrow> pool_services \<Rightarrow> http_response option result \<times> pool_services" where
  "pool_route_post env r path p svc = (let pid = pool_of_path path in
     if path = ''/api/v1/sessions/stream-health'' then respond (post_stream_health env p svc)
     else if path = ''/api/v1/pools'' then respond (post_pool env r p svc)
     else if kiosk_path ''/end'' path then respond (post_kiosk_end env r (kiosk_vmid path) svc)
     else if kiosk_path ''/extend'' path then respond (post_kiosk_extend env r (kiosk_vmid path) p svc)
     else if pool_path ''/entitlements'' path then respond (post_entitlements pid p svc)
     else if pool_path ''/vms'' path then respond (post_vm env pid p svc)
     else if pool_path ''/allocate'' path then respond (post_allocate env r pid p svc)
     else if pool_path ''/release'' path then respond (post_release env r pid p svc)
     else if pool_path ''/recycle'' path then respond (post_recycle env pid p svc)
     else if pool_path ''/scale'' path then respond (post_scale env pid p svc)
     else (pe_other_post env path p, svc))"

definition pool_route_put :: "string \<Rightarrow> dict \<Rightarrow> pool_services \<Rightarrow> http_response option result \<times> pool_services" where
  "pool_route_put path p svc = (if pool_path [] path
     then respond (pm_answer is_value_error (\<lambda>i. ok_response 200 (pool_info_to_dict i)) (update_pool (pool_of_path path) p (ps_pm svc)) svc)
     else (Inr None, svc))"

definition pool_route_delete :: "pool_http_env \<Rightarrow> string \<Rightarrow> pool_services \<Rightarrow> http_response option result \<times> pool_services" where
  "pool_route_delete env path svc = (if pool_path [] path
     then (let (deleted, w) = delete_pool (pool_of_path path) (ps_pm svc) in
       respond (Inr (if deleted then ok_response 200 [(''pool_id'', PStr (pool_of_path path)), (''deleted'', PBool True)] else pool_not_found),
         svc\<lparr>ps_pm := w\<rparr>))
     else (pe_other_delete env path, svc))"

subsection \<open>The dispatch\<close>

text \<open>Authentication and the gate, then the route with the requester; no answer of the route is no response.\<close>

definition gated :: "http_env \<Rightarrow> int \<Rightarrow> string \<Rightarrow> http_request \<Rightarrow> auth \<Rightarrow> (http_response + requester) result \<times> auth" where
  "gated env now meth rq s = abind (auth_principal env now rq s) (\<lambda>p s1.
     case p of None \<Rightarrow> (Inr (Inl (error_response 401 ''unauthorized'')), s1)
     | Some pr \<Rightarrow> abind (authorize pr meth (hq_path rq) s1) (\<lambda>ok s2.
         if \<not> ok then (Inr (Inl (forbidden pr meth (hq_path rq))), s2)
         else abind (requester_of rq pr s2) (\<lambda>r s3. (Inr (Inr r), s3))))"

definition serve_pools :: "http_env \<Rightarrow> int \<Rightarrow> string \<Rightarrow> http_request \<Rightarrow> auth \<Rightarrow> pool_services
    \<Rightarrow> (requester \<Rightarrow> http_response option result \<times> pool_services) \<Rightarrow> http_response option result \<times> auth \<times> pool_services" where
  "serve_pools env now meth rq s svc route = (case gated env now meth rq s of
      (Inl e, s') \<Rightarrow> (Inl e, s', svc)
    | (Inr (Inl x), s') \<Rightarrow> (Inr (Some x), s', svc)
    | (Inr (Inr r), s') \<Rightarrow> (case route r of (q, svc') \<Rightarrow> (q, s', svc')))"

definition invalid_body :: "exn \<Rightarrow> http_response" where
  "invalid_body e = error_response 400 (''invalid payload: '' @ exn_message e)"

definition serve_pools_get :: "http_env \<Rightarrow> pool_http_env \<Rightarrow> int \<Rightarrow> http_request \<Rightarrow> auth \<Rightarrow> pool_services
    \<Rightarrow> http_response option result \<times> auth \<times> pool_services" where
  "serve_pools_get he env now rq s svc = serve_pools he now ''GET'' rq s svc (\<lambda>r. (pool_route_get env r (hq_path rq) svc, svc))"

definition serve_pools_post :: "http_env \<Rightarrow> pool_http_env \<Rightarrow> int \<Rightarrow> http_request \<Rightarrow> auth \<Rightarrow> pool_services
    \<Rightarrow> http_response option result \<times> auth \<times> pool_services" where
  "serve_pools_post he env now rq s svc = serve_pools he now ''POST'' rq s svc (\<lambda>r.
     case rbind (has_body rq) (\<lambda>b. if b then read_json_body rq else Inr []) of
       Inl e \<Rightarrow> (Inr (Some (invalid_body e)), svc)
     | Inr p \<Rightarrow> pool_route_post env r (hq_path rq) p svc)"

definition serve_pools_put :: "http_env \<Rightarrow> int \<Rightarrow> http_request \<Rightarrow> auth \<Rightarrow> pool_services
    \<Rightarrow> http_response option result \<times> auth \<times> pool_services" where
  "serve_pools_put he now rq s svc = serve_pools he now ''PUT'' rq s svc (\<lambda>r.
     case read_json_body rq of Inl e \<Rightarrow> (Inr (Some (invalid_body e)), svc) | Inr p \<Rightarrow> pool_route_put (hq_path rq) p svc)"

definition serve_pools_delete :: "http_env \<Rightarrow> pool_http_env \<Rightarrow> int \<Rightarrow> http_request \<Rightarrow> auth \<Rightarrow> pool_services
    \<Rightarrow> http_response option result \<times> auth \<times> pool_services" where
  "serve_pools_delete he env now rq s svc = serve_pools he now ''DELETE'' rq s svc (\<lambda>r. pool_route_delete env (hq_path rq) svc)"

end
