(* ===== verification/PoolHttpProps.thy ===== *)
theory PoolHttpProps
  imports PoolHttp PoolSessionProps AuthHttpProps SessionProps
begin

text \<open>
  Pools through their routes: a desktop is only ever held by a user the entitlements of its pool named, and a
  requester without the right to manage pools is told nothing of pools of other tenants or of pools kept for
  others.
\<close>

subsection \<open>Who holds a desktop\<close>

definition holds :: "string \<Rightarrow> string \<Rightarrow> dict \<Rightarrow> bool" where
  "holds p u vm = (pget vm ''state'' = PStr STATE_IN_USE \<and> pget vm ''pool_id'' = PStr p \<and> pget vm ''user_id'' = PStr u)"

definition holders :: "pm_data \<Rightarrow> (string \<times> string) set" where
  "holders s = {(p, u). \<exists>(k, vm) \<in> set (vms s). holds p u vm}"

lemma set_update: "set (dset k v d) \<subseteq> insert (k, v) (set d)"
  by (induction d) auto

lemma holders_put: "holders (put_vm k vm s) \<subseteq> holders s \<union> {(p, u). holds p u vm}"
  using set_update [of k vm "vms s"] by (fastforce simp: holders_def put_vm_def)

lemma holders_put_free: "(\<And>p u. \<not> holds p u vm) \<Longrightarrow> holders (put_vm k vm s) \<subseteq> holders s"
  using holders_put [of k vm s] by auto

lemma holders_put_same:
  assumes "map_of (vms s) k = Some old" and "\<And>p u. holds p u vm \<Longrightarrow> holds p u old"
  shows "holders (put_vm k vm s) \<subseteq> holders s"
proof -
  have "(k, old) \<in> set (vms s)" using assms(1) by (rule map_of_SomeD)
  then have "{(p, u). holds p u vm} \<subseteq> holders s" using assms(2) by (fastforce simp: holders_def)
  then show ?thesis using holders_put [of k vm s] by blast
qed

lemma holders_vms: "set (vms s') \<subseteq> set (vms s) \<Longrightarrow> holders s' \<subseteq> holders s"
  by (auto simp: holders_def)

lemma holders_simps [simp]:
  "holders (put_pool k cfg s) = holders s" "holders (record_prewarm_event now pid user outcome vmid saved s) = holders s"
  "holders (cleanup_stale_gpu_reservations s) = holders s" "holders (s\<lparr>gpu_reservations := x\<rparr>) = holders s"
  by (simp_all add: holders_def put_pool_def record_prewarm_event_def Let_def cleanup_stale_gpu_reservations_def)

lemma state_simps [simp]:
  "pm_state (advance n w) = pm_state w" "pm_state (commit s w) = s" "pm_state (log_call c w) = pm_state w"
  by (simp_all add: advance_def commit_def log_call_def)

lemma not_held [simp]: "\<not> holds p u (released_vm m vm)" "\<not> holds p u (new_vm vmid pid node st)"
  "\<not> holds p u (dset ''state'' (PStr STATE_ERROR) vm)" "\<not> holds p u (cleared_vm (dset ''state'' (PStr STATE_FREE) vm))"
  by (simp_all add: holds_def released_vm_def cleared_vm_def new_vm_def pget_def)

lemma create_holders: "holders (pm_state (snd (create_pool env spec w))) = holders (pm_state w)"
  by (simp add: create_pool_def Let_def)

lemma update_holders: "holders (pm_state (snd (update_pool pid us w))) = holders (pm_state w)"
  by (simp add: update_pool_def Let_def split: option.splits sum.splits)

lemma delete_holders: "holders (pm_state (snd (delete_pool pid w))) \<subseteq> holders (pm_state w)"
  by (auto simp: delete_pool_def Let_def intro!: holders_vms)

lemma scale_holders: "holders (pm_state (snd (scale_pool env pid n w))) = holders (pm_state w)"
  by (simp add: scale_pool_def Let_def split: option.splits sum.splits)

lemma register_holders: "holders (pm_state (snd (register_vm env pid vmid sched w))) \<subseteq> holders (pm_state w)"
proof -
  have "holders (put_vm k (new_vm vmid pid node st) (cleanup_stale_gpu_reservations (pm_state w))) \<subseteq> holders (pm_state w)" for k node st
    using holders_put_free [of "new_vm vmid pid node st" k "cleanup_stale_gpu_reservations (pm_state w)"] by simp
  then show ?thesis by (simp add: register_vm_def Let_def split: option.splits sum.splits prod.splits)
qed

lemma recycle_holders: "holders (pm_state (snd (recycle_desktop env pid vmid w))) \<subseteq> holders (pm_state w)"
  by (auto simp: recycle_desktop_def Let_def split: option.splits intro!: holders_put_free)

lemma release_holders: "holders (pm_state (snd (release_desktop env pid vmid u w))) \<subseteq> holders (pm_state w)"
proof (cases "vm_in_pool pid (int_str vmid) (pm_state w)")
  case None
  then show ?thesis by (simp add: release_desktop_def Let_def)
next
  case (Some vm)
  have r: "holders (put_vm (int_str vmid) (released_vm m vm) (pm_state w)) \<subseteq> holders (pm_state w)" for m by (rule holders_put_free) simp
  then show ?thesis using Some subset_trans [OF recycle_holders] by (simp add: release_desktop_def Let_def)
qed

lemma holds_dset: "k \<notin> {''state'', ''pool_id'', ''user_id''} \<Longrightarrow> holds p u (dset k v vm) = holds p u vm"
  by (auto simp: holds_def)

lemma extend_holders: "holders (pm_state (snd (extend_kiosk_session env pid vmid n w))) \<subseteq> holders (pm_state w)"
proof -
  have extended: "holds p u vm' \<Longrightarrow> holds p u vm" if "extended_vm b n now vm = Inr vm'" for p u b now vm vm'
    using that by (auto simp: extended_vm_def rbind_eq_Inr holds_dset)
  have "holders (put_vm k vm' (pm_state w)) \<subseteq> holders (pm_state w)"
    if "map_of (vms (pm_state w)) k = Some vm" "extended_vm b n now vm = Inr vm'" for k vm b now vm'
    by (rule holders_put_same [OF that(1)]) (use that(2) extended in blast)
  then show ?thesis unfolding extend_kiosk_session_def Let_def by (auto split: option.split sum.split if_split)
qed

lemma health_holders: "holders (pm_state (snd (update_stream_health env pid vmid h w))) \<subseteq> holders (pm_state w)"
proof -
  have "holders (put_vm k (dset ''stream_health'' x vm) (pm_state w)) \<subseteq> holders (pm_state w)"
    if "vm_in_pool pid k (pm_state w) = Some vm" for k vm x
    using vm_in_pool_Some [OF that] by (intro holders_put_same [of _ _ vm]) (auto simp: holds_dset)
  then show ?thesis unfolding update_stream_health_def Let_def by (auto split: option.split sum.split)
qed

lemma expire_holders: "holders (pm_state (snd (expire_overdue_sessions env w))) \<subseteq> holders (pm_state w)"
proof -
  have one: "holders (pm_state (expire_one env item w)) \<subseteq> holders (pm_state w)" for item w
  proof -
    obtain pid vmid u where i: "item = (pid, vmid, u)" by (cases item)
    obtain q w1 where r: "release_desktop env pid vmid u w = (q, w1)" by (cases "release_desktop env pid vmid u w")
    have w1: "holders (pm_state w1) \<subseteq> holders (pm_state w)" using release_holders [of env pid vmid u w] r by simp
    have "holders (put_vm (int_str vmid) (dset ''ended_at'' t (dset ''state'' (PStr ''expired'') vm)) (pm_state w1)) \<subseteq> holders (pm_state w1)" for t vm
      by (rule holders_put_free) (simp add: holds_def)
    then show ?thesis using w1 i r by (auto simp: expire_one_def split: sum.split option.split)
  qed
  then have all: "holders (pm_state (fold (expire_one env) items w)) \<subseteq> holders (pm_state w)" for items w
    by (induction items arbitrary: w) (simp, metis fold_Cons o_apply subset_trans)
  obtain q w1 where s: "scan_overdue env (vals (vms (pm_state w))) w = (q, w1)" by (cases "scan_overdue env (vals (vms (pm_state w))) w")
  then have "pm_state w1 = pm_state w" using scan_state [of env "vals (vms (pm_state w))" w] by simp
  then show ?thesis using all [of _ w1] s by (cases q) (simp_all add: expire_overdue_sessions_def)
qed

lemma begin_holds: "begin_session cfg now vm = Inr vm' \<Longrightarrow> holds p u vm' = holds p u vm"
  by (auto simp: begin_session_def rbind_eq_Inr holds_dset)

lemma allocate_holders: "holders (pm_state (snd (allocate_desktop env pid user w))) \<subseteq> holders (pm_state w) \<union> {(pid, strip user)}"
proof -
  let ?s = "pm_state w" and ?u = "strip user"
  have new: "holders (put_vm k vm' s) \<subseteq> holders s \<union> {(pid, ?u)}" if "\<And>p u. holds p u vm' \<Longrightarrow> p = pid \<and> u = ?u" for k vm' s
    using holders_put [of k vm' s] that by blast
  have again: "holders (pm_state (snd (allocate_again env pid cfg (k, vm) w))) \<subseteq> holders ?s \<union> {(pid, ?u)}"
    if "pget vm ''pool_id'' = PStr pid" "vm_is ?u STATE_FREE vm" for cfg k vm
  proof (cases "begin_session cfg (reading env w 0) (dset ''state'' (PStr STATE_IN_USE) vm)")
    case (Inr vm')
    have "holders (put_vm k vm' ?s) \<subseteq> holders ?s \<union> {(pid, ?u)}" by (rule new) (use begin_holds [OF Inr] that in \<open>auto simp: holds_def vm_is_def\<close>)
    then show ?thesis using Inr by (simp add: allocate_again_def)
  qed (auto simp: allocate_again_def)
  have fresh: "holders (pm_state (snd (allocate_fresh env pid ?u cfg (k, vm) w))) \<subseteq> holders ?s \<union> {(pid, ?u)}"
    if "pget vm ''pool_id'' = PStr pid" for cfg k vm
  proof (cases "rbind (begin_session cfg (reading env w 0) (dset ''user_id'' (PStr ?u) (dset ''state'' (PStr STATE_IN_USE) vm)))
           (\<lambda>vm. rbind (int_or0 (pget vm ''vmid'')) (\<lambda>vmid. Inr (vm, vmid)))")
    case (Inr x)
    obtain vm' i where x: "x = (vm', i)" by (cases x)
    then have b: "begin_session cfg (reading env w 0) (dset ''user_id'' (PStr ?u) (dset ''state'' (PStr STATE_IN_USE) vm)) = Inr vm'"
      using Inr by (auto simp: rbind_eq_Inr)
    have "holders (put_vm k vm' ?s) \<subseteq> holders ?s \<union> {(pid, ?u)}" by (rule new) (use begin_holds [OF b] that in \<open>auto simp: holds_def\<close>)
    then show ?thesis using Inr x by (simp add: allocate_fresh_def Let_def)
  qed (auto simp: allocate_fresh_def)
  have slot: "pget vm ''pool_id'' = PStr pid \<and> P vm" if "List.find (\<lambda>(k, vm). P vm) (pool_vms ?s pid) = Some (k, vm)" for P k vm
  proof -
    from that obtain i where i: "i < length (pool_vms ?s pid)" "(k, vm) = pool_vms ?s pid ! i" "P vm" by (auto simp: find_Some_iff)
    then have "(k, vm) \<in> set (pool_vms ?s pid)" by simp
    then show ?thesis using i(3) by (simp add: pool_vms_def)
  qed
  show ?thesis
    unfolding allocate_desktop_def Let_def
    by (auto simp: allocate_miss_def split: option.split if_split dest!: slot
      dest: subsetD [OF again, rotated 2] subsetD [OF fresh, rotated 1])
qed

subsection \<open>Holders through the routes\<close>

abbreviation held :: "pool_services \<Rightarrow> (string \<times> string) set" where
  "held svc \<equiv> holders (pm_state (ps_pm svc))"

definition entitled_pairs :: "pool_services \<Rightarrow> (string \<times> string) set" where
  "entitled_pairs svc = {(p, u). \<exists>c. get_entitlements p (ps_ent svc) = Inr c \<and> u \<in> set (en_users c)}"

lemma entitled_pair: "is_entitled pid user [] f = Inr True \<Longrightarrow> \<exists>c. get_entitlements pid f = Inr c \<and> strip user \<in> set (en_users c)"
  by (auto simp: is_entitled_def rbind_eq_Inr Let_def)

lemma held_answer [simp]: "held (snd (pm_answer p f q svc)) = holders (pm_state (snd q))"
  by (simp add: pm_answer_def)

lemma respond_snd [simp]: "snd (respond q) = snd q"
  by (simp add: respond_def)

lemma held_end [simp]: "ps_pm (end_of_lease env pid vmid svc) = ps_pm svc" "ps_pm (register_lease env pid l user svc) = ps_pm svc"
  by (simp_all add: end_of_lease_def register_lease_def split: sum.split)

lemma allocate_held: "held (snd (post_allocate env r pid p svc)) \<subseteq> held svc \<union> entitled_pairs svc"
proof (cases "is_entitled pid (sor (stget p ''user_id'') (rr_identity r)) [] (ps_ent svc)")
  case (Inr b)
  let ?u = "sor (stget p ''user_id'') (rr_identity r)"
  show ?thesis
  proof (cases b)
    case True
    then have "{(pid, strip ?u)} \<subseteq> entitled_pairs svc" using entitled_pair Inr by (auto simp: entitled_pairs_def)
    moreover have "held (snd (post_allocate env r pid p svc)) = holders (pm_state (snd (allocate_desktop (pe_pm env) pid ?u (ps_pm svc))))"
      using Inr True by (auto simp: post_allocate_def Let_def split: sum.split prod.split)
    ultimately show ?thesis using allocate_holders [of "pe_pm env" pid ?u "ps_pm svc"] by blast
  next
    case False
    then show ?thesis using Inr by (simp add: post_allocate_def Let_def)
  qed
qed (simp add: post_allocate_def Let_def)

lemma released_held:
  assumes "release_desktop env pid vmid u (ps_pm svc) = (q, w)"
  shows "holders (pm_state w) \<subseteq> held svc"
  using release_holders [of env pid vmid u "ps_pm svc"] assms by simp

lemma release_held: "held (snd (post_release env r pid p svc)) \<subseteq> held svc"
  by (auto simp: post_release_def Let_def split: sum.split prod.split dest: released_held)

lemma kiosk_held:
  assumes "\<And>s. held (snd (k s)) \<subseteq> held svc"
  shows "held (snd (with_kiosk_session r vmid svc k)) \<subseteq> held svc"
  using assms by (simp add: with_kiosk_session_def split: sum.split option.split)

lemma kiosk_end_held: "held (snd (post_kiosk_end env r vmid svc)) \<subseteq> held svc"
  unfolding post_kiosk_end_def by (rule kiosk_held) (auto simp: Let_def split: sum.split prod.split dest: released_held)

lemma extended_held:
  assumes "extend_kiosk_session env pid vmid n (ps_pm svc) = (q, w)"
  shows "holders (pm_state w) \<subseteq> held svc"
  using extend_holders [of env pid vmid n "ps_pm svc"] assms by simp

lemma kiosk_extend_held: "held (snd (post_kiosk_extend env r vmid p svc)) \<subseteq> held svc"
proof (cases "int_or0 (pget p ''minutes'')")
  case (Inr minutes)
  then show ?thesis unfolding post_kiosk_extend_def
    by (simp, intro kiosk_held) (auto simp: Let_def split: sum.split prod.split dest: extended_held)
qed (simp add: post_kiosk_extend_def)

lemma config_held:
  "held (snd (post_pool env r p svc)) \<subseteq> held svc" "held (snd (post_entitlements pid p svc)) \<subseteq> held svc"
  "held (snd (post_vm env pid p svc)) \<subseteq> held svc" "held (snd (post_recycle env pid p svc)) \<subseteq> held svc"
  "held (snd (post_scale env pid p svc)) \<subseteq> held svc" "held (snd (post_stream_health env p svc)) \<subseteq> held svc"
proof -
  show "held (snd (post_pool env r p svc)) \<subseteq> held svc" by (simp add: post_pool_def create_holders split: sum.split)
  show "held (snd (post_entitlements pid p svc)) \<subseteq> held svc" by (simp add: post_entitlements_def Let_def split: prod.split)
  show "held (snd (post_vm env pid p svc)) \<subseteq> held svc" unfolding post_vm_def using register_holders by (auto split: sum.split)
  show "held (snd (post_recycle env pid p svc)) \<subseteq> held svc" using recycle_holders by (auto simp: post_recycle_def split: sum.split)
  show "held (snd (post_scale env pid p svc)) \<subseteq> held svc" by (simp add: post_scale_def scale_holders split: sum.split)
  show "held (snd (post_stream_health env p svc)) \<subseteq> held svc" unfolding post_stream_health_def Let_def using health_holders by (auto split: sum.split)
qed

lemma route_post_held: "held (snd (pool_route_post env r path p svc)) \<subseteq> held svc \<union> entitled_pairs svc"
proof -
  have more: "A \<subseteq> held svc \<Longrightarrow> A \<subseteq> held svc \<union> entitled_pairs svc" for A by blast
  show ?thesis
    unfolding pool_route_post_def Let_def
    by (simp add: allocate_held more [OF release_held] more [OF kiosk_end_held] more [OF kiosk_extend_held] more [OF config_held(1)]
      more [OF config_held(2)] more [OF config_held(3)] more [OF config_held(4)] more [OF config_held(5)] more [OF config_held(6)] split: if_split)
qed

lemma route_put_held: "held (snd (pool_route_put path p svc)) \<subseteq> held svc"
  by (simp add: pool_route_put_def update_holders)

lemma route_delete_held: "held (snd (pool_route_delete env path svc)) \<subseteq> held svc"
proof -
  obtain deleted w where "delete_pool (pool_of_path path) (ps_pm svc) = (deleted, w)" by (cases "delete_pool (pool_of_path path) (ps_pm svc)")
  then show ?thesis using delete_holders [of "pool_of_path path" "ps_pm svc"] by (simp add: pool_route_delete_def)
qed

subsection \<open>Runs\<close>

text \<open>Requests of any client at any time, with the accounts as they then are, and the expiry worker.\<close>

datatype pool_event =
  PoolGet pool_http_env http_env int http_request auth
| PoolPost pool_http_env http_env int http_request auth
| PoolPut pool_http_env http_env int http_request auth
| PoolDelete pool_http_env http_env int http_request auth
| ExpireSessions pm_env

fun pool_step :: "pool_services \<Rightarrow> pool_event \<Rightarrow> pool_services" where
  "pool_step svc (PoolGet env he now rq s) = snd (snd (serve_pools_get he env now rq s svc))"
| "pool_step svc (PoolPost env he now rq s) = snd (snd (serve_pools_post he env now rq s svc))"
| "pool_step svc (PoolPut env he now rq s) = snd (snd (serve_pools_put he now rq s svc))"
| "pool_step svc (PoolDelete env he now rq s) = snd (snd (serve_pools_delete he env now rq s svc))"
| "pool_step svc (ExpireSessions env) = svc\<lparr>ps_pm := snd (expire_overdue_sessions env (ps_pm svc))\<rparr>"

lemma serve_held:
  assumes "\<And>r. held (snd (route r)) \<subseteq> A" and "held svc \<subseteq> A"
  shows "held (snd (snd (serve_pools he now meth rq s svc route))) \<subseteq> A"
proof -
  obtain q s' where g: "gated he now meth rq s = (q, s')" by (cases "gated he now meth rq s")
  consider (raised) e where "q = Inl e" | (refused) x where "q = Inr (Inl x)" | (passed) r where "q = Inr (Inr r)"
    by (metis sum.exhaust)
  then show ?thesis
  proof cases
    case (passed r)
    obtain y svc' where "route r = (y, svc')" by (cases "route r")
    then show ?thesis using assms(1) [of r] g passed by (simp add: serve_pools_def)
  qed (use assms(2) g in \<open>simp_all add: serve_pools_def\<close>)
qed

lemma step_held: "held (pool_step svc ev) \<subseteq> held svc \<union> entitled_pairs svc"
proof (cases ev)
  case (PoolGet env he now rq s)
  show ?thesis unfolding PoolGet pool_step.simps serve_pools_get_def by (rule serve_held) auto
next
  case (PoolPost env he now rq s)
  show ?thesis unfolding PoolPost pool_step.simps serve_pools_post_def
    by (rule serve_held) (use route_post_held in \<open>auto split: sum.split\<close>)
next
  case (PoolPut env he now rq s)
  show ?thesis unfolding PoolPut pool_step.simps serve_pools_put_def
    by (rule serve_held) (use route_put_held in \<open>auto split: sum.split\<close>)
next
  case (PoolDelete env he now rq s)
  show ?thesis unfolding PoolDelete pool_step.simps serve_pools_delete_def
    by (rule serve_held) (use route_delete_held in auto)
next
  case (ExpireSessions env)
  then show ?thesis using expire_holders by auto
qed

text \<open>C21: Whatever clients request through the routes, and however the expiry worker interleaves with them, a user
  who holds a desktop of a pool was named by the entitlements of that pool at an earlier moment of the run.\<close>

theorem desktop_holders_were_entitled:
  assumes start: "held svc = {}" and holder: "(p, u) \<in> held (run pool_step svc evs)"
  shows "\<exists>n < length evs. (p, u) \<in> entitled_pairs (run pool_step svc (take n evs))"
  using holder
proof (induction evs rule: rev_induct)
  case Nil
  then show ?case using start by simp
next
  case (snoc ev evs)
  from snoc.prems have "(p, u) \<in> held (run pool_step svc evs) \<union> entitled_pairs (run pool_step svc evs)"
    using step_held [of "run pool_step svc evs" ev] by (auto simp: run_append)
  then show ?case
  proof
    assume "(p, u) \<in> held (run pool_step svc evs)"
    then obtain n where "n < length evs" "(p, u) \<in> entitled_pairs (run pool_step svc (take n evs))" using snoc.IH by blast
    then show ?thesis by (intro exI [of _ n]) simp
  next
    assume "(p, u) \<in> entitled_pairs (run pool_step svc evs)"
    then show ?thesis by (intro exI [of _ "length evs"]) simp
  qed
qed

text \<open>The holder of the service's own token allocates a desktop for a user the pool names.\<close>

definition demo_services :: pool_services where
  "demo_services = \<lparr>ps_pm = demo_pool FLOATING_NON_PERSISTENT PT_DESKTOP 0,
     ps_ent = store_save (PDict [(''pools'', PDict [(''p'', entitlement_entry \<lparr>en_pool_id = ''p'', en_users = [''ann''], en_groups = []\<rparr>)])]) Missing,
     ps_sm = demo_sm\<rparr>"

definition demo_pool_http :: pool_http_env where
  "demo_pool_http = \<lparr>pe_pm = demo_env ''2024-05-01T10:00:00Z'', pe_sm = demo_sm_env, pe_stop_recording = (\<lambda>s. None),
     pe_other_get = (\<lambda>p. Inr None), pe_other_post = (\<lambda>p d. Inr None), pe_other_delete = (\<lambda>p. Inr None)\<rparr>"

definition demo_pool_events :: "pool_event list" where
  "demo_pool_events = [PoolPost demo_pool_http (demo_http\<lparr>he_api_token := ''key''\<rparr>) 1100 (demo_call ''key'' ''/api/v1/pools/p/allocate'' [(''user_id'', PStr ''ann'')]) demo_tenants]"

theorem desktop_holders_were_entitled_witness:
  "\<exists>n < length demo_pool_events. (''p'', ''ann'') \<in> entitled_pairs (run pool_step demo_services (take n demo_pool_events))"
proof -
  have s: "held demo_services = {}"
    by (auto simp: holders_def demo_services_def demo_pool_def new_vm_def holds_def pget_def)
  have "list_ex (\<lambda>(k, vm). holds ''p'' ''ann'' vm) (vms (pm_state (ps_pm (run pool_step demo_services demo_pool_events))))" by code_simp
  then have "(''p'', ''ann'') \<in> held (run pool_step demo_services demo_pool_events)" by (auto simp: holders_def list_ex_iff)
  from desktop_holders_were_entitled [OF s this] show ?thesis .
qed

subsection \<open>Which pools a requester is told of\<close>

text \<open>The pool has no entitlements or they name the requester; and the requester has no tenant, or the pool is in
  that tenant or in none.\<close>

definition may_see :: "requester \<Rightarrow> string \<Rightarrow> pool_services \<Rightarrow> bool" where
  "may_see r pid svc =
     ((case get_entitlements pid (ps_ent svc) of Inl e \<Rightarrow> False
       | Inr c \<Rightarrow> en_users c = [] \<and> en_groups c = [] \<or> strip (rr_identity r) \<in> set (en_users c))
      \<and> (rr_tenant r = [] \<or> (case get_pool pid (ps_pm svc) of Inr (Some info) \<Rightarrow> info_tenant_id info \<in> {[], rr_tenant r} | _ \<Rightarrow> True)))"

lemma entitled_view_alone:
  "entitled_view pid user [] True f = Inr True \<Longrightarrow>
     (\<exists>c. get_entitlements pid f = Inr c \<and> (en_users c = [] \<and> en_groups c = [] \<or> strip user \<in> set (en_users c)))"
  by (auto simp: entitled_view_def has_explicit_entitlements_def is_entitled_def rbind_eq_Inr Let_def split: if_splits)

lemma can_view_may_see:
  assumes "can_view_pool r pid svc = Inr True" and "\<not> can_bypass_pool_visibility r"
  shows "may_see r pid svc"
  using assms by (auto simp: can_view_pool_def may_see_def rbind_eq_Inr dest!: entitled_view_alone split: if_splits option.splits)

lemma filter_r_sound: "filter_r p xs = Inr ys \<Longrightarrow> \<forall>y \<in> set ys. p y = Inr True"
  by (induction xs arbitrary: ys) (auto simp: rbind_eq_Inr split: if_splits)

lemma seen_pool_200:
  "seen_pool r pid svc k = Inr x \<Longrightarrow> hs_status x = 200 \<Longrightarrow> can_view_pool r pid svc = Inr True"
  by (auto simp: seen_pool_def rbind_eq_Inr pool_not_found_def not_found_response_def error_response_def json_response_def split: if_splits)

text \<open>The routes of one pool, apart from the list of kiosk sessions and the list of pools.\<close>

lemma list_route: "\<not> match_line (lit ''/api/v1/pools/kiosk/sessions'') ''/api/v1/pools''"
  by code_simp

lemma lit_line: "match_line (lit t) path \<Longrightarrow> path = t \<or> path = t @ [CHR 0x0A]"
  by (auto simp: match_line_def full_match_iff matches_lit_iff split: if_splits) (metis append_butlast_last_id)

lemma not_one_pool:
  assumes "match_line (lit ''/api/v1/pools/kiosk/sessions'') path \<or> path = ''/api/v1/pools''" and "tail \<in> {[], ''/vms'', ''/entitlements''}"
  shows "\<not> pool_path tail path"
proof -
  have k: "path \<in> {''/api/v1/pools/kiosk/sessions'', ''/api/v1/pools/kiosk/sessions'' @ [CHR 0x0A], ''/api/v1/pools''}"
    using assms(1) lit_line by blast
  have "list_all (\<lambda>p. list_all (\<lambda>q. \<not> pool_path q p) [[], ''/vms'', ''/entitlements''])
     [''/api/v1/pools/kiosk/sessions'', ''/api/v1/pools/kiosk/sessions'' @ [CHR 0x0A], ''/api/v1/pools'']" by code_simp
  then show ?thesis using k assms(2) by (simp only: list_all_iff list.set) blast
qed

lemma seen_route:
  assumes "pool_route_get env r path svc = Inr (Some x)" and "tail \<in> {[], ''/vms'', ''/entitlements''} \<and> pool_path tail path"
  shows "\<exists>k. seen_pool r (pool_of_path path) svc k = Inr x"
proof -
  from not_one_pool [of path tail] assms(2) have "\<not> match_line (lit ''/api/v1/pools/kiosk/sessions'') path" "path \<noteq> ''/api/v1/pools''" by blast+
  then show ?thesis using assms unfolding pool_route_get_def Let_def by (auto simp: rbind_eq_Inr split: if_splits)
qed

lemma gated_passed:
  assumes "fst (gated he now meth rq s) = Inr (Inr r)"
  shows "fst (serve_pools he now meth rq s svc route) = fst (route r)"
proof -
  obtain s' where "gated he now meth rq s = (Inr (Inr r), s')" using assms by (metis prod.collapse)
  then show ?thesis by (simp add: serve_pools_def split: prod.split)
qed

lemma listed_may_see:
  assumes "get_pools r svc = Inr x" and "\<not> can_bypass_pool_visibility r"
  shows "\<exists>infos. x = ok_response 200 [(''pools'', PList (map (\<lambda>i. PDict (pool_info_to_dict i)) infos))] \<and> (\<forall>i \<in> set infos. may_see r (info_pool_id i) svc)"
proof -
  from assms(1) obtain infos shown where f: "filter_r (\<lambda>i. can_view_pool r (info_pool_id i) svc) infos = Inr shown"
    and x: "x = ok_response 200 [(''pools'', PList (map (\<lambda>i. PDict (pool_info_to_dict i)) shown))]"
    by (auto simp: get_pools_def rbind_eq_Inr)
  show ?thesis by (rule exI [of _ shown]) (use x filter_r_sound [OF f] can_view_may_see assms(2) in blast)
qed

text \<open>C22: A requester without the right to manage pools gets an answer about a pool, its desktops or its
  entitlements only when it may see the pool, and the list of pools has only such pools.\<close>

theorem told_only_visible_pools:
  assumes r: "fst (gated he now ''GET'' rq s) = Inr (Inr r)" and rights: "\<not> can_bypass_pool_visibility r"
    and answer: "fst (serve_pools_get he env now rq s svc) = Inr (Some x)" and ok: "hs_status x = 200"
  shows "(tail \<in> {[], ''/vms'', ''/entitlements''} \<and> pool_path tail (hq_path rq) \<longrightarrow> may_see r (pool_of_path (hq_path rq)) svc)
    \<and> (hq_path rq = ''/api/v1/pools'' \<longrightarrow> (\<exists>infos. x = ok_response 200 [(''pools'', PList (map (\<lambda>i. PDict (pool_info_to_dict i)) infos))]
         \<and> (\<forall>i \<in> set infos. may_see r (info_pool_id i) svc)))"
proof -
  have route: "pool_route_get env r (hq_path rq) svc = Inr (Some x)"
    using answer gated_passed [OF r] by (simp add: serve_pools_get_def)
  show ?thesis
  proof (intro conjI impI)
    assume p: "tail \<in> {[], ''/vms'', ''/entitlements''} \<and> pool_path tail (hq_path rq)"
    then obtain k where "seen_pool r (pool_of_path (hq_path rq)) svc k = Inr x"
      using seen_route [OF route] by blast
    then show "may_see r (pool_of_path (hq_path rq)) svc" by (rule can_view_may_see [OF seen_pool_200 [OF _ ok] rights])
  next
    assume "hq_path rq = ''/api/v1/pools''"
    then have "get_pools r svc = Inr x" using route list_route by (simp add: pool_route_get_def Let_def rbind_eq_Inr)
    then show "\<exists>infos. x = ok_response 200 [(''pools'', PList (map (\<lambda>i. PDict (pool_info_to_dict i)) infos))]
      \<and> (\<forall>i \<in> set infos. may_see r (info_pool_id i) svc)" by (rule listed_may_see [OF _ rights])
  qed
qed

text \<open>A user of tenant acme whose role reads pools, and whom the pool names.\<close>

definition demo_reader :: auth where
  "demo_reader = demo_tenants\<lparr>
     au_users := Some (PDict [(''users'', PList [demo_user ''alice'' ''admin'' [] ''acme''])]),
     au_roles := Some (PDict [(''roles'', PList [PDict [(''name'', PStr ''admin''), (''permissions'', PList [PStr ''pool:read''])]])])\<rparr>"

definition demo_open_services :: pool_services where
  "demo_open_services = demo_services\<lparr>ps_ent := snd (add_entitlement ''p'' ''alice'' [] (ps_ent demo_services))\<rparr>"

theorem told_only_visible_pools_witness:
  "\<exists>r. rr_identity r = ''alice'' \<and> may_see r ''p'' demo_open_services"
proof -
  let ?rq = "demo_call ''a1'' ''/api/v1/pools/p'' []" and ?he = "demo_http"
  have "(case fst (gated ?he 1100 ''GET'' ?rq demo_reader) of Inr (Inr r) \<Rightarrow> rr_identity r = ''alice'' \<and> \<not> can_bypass_pool_visibility r
      | _ \<Rightarrow> False)" by code_simp
  then obtain r where r: "fst (gated ?he 1100 ''GET'' ?rq demo_reader) = Inr (Inr r)" "rr_identity r = ''alice''" "\<not> can_bypass_pool_visibility r"
    by (auto split: sum.splits)
  have "(case fst (serve_pools_get ?he demo_pool_http 1100 ?rq demo_reader demo_open_services) of Inr (Some x) \<Rightarrow> hs_status x = 200 | _ \<Rightarrow> False)"
    by code_simp
  then obtain x where x: "fst (serve_pools_get ?he demo_pool_http 1100 ?rq demo_reader demo_open_services) = Inr (Some x)" "hs_status x = 200"
    by (auto split: sum.splits option.splits)
  have p: "pool_path [] (hq_path ?rq)" "pool_of_path (hq_path ?rq) = ''p''" by code_simp+
  from told_only_visible_pools [OF r(1,3) x, of "[]"] p r(2) show ?thesis by auto
qed

subsection \<open>Gaps\<close>

text \<open>Registering a desktop that is in use empties it for the next user without a call to the provider: nobody
  resets it, and the former user's connection stays.\<close>

lemma registering_empties:
  assumes "register_vm env pid vmid sched w = (Inr d, w')"
  shows "map_of (vms (pm_state w')) (int_str vmid) = Some d" and "pget d ''user_id'' = PNone" and "pm_calls w' = pm_calls w"
proof -
  have c: "pm_calls (commit s (advance n w)) = pm_calls w" for s n by (simp add: commit_def advance_def)
  from assms obtain node st s' n where d: "d = new_vm vmid pid node st" and w': "w' = commit s' (advance n w)"
    and v: "map_of (vms s') (int_str vmid) = Some d"
    by (auto simp: register_vm_def Let_def put_vm_def split: option.splits sum.splits prod.splits if_splits)
  show "map_of (vms (pm_state w')) (int_str vmid) = Some d" using v w' by simp
  show "pget d ''user_id'' = PNone" by (simp add: d new_vm_def pget_def)
  show "pm_calls w' = pm_calls w" by (simp add: w' c)
qed

text \<open>A pool without entitlements is shown to everyone of its tenant, and nobody can be given one of its desktops.\<close>

lemma unrestricted_pool:
  assumes "get_entitlements pid (ps_ent svc) = Inr c" and "en_users c = []" and "en_groups c = []"
  shows "rr_tenant r = [] \<Longrightarrow> can_view_pool r pid svc = Inr True"
    and "post_allocate env r pid p svc = (Inr (error_response 403 ''not entitled to this pool''), svc)"
  using assms by (simp_all add: can_view_pool_def entitled_view_def has_explicit_entitlements_def post_allocate_def is_entitled_def Let_def)

text \<open>Groups never count: a pool kept for groups only is seen and used by no one without the right to manage pools.\<close>

lemma groups_ignored:
  assumes "get_entitlements pid (ps_ent svc) = Inr c" and "en_users c = []" and "en_groups c \<noteq> []"
  shows "can_bypass_pool_visibility r \<or> can_view_pool r pid svc \<noteq> Inr True"
    and "post_allocate env r pid p svc = (Inr (error_response 403 ''not entitled to this pool''), svc)"
  using assms by (auto simp: can_view_pool_def entitled_view_def has_explicit_entitlements_def post_allocate_def is_entitled_def rbind_eq_Inr Let_def split: if_splits)

text \<open>Who may change a pool: the route looks at neither the tenant of the requester nor that of the pool, so what
  it does is the same for every requester the gate lets through.\<close>

lemma tenant_not_asked:
  assumes "fst (gated he now ''PUT'' rq s) = Inr (Inr r)" and "fst (gated he now ''PUT'' rq' s') = Inr (Inr r')"
    and "hq_path rq = hq_path rq'" and "read_json_body rq = read_json_body rq'"
  shows "fst (serve_pools_put he now rq s svc) = fst (serve_pools_put he now rq' s' svc)"
  using assms by (simp add: serve_pools_put_def gated_passed split: sum.split)

end
