(* ===== verification/Secrets.thy ===== *)
theory Secrets
  imports PyTime Regex
begin

text \<open>
  The secret store (\<open>secret_store_service.py\<close>): one file of versions per secret, rotation with a grace period,
  revocation. The files are those the service writes; \<open>JsonStateStore\<close> keeps them whole. Each operation takes
  the reading of the clock it makes. The calls of the audit function, whose exceptions are dropped, are a log.
\<close>

record secret_version =
  sv_version :: int
  sv_value :: string
  sv_created_at :: string
  sv_status :: string
  sv_expires_at :: string
  sv_superseded_at :: string

record secret_meta =
  sx_name :: string
  sx_version :: int
  sx_created_at :: string
  sx_rotated_at :: string
  sx_expires_at :: string
  sx_status :: string
  sx_versions_count :: nat

type_synonym secret_files = "secret_version list table"

record secrets =
  ss_files :: secret_files
  ss_audit :: "(string \<times> string \<times> int) list"

definition DEFAULT_GRACE_PERIOD_SECONDS :: int where
  "DEFAULT_GRACE_PERIOD_SECONDS = 24 * 3600"

subsection \<open>Internals\<close>

definition secret_char :: "char \<Rightarrow> bool" where
  "secret_char c = (is_alnum c \<or> c = CHR ''_'' \<or> c = CHR ''-'')"

definition check_secret_name :: "string \<Rightarrow> unit result" where
  "check_secret_name name = (if full_match (between 1 64 secret_char) name then Inr ()
     else Inl (ValueError (''Invalid secret name '' @ repr_str name @ ''. Use only [a-zA-Z0-9_-], max 64 chars.'')))"

definition version_active :: "secret_version \<Rightarrow> bool" where
  "version_active v = (sv_status v = ''active'')"

definition active_version :: "secret_version list \<Rightarrow> secret_version option" where
  "active_version vs = List.find version_active (rev vs)"

definition latest_version :: "secret_version list \<Rightarrow> secret_version option" where
  "latest_version vs = (if vs = [] then None else Some (last vs))"

text \<open>\<open>_add_seconds\<close>: the local time is kept when the text has another offset than zero.\<close>

definition add_seconds :: "string \<Rightarrow> int \<Rightarrow> string result" where
  "add_seconds stamp n = (let ts = (if ends_with stamp ''Z'' then butlast stamp @ ''+00:00'' else stamp);
       dt = (case fromisoformat ts of Some (local, off) \<Rightarrow> Inr local
             | None \<Rightarrow> (case strptime_utc True stamp of Some t \<Rightarrow> Inr t
                 | None \<Rightarrow> Inl (ValueError (''time data '' @ repr_str stamp @ '' does not match format''))))
     in rbind dt (\<lambda>t. rbind (check_instant (t + n * 1000000)) (\<lambda>u. Inr (strftime_utc u))))"

definition secret_event :: "string \<Rightarrow> string \<Rightarrow> int \<Rightarrow> secrets \<Rightarrow> secrets" where
  "secret_event event name version s = s\<lparr>ss_audit := ss_audit s @ [(event, name, version)]\<rparr>"

definition save_versions :: "string \<Rightarrow> secret_version list \<Rightarrow> secrets \<Rightarrow> secrets" where
  "save_versions name vs s = s\<lparr>ss_files := dset name vs (ss_files s)\<rparr>"

definition secret_not_found :: "string \<Rightarrow> string \<Rightarrow> exn" where
  "secret_not_found name rest = KeyError (''Secret '' @ repr_str name @ rest)"

definition supersede :: "string \<Rightarrow> secret_version \<Rightarrow> secret_version" where
  "supersede now v = v\<lparr>sv_status := ''superseded'', sv_superseded_at := now\<rparr>"

definition fresh_version :: "int \<Rightarrow> string \<Rightarrow> string \<Rightarrow> string \<Rightarrow> secret_version" where
  "fresh_version n value now expires = \<lparr>sv_version = n, sv_value = value, sv_created_at = now, sv_status = ''active'',
     sv_expires_at = expires, sv_superseded_at = []\<rparr>"

subsection \<open>Operations\<close>

definition get_secret :: "string \<Rightarrow> secrets \<Rightarrow> secret_version result \<times> secrets" where
  "get_secret name s = (case check_secret_name name of Inl e \<Rightarrow> (Inl e, s) | Inr u \<Rightarrow>
     (case map_of (ss_files s) name of None \<Rightarrow> (Inl (secret_not_found name '' not found''), s)
      | Some vs \<Rightarrow> (case active_version vs of
           None \<Rightarrow> (case latest_version vs of
               Some l \<Rightarrow> if sv_status l = ''revoked''
                 then (Inl (ValueError (''Secret '' @ repr_str name @ '' v'' @ int_str (sv_version l) @ '' is revoked'')), s)
                 else (Inl (secret_not_found name '' has no active version''), s)
             | None \<Rightarrow> (Inl (secret_not_found name '' has no active version''), s))
         | Some v \<Rightarrow> if sv_status v = ''revoked''
             then (Inl (ValueError (''Secret '' @ repr_str name @ '' v'' @ int_str (sv_version v) @ '' is revoked'')), s)
             else (Inr v, secret_event ''secret_accessed'' name (sv_version v) s))))"

definition set_secret :: "string \<Rightarrow> string \<Rightarrow> string \<Rightarrow> string \<Rightarrow> secrets \<Rightarrow> secret_version result \<times> secrets" where
  "set_secret now name value expires s = (case check_secret_name name of Inl e \<Rightarrow> (Inl e, s) | Inr u \<Rightarrow>
     let vs = (case map_of (ss_files s) name of None \<Rightarrow> [] | Some vs \<Rightarrow> vs);
         old = map (\<lambda>v. if version_active v then supersede now v else v) vs;
         new = fresh_version (int (length old) + 1) value now expires
     in (Inr new, secret_event ''secret_set'' name (sv_version new) (save_versions name (old @ [new]) s)))"

text \<open>Rotation supersedes the last active version only. The generated value is an argument.\<close>

fun supersede_first :: "string \<Rightarrow> secret_version list \<Rightarrow> secret_version list" where
  "supersede_first now [] = []"
| "supersede_first now (v # vs) = (if version_active v then supersede now v # vs else v # supersede_first now vs)"

definition rotate_secret :: "string \<Rightarrow> string \<Rightarrow> string \<Rightarrow> string option \<Rightarrow> secrets \<Rightarrow> secret_version result \<times> secrets" where
  "rotate_secret now random name new_value s = (case check_secret_name name of Inl e \<Rightarrow> (Inl e, s) | Inr u \<Rightarrow>
     (case map_of (ss_files s) name of None \<Rightarrow> (Inl (secret_not_found name '' not found. Use set_secret() first.''), s)
      | Some vs \<Rightarrow>
         let value = (case new_value of None \<Rightarrow> random | Some v \<Rightarrow> v);
             n = (case active_version vs of None \<Rightarrow> 1 | Some c \<Rightarrow> sv_version c + 1);
             new = fresh_version n value now []
         in (Inr new, secret_event ''secret_rotated'' name n (save_versions name (rev (supersede_first now (rev vs)) @ [new]) s))))"

definition revoke_version :: "int \<Rightarrow> secret_version \<Rightarrow> secret_version" where
  "revoke_version n v = (if sv_version v = n then v\<lparr>sv_status := ''revoked''\<rparr> else v)"

definition revoke_secret :: "string \<Rightarrow> int \<Rightarrow> secrets \<Rightarrow> unit result \<times> secrets" where
  "revoke_secret name n s = (case check_secret_name name of Inl e \<Rightarrow> (Inl e, s) | Inr u \<Rightarrow>
     (case map_of (ss_files s) name of None \<Rightarrow> (Inl (secret_not_found name '' not found''), s)
      | Some vs \<Rightarrow> if \<not> list_ex (\<lambda>v. sv_version v = n) vs
          then (Inl (secret_not_found name ('' version '' @ int_str n @ '' not found'')), s)
          else (Inr (), secret_event ''secret_revoked'' name n (save_versions name (map (revoke_version n) vs) s))))"

definition meta_of :: "string \<times> secret_version list \<Rightarrow> secret_meta option" where
  "meta_of f = (case f of (name, vs) \<Rightarrow> map_option (\<lambda>a. \<lparr>sx_name = name, sx_version = sv_version a, sx_created_at = sv_created_at a,
       sx_rotated_at = sv_superseded_at a, sx_expires_at = sv_expires_at a, sx_status = sv_status a,
       sx_versions_count = length vs\<rparr>) (active_version vs))"

definition list_secrets :: "secrets \<Rightarrow> secret_meta list" where
  "list_secrets s = List.map_filter meta_of (sort_key (\<lambda>f. fst f @ ''.json'') (ss_files s))"

definition has_secret :: "string \<Rightarrow> secrets \<Rightarrow> bool result" where
  "has_secret name s = rbind (check_secret_name name) (\<lambda>u.
     Inr (case map_of (ss_files s) name of None \<Rightarrow> False | Some vs \<Rightarrow> vs \<noteq> []))"

fun valid_among :: "int \<Rightarrow> string \<Rightarrow> string \<Rightarrow> int option \<Rightarrow> secret_version list \<Rightarrow> bool result" where
  "valid_among grace now value version [] = Inr False"
| "valid_among grace now value version (v # vs) =
     (if sv_status v = ''revoked'' then valid_among grace now value version vs
      else if version \<noteq> None \<and> version \<noteq> Some (sv_version v) then valid_among grace now value version vs
      else if sv_value v \<noteq> value then valid_among grace now value version vs
      else if sv_status v = ''active'' then Inr True
      else if sv_status v = ''superseded'' \<and> sv_superseded_at v \<noteq> []
      then rbind (add_seconds (sv_superseded_at v) grace) (\<lambda>limit.
             if now \<le> limit then Inr True else valid_among grace now value version vs)
      else valid_among grace now value version vs)"

definition is_valid_secret :: "int \<Rightarrow> string \<Rightarrow> string \<Rightarrow> string \<Rightarrow> int option \<Rightarrow> secrets \<Rightarrow> bool result" where
  "is_valid_secret grace now name value version s = rbind (check_secret_name name) (\<lambda>u.
     (case map_of (ss_files s) name of None \<Rightarrow> Inr False | Some vs \<Rightarrow> valid_among grace now value version vs))"

end
