(* ===== verification/ClockOrder.thy ===== *)
theory ClockOrder
  imports PyTime
begin

text \<open>
  Services compare times as texts. For clock texts of the format \<open>%Y-%m-%dT%H:%M:%SZ\<close> with a year of four
  digits the order of the texts is the order of the times.
\<close>

lemma place_le:
  fixes n n' :: int and a b k :: nat
  assumes "a < k" "b < k"
  shows "n * int k + int a \<le> n' * int k + int b \<longleftrightarrow> n < n' \<or> n = n' \<and> a \<le> b"
    and "n * int k + int a < n' * int k + int b \<longleftrightarrow> n < n' \<or> n = n' \<and> a < b"
    and "n * int k + int a = n' * int k + int b \<longleftrightarrow> n = n' \<and> a = b"
proof -
  have lt: "x * int k + int i < y * int k + int j" if "x < y" "i < k" for x y :: int and i j :: nat
  proof -
    have "(x + 1) * int k \<le> y * int k" using that(1) by (intro mult_right_mono) auto
    then show ?thesis using that(2) by (simp add: distrib_right)
  qed
  from lt [of n n' a b] lt [of n' n b a] assms
  show "n * int k + int a \<le> n' * int k + int b \<longleftrightarrow> n < n' \<or> n = n' \<and> a \<le> b"
    and "n * int k + int a < n' * int k + int b \<longleftrightarrow> n < n' \<or> n = n' \<and> a < b"
    and "n * int k + int a = n' * int k + int b \<longleftrightarrow> n = n' \<and> a = b"
    by (cases n n' rule: linorder_cases; simp)+
qed

lemma digits_order:
  fixes m n k :: nat
  assumes "0 < k"
  shows "m < n \<longleftrightarrow> m div k < n div k \<or> m div k = n div k \<and> m mod k < n mod k"
    and "m = n \<longleftrightarrow> m div k = n div k \<and> m mod k = n mod k"
proof -
  have e: "int m = int (m div k) * int k + int (m mod k)" "int n = int (n div k) * int k + int (n mod k)"
    by (simp_all flip: of_nat_mult of_nat_add)
  note p = place_le [of "m mod k" k "n mod k" "int (m div k)" "int (n div k)", folded e] 
  show "m < n \<longleftrightarrow> m div k < n div k \<or> m div k = n div k \<and> m mod k < n mod k"
    and "m = n \<longleftrightarrow> m div k = n div k \<and> m mod k = n mod k"
    using p(2,3) assms by simp_all
qed

lemma digit_char_less: "i < 10 \<Longrightarrow> j < 10 \<Longrightarrow> digit_char i < digit_char j \<longleftrightarrow> i < j"
  by (simp add: less_char_def of_digit_char)

lemma digit_char_eq: "i < 10 \<Longrightarrow> j < 10 \<Longrightarrow> digit_char i = digit_char j \<longleftrightarrow> i = j"
  by (metis of_digit_char add_left_cancel)

lemma pad2_append_le: "m < 100 \<Longrightarrow> n < 100 \<Longrightarrow> pad2 m @ r \<le> pad2 n @ s \<longleftrightarrow> m < n \<or> m = n \<and> r \<le> s"
proof -
  assume a: "m < 100" "n < 100"
  then have d: "m div 10 < 10" "n div 10 < 10" by auto
  note less = digits_order(1) [of 10 m n, simplified] and eq = digits_order(2) [of 10 m n, simplified]
  show ?thesis unfolding less eq using d by (auto simp: pad2_def digit_char_less digit_char_eq)
qed

lemma same_char_le [simp]: "(c # r \<le> c # s) = (r \<le> (s :: string))"
  by simp

lemma year_pads: "1000 \<le> y \<Longrightarrow> y \<le> 9999 \<Longrightarrow> nat_str y = pad2 (y div 100) @ pad2 (y mod 100)"
proof -
  assume a: "1000 \<le> y" "y \<le> 9999"
  have "nat_str y = nat_str (y div 10 div 10 div 10) @ [digit_char (y div 10 div 10 mod 10), digit_char (y div 10 mod 10), digit_char (y mod 10)]"
  proof -
    have "\<not> y < 10" "\<not> y div 10 < 10" "\<not> y div 10 div 10 < 10" using a by auto
    then show ?thesis using nat_str.simps [of y] nat_str.simps [of "y div 10"] nat_str.simps [of "y div 10 div 10"] by simp
  qed
  moreover have "nat_str (y div 10 div 10 div 10) = [digit_char (y div 10 div 10 div 10)]"
    using a nat_str.simps [of "y div 10 div 10 div 10"] by simp
  moreover have "y mod 100 div 10 = y div 10 mod 10" "y mod 100 mod 10 = y mod 10" using mod_mult2_eq [of y 10 10] by simp_all
  ultimately show ?thesis by (simp add: pad2_def flip: div_mult2_eq)
qed

lemma year_append_le:
  assumes "1000 \<le> y" "y \<le> 9999" "1000 \<le> z" "z \<le> 9999"
  shows "nat_str y @ r \<le> nat_str z @ s \<longleftrightarrow> y < z \<or> y = z \<and> r \<le> s"
proof -
  have d: "y div 100 < 100" "z div 100 < 100" using assms by auto
  have m: "y mod 100 < 100" "z mod 100 < 100" by simp_all
  note less = digits_order(1) [of 100 y z, simplified] and eq = digits_order(2) [of 100 y z, simplified]
  show ?thesis unfolding less eq year_pads [OF assms(1,2)] year_pads [OF assms(3,4)] append_assoc
    by (simp add: pad2_append_le [OF d] pad2_append_le [OF m]) blast
qed

subsection \<open>The calendar is ordered\<close>

lemma before_month:
  assumes "1 \<le> m" "m < n" "n \<le> 12"
  shows "days_before_month y m + month_days y ! (m - 1) \<le> days_before_month y n"
proof -
  have "m - 1 < length (month_days y)" using assms by (simp add: month_days_def)
  then have "take (Suc (m - 1)) (month_days y) = take (m - 1) (month_days y) @ [month_days y ! (m - 1)]" by (rule take_Suc_conv_app_nth)
  then have m: "days_before_month y m + month_days y ! (m - 1) = sum_list (take m (month_days y))"
    using assms(1) by (simp add: days_before_month_def)
  have t: "take (n - 1) (month_days y) = take m (month_days y) @ take (n - 1 - m) (drop m (month_days y))"
    using take_add [of m "n - 1 - m" "month_days y"] assms by simp
  show ?thesis unfolding m by (simp only: days_before_month_def t sum_list.append)
qed

lemma in_year: "valid_date y m d \<Longrightarrow> days_before_month y m + (d - 1) < year_days y"
proof -
  assume v: "valid_date y m d"
  then have "m - 1 < length (month_days y)" by (auto simp: valid_date_def month_days_def)
  then have "month_days y = take (m - 1) (month_days y) @ month_days y ! (m - 1) # drop (Suc (m - 1)) (month_days y)" by (rule id_take_nth_drop)
  then have "year_days y = sum_list (take (m - 1) (month_days y)) + month_days y ! (m - 1) + sum_list (drop (Suc (m - 1)) (month_days y))"
    by (metis sum_month_days sum_list.append sum_list.Cons add.assoc)
  then show ?thesis using v by (auto simp: valid_date_def days_before_month_def)
qed

lemma days_less:
  assumes v: "valid_date y m d" and w: "valid_date y' m' d'"
    and less: "y < y' \<or> y = y' \<and> (m < m' \<or> m = m' \<and> d < d')"
  shows "ymd_to_days y m d < ymd_to_days y' m' d'"
  using less
proof (elim disjE conjE)
  assume l: "y < y'"
  have y: "1 \<le> y" using v by (simp add: valid_date_def)
  have "ymd_to_days y m d < days_before_year (Suc y)" using in_year [OF v] days_before_year_Suc [OF y] by (simp add: ymd_to_days_def)
  also have "days_before_year (Suc y) \<le> days_before_year y'" using l by (intro days_before_year_mono) auto
  finally show ?thesis by (simp add: ymd_to_days_def)
next
  assume "y = y'" "m < m'"
  then show ?thesis using before_month [of m m' y] v w by (auto simp: valid_date_def ymd_to_days_def)
next
  assume "y = y'" "m = m'" "d < d'"
  then show ?thesis using v w by (auto simp: valid_date_def ymd_to_days_def)
qed

lemma days_eq_iff:
  assumes "valid_date y m d" and "valid_date y' m' d'"
  shows "ymd_to_days y m d = ymd_to_days y' m' d' \<longleftrightarrow> y = y' \<and> m = m' \<and> d = d'"
  using days_less [OF assms] days_less [OF assms(2,1)] by (metis less_irrefl linorder_neqE_nat)

lemma days_less_iff:
  assumes "valid_date y m d" and "valid_date y' m' d'"
  shows "ymd_to_days y m d < ymd_to_days y' m' d' \<longleftrightarrow> y < y' \<or> y = y' \<and> (m < m' \<or> m = m' \<and> d < d')"
  using days_less [OF assms] days_less [OF assms(2,1)] by (metis less_asym linorder_neqE_nat)

lemma clock_le:
  fixes h h' :: nat
  assumes "h < 24" "mi < 60" "s < 60" "h' < 24" "mi' < 60" "s' < 60"
  shows "((n * 24 + int h) * 60 + int mi) * 60 + int s \<le> ((n' * 24 + int h') * 60 + int mi') * 60 + int s'
    \<longleftrightarrow> n < n' \<or> n = n' \<and> (h < h' \<or> h = h' \<and> (mi < mi' \<or> mi = mi' \<and> s \<le> s'))"
  unfolding place_le(1) [of s 60 s', simplified, OF assms(3,6)] place_le(2,3) [of mi 60 mi', simplified, OF assms(2,5)]
    place_le(2,3) [of h 24 h', simplified, OF assms(1,4)] by blast

text \<open>The order of the texts.\<close>

definition clock_time :: "instant \<Rightarrow> bool" where
  "clock_time t = (ymdhms 1000 1 1 0 0 0 0 \<le> t \<and> t < MAX_INSTANT \<and> t mod 1000000 = 0)"

lemma clock_time_ok: "clock_time t \<Longrightarrow> 0 \<le> t \<and> instant_ok t"
proof -
  have "0 \<le> ymdhms 1000 1 1 0 0 0 0" by (simp add: ymdhms_def)
  then show "clock_time t \<Longrightarrow> ?thesis" by (simp add: clock_time_def instant_ok_def)
qed

lemma strftime_le:
  assumes "clock_time t" and "clock_time u"
  shows "strftime_utc t \<le> strftime_utc u \<longleftrightarrow> t \<le> u"
proof -
  have ta: "0 \<le> t" "t < MAX_INSTANT" "ymdhms 1000 1 1 0 0 0 0 \<le> t" "t mod 1000000 = 0"
    using assms(1) clock_time_ok [OF assms(1)] by (simp_all add: clock_time_def)
  have ua: "0 \<le> u" "u < MAX_INSTANT" "ymdhms 1000 1 1 0 0 0 0 \<le> u" "u mod 1000000 = 0"
    using assms(2) clock_time_ok [OF assms(2)] by (simp_all add: clock_time_def)
  obtain y m d hh mm ss where v: "valid_date y m d" "1000 \<le> y" "hh < 24" "mm < 60" "ss < 60"
    and f: "strftime_utc t = nat_str y @ ''-'' @ pad2 m @ ''-'' @ pad2 d @ ''T'' @ pad2 hh @ '':'' @ pad2 mm @ '':'' @ pad2 ss @ ''Z''"
    and i: "ymdhms y m d hh mm ss 0 = t"
    by (rule strftime_form [OF ta(1-3)]) (use ta(4) in simp)
  obtain y' m' d' hh' mm' ss' where v': "valid_date y' m' d'" "1000 \<le> y'" "hh' < 24" "mm' < 60" "ss' < 60"
    and f': "strftime_utc u = nat_str y' @ ''-'' @ pad2 m' @ ''-'' @ pad2 d' @ ''T'' @ pad2 hh' @ '':'' @ pad2 mm' @ '':'' @ pad2 ss' @ ''Z''"
    and i': "ymdhms y' m' d' hh' mm' ss' 0 = u"
    by (rule strftime_form [OF ua(1-3)]) (use ua(4) in simp)
  have b: "m < 100" "d < 100" "y \<le> 9999" using fromisoformat_utc_bounds [OF v(1)] by auto
  have b': "m' < 100" "d' < 100" "y' \<le> 9999" using fromisoformat_utc_bounds [OF v'(1)] by auto
  have c: "hh < 100" "mm < 100" "ss < 100" "hh' < 100" "mm' < 100" "ss' < 100" using v v' by auto
  have texts: "strftime_utc t \<le> strftime_utc u \<longleftrightarrow> y < y' \<or> y = y' \<and> (m < m' \<or> m = m' \<and> (d < d' \<or> d = d' \<and> (hh < hh' \<or> hh = hh' \<and> (mm < mm' \<or> mm = mm' \<and> ss \<le> ss'))))"
    unfolding f f' year_append_le [OF v(2) b(3) v'(2) b'(3)]
    by (simp add: pad2_append_le b b' c) (auto simp: le_less)
  have "t \<le> u \<longleftrightarrow> ((int (ymd_to_days y m d) * 24 + int hh) * 60 + int mm) * 60 + int ss
      \<le> ((int (ymd_to_days y' m' d') * 24 + int hh') * 60 + int mm') * 60 + int ss'"
    unfolding i [symmetric] i' [symmetric] ymdhms_def by (rule iffI; linarith)
  also have "\<dots> \<longleftrightarrow> ymd_to_days y m d < ymd_to_days y' m' d' \<or> ymd_to_days y m d = ymd_to_days y' m' d'
      \<and> (hh < hh' \<or> hh = hh' \<and> (mm < mm' \<or> mm = mm' \<and> ss \<le> ss'))"
    using clock_le [OF v(3-5) v'(3-5), of "int (ymd_to_days y m d)" "int (ymd_to_days y' m' d')"] by simp
  finally show ?thesis unfolding texts days_less_iff [OF v(1) v'(1)] days_eq_iff [OF v(1) v'(1)] by blast
qed

end
