(* ===== verification/SecretsProps.thy ===== *)
theory SecretsProps
  imports Secrets ClockOrder
begin

text \<open>
  The secret store in runs: its invariant, what revocation and rotation do to a value. Times are compared as
  texts; by \<open>ClockOrder\<close> this is the order of the times.
\<close>

subsection \<open>Runs\<close>

datatype secret_op =
  GetSecret string
| SetSecret string string string string
| RotateSecret string string string "string option"
| RevokeSecret string int

fun secret_step :: "secrets \<Rightarrow> secret_op \<Rightarrow> secrets" where
  "secret_step s (GetSecret name) = snd (get_secret name s)"
| "secret_step s (SetSecret now name value expires) = snd (set_secret now name value expires s)"
| "secret_step s (RotateSecret now random name new_value) = snd (rotate_secret now random name new_value s)"
| "secret_step s (RevokeSecret name n) = snd (revoke_secret name n s)"

definition no_secrets :: secrets where
  "no_secrets = \<lparr>ss_files = [], ss_audit = []\<rparr>"

text \<open>The versions an operation writes, if it writes: a transformation of those there are and at most one more.\<close>

lemma files_event [simp]: "ss_files (secret_event e n v s) = ss_files s"
  by (simp add: secret_event_def)

lemma files_save [simp]: "ss_files (save_versions name vs s) = dset name vs (ss_files s)"
  by (simp add: save_versions_def)

lemma get_files [simp]: "ss_files (snd (get_secret name s)) = ss_files s"
  by (simp add: get_secret_def split: sum.split option.split)

subsection \<open>The invariant\<close>

text \<open>Of a list of versions: known states, at most one active version, and no active version was superseded.\<close>

definition versions_ok :: "secret_version list \<Rightarrow> bool" where
  "versions_ok vs = (length (filter version_active vs) \<le> 1
     \<and> list_all (\<lambda>v. sv_status v \<in> {''active'', ''superseded'', ''revoked''} \<and> (version_active v \<longrightarrow> sv_superseded_at v = [])) vs)"

definition secrets_ok :: "secrets \<Rightarrow> bool" where
  "secrets_ok s = (wf_dict (ss_files s) \<and> list_all (\<lambda>(k, vs). versions_ok vs) (ss_files s))"

lemma superseded_inactive [simp]: "\<not> version_active (supersede now v)" "sv_status (supersede now v) = ''superseded''"
  "sv_value (supersede now v) = sv_value v" "sv_version (supersede now v) = sv_version v" "sv_superseded_at (supersede now v) = now"
  by (simp_all add: supersede_def version_active_def)

lemma fresh_active [simp]: "version_active (fresh_version n value now e)" "sv_status (fresh_version n value now e) = ''active''"
  "sv_superseded_at (fresh_version n value now e) = []" "sv_value (fresh_version n value now e) = value" "sv_version (fresh_version n value now e) = n"
  by (simp_all add: fresh_version_def version_active_def)

lemma set_versions_ok:
  assumes "versions_ok vs"
  shows "versions_ok (map (\<lambda>v. if version_active v then supersede now v else v) vs @ [fresh_version n value now e])"
proof -
  have "filter version_active (map (\<lambda>v. if version_active v then supersede now v else v) vs) = []" by (auto simp: filter_empty_conv)
  then show ?thesis using assms by (auto simp: versions_ok_def list_all_iff)
qed

text \<open>With one active version, rotation and setting supersede the same.\<close>

lemma supersede_first_all:
  "length (filter version_active vs) \<le> 1 \<Longrightarrow> supersede_first now vs = map (\<lambda>v. if version_active v then supersede now v else v) vs"
proof (induction vs)
  case (Cons v vs)
  then show ?case
    by (cases "version_active v") (auto simp: filter_empty_conv intro!: map_idI [symmetric])
qed simp

lemma rotated_versions:
  "versions_ok vs \<Longrightarrow> rev (supersede_first now (rev vs)) = map (\<lambda>v. if version_active v then supersede now v else v) vs"
  by (subst supersede_first_all) (simp_all add: versions_ok_def rev_map flip: rev_filter)

lemma revoke_versions_ok:
  assumes "versions_ok vs"
  shows "versions_ok (map (revoke_version n) vs)"
proof -
  have "length (filter version_active (map (revoke_version n) vs)) \<le> length (filter version_active vs)"
    by (induction vs) (auto simp: revoke_version_def version_active_def)
  moreover have "list_all (\<lambda>v. sv_status v \<in> {''active'', ''superseded'', ''revoked''} \<and> (version_active v \<longrightarrow> sv_superseded_at v = [])) (map (revoke_version n) vs)"
    using assms by (auto simp: versions_ok_def list_all_iff revoke_version_def version_active_def)
  ultimately show ?thesis using assms by (simp add: versions_ok_def)
qed

lemma ok_file: "secrets_ok s \<Longrightarrow> map_of (ss_files s) name = Some vs \<Longrightarrow> versions_ok vs"
  by (auto simp: secrets_ok_def list_all_iff dest: map_of_SomeD)

lemma ok_save: "secrets_ok s \<Longrightarrow> versions_ok vs \<Longrightarrow> secrets_ok (secret_event e n v (save_versions name vs s))"
proof -
  assume a: "secrets_ok s" "versions_ok vs"
  then show ?thesis using set_dset [of "ss_files s" name vs] by (auto simp: secrets_ok_def list_all_iff)
qed

lemma step_ok: "secrets_ok s \<Longrightarrow> secrets_ok (secret_step s op)"
proof (cases op)
  case (GetSecret name)
  then show "secrets_ok s \<Longrightarrow> ?thesis" by (simp add: secrets_ok_def)
next
  case (SetSecret now name val expires)
  have "versions_ok (case map_of (ss_files s) name of None \<Rightarrow> [] | Some vs \<Rightarrow> vs)" if "secrets_ok s"
    using ok_file [OF that] by (simp add: versions_ok_def split: option.split)
  then show "secrets_ok s \<Longrightarrow> ?thesis"
    using SetSecret ok_save [OF _ set_versions_ok] by (simp add: set_secret_def Let_def split: sum.split)
next
  case (RotateSecret now random name new_value)
  then show "secrets_ok s \<Longrightarrow> ?thesis"
    by (auto simp: rotate_secret_def Let_def rotated_versions ok_file intro!: ok_save set_versions_ok split: sum.split option.split)
next
  case (RevokeSecret name n)
  then show "secrets_ok s \<Longrightarrow> ?thesis"
    by (auto simp: revoke_secret_def ok_file intro!: ok_save revoke_versions_ok split: sum.split option.split)
qed

interpretation sec: machine secret_step secrets_ok
  by unfold_locales (rule step_ok)

text \<open>Every secret of every reachable store has at most one active version, its versions have known states, and
  an active version was never superseded.\<close>

lemma secret_store_invariant: "secrets_ok (run secret_step no_secrets ops)"
  by (rule sec.run_inv) (simp add: secrets_ok_def no_secrets_def wf_dict_def)

subsection \<open>Revocation\<close>

text \<open>A value is dead for a secret when every version with it is revoked.\<close>

definition dead :: "string \<Rightarrow> string \<Rightarrow> secrets \<Rightarrow> bool" where
  "dead name val s = (case map_of (ss_files s) name of None \<Rightarrow> True
     | Some vs \<Rightarrow> list_all (\<lambda>v. sv_value v = val \<longrightarrow> sv_status v = ''revoked'') vs)"

text \<open>The operations that write the value anew.\<close>

fun writes :: "string \<Rightarrow> string \<Rightarrow> secret_op \<Rightarrow> bool" where
  "writes name val (SetSecret now n v e) = (n = name \<and> v = val)"
| "writes name val (RotateSecret now random n new_value) = (n = name \<and> (case new_value of None \<Rightarrow> random | Some v \<Rightarrow> v) = val)"
| "writes name val _ = False"

lemma dead_refused: "dead name val s \<Longrightarrow> check_secret_name name = Inr u \<Longrightarrow> is_valid_secret grace now name val version s = Inr False"
proof -
  have "list_all (\<lambda>v. sv_value v = val \<longrightarrow> sv_status v = ''revoked'') vs \<Longrightarrow> valid_among grace now val version vs = Inr False" for vs
    by (induction vs) auto
  then show "dead name val s \<Longrightarrow> check_secret_name name = Inr u \<Longrightarrow> ?thesis" by (auto simp: dead_def is_valid_secret_def split: option.splits)
qed

lemma dead_save:
  "dead name val (secret_event e n v (save_versions k vs s)) \<longleftrightarrow>
     (if k = name then list_all (\<lambda>v. sv_value v = val \<longrightarrow> sv_status v = ''revoked'') vs else dead name val s)"
  by (simp add: dead_def)

lemma superseded_dead:
  assumes "\<forall>v \<in> set vs. sv_value v = val \<longrightarrow> sv_status v = ''revoked''" and "v \<in> set (supersede_first now vs)" and "sv_value v = val"
  shows "sv_status v = ''revoked''"
  using assms by (induction vs) (auto simp: version_active_def split: if_splits)

lemma step_dead: "dead name val s \<Longrightarrow> \<not> writes name val op \<Longrightarrow> dead name val (secret_step s op)"
proof (cases op)
  case (GetSecret n)
  then show "dead name val s \<Longrightarrow> ?thesis" by (simp add: dead_def)
next
  case (SetSecret now n w expires)
  then show "dead name val s \<Longrightarrow> \<not> writes name val op \<Longrightarrow> ?thesis"
    by (auto simp: set_secret_def Let_def dead_save list_all_iff dead_def version_active_def split: sum.split option.splits if_splits)
next
  case (RotateSecret now random n new_value)
  have "dead name val s \<Longrightarrow> map_of (ss_files s) name = Some vs \<Longrightarrow> v \<in> set (supersede_first now (rev vs)) \<Longrightarrow> sv_value v = val
      \<Longrightarrow> sv_status v = ''revoked''" for vs v
    by (rule superseded_dead [of "rev vs" val v now]) (auto simp: dead_def list_all_iff)
  then show "dead name val s \<Longrightarrow> \<not> writes name val op \<Longrightarrow> ?thesis"
    using RotateSecret by (auto simp: rotate_secret_def Let_def dead_save list_all_iff split: sum.split option.split if_splits)
next
  case (RevokeSecret n k)
  then show "dead name val s \<Longrightarrow> ?thesis"
    by (auto simp: revoke_secret_def dead_save list_all_iff dead_def revoke_version_def split: sum.split option.splits if_splits)
qed

text \<open>C23: After the version of a value is revoked the value is refused at every time, for good, until an operation
  writes the same value again.\<close>

theorem revoked_secret_refused:
  assumes revoked: "revoke_secret name n s = (Inr (), s')"
    and only: "\<And>vs v. map_of (ss_files s) name = Some vs \<Longrightarrow> v \<in> set vs \<Longrightarrow> sv_value v = val \<Longrightarrow> sv_version v = n"
    and quiet: "\<And>op. op \<in> set ops \<Longrightarrow> \<not> writes name val op"
  shows "is_valid_secret grace now name val version (run secret_step s' ops) = Inr False"
proof -
  have ok: "check_secret_name name = Inr ()" using revoked by (auto simp: revoke_secret_def split: sum.splits)
  from revoked obtain vs where vs: "map_of (ss_files s) name = Some vs"
    and s': "s' = secret_event ''secret_revoked'' name n (save_versions name (map (revoke_version n) vs) s)"
    by (auto simp: revoke_secret_def split: sum.splits option.splits if_splits)
  have "sv_status v = ''revoked''" if v: "v \<in> set (map (revoke_version n) vs)" "sv_value v = val" for v
  proof -
    from v(1) obtain w where w: "w \<in> set vs" "v = revoke_version n w" unfolding set_map image_iff by blast
    then have "sv_value w = val" using v(2) by (simp add: revoke_version_def split: if_splits)
    then have "sv_version w = n" by (rule only [OF vs w(1)])
    then show ?thesis using w(2) by (simp add: revoke_version_def)
  qed
  then have "dead name val s'" by (simp only: s' dead_save list_all_iff simp_thms if_True) blast
  then have "dead name val (run secret_step s' ops)" using quiet
    by (induction ops arbitrary: s') (simp_all add: step_dead)
  from dead_refused [OF this ok] show ?thesis .
qed

text \<open>A key that is set, rotated and revoked, and a later rotation to another value.\<close>

definition demo_key_ops :: "secret_op list" where
  "demo_key_ops = [SetSecret ''2024-05-01T10:00:00Z'' ''api'' ''first'' []]"

definition demo_key_later :: "secret_op list" where
  "demo_key_later = [GetSecret ''api'', RotateSecret ''2024-05-01T11:00:00Z'' ''random'' ''api'' None]"

theorem revoked_secret_refused_witness:
  "is_valid_secret 3600 ''2024-05-01T12:00:00Z'' ''api'' ''first'' None
     (run secret_step (snd (revoke_secret ''api'' 1 (run secret_step no_secrets demo_key_ops))) demo_key_later) = Inr False"
proof -
  have r: "revoke_secret ''api'' 1 (run secret_step no_secrets demo_key_ops)
      = (Inr (), snd (revoke_secret ''api'' 1 (run secret_step no_secrets demo_key_ops)))" by code_simp
  have "map_of (ss_files (run secret_step no_secrets demo_key_ops)) ''api'' = Some [fresh_version 1 ''first'' ''2024-05-01T10:00:00Z'' []]" by code_simp
  then have v: "sv_version v = 1"
    if "map_of (ss_files (run secret_step no_secrets demo_key_ops)) ''api'' = Some vs" "v \<in> set vs" for vs v using that by auto
  have "list_all (\<lambda>op. \<not> writes ''api'' ''first'' op) demo_key_later" by code_simp
  then have q: "\<not> writes ''api'' ''first'' op" if "op \<in> set demo_key_later" for op using that by (auto simp: list_all_iff)
  show ?thesis by (rule revoked_secret_refused [OF r _ q]) (rule v)
qed

subsection \<open>Rotation\<close>

lemma add_seconds_strftime:
  assumes t: "clock_time t" and u: "instant_ok (t + n * 1000000)"
  shows "add_seconds (strftime_utc t) n = Inr (strftime_utc (t + n * 1000000))" and "strftime_utc t \<noteq> []"
proof -
  have ta: "0 \<le> t" "t < MAX_INSTANT" "ymdhms 1000 1 1 0 0 0 0 \<le> t" "t mod 1000000 = 0"
    using t clock_time_ok [OF t] by (simp_all add: clock_time_def)
  obtain y m d hh mm ss where v: "valid_date y m d" "1000 \<le> y" "hh < 24" "mm < 60" "ss < 60"
    and f: "strftime_utc t = nat_str y @ ''-'' @ pad2 m @ ''-'' @ pad2 d @ ''T'' @ pad2 hh @ '':'' @ pad2 mm @ '':'' @ pad2 ss @ ''Z''"
    and i: "ymdhms y m d hh mm ss 0 = t"
    by (rule strftime_form [OF ta(1-3)]) (use ta(4) in simp)
  define b where "b = nat_str y @ ''-'' @ pad2 m @ ''-'' @ pad2 d @ ''T'' @ pad2 hh @ '':'' @ pad2 mm @ '':'' @ pad2 ss"
  have s: "strftime_utc t = b @ ''Z''" by (simp add: f b_def)
  have "ends_with (b @ ''Z'') ''Z''" by (simp add: ends_with_iff)
  moreover have "fromisoformat (b @ ''+00:00'') = Some (t, Some 0)" using fromisoformat_utc [OF v] by (simp add: b_def i)
  ultimately show "add_seconds (strftime_utc t) n = Inr (strftime_utc (t + n * 1000000))"
    using u by (simp add: add_seconds_def s check_instant_def butlast_append)
  show "strftime_utc t \<noteq> []" by (simp add: s)
qed

lemma valid_skip: "(\<And>v. v \<in> set vs \<Longrightarrow> sv_value v \<noteq> val) \<Longrightarrow> valid_among grace now val version (vs @ ws) = valid_among grace now val version ws"
  by (induction vs) auto

lemma valid_none: "(\<And>v. v \<in> set vs \<Longrightarrow> sv_value v \<noteq> val) \<Longrightarrow> valid_among grace now val version vs = Inr False"
  using valid_skip [of vs val grace now version "[]"] by simp

text \<open>The versions after the active one was superseded at \<open>t0\<close> and a new one with another value was added.\<close>

lemma superseded_valid:
  assumes vs: "versions_ok vs" "c \<in> set vs" "version_active c"
    and others: "\<And>v. v \<in> set vs \<Longrightarrow> sv_value v = sv_value c \<Longrightarrow> v = c" and new: "val \<noteq> sv_value c"
    and t0: "clock_time t0" and t: "clock_time t" and limit: "clock_time (t0 + grace * 1000000)"
  shows "valid_among grace (strftime_utc t) (sv_value c) None
      (map (\<lambda>v. if version_active v then supersede (strftime_utc t0) v else v) vs @ [fresh_version n val (strftime_utc t0) e])
    = Inr (t \<le> t0 + grace * 1000000)"
proof -
  let ?f = "\<lambda>v. if version_active v then supersede (strftime_utc t0) v else v"
  obtain as bs where split: "vs = as @ c # bs" using vs(2) by (auto dest: split_list)
  then have "c \<notin> set as" "c \<notin> set bs" using vs(1,3) by (auto simp: versions_ok_def filter_empty_conv)
  moreover have vals: "sv_value v \<noteq> sv_value c" if m: "v \<in> set (map ?f ws)" and sub: "set ws \<subseteq> set vs" "c \<notin> set ws" for v ws
  proof -
    obtain w where w: "w \<in> set ws" "v = ?f w" using m unfolding set_map image_iff by blast
    then have "sv_value v = sv_value w" by simp
    then show ?thesis using others [of w] w(1) sub by auto
  qed
  ultimately have as: "sv_value v \<noteq> sv_value c" if "v \<in> set (map ?f as)" for v
    using vals [of v as] that split by auto
  have bs: "sv_value v \<noteq> sv_value c" if "v \<in> set (map ?f bs @ [fresh_version n val (strftime_utc t0) e])" for v
    using vals [of v bs] that new split \<open>c \<notin> set bs\<close> by auto
  have rest: "valid_among grace (strftime_utc t) (sv_value c) None (map ?f bs @ [fresh_version n val (strftime_utc t0) e]) = Inr False"
    by (rule valid_none) (rule bs)
  have u: "instant_ok (t0 + grace * 1000000)" using clock_time_ok [OF limit] by simp
  have "valid_among grace (strftime_utc t) (sv_value c) None (map ?f vs @ [fresh_version n val (strftime_utc t0) e])
      = valid_among grace (strftime_utc t) (sv_value c) None (supersede (strftime_utc t0) c # map ?f bs @ [fresh_version n val (strftime_utc t0) e])"
    using valid_skip [of "map ?f as", OF as] vs(3) by (simp add: split)
  also have "\<dots> = Inr (strftime_utc t \<le> strftime_utc (t0 + grace * 1000000))"
    using add_seconds_strftime [OF t0 u] rest by simp
  finally show ?thesis using strftime_le [OF t limit] by simp
qed

lemma active_in: "active_version vs = Some c \<Longrightarrow> c \<in> set vs \<and> version_active c"
proof -
  assume "active_version vs = Some c"
  then obtain i where i: "i < length (rev vs)" "version_active (rev vs ! i)" "c = rev vs ! i" by (auto simp: active_version_def find_Some_iff)
  then have "c \<in> set (rev vs)" using nth_mem [OF i(1)] by simp
  then show ?thesis using i by simp
qed

text \<open>C24: After a rotation in a reachable store the old value is valid exactly until the grace period is over, and the
  new one is valid.\<close>

theorem rotation_keeps_old_for_grace:
  assumes vs: "map_of (ss_files (run secret_step no_secrets ops)) name = Some vs" and old: "active_version vs = Some c"
    and others: "\<And>v. v \<in> set vs \<Longrightarrow> sv_value v = sv_value c \<Longrightarrow> v = c" and new: "val \<noteq> sv_value c"
    and rotated: "rotate_secret (strftime_utc t0) random name (Some val) (run secret_step no_secrets ops) = (Inr r, s')"
    and t0: "clock_time t0" and t: "clock_time t" and limit: "clock_time (t0 + grace * 1000000)"
  shows "is_valid_secret grace (strftime_utc t) name (sv_value c) None s' = Inr (t \<le> t0 + grace * 1000000)
    \<and> get_secret name s' = (Inr r, secret_event ''secret_accessed'' name (sv_version r) s') \<and> sv_value r = val"
proof -
  let ?vs = "map (\<lambda>v. if version_active v then supersede (strftime_utc t0) v else v) vs"
  have "secrets_ok (run secret_step no_secrets ops)" by (rule sec.run_inv) (simp add: secrets_ok_def no_secrets_def wf_dict_def)
  then have ok: "versions_ok vs" using vs by (rule ok_file)
  have name: "check_secret_name name = Inr ()" using rotated by (auto simp: rotate_secret_def split: sum.splits)
  have r: "r = fresh_version (sv_version c + 1) val (strftime_utc t0) []" and f: "map_of (ss_files s') name = Some (?vs @ [r])"
    using rotated vs old name rotated_versions [OF ok] by (auto simp: rotate_secret_def Let_def)
  note a = active_in [OF old]
  have "is_valid_secret grace (strftime_utc t) name (sv_value c) None s' = Inr (t \<le> t0 + grace * 1000000)"
    using superseded_valid [OF ok conjunct1 [OF a] conjunct2 [OF a] others new t0 t limit] by (simp add: is_valid_secret_def name f r)
  then show ?thesis by (simp add: get_secret_def name f r active_version_def)
qed

text \<open>The old key of the example, half an hour into a grace period of an hour.\<close>

definition demo_rotated_at :: instant where
  "demo_rotated_at = ymdhms 2024 5 1 11 0 0 0"

theorem rotation_keeps_old_for_grace_witness:
  "is_valid_secret 3600 (strftime_utc (demo_rotated_at + 1800000000)) ''api'' ''first'' None
     (snd (rotate_secret (strftime_utc demo_rotated_at) [] ''api'' (Some ''second'') (run secret_step no_secrets demo_key_ops))) = Inr True"
proof -
  let ?s = "run secret_step no_secrets demo_key_ops" and ?c = "fresh_version 1 ''first'' ''2024-05-01T10:00:00Z'' []"
  let ?r = "rotate_secret (strftime_utc demo_rotated_at) [] ''api'' (Some ''second'') ?s"
  have vs: "map_of (ss_files ?s) ''api'' = Some [?c]" by code_simp
  have a: "active_version [?c] = Some ?c" by (simp add: active_version_def)
  have n: "''second'' \<noteq> sv_value ?c" by simp
  have "fst ?r = Inr (fresh_version 2 ''second'' (strftime_utc demo_rotated_at) [])" by code_simp
  then have r: "?r = (Inr (fresh_version 2 ''second'' (strftime_utc demo_rotated_at) []), snd ?r)" by (metis prod.collapse)
  have t: "clock_time demo_rotated_at" "clock_time (demo_rotated_at + 1800000000)" "clock_time (demo_rotated_at + 3600 * 1000000)"
    by code_simp+
  have "v = ?c" if "v \<in> set [?c]" for v using that by simp
  from rotation_keeps_old_for_grace [OF vs a _ n r t(1,2,3)] show ?thesis by simp
qed

subsection \<open>Gaps\<close>

text \<open>Replacing a secret is documented to leave no grace period; it leaves the one rotation leaves.\<close>

lemma set_keeps_grace:
  assumes s: "secrets_ok s" "map_of (ss_files s) name = Some vs" and old: "active_version vs = Some c"
    and others: "\<And>v. v \<in> set vs \<Longrightarrow> sv_value v = sv_value c \<Longrightarrow> v = c" and new: "val \<noteq> sv_value c"
    and set: "set_secret (strftime_utc t0) name val e s = (Inr r, s')"
    and t0: "clock_time t0" and t: "clock_time t" and limit: "clock_time (t0 + grace * 1000000)"
  shows "is_valid_secret grace (strftime_utc t) name (sv_value c) None s' = Inr (t \<le> t0 + grace * 1000000)"
proof -
  have name: "check_secret_name name = Inr ()" using set by (auto simp: set_secret_def split: sum.splits)
  note a = active_in [OF old]
  show ?thesis using superseded_valid [OF ok_file [OF s] conjunct1 [OF a] conjunct2 [OF a] others new t0 t limit] set s(2) name
    by (auto simp: set_secret_def Let_def is_valid_secret_def)
qed

text \<open>A rotation without an active version starts at version one again, whatever versions there are.\<close>

lemma rotation_restarts_numbers:
  assumes "map_of (ss_files s) name = Some vs" and "active_version vs = None" and "rotate_secret now random name new s = (Inr r, s')"
  shows "sv_version r = 1"
  using assms by (auto simp: rotate_secret_def Let_def split: sum.splits)

text \<open>The expiry of a version is stored and never looked at.\<close>

lemma expiry_ignored:
  "valid_among grace now val version (map (\<lambda>v. v\<lparr>sv_expires_at := e\<rparr>) vs) = valid_among grace now val version vs"
  by (induction vs) (auto simp: rbind_def split: sum.splits)

text \<open>The listing reports the time an active version was superseded, which it never was, as its rotation.\<close>

lemma rotation_time_unknown:
  assumes "m \<in> set (list_secrets (run secret_step no_secrets ops))"
  shows "sx_rotated_at m = []"
proof -
  let ?s = "run secret_step no_secrets ops"
  have ok: "secrets_ok ?s" by (rule sec.run_inv) (simp add: secrets_ok_def no_secrets_def wf_dict_def)
  from assms obtain name vs where f: "(name, vs) \<in> set (ss_files ?s)" "meta_of (name, vs) = Some m"
    by (auto simp: list_secrets_def List.map_filter_def)
  then obtain a where a: "active_version vs = Some a" "sx_rotated_at m = sv_superseded_at a" by (auto simp: meta_of_def)
  from f ok have "versions_ok vs" by (auto simp: secrets_ok_def list_all_iff)
  then show ?thesis using a active_in [OF a(1)] by (auto simp: versions_ok_def list_all_iff)
qed

end
