(* ===== verification/Spec2Isabelle.thy ===== *)
theory Spec2Isabelle
  imports JobWorker JobQueueProps AuthzProps Identifiers PoolKioskProps DeviceRestart SessionGeo PairingProps
    AuthGuessing PlacementProps HaWatchdogProps IpamProps PoolHttpProps SecretsProps
begin

text \<open>
  A verification development for the control plane of Beagle OS, the services under
  \<open>src/beagle-host/services\<close> and the types they share under \<open>src/core\<close>.

  The program. The control plane is one Python process. Requests pass an authorization gate and reach
  services, each with its state in a JSON file or in memory: a job queue with its workers, the manager of
  desktop pools, the registry of enrolled thin clients, the manager of desktop sessions, the issuer of
  pairing tokens, the users, roles and login sessions of administrators, the entitlements of pools, the
  failover of nodes and their maintenance, the addresses of networks, a store of secrets. The services call hypervisors and other
  services through callables they are given.

  The model. Dynamically typed values are the datatype \<open>py\<close>, dictionaries are association lists in
  insertion order, an exception is the left summand of \<open>'a result\<close>. A service's state is a record, an
  operation is a function from the arguments and the state to the result and the new state, and what it
  changed before it raised stays changed. Callables, clocks and provider answers are arguments: what is
  proved holds whatever they do, except where a theorem has hypotheses on them (a reset callable that is
  configured, providers that answer truthfully in \<open>PlacementProps\<close>, clock readings in order or before an
  expiry, random tokens and ids that are fresh).

  Concurrency. Each operation is one step from state to state and a run is a sequence of steps. For the state store's
  \<open>update\<close>, the job queue, login sessions and second factors, the two halves of the login guard, the rate limit and
  the marking of used pairing tokens this is what their locks give. The changes of users and roles, the pool manager, the entitlements, the device registry, the session
  manager, the secret store, the watchdog, the maintenance service and the address management read and
  write their state without a lock, although the HTTP server runs its requests in threads: what is proved of
  them is proved of requests handled one after the other. \<open>parallel_allocations_collide\<close> shows two allocations
  that read the same state being given one desktop, \<open>interleaved_lost\<close> (\<open>StateStore\<close>) that the later of two
  overlapping writers erases what the first one wrote.

  Foundations.
  \<^item> \<open>Prelude\<close>: exceptions, dictionaries, stable sorting, runs of a machine. Locales \<open>machine\<close> (every run
    keeps what every step keeps) and \<open>monotone_machine\<close> (no run loses what no step loses).
  \<^item> \<open>PyText\<close>, \<open>PyValue\<close>, \<open>PyTime\<close>, \<open>Regex\<close>, \<open>Json\<close>, \<open>Base64\<close>, \<open>Bytes\<close>, \<open>IpAddress\<close>: the part of Python's built-ins and
    standard library the services use, with the round trips the component proofs need (integers, UTC
    timestamps, JSON values, Base64, Base32, hexadecimal text, splitting and joining). Regular expressions match by derivatives.
    Characters are code points below 256 and floats are exact rationals.
  \<^item> \<open>StateStore\<close> (\<open>core/persistence/json_state_store.py\<close>): the state file and its contract, the locale
    \<open>state_store\<close>, interpreted on the store's own operations.

  Components.
  \<^item> \<open>JobQueue\<close>, \<open>JobQueueProps\<close>, \<open>JobWorker\<close> (\<open>job_queue_service.py\<close>, \<open>job_worker.py\<close>): jobs, their states and
    the queue; the locale \<open>work_queue\<close> is what a worker relies on. Shown: the invariant of every reachable
    queue, the lifecycle of a job, each pending job claimed once and in order, idempotent enqueueing,
    recovery of the jobs and their order from the queue's own file after a restart, exact purging, and that running a job always finishes it.
  \<^item> \<open>Authz\<close>, \<open>AuthzProps\<close> (\<open>authz_policy.py\<close> and the gate in \<open>request_handler_mixin.py\<close>): route rules and
    the decision. Shown: when a role is allowed, that a reader passes no mutating rule, and which
    mutating routes have no rule and are open to every role.
  \<^item> \<open>Identifiers\<close> (\<open>core/validation/identifiers.py\<close>): the validators accept exactly their languages.
  \<^item> \<open>DesktopPool\<close>, \<open>StreamingProfile\<close>, \<open>PoolConfig\<close>, \<open>PoolPlacement\<close>, \<open>PoolSessions\<close> with \<open>PoolInvariant\<close>, \<open>PoolProps\<close>,
    \<open>PoolSessionProps\<close> and \<open>PoolKioskProps\<close> (\<open>pool_manager.py\<close> and the pool types in \<open>core/virtualization\<close>):
    pools, placement with GPU reservations, allocation, release, recycling, kiosk sessions. Shown: the
    invariant of every run, exclusive allocation, reset before reuse (registering a desktop anew and
    deleting the pool excepted) and availability, for time limits that give a date; as lemmas re-login to the same desktop and the effect of extensions and of the expiry scan.
  \<^item> \<open>DeviceRepository\<close>, \<open>DeviceRegistry\<close>, \<open>DeviceInvariant\<close>, \<open>DeviceProps\<close>, \<open>DeviceRestart\<close> (\<open>device_registry.py\<close>,
    \<open>core/repository/device_repository.py\<close>): devices, their groups, locks and wipes, the state file and the
    mirror in SQLite. Shown: the invariant of every run and what a restart keeps; as lemmas which requests are
    rejected and what they leave behind, how long a lock or a wipe lasts, and the round trip of a device.
  \<^item> \<open>SessionManager\<close>, \<open>SessionInvariant\<close>, \<open>SessionProps\<close>, \<open>SessionGeo\<close> (\<open>session_manager.py\<close>): sessions,
    checkpoints, transfers between nodes, the geographic decision. Provider calls are a log in the state.
    Shown: the transfers of a session form a walk to its current node, a transfer moves its session
    exactly when it completed, which checkpoint it restores, and that an applied geographic handover
    ends on the node of the matching site.
  \<^item> \<open>Pairing\<close>, \<open>PairingProps\<close> (\<open>pairing_service.py\<close>): signed one-time tokens, for any hash functions. Shown: an
    issued token is accepted with its payload until it expires and the same text is consumed once before it
    expires; it is consumed again when it expires between the two clock readings of a request
    (\<open>consumed_again_at_expiry\<close>), and so is a copy padded with a blank (\<open>padded_token_replayed\<close>).
  \<^item> \<open>AuthCrypto\<close>, \<open>AuthUsers\<close>, \<open>AuthSession\<close> (\<open>auth_session.py\<close>): password hashes and one-time codes; the documents of
    users and roles; login, refresh, resolution and revocation of tokens, onboarding. \<open>AuthFrame\<close> has what
    each operation leaves alone, \<open>AuthShape\<close> the typed view of the session list and the session limit on
    it, \<open>AuthMachine\<close> the machine over all operations with its invariants, \<open>AuthSurvival\<close> what leaves a session
    alone, \<open>AuthRoles\<close> and \<open>AuthUserKeys\<close> the
    normal form of the roles and the uniqueness of names. Shown in \<open>AuthSessionProps\<close>, \<open>AuthTokenProps\<close> and
    \<open>AuthAccountProps\<close>: every resolved identity was granted by a login of the run and within its limits, what a
    login takes and that its token works while nothing ends the session, that revocation is final, the session limit, unique names, protected roles and what they
    mean at the gate; and that deleting a user ends no session. As lemmas the round trips of credentials, when
    onboarding is closed, that single sessions cannot be revoked and a one-time code can be used again.
  \<^item> \<open>AuthHttp\<close>, \<open>AuthEntry\<close>, \<open>RequestGuard\<close> (\<open>auth_http_surface.py\<close>, \<open>auth_session_http_surface.py\<close>,
    \<open>request_support.py\<close> and the parts of \<open>request_handler_mixin.py\<close> and \<open>control_plane_handler.py\<close> they run
    in): the principal of a request, the routes of users, roles, sessions, login and onboarding, the guard
    of the login and the rate limit. Shown in \<open>AuthHttpProps\<close> and \<open>AuthGuessing\<close>: who can change accounts, that
    an administrator of a tenant changes no account of another tenant, except through the routes of the second factor
    and the deletion of a role, and can nevertheless leave the tenant, how many guesses of a password an
    address has as long as none is right, and how many requests it has in every window.
  \<^item> \<open>Failover\<close>, \<open>FailoverProps\<close>, \<open>PlacementProps\<close> (\<open>ha_manager.py\<close>, \<open>maintenance_service.py\<close>,
    \<open>anti_affinity_scheduler.py\<close>): failing over and draining nodes, and placement by groups. Shown: a failover
    that returns has done for each VM of the failed node what the VM's configuration asks for, on a node that was
    online, a drain that returns likewise and on nodes not in maintenance (VMs whose configuration asks for no
    policy stay where they are), and the members of a group are on different nodes.
  \<^item> \<open>HaWatchdog\<close>, \<open>HaWatchdogProps\<close> (\<open>ha_watchdog.py\<close>): heartbeats and fencing. Shown: a node is fenced only
    after a heartbeat and then a silence of the time allowed, and not twice by evaluations that return.
  \<^item> \<open>Ipam\<close>, \<open>IpamProps\<close> (\<open>ipam_service.py\<close>): zones and leases. Shown: a dynamic address, IPv4 or IPv6, is the first
    of the range that is the text of no lease, or the pool is exhausted, and two VMs share an address only when
    one of them asked for it; \<open>static_text_overlooked\<close> has a static lease whose text the search does not match.
  \<^item> \<open>Entitlements\<close>, \<open>PoolHttp\<close>, \<open>PoolHttpProps\<close> (\<open>entitlement_service.py\<close>, \<open>pools_http_surface.py\<close> and its
    dispatch): the routes of pools join the pool manager, the entitlements, the session manager and the
    authentication. Shown: in every run of requests a user who holds a desktop was named by the pool before,
    and requesters who do not manage pools are told only of pools they may see; as lemmas the gaps found on
    the way (\<open>registering_empties\<close>, \<open>groups_ignored\<close>, \<open>unrestricted_pool\<close>, \<open>tenant_not_asked\<close>).
  \<^item> \<open>Secrets\<close>, \<open>SecretsProps\<close> (\<open>secret_store_service.py\<close>): versions of secrets, rotation and revocation.
    Shown: a revoked value is refused for good, an old value outlives a rotation by exactly the grace period.
    \<open>ClockOrder\<close> shows that the order of clock texts, which the service compares, is the order of times.

  Bounds and fuel. The JSON parser runs on fuel, the length of its text plus one; \<open>json_loads_dumps\<close> shows
  that this is enough for every text \<open>json_dumps\<close> writes. Decimal fractions are printed to seventeen
  digits. All other recursions are structural or have a measure; integers are unbounded as in Python,
  network addresses are words.

  Not modelled. The parsing of HTTP and the route handlers of other services than accounts and pools; of the
  pool routes those of templates, metrics, streams and recordings; sockets and thread creation; the
  wiring in \<open>service_registry.py\<close>; providers and provisioning, which run external tools; file descriptors,
  permissions and locks of the state files; the SQLite repositories of pools and sessions; audit events; SHA-256,
  HMAC, PBKDF2 and the LDAP server, which are arguments. Services with logic of their own that have no theory
  here: \<open>smart_scheduler.py\<close>, \<open>attestation_service.py\<close>, the stream and device policies,
  endpoint enrolment and its action queue, cluster membership, alerts and backup policies.
\<close>

end
